(* ===== verification/Prelude.thy ===== *)
theory Prelude
  imports Main "HOL-Library.Word" "HOL-Library.Multiset"
begin

text \<open>
  Shared vocabulary of the development.

  \<^item> \<open>result\<close> is Rust's \<^verbatim>\<open>Result\<close>; every \<^verbatim>\<open>?\<close> and early return of the source is a
    \<open>case\<close> on it.
  \<^item> Rust's \<^verbatim>\<open>str\<close> is the list of its Unicode scalar values (\<open>rstr\<close>); \<open>str_len\<close> is the UTF-8 byte
    length that \<^verbatim>\<open>str::len\<close> returns. Wire vocabularies that are ASCII constants in the source
    stay HOL strings; \<open>ascii\<close> reads such a constant as an \<open>rstr\<close>.
  \<^item> \<open>uuid\<close> is the 128-bit \<^verbatim>\<open>uuid::Uuid\<close> as two 64-bit halves, ordered as the crate orders
    it (big-endian bytes).
  \<^item> Machine integers keep their width as words; the saturating and checked operations the
    source calls are defined here with their \<open>unat\<close> laws.
  \<^item> A database table is a list of row records; \<open>update_where\<close> and \<open>rows_affected\<close> are
    SQL's \<^verbatim>\<open>update ... where\<close> and its row count.
  \<^item> Three interfaces are locales: a wire codec, a row update that keeps the primary key, and a
    transition system with an inductive invariant.
\<close>

named_theorems wire_simps \<open>unfolding rules of the closed wire vocabularies\<close>
named_theorems table_simps \<open>rewrite rules of the table operations\<close>

section \<open>Results\<close>

datatype ('a, 'e) result = Ok 'a | Err 'e

fun is_ok :: "('a, 'e) result \<Rightarrow> bool" where
  "is_ok (Ok _) = True"
| "is_ok (Err _) = False"

fun map_err :: "('e \<Rightarrow> 'f) \<Rightarrow> ('a, 'e) result \<Rightarrow> ('a, 'f) result" where
  "map_err f (Ok a) = Ok a"
| "map_err f (Err e) = Err (f e)"

fun ok_or :: "'e \<Rightarrow> 'a option \<Rightarrow> ('a, 'e) result" where
  "ok_or e None = Err e"
| "ok_or e (Some a) = Ok a"

text \<open>The \<^verbatim>\<open>?\<close> operator.\<close>

definition bind_result :: "('a, 'e) result \<Rightarrow> ('a \<Rightarrow> ('b, 'e) result) \<Rightarrow> ('b, 'e) result" where
  "bind_result r f = (case r of Err e \<Rightarrow> Err e | Ok a \<Rightarrow> f a)"

lemma map_err_Ok_iff [simp]: "map_err f r = Ok a \<longleftrightarrow> r = Ok a"
  by (cases r) auto

lemma map_err_Err_iff [simp]: "map_err f r = Err e \<longleftrightarrow> (\<exists>e'. r = Err e' \<and> e = f e')"
  by (cases r) auto

lemma bind_result_Ok_iff [simp]: "bind_result r f = Ok b \<longleftrightarrow> (\<exists>a. r = Ok a \<and> f a = Ok b)"
  by (cases r) (auto simp: bind_result_def)

lemma bind_result_Err [simp]: "bind_result (Err e) f = Err e"
  by (simp add: bind_result_def)

lemma bind_result_Ok [simp]: "bind_result (Ok a) f = f a"
  by (simp add: bind_result_def)

lemma ok_or_Ok_iff [simp]: "ok_or e r = Ok a \<longleftrightarrow> r = Some a"
  by (cases r) auto

section \<open>Identifiers and instants\<close>

datatype uuid = Uuid (uuid_hi: "64 word") (uuid_lo: "64 word")

instantiation uuid :: linorder
begin

definition less_eq_uuid :: "uuid \<Rightarrow> uuid \<Rightarrow> bool" where
  "less_eq_uuid a b \<longleftrightarrow> uuid_hi a < uuid_hi b \<or> uuid_hi a = uuid_hi b \<and> uuid_lo a \<le> uuid_lo b"

definition less_uuid :: "uuid \<Rightarrow> uuid \<Rightarrow> bool" where
  "less_uuid a b \<longleftrightarrow> uuid_hi a < uuid_hi b \<or> uuid_hi a = uuid_hi b \<and> uuid_lo a < uuid_lo b"

instance
proof
  fix x y z :: uuid
  show "x < y \<longleftrightarrow> x \<le> y \<and> \<not> y \<le> x"
    by (auto simp: less_eq_uuid_def less_uuid_def)
  show "x \<le> x"
    by (simp add: less_eq_uuid_def)
  show "x \<le> y \<Longrightarrow> y \<le> z \<Longrightarrow> x \<le> z"
    by (auto simp: less_eq_uuid_def)
  show "x \<le> y \<Longrightarrow> y \<le> x \<Longrightarrow> x = y"
    by (cases x; cases y) (auto simp: less_eq_uuid_def)
  show "x \<le> y \<or> y \<le> x"
    by (auto simp: less_eq_uuid_def)
qed

end

text \<open>
  An instant is a count of microseconds since the Unix epoch (the resolution of
  \<^verbatim>\<open>timestamptz\<close>), a duration a count of microseconds.
\<close>

type_synonym instant = int
type_synonym duration = int

definition seconds :: "int \<Rightarrow> duration" where
  "seconds n = n * 1000000"

lemma seconds_mono [simp]: "seconds a \<le> seconds b \<longleftrightarrow> a \<le> b"
  by (simp add: seconds_def)

lemma seconds_strict_mono [simp]: "seconds a < seconds b \<longleftrightarrow> a < b"
  by (simp add: seconds_def)

section \<open>Machine integers\<close>

type_synonym u8 = "8 word"
type_synonym u16 = "16 word"
type_synonym u32 = "32 word"
type_synonym u64 = "64 word"

definition checked_add :: "'a::len word \<Rightarrow> 'a word \<Rightarrow> 'a word option" where
  "checked_add a b = (if uint a + uint b < 2 ^ LENGTH('a) then Some (a + b) else None)"

definition saturating_add :: "'a::len word \<Rightarrow> 'a word \<Rightarrow> 'a word" where
  "saturating_add a b = (if uint a + uint b < 2 ^ LENGTH('a) then a + b else - 1)"

definition saturating_sub :: "'a::len word \<Rightarrow> 'a word \<Rightarrow> 'a word" where
  "saturating_sub a b = (if b \<le> a then a - b else 0)"

definition saturating_mul :: "'a::len word \<Rightarrow> 'a word \<Rightarrow> 'a word" where
  "saturating_mul a b = (if uint a * uint b < 2 ^ LENGTH('a) then a * b else - 1)"

lemma uint_fits_iff:
  "uint a + uint b < 2 ^ n \<longleftrightarrow> unat a + unat b < 2 ^ n"
  "uint a * uint b < 2 ^ n \<longleftrightarrow> unat a * unat b < 2 ^ n"
  for a b :: "'a::len word"
proof -
  have u: "uint a = int (unat a)" "uint b = int (unat b)" by simp_all
  show "uint a + uint b < 2 ^ n \<longleftrightarrow> unat a + unat b < 2 ^ n" "uint a * uint b < 2 ^ n \<longleftrightarrow> unat a * unat b < 2 ^ n"
    unfolding u by (metis of_nat_add of_nat_less_iff of_nat_numeral of_nat_power,
      metis of_nat_mult of_nat_less_iff of_nat_numeral of_nat_power)
qed

lemma checked_add_eq_Some_iff:
  "checked_add a b = Some c \<longleftrightarrow> unat c = unat a + unat b"
  for a b c :: "'a::len word"
proof
  assume "checked_add a b = Some c"
  then show "unat c = unat a + unat b"
    by (auto simp: checked_add_def uint_fits_iff unat_word_ariths split: if_splits)
next
  assume eq: "unat c = unat a + unat b"
  have "unat c < 2 ^ LENGTH('a)" by (rule unsigned_less)
  with eq have "unat (a + b) = unat c" by (simp add: unat_word_ariths)
  then have "a + b = c" by (rule unsigned_word_eqI)
  with eq \<open>unat c < 2 ^ LENGTH('a)\<close> show "checked_add a b = Some c"
    by (simp add: checked_add_def uint_fits_iff)
qed

lemma unat_minus_one_word_eq: "unat (- 1 :: 'a::len word) = 2 ^ LENGTH('a) - 1"
  by (simp add: unsigned_minus_1_eq_mask mask_eq_exp_minus_1)

lemma unat_saturating_add:
  "unat (saturating_add a b) = min (unat a + unat b) (2 ^ LENGTH('a) - 1)"
  for a b :: "'a::len word"
  by (auto simp: saturating_add_def uint_fits_iff unat_word_ariths unat_minus_one_word_eq)

lemma unat_saturating_mul:
  "unat (saturating_mul a b) = min (unat a * unat b) (2 ^ LENGTH('a) - 1)"
  for a b :: "'a::len word"
  by (auto simp: saturating_mul_def uint_fits_iff unat_word_ariths unat_minus_one_word_eq)

lemma unat_saturating_sub: "unat (saturating_sub a b) = unat a - unat b"
  for a b :: "'a::len word"
  by (auto simp: saturating_sub_def unat_sub word_le_nat_alt)

lemma saturating_add_zero [simp]: "saturating_add a 0 = a"
  for a :: "'a::len word"
  by (simp add: saturating_add_def)

lemma saturating_add_one_sub_one:
  fixes a :: "'a::len word"
  assumes "unat a + 1 < 2 ^ LENGTH('a)"
  shows "saturating_sub (saturating_add a 1) 1 = a"
proof -
  have "unat (1 :: 'a word) = 1" by simp
  with assms have "unat (saturating_sub (saturating_add a 1) 1) = unat a"
    by (simp add: unat_saturating_sub unat_saturating_add)
  then show ?thesis by (rule unsigned_word_eqI)
qed

section \<open>Rust strings\<close>

type_synonym rstr = "nat list"

definition ascii :: "string \<Rightarrow> rstr" where
  "ascii s = map of_char s"

lemma ascii_simps [simp]:
  "ascii [] = []"
  "ascii (c # cs) = of_char c # ascii cs"
  "ascii (xs @ ys) = ascii xs @ ascii ys"
  by (simp_all add: ascii_def)

lemma length_ascii [simp]: "length (ascii s) = length s"
  by (simp add: ascii_def)

definition utf8_len :: "nat \<Rightarrow> nat" where
  "utf8_len c = (if c < 128 then 1 else if c < 2048 then 2 else if c < 65536 then 3 else 4)"

definition str_len :: "rstr \<Rightarrow> nat" where
  "str_len s = sum_list (map utf8_len s)"

definition is_ascii_alphabetic :: "nat \<Rightarrow> bool" where
  "is_ascii_alphabetic c \<longleftrightarrow> 65 \<le> c \<and> c \<le> 90 \<or> 97 \<le> c \<and> c \<le> 122"

definition is_ascii_alphanumeric :: "nat \<Rightarrow> bool" where
  "is_ascii_alphanumeric c \<longleftrightarrow> is_ascii_alphabetic c \<or> 48 \<le> c \<and> c \<le> 57"

definition is_ascii_whitespace :: "nat \<Rightarrow> bool" where
  "is_ascii_whitespace c \<longleftrightarrow> c = 32 \<or> c = 9 \<or> c = 10 \<or> c = 12 \<or> c = 13"

text \<open>\<^verbatim>\<open>char::is_control\<close>: general category Cc.\<close>

definition is_control :: "nat \<Rightarrow> bool" where
  "is_control c \<longleftrightarrow> c \<le> 31 \<or> 127 \<le> c \<and> c \<le> 159"

text \<open>\<^verbatim>\<open>char::is_whitespace\<close>: the \<^verbatim>\<open>White_Space\<close> property.\<close>

definition is_whitespace :: "nat \<Rightarrow> bool" where
  "is_whitespace c \<longleftrightarrow> 9 \<le> c \<and> c \<le> 13 \<or> c = 32 \<or> c = 133 \<or> c = 160 \<or> c = 5760
     \<or> 8192 \<le> c \<and> c \<le> 8202 \<or> c = 8232 \<or> c = 8233 \<or> c = 8239 \<or> c = 8287 \<or> c = 12288"

definition to_ascii_lowercase :: "nat \<Rightarrow> nat" where
  "to_ascii_lowercase c = (if 65 \<le> c \<and> c \<le> 90 then c + 32 else c)"

definition eq_ignore_ascii_case :: "rstr \<Rightarrow> rstr \<Rightarrow> bool" where
  "eq_ignore_ascii_case a b \<longleftrightarrow> map to_ascii_lowercase a = map to_ascii_lowercase b"

definition trim :: "rstr \<Rightarrow> rstr" where
  "trim s = rev (dropWhile is_whitespace (rev (dropWhile is_whitespace s)))"

text \<open>\<^verbatim>\<open>str::split_once\<close>: the text before and after the first occurrence of the pattern.\<close>

fun split_once :: "'a list \<Rightarrow> 'a list \<Rightarrow> ('a list \<times> 'a list) option" where
  "split_once pat [] = (if pat = [] then Some ([], []) else None)"
| "split_once pat (c # cs) =
     (if take (length pat) (c # cs) = pat then Some ([], drop (length pat) (c # cs))
      else map_option (apfst (Cons c)) (split_once pat cs))"

text \<open>\<^verbatim>\<open>str::split\<close> on one separator: never empty.\<close>

fun split_on :: "'a \<Rightarrow> 'a list \<Rightarrow> 'a list list" where
  "split_on d [] = [[]]"
| "split_on d (c # cs) =
     (if c = d then [] # split_on d cs
      else (case split_on d cs of [] \<Rightarrow> [[c]] | w # ws \<Rightarrow> (c # w) # ws))"

lemma split_on_not_Nil [simp]: "split_on d s \<noteq> []"
  by (induction s) (auto split: list.splits)

lemma split_on_no_sep: "d \<notin> set s \<Longrightarrow> split_on d s = [s]"
  by (induction s) auto

lemma split_on_append_sep:
  "d \<notin> set a \<Longrightarrow> split_on d (a @ d # b) = a # split_on d b"
  by (induction a) auto

lemma split_on_components_no_sep: "w \<in> set (split_on d s) \<Longrightarrow> d \<notin> set w"
  by (induction s arbitrary: w) (auto split: if_splits list.splits)

lemma set_split_on_subset: "w \<in> set (split_on d s) \<Longrightarrow> set w \<subseteq> set s"
proof (induction s arbitrary: w)
  case Nil
  then show ?case by simp
next
  case (Cons c cs)
  obtain x xs where sp: "split_on d cs = x # xs"
    by (cases "split_on d cs") auto
  show ?case
  proof (cases "c = d")
    case True
    with Cons show ?thesis by fastforce
  next
    case False
    with Cons.prems sp have "w = c # x \<or> w \<in> set xs" by auto
    then show ?thesis using Cons.IH sp by fastforce
  qed
qed

lemma split_once_first:
  assumes "p \<notin> set a"
  shows "split_once (p # pat) (a @ p # pat @ b) = Some (a, b)"
  using assms by (induction a) auto

lemma split_once_Some_append:
  "split_once pat s = Some (a, b) \<Longrightarrow> s = a @ pat @ b"
proof (induction pat s arbitrary: a rule: split_once.induct)
  case (1 pat)
  then show ?case by (auto split: if_splits)
next
  case (2 pat c cs)
  show ?case
  proof (cases "take (length pat) (c # cs) = pat")
    case True
    with 2 have "a = []" "b = drop (length pat) (c # cs)" by auto
    with True show ?thesis by (metis append_Nil append_take_drop_id)
  next
    case False
    with 2 show ?thesis by auto
  qed
qed

lemma trim_id:
  assumes "s \<noteq> []" "\<not> is_whitespace (hd s)" "\<not> is_whitespace (last s)"
  shows "trim s = s"
proof -
  have "dropWhile is_whitespace s = s"
    using assms(1,2) by (cases s) auto
  moreover have "dropWhile is_whitespace (rev s) = rev s"
    using assms(1,3) by (cases "rev s") (auto simp: last_rev hd_rev)
  ultimately show ?thesis by (simp add: trim_def)
qed

lemma set_trim_subset: "set (trim s) \<subseteq> set s"
proof
  fix c
  assume "c \<in> set (trim s)"
  then have "c \<in> set (dropWhile is_whitespace (rev (dropWhile is_whitespace s)))"
    by (simp add: trim_def)
  then have "c \<in> set (dropWhile is_whitespace s)"
    using set_dropWhileD by fastforce
  then show "c \<in> set s" by (rule set_dropWhileD)
qed

section \<open>Tables\<close>

definition update_where :: "('r \<Rightarrow> bool) \<Rightarrow> ('r \<Rightarrow> 'r) \<Rightarrow> 'r list \<Rightarrow> 'r list" where
  "update_where P f t = map (\<lambda>r. if P r then f r else r) t"

definition rows_affected :: "('r \<Rightarrow> bool) \<Rightarrow> 'r list \<Rightarrow> nat" where
  "rows_affected P t = length (filter P t)"

lemma update_where_simps [simp, table_simps]:
  "update_where P f [] = []"
  "update_where P f (r # t) = (if P r then f r else r) # update_where P f t"
  "update_where P f (t @ u) = update_where P f t @ update_where P f u"
  by (simp_all add: update_where_def)

lemma length_update_where [simp, table_simps]: "length (update_where P f t) = length t"
  by (simp add: update_where_def)

lemma set_update_where: "set (update_where P f t) = (\<lambda>r. if P r then f r else r) ` set t"
  by (simp add: update_where_def)

lemma update_where_none: "(\<And>r. r \<in> set t \<Longrightarrow> \<not> P r) \<Longrightarrow> update_where P f t = t"
  by (induction t) auto

lemma map_update_where_same:
  "(\<And>r. P r \<Longrightarrow> g (f r) = g r) \<Longrightarrow> map g (update_where P f t) = map g t"
  by (induction t) auto

lemma filter_update_where_same:
  "(\<And>r. P r \<Longrightarrow> \<not> Q r \<and> \<not> Q (f r)) \<Longrightarrow> filter Q (update_where P f t) = filter Q t"
  by (induction t) auto

lemma find_update_where:
  "(\<And>r. P r \<Longrightarrow> Q (f r) = Q r) \<Longrightarrow>
   find Q (update_where P f t) = map_option (\<lambda>r. if P r then f r else r) (find Q t)"
  by (induction t) auto

lemma find_append: "find Q (t @ u) = (case find Q t of None \<Rightarrow> find Q u | Some r \<Rightarrow> Some r)"
  by (induction t) auto

lemma find_Some_memD: "find Q t = Some r \<Longrightarrow> r \<in> set t \<and> Q r"
  by (induction t) (auto split: if_splits)

lemma find_None_memD: "find Q t = None \<Longrightarrow> r \<in> set t \<Longrightarrow> \<not> Q r"
  by (induction t) (auto split: if_splits)

lemma find_key_unique:
  assumes "distinct (map key t)" "r \<in> set t"
  shows "find (\<lambda>x. key x = key r) t = Some r"
  using assms by (induction t) auto

section \<open>Interfaces\<close>

text \<open>
  A closed wire vocabulary: the pair of functions that store an enum as text and read it back.
\<close>

locale wire_codec =
  fixes wire :: "'a \<Rightarrow> string"
    and parse :: "string \<Rightarrow> 'a option"
  assumes parse_wire: "parse (wire a) = Some a"
    and wire_parse: "parse s = Some a \<Longrightarrow> wire a = s"
begin

lemma wire_inject: "wire a = wire b \<longleftrightarrow> a = b"
  by (metis option.inject parse_wire)

lemma parse_eq_Some_iff: "parse s = Some a \<longleftrightarrow> s = wire a"
  by (metis parse_wire wire_parse)

lemma parse_eq_None_iff: "parse s = None \<longleftrightarrow> (\<forall>a. s \<noteq> wire a)"
  by (metis not_None_eq parse_eq_Some_iff)

end

text \<open>
  A row update that keeps the primary key: what the store promises to every component that
  updates rows in place.
\<close>

locale key_preserving =
  fixes key :: "'r \<Rightarrow> 'k"
    and f :: "'r \<Rightarrow> 'r"
  assumes key_f: "key (f r) = key r"
begin

lemma map_key_update: "map key (update_where P f t) = map key t"
  by (rule map_update_where_same) (rule key_f)

lemma distinct_key_update: "distinct (map key (update_where P f t)) = distinct (map key t)"
  by (simp add: map_key_update)

lemma find_key_update:
  "find (\<lambda>r. key r = k) (update_where P f t) =
     map_option (\<lambda>r. if P r then f r else r) (find (\<lambda>r. key r = k) t)"
  by (rule find_update_where) (simp add: key_f)

lemma find_other_key_update:
  assumes "j \<noteq> k"
  shows "find (\<lambda>r. key r = j) (update_where (\<lambda>r. key r = k \<and> P r) f t) =
    find (\<lambda>r. key r = j) t"
  using assms by (induction t) (auto simp: key_f)

end

text \<open>
  A transition system with an inductive invariant: what holds initially and survives every step
  holds in every reachable state.
\<close>

locale invariant_system =
  fixes init :: "'s \<Rightarrow> bool"
    and step :: "'s \<Rightarrow> 's \<Rightarrow> bool"
    and inv :: "'s \<Rightarrow> bool"
  assumes inv_init: "init s \<Longrightarrow> inv s"
    and inv_step: "inv s \<Longrightarrow> step s t \<Longrightarrow> inv t"
begin

lemma inv_steps: "step\<^sup>*\<^sup>* s t \<Longrightarrow> inv s \<Longrightarrow> inv t"
  by (induction rule: rtranclp_induct) (auto intro: inv_step)

lemma inv_reachable: "init s \<Longrightarrow> step\<^sup>*\<^sup>* s t \<Longrightarrow> inv t"
  by (blast intro: inv_init inv_steps)

end

end
