(* ===== verification/Capability.thy ===== *)
theory Capability
  imports Prelude
begin

text \<open>
  Model of \<^verbatim>\<open>crates/instagram-archive/src/capability.rs\<close>: the closed provenance vocabularies
  (acquisition modes, saved authority, availability observations, upstream status, preservation)
  and the total functions between them. Constructors that several enums of the source share carry
  a prefix (\<open>Obs\<close> for observations, \<open>Up\<close> for upstream status).
\<close>

section \<open>Acquisition modes and authority\<close>

datatype AcquisitionMode = ExplicitCapture | PublicResolution | OwnAccountSync | DataExport | LegacyImport

definition AcquisitionMode_ALL :: "AcquisitionMode list" where
  "AcquisitionMode_ALL = [ExplicitCapture, PublicResolution, OwnAccountSync, DataExport, LegacyImport]"

datatype SupportStatus = Supported | Planned | NotSupported

datatype SavedAuthority =
  AuthoritativePlatformState | ExplicitUserCapture | ExportObservation | LegacyObservation

record ModeCapability =
  mc_mode :: AcquisitionMode
  mc_status :: SupportStatus
  mc_authority_ceiling :: SavedAuthority

fun authority_ceiling_of :: "AcquisitionMode \<Rightarrow> SavedAuthority" where
  "authority_ceiling_of ExplicitCapture = ExplicitUserCapture"
| "authority_ceiling_of PublicResolution = ExplicitUserCapture"
| "authority_ceiling_of OwnAccountSync = AuthoritativePlatformState"
| "authority_ceiling_of DataExport = ExportObservation"
| "authority_ceiling_of LegacyImport = LegacyObservation"

fun support_status_of :: "AcquisitionMode \<Rightarrow> SupportStatus" where
  "support_status_of LegacyImport = Planned"
| "support_status_of _ = Supported"

definition capability :: "AcquisitionMode \<Rightarrow> ModeCapability" where
  "capability m = \<lparr>mc_mode = m, mc_status = support_status_of m,
     mc_authority_ceiling = authority_ceiling_of m\<rparr>"

fun mode_wire_methods :: "AcquisitionMode \<Rightarrow> string list" where
  "mode_wire_methods ExplicitCapture = [''share_extension'', ''browser_extension'']"
| "mode_wire_methods PublicResolution = [''public_resolution'']"
| "mode_wire_methods OwnAccountSync = [''official_api'']"
| "mode_wire_methods DataExport = [''data_export'']"
| "mode_wire_methods LegacyImport = [''legacy_import'']"

definition wire_methods :: "ModeCapability \<Rightarrow> string list" where
  "wire_methods c = mode_wire_methods (mc_mode c)"

text \<open>The stored spelling of an authority, as the \<^verbatim>\<open>saved_authority\<close> columns hold it.\<close>

fun saved_authority_wire :: "SavedAuthority \<Rightarrow> string" where
  "saved_authority_wire AuthoritativePlatformState = ''authoritative_platform_state''"
| "saved_authority_wire ExplicitUserCapture = ''explicit_user_capture''"
| "saved_authority_wire ExportObservation = ''export_observation''"
| "saved_authority_wire LegacyObservation = ''legacy_observation''"

record NativeSavedSupport =
  ns_status :: SupportStatus
  ns_reason :: string

definition NATIVE_SAVED_LIST_SYNC :: NativeSavedSupport where
  "NATIVE_SAVED_LIST_SYNC = \<lparr>ns_status = NotSupported,
     ns_reason = ''no supported provider surface exposes the personal Saved list''\<rparr>"

section \<open>Availability and preservation\<close>

datatype UpstreamStatus = UpAvailable | UpUnavailable | UpDeleted | UpPrivate | UpUnknown

datatype AvailabilityObservationKind =
  ObsAvailable | ObsUnavailable | ObsDeleted | ObsPrivate | ObsTemporarilyUnavailable
| ObsUnsupported | ObsResolutionFailed

definition AvailabilityObservationKind_ALL :: "AvailabilityObservationKind list" where
  "AvailabilityObservationKind_ALL =
     [ObsAvailable, ObsUnavailable, ObsDeleted, ObsPrivate, ObsTemporarilyUnavailable,
      ObsUnsupported, ObsResolutionFailed]"

fun observation_wire :: "AvailabilityObservationKind \<Rightarrow> string" where
  "observation_wire ObsAvailable = ''available''"
| "observation_wire ObsUnavailable = ''unavailable''"
| "observation_wire ObsDeleted = ''deleted''"
| "observation_wire ObsPrivate = ''private''"
| "observation_wire ObsTemporarilyUnavailable = ''temporarily_unavailable''"
| "observation_wire ObsUnsupported = ''unsupported''"
| "observation_wire ObsResolutionFailed = ''resolution_failed''"

fun collapse_to_media_status :: "AvailabilityObservationKind \<Rightarrow> UpstreamStatus" where
  "collapse_to_media_status ObsAvailable = UpAvailable"
| "collapse_to_media_status ObsUnavailable = UpUnavailable"
| "collapse_to_media_status ObsTemporarilyUnavailable = UpUnavailable"
| "collapse_to_media_status ObsPrivate = UpUnavailable"
| "collapse_to_media_status ObsDeleted = UpDeleted"
| "collapse_to_media_status ObsUnsupported = UpUnknown"
| "collapse_to_media_status ObsResolutionFailed = UpUnknown"

datatype PreservationState = ContentPreserved | MetadataOnly | UserArtifactOnly | NothingPreserved

definition PreservationState_ALL :: "PreservationState list" where
  "PreservationState_ALL = [ContentPreserved, MetadataOnly, UserArtifactOnly, NothingPreserved]"

definition retention_after_observation ::
  "PreservationState \<Rightarrow> AvailabilityObservationKind \<Rightarrow> PreservationState" where
  "retention_after_observation current observed = current"

section \<open>Lemmas\<close>

lemma observation_wire_inject [simp, wire_simps]:
  "observation_wire a = observation_wire b \<longleftrightarrow> a = b"
  by (cases a; cases b) simp_all

lemma observation_wire_inventory:
  "k \<in> set AvailabilityObservationKind_ALL" "distinct (map observation_wire AvailabilityObservationKind_ALL)"
  by (cases k; simp add: AvailabilityObservationKind_ALL_def) (simp add: AvailabilityObservationKind_ALL_def)

text \<open>Only a stated deletion collapses to the deleted media status; private never does.\<close>

lemma collapse_deleted_iff [simp]: "collapse_to_media_status k = UpDeleted \<longleftrightarrow> k = ObsDeleted"
  by (cases k) simp_all

lemma collapse_available_iff [simp]: "collapse_to_media_status k = UpAvailable \<longleftrightarrow> k = ObsAvailable"
  by (cases k) simp_all

section \<open>Properties\<close>

text \<open>
  The capability matrix is a partition of the contract's acquisition methods: a wire method is
  produced by exactly one mode when it is one of the six contract tokens and by none otherwise, and
  the official-account lane is the only mode whose authority ceiling is platform state.
\<close>

theorem acquisition_method_belongs_to_one_mode:
  "((\<exists>!m. w \<in> set (wire_methods (capability m))) \<longleftrightarrow>
     w \<in> {''share_extension'', ''browser_extension'', ''public_resolution'', ''official_api'',
           ''data_export'', ''legacy_import''})
   \<and> (mc_authority_ceiling (capability m) = AuthoritativePlatformState \<longleftrightarrow>
     wire_methods (capability m) = [''official_api''])"
proof
  have one: "m = m'" if "w \<in> set (wire_methods (capability m))" "w \<in> set (wire_methods (capability m'))" for m m'
    using that by (cases m; cases m') (auto simp: wire_methods_def capability_def)
  have sound: "w \<in> {''share_extension'', ''browser_extension'', ''public_resolution'', ''official_api'',
      ''data_export'', ''legacy_import''}" if "w \<in> set (wire_methods (capability m))" for m
    using that by (cases m) (auto simp: wire_methods_def capability_def)
  have complete: "\<exists>m. w \<in> set (wire_methods (capability m))"
    if "w \<in> {''share_extension'', ''browser_extension'', ''public_resolution'', ''official_api'',
      ''data_export'', ''legacy_import''}"
  proof -
    have "w \<in> (\<Union>m \<in> set AcquisitionMode_ALL. set (mode_wire_methods m))"
      using that by (simp add: AcquisitionMode_ALL_def) argo
    then show ?thesis by (auto simp: wire_methods_def capability_def)
  qed
  show "(\<exists>!m. w \<in> set (wire_methods (capability m))) \<longleftrightarrow>
     w \<in> {''share_extension'', ''browser_extension'', ''public_resolution'', ''official_api'',
           ''data_export'', ''legacy_import''}"
    (is "_ \<longleftrightarrow> w \<in> ?tokens")
  proof
    assume "\<exists>!m. w \<in> set (wire_methods (capability m))"
    then show "w \<in> ?tokens" by (elim ex1E) (rule sound)
  next
    assume "w \<in> ?tokens"
    then have "\<exists>m. w \<in> set (wire_methods (capability m))" by (rule complete)
    then obtain m where "w \<in> set (wire_methods (capability m))" by (rule exE)
    then show "\<exists>!m. w \<in> set (wire_methods (capability m))" using one by metis
  qed
  show "mc_authority_ceiling (capability m) = AuthoritativePlatformState \<longleftrightarrow>
     wire_methods (capability m) = [''official_api'']"
    by (cases m) (simp_all add: capability_def wire_methods_def)
qed

end
