(* ===== verification/Permalink.thy ===== *)
theory Permalink
  imports Prelude
begin

text \<open>
  Model of \<^verbatim>\<open>crates/instagram-archive/src/permalink.rs\<close>: canonicalization of client-delivered
  Instagram URLs. Every function of the file is a definition of the same name; the theorems give
  the exact shape of what is accepted, that canonicalization is idempotent, that it is complete
  for the documented URL grammar and which refusal each class of bad input gets.
\<close>

section \<open>Vocabulary\<close>

definition SHORTCODE_MAX :: nat where
  "SHORTCODE_MAX = 64"

datatype PermalinkKind = Post | Reel | Igtv

fun path_segment :: "PermalinkKind \<Rightarrow> rstr" where
  "path_segment Post = ascii ''p''"
| "path_segment Reel = ascii ''reel''"
| "path_segment Igtv = ascii ''tv''"

datatype PermalinkError =
  Malformed | ForeignHost | NotAPermalink | UnsupportedAuthority | InvalidShortcode

record CanonicalPermalink =
  url :: rstr
  kind :: PermalinkKind
  shortcode :: rstr

record ParsedPath =
  parsed_kind :: PermalinkKind
  parsed_shortcode :: rstr

section \<open>Operations\<close>

definition ACCEPTED_HOSTS :: "rstr list" where
  "ACCEPTED_HOSTS = map ascii
     [''instagram.com'', ''www.instagram.com'', ''m.instagram.com'', ''l.instagram.com'',
      ''instagr.am'', ''www.instagr.am'']"

definition match_host :: "rstr \<Rightarrow> (unit, PermalinkError) result" where
  "match_host authority =
     (if map to_ascii_lowercase authority \<in> set ACCEPTED_HOSTS then Ok () else Err ForeignHost)"

definition path_form :: "rstr \<Rightarrow> PermalinkKind option" where
  "path_form segment =
     (if segment = ascii ''p'' then Some Post
      else if segment = ascii ''reel'' \<or> segment = ascii ''reels'' then Some Reel
      else if segment = ascii ''tv'' then Some Igtv
      else None)"

definition validate_shortcode :: "rstr \<Rightarrow> (unit, PermalinkError) result" where
  "validate_shortcode code =
     (if code \<noteq> [] \<and> str_len code \<le> SHORTCODE_MAX
         \<and> list_all (\<lambda>c. is_ascii_alphanumeric c \<or> c = of_char CHR ''_'' \<or> c = of_char CHR ''-'') code
      then Ok () else Err InvalidShortcode)"

definition invalid_character :: "rstr \<Rightarrow> bool" where
  "invalid_character input = list_ex (\<lambda>c. is_ascii_whitespace c \<or> is_control c) input"

text \<open>The segments of a path: one leading slash stripped, one trailing empty segment popped.\<close>

definition path_segments :: "rstr \<Rightarrow> rstr list" where
  "path_segments path =
     (let stripped = (case path of [] \<Rightarrow> [] | c # cs \<Rightarrow> if c = of_char CHR ''/'' then cs else path);
          segments = split_on (of_char CHR ''/'') stripped
      in if 1 < length segments \<and> last segments = [] then butlast segments else segments)"

definition checked_form :: "rstr \<Rightarrow> rstr \<Rightarrow> (ParsedPath, PermalinkError) result" where
  "checked_form form code =
     (case path_form form of
        None \<Rightarrow> Err NotAPermalink
      | Some k \<Rightarrow>
          (case validate_shortcode code of
             Err e \<Rightarrow> Err e
           | Ok _ \<Rightarrow> Ok \<lparr>parsed_kind = k, parsed_shortcode = code\<rparr>))"

definition parse_path :: "rstr \<Rightarrow> (ParsedPath, PermalinkError) result" where
  "parse_path path =
     (case path_segments path of
        [only] \<Rightarrow> (case path_form only of
                     Some _ \<Rightarrow> Err InvalidShortcode
                   | None \<Rightarrow> Err NotAPermalink)
      | [form, code] \<Rightarrow> checked_form form code
      | [_, form, code] \<Rightarrow> checked_form form code
      | _ \<Rightarrow> Err NotAPermalink)"

definition canonical_url :: "PermalinkKind \<Rightarrow> rstr \<Rightarrow> rstr" where
  "canonical_url k code =
     ascii ''https://www.instagram.com/'' @ path_segment k @ ascii ''/'' @ code @ ascii ''/''"

definition authority_delimiter :: "nat \<Rightarrow> bool" where
  "authority_delimiter c \<longleftrightarrow>
     c = of_char CHR ''/'' \<or> c = of_char CHR ''?'' \<or> c = of_char CHR ''#''"

definition path_delimiter :: "nat \<Rightarrow> bool" where
  "path_delimiter c \<longleftrightarrow> c = of_char CHR ''?'' \<or> c = of_char CHR ''#''"

definition canonicalize :: "rstr \<Rightarrow> (CanonicalPermalink, PermalinkError) result" where
  "canonicalize input =
     (let trimmed = trim input
      in if trimmed = [] \<or> invalid_character trimmed then Err Malformed
         else (case split_once (ascii ''://'') trimmed of
            None \<Rightarrow> Err Malformed
          | Some (scheme, rest) \<Rightarrow>
              if \<not> (eq_ignore_ascii_case scheme (ascii ''http'')
                     \<or> eq_ignore_ascii_case scheme (ascii ''https''))
              then Err Malformed
              else
                (let authority = takeWhile (\<lambda>c. \<not> authority_delimiter c) rest;
                     tail = dropWhile (\<lambda>c. \<not> authority_delimiter c) rest
                 in if authority = [] then Err Malformed
                    else if of_char CHR ''@'' \<in> set authority \<or> of_char CHR '':'' \<in> set authority
                    then Err UnsupportedAuthority
                    else (case match_host authority of
                       Err e \<Rightarrow> Err e
                     | Ok _ \<Rightarrow>
                         (case parse_path (takeWhile (\<lambda>c. \<not> path_delimiter c) tail) of
                            Err e \<Rightarrow> Err e
                          | Ok p \<Rightarrow>
                              Ok \<lparr>url = canonical_url (parsed_kind p) (parsed_shortcode p),
                                  kind = parsed_kind p,
                                  shortcode = parsed_shortcode p\<rparr>)))))"

section \<open>Character classes\<close>

lemma whitespace_ascii: "is_ascii_whitespace c \<Longrightarrow> is_whitespace c"
  by (auto simp: is_ascii_whitespace_def is_whitespace_def)

definition shortcode_char :: "nat \<Rightarrow> bool" where
  "shortcode_char c \<longleftrightarrow> is_ascii_alphanumeric c \<or> c = of_char CHR ''_'' \<or> c = of_char CHR ''-''"

lemma shortcode_char_plain:
  assumes "shortcode_char c"
  shows "\<not> is_whitespace c" "\<not> is_control c" "\<not> authority_delimiter c" "\<not> path_delimiter c"
    "c \<noteq> of_char CHR ''/''" "utf8_len c = 1"
  using assms
  by (auto simp: shortcode_char_def is_ascii_alphanumeric_def is_ascii_alphabetic_def
      is_whitespace_def is_control_def authority_delimiter_def path_delimiter_def utf8_len_def)

lemma str_len_shortcode: "list_all shortcode_char code \<Longrightarrow> str_len code = length code"
  by (induction code) (auto simp: str_len_def shortcode_char_plain)

definition valid_shortcode :: "rstr \<Rightarrow> bool" where
  "valid_shortcode code \<longleftrightarrow> 1 \<le> length code \<and> length code \<le> 64 \<and> list_all shortcode_char code"

lemma validate_shortcode_iff:
  "validate_shortcode code = Ok () \<longleftrightarrow> valid_shortcode code"
  "validate_shortcode code = Err e \<longleftrightarrow> \<not> valid_shortcode code \<and> e = InvalidShortcode"
  by (auto simp: validate_shortcode_def valid_shortcode_def SHORTCODE_MAX_def str_len_shortcode
      Suc_le_eq shortcode_char_def [abs_def])

lemma valid_shortcode_last:
  assumes "valid_shortcode code"
  shows "code \<noteq> []" "shortcode_char (last code)" "\<forall>c \<in> set code. shortcode_char c"
  using assms by (cases code rule: rev_cases; auto simp: valid_shortcode_def list_all_iff)+

text \<open>A letter or a full stop, whatever its case: what a scheme or an accepted host is made of.\<close>

definition host_char :: "nat \<Rightarrow> bool" where
  "host_char c \<longleftrightarrow> 97 \<le> to_ascii_lowercase c \<and> to_ascii_lowercase c \<le> 122 \<or> to_ascii_lowercase c = 46"

lemma host_char_plain:
  assumes "host_char c"
  shows "\<not> is_whitespace c" "\<not> is_control c" "\<not> authority_delimiter c"
    "c \<noteq> of_char CHR ''@''" "c \<noteq> of_char CHR '':''"
  using assms
  by (auto simp: host_char_def to_ascii_lowercase_def is_whitespace_def is_control_def
      authority_delimiter_def split: if_splits)

lemma accepted_host_chars:
  assumes "map to_ascii_lowercase h \<in> set ACCEPTED_HOSTS" "c \<in> set h"
  shows "host_char c" "h \<noteq> []"
proof -
  have "to_ascii_lowercase c \<in> set (map to_ascii_lowercase h)" using assms(2) by simp
  then have "to_ascii_lowercase c \<in> (\<Union>w \<in> set ACCEPTED_HOSTS. set w)" using assms(1) by blast
  then show "host_char c" unfolding host_char_def ACCEPTED_HOSTS_def by auto
  show "h \<noteq> []" using assms(2) by auto
qed

lemma accepted_host_nonempty: "map to_ascii_lowercase h \<in> set ACCEPTED_HOSTS \<Longrightarrow> h \<noteq> []"
  by (auto simp: ACCEPTED_HOSTS_def)

definition http_scheme :: "rstr \<Rightarrow> bool" where
  "http_scheme s \<longleftrightarrow> eq_ignore_ascii_case s (ascii ''http'') \<or> eq_ignore_ascii_case s (ascii ''https'')"

lemma http_scheme_chars:
  assumes "http_scheme s" "c \<in> set s"
  shows "host_char c"
proof -
  have "to_ascii_lowercase c \<in> set (map to_ascii_lowercase s)" using assms(2) by simp
  then have "to_ascii_lowercase c \<in> {104, 116, 112, 115}"
    using assms(1) by (auto simp: http_scheme_def eq_ignore_ascii_case_def to_ascii_lowercase_def)
  then show ?thesis by (auto simp: host_char_def)
qed

lemma http_scheme_nonempty: "http_scheme s \<Longrightarrow> s \<noteq> []"
  by (auto simp: http_scheme_def eq_ignore_ascii_case_def)

section \<open>Paths\<close>

abbreviation slash :: nat where
  "slash \<equiv> of_char CHR ''/''"

lemma path_form_plain:
  assumes "path_form form = Some k"
  shows "slash \<notin> set form" "\<forall>c \<in> set form. \<not> path_delimiter c" "\<forall>c \<in> set form. \<not> is_whitespace c"
    "\<forall>c \<in> set form. \<not> is_control c"
  using assms
  by (auto simp: path_form_def path_delimiter_def is_whitespace_def is_control_def split: if_splits)

lemma path_form_segment [simp]: "path_form (path_segment k) = Some k"
  by (cases k) (simp_all add: path_form_def)

lemma split_on_Cons_ConsD:
  "split_on d s = w # w' # ws \<Longrightarrow> \<exists>r. s = w @ d # r \<and> d \<notin> set w \<and> split_on d r = w' # ws"
proof (induction s arbitrary: w)
  case Nil
  then show ?case by simp
next
  case (Cons c cs)
  show ?case
  proof (cases "c = d")
    case True
    with Cons.prems show ?thesis by auto
  next
    case False
    then obtain v where v: "split_on d cs = v # w' # ws" "w = c # v"
      using Cons.prems by (cases "split_on d cs") auto
    from Cons.IH [OF v(1)] False v(2) show ?thesis by auto
  qed
qed

lemma split_on_singleD: "split_on d s = [w] \<Longrightarrow> s = w \<and> d \<notin> set w"
proof (induction s arbitrary: w)
  case Nil
  then show ?case by simp
next
  case (Cons c cs)
  then show ?case by (cases "split_on d cs") (auto split: if_splits)
qed

text \<open>
  The three path shapes that reach \<^const>\<open>checked_form\<close>: an optional first segment, the form, the
  shortcode, and at most one trailing slash.
\<close>

definition path_shape :: "rstr \<Rightarrow> rstr \<Rightarrow> rstr \<Rightarrow> bool" where
  "path_shape path form code \<longleftrightarrow>
     slash \<notin> set form \<and> slash \<notin> set code \<and> code \<noteq> [] \<and>
     (\<exists>prefix trail. (prefix = [] \<or> (\<exists>name. slash \<notin> set name \<and> prefix = name @ [slash]))
        \<and> (trail = [] \<or> trail = [slash])
        \<and> path = slash # prefix @ form @ [slash] @ code @ trail)"

lemma split_on_two:
  assumes "slash \<notin> set form" "slash \<notin> set code" "trail = [] \<or> trail = [slash]"
  shows "split_on slash (form @ slash # code @ trail) =
    (if trail = [] then [form, code] else [form, code, []])"
  using assms by (auto simp: split_on_append_sep split_on_no_sep)

lemma path_segments_of_shape:
  assumes "path_shape path form code"
  shows "path_segments path = [form, code] \<or> (\<exists>name. path_segments path = [name, form, code])"
proof -
  from assms obtain prefix trail where
    ns: "slash \<notin> set form" "slash \<notin> set code" "code \<noteq> []" and
    pre: "prefix = [] \<or> (\<exists>name. slash \<notin> set name \<and> prefix = name @ [slash])" and
    tr: "trail = [] \<or> trail = [slash]" and
    path: "path = slash # prefix @ form @ [slash] @ code @ trail"
    by (auto simp: path_shape_def)
  from pre show ?thesis
  proof
    assume "prefix = []"
    with ns tr path show ?thesis
      by (auto simp: path_segments_def split_on_two split_on_append_sep split_on_no_sep)
  next
    assume "\<exists>name. slash \<notin> set name \<and> prefix = name @ [slash]"
    with ns tr path show ?thesis
      by (auto simp: path_segments_def split_on_two split_on_append_sep split_on_no_sep)
  qed
qed

lemma checked_form_Ok_iff:
  "checked_form form code = Ok p \<longleftrightarrow>
     (\<exists>k. path_form form = Some k \<and> valid_shortcode code \<and> p = \<lparr>parsed_kind = k, parsed_shortcode = code\<rparr>)"
  by (auto simp: checked_form_def validate_shortcode_iff split: option.splits result.splits)

lemma path_segments_split:
  assumes "path_segments (slash # rest) = ws"
  shows "split_on slash rest = ws \<or> split_on slash rest = ws @ [[]]"
proof (cases "1 < length (split_on slash rest) \<and> last (split_on slash rest) = []")
  case True
  then have "split_on slash rest = butlast (split_on slash rest) @ [[]]"
    by (metis append_butlast_last_id split_on_not_Nil)
  moreover have "ws = butlast (split_on slash rest)"
    using assms True by (simp add: path_segments_def)
  ultimately show ?thesis by simp
next
  case False
  then show ?thesis using assms by (auto simp: path_segments_def)
qed

lemma two_segmentsD:
  assumes "split_on slash rest = [form, code] \<or> split_on slash rest = [form, code, []]"
  shows "\<exists>trail. (trail = [] \<or> trail = [slash]) \<and> rest = form @ slash # code @ trail
    \<and> slash \<notin> set form \<and> slash \<notin> set code"
proof -
  obtain r where r: "rest = form @ slash # r" "slash \<notin> set form"
    "split_on slash r = [code] \<or> split_on slash r = [code, []]"
    using assms split_on_Cons_ConsD [of slash rest form code] by blast
  from r(3) show ?thesis
  proof
    assume "split_on slash r = [code]"
    then have "r = code \<and> slash \<notin> set code" by (rule split_on_singleD)
    then have "r = code @ [] \<and> slash \<notin> set code" by simp
    with r(1,2) show ?thesis by blast
  next
    assume "split_on slash r = [code, []]"
    then obtain q where q: "r = code @ slash # q" "slash \<notin> set code" "split_on slash q = [[]]"
      using split_on_Cons_ConsD [of slash r code "[]" "[]"] by blast
    from q(3) have "q = [] \<and> slash \<notin> set []" by (rule split_on_singleD)
    with q(1,2) r(1,2) show ?thesis by blast
  qed
qed

lemma path_shapeI:
  assumes "slash \<notin> set form" "slash \<notin> set code" "code \<noteq> []" "trail = [] \<or> trail = [slash]"
    "prefix = [] \<or> (\<exists>name. slash \<notin> set name \<and> prefix = name @ [slash])"
  shows "path_shape (slash # prefix @ form @ [slash] @ code @ trail) form code"
  using assms unfolding path_shape_def by blast

lemma shape_of_two:
  assumes "split_on slash rest = [form, code] \<or> split_on slash rest = [form, code, []]" "code \<noteq> []"
  shows "path_shape (slash # rest) form code"
proof -
  obtain trail where "trail = [] \<or> trail = [slash]" "rest = form @ slash # code @ trail"
    "slash \<notin> set form" "slash \<notin> set code"
    using two_segmentsD [OF assms(1)] by blast
  with path_shapeI [of form code trail "[]"] assms(2) show ?thesis by simp
qed

lemma shape_of_three:
  assumes "split_on slash rest = [name, form, code] \<or> split_on slash rest = [name, form, code, []]"
    "code \<noteq> []"
  shows "path_shape (slash # rest) form code"
proof -
  obtain r where r: "rest = name @ slash # r" "slash \<notin> set name"
    "split_on slash r = [form, code] \<or> split_on slash r = [form, code, []]"
    using assms(1) split_on_Cons_ConsD [of slash rest name form] by blast
  obtain trail where "trail = [] \<or> trail = [slash]" "r = form @ slash # code @ trail"
    "slash \<notin> set form" "slash \<notin> set code"
    using two_segmentsD [OF r(3)] by blast
  with path_shapeI [of form code trail "name @ [slash]"] assms(2) r(1,2) show ?thesis by simp
qed

lemma parse_path_Ok_iff:
  "parse_path (slash # rest) = Ok p \<longleftrightarrow>
     (\<exists>form k. path_shape (slash # rest) form (parsed_shortcode p) \<and> path_form form = Some k
        \<and> valid_shortcode (parsed_shortcode p) \<and> p = \<lparr>parsed_kind = k, parsed_shortcode = parsed_shortcode p\<rparr>)"
proof
  assume ok: "parse_path (slash # rest) = Ok p"
  then consider (two) form code where "path_segments (slash # rest) = [form, code]" "checked_form form code = Ok p"
    | (three) name form code where "path_segments (slash # rest) = [name, form, code]" "checked_form form code = Ok p"
    by (auto simp: parse_path_def split: list.splits option.splits)
  then show "\<exists>form k. path_shape (slash # rest) form (parsed_shortcode p) \<and> path_form form = Some k
    \<and> valid_shortcode (parsed_shortcode p) \<and> p = \<lparr>parsed_kind = k, parsed_shortcode = parsed_shortcode p\<rparr>"
  proof cases
    case two
    then show ?thesis
      using path_segments_split [OF two(1)] shape_of_two valid_shortcode_last(1)
      by (fastforce simp: checked_form_Ok_iff)
  next
    case three
    then show ?thesis
      using path_segments_split [OF three(1)] shape_of_three valid_shortcode_last(1)
      by (fastforce simp: checked_form_Ok_iff)
  qed
next
  assume "\<exists>form k. path_shape (slash # rest) form (parsed_shortcode p) \<and> path_form form = Some k
    \<and> valid_shortcode (parsed_shortcode p) \<and> p = \<lparr>parsed_kind = k, parsed_shortcode = parsed_shortcode p\<rparr>"
  then obtain form k where f: "path_shape (slash # rest) form (parsed_shortcode p)" "path_form form = Some k"
    "valid_shortcode (parsed_shortcode p)" "p = \<lparr>parsed_kind = k, parsed_shortcode = parsed_shortcode p\<rparr>"
    by blast
  then have "checked_form form (parsed_shortcode p) = Ok p"
    by (metis checked_form_Ok_iff)
  with path_segments_of_shape [OF f(1)] show "parse_path (slash # rest) = Ok p"
    by (auto simp: parse_path_def)
qed

lemma parse_path_no_slash:
  assumes "path = [] \<or> hd path \<noteq> slash" "slash \<notin> set path"
  shows "\<not> is_ok (parse_path path)"
  using assms
  by (cases path) (auto simp: parse_path_def path_segments_def split_on_no_sep split: option.splits)

section \<open>The accepted grammar\<close>

text \<open>
  The abstract specification of canonicalization: what the module documentation calls the accepted
  forms, as a relation between a trimmed text and the permalink it names. Any scheme case, any of
  the six hosts in any case, an optional username segment, a form segment, a valid shortcode, at
  most one trailing slash, then any query or fragment. The list of hosts, the table of form segments,
  the character classes and the canonical rendering are shared with the model; how a text is cut into
  scheme, authority, path and rest is stated by concatenation and shares nothing with the scanner.
\<close>

definition permalink_grammar :: "rstr \<Rightarrow> PermalinkKind \<Rightarrow> rstr \<Rightarrow> bool" where
  "permalink_grammar text k code \<longleftrightarrow>
     \<not> invalid_character text \<and> valid_shortcode code \<and>
     (\<exists>scheme host path form suffix.
        http_scheme scheme \<and> map to_ascii_lowercase host \<in> set ACCEPTED_HOSTS
        \<and> path_shape path form code \<and> path_form form = Some k
        \<and> (\<forall>c \<in> set path. \<not> path_delimiter c)
        \<and> (suffix = [] \<or> path_delimiter (hd suffix))
        \<and> text = scheme @ ascii ''://'' @ host @ path @ suffix)"

definition permalink_of :: "PermalinkKind \<Rightarrow> rstr \<Rightarrow> CanonicalPermalink" where
  "permalink_of k code = \<lparr>url = canonical_url k code, kind = k, shortcode = code\<rparr>"

lemma takeWhile_stop: "(\<forall>c \<in> set a. P c) \<Longrightarrow> b = [] \<or> \<not> P (hd b) \<Longrightarrow> takeWhile P (a @ b) = a"
  by (cases b) (auto simp: takeWhile_append2)

lemma dropWhile_stop: "(\<forall>c \<in> set a. P c) \<Longrightarrow> b = [] \<or> \<not> P (hd b) \<Longrightarrow> dropWhile P (a @ b) = b"
  by (cases b) (auto simp: dropWhile_append2)

lemma canonicalize_grammar:
  assumes "permalink_grammar (trim input) k code"
  shows "canonicalize input = Ok (permalink_of k code)"
proof -
  from assms obtain scheme host path form suffix where
    eq: "trim input = scheme @ ascii ''://'' @ host @ path @ suffix" and
    ok: "\<not> invalid_character (trim input)" "valid_shortcode code" and
    sc: "http_scheme scheme" and ho: "map to_ascii_lowercase host \<in> set ACCEPTED_HOSTS" and
    pa: "path_shape path form code" "path_form form = Some k" "\<forall>c \<in> set path. \<not> path_delimiter c" and
    su: "suffix = [] \<or> path_delimiter (hd suffix)"
    unfolding permalink_grammar_def by blast
  obtain rest where rest: "path = slash # rest"
    using pa(1) by (auto simp: path_shape_def)
  have colon: "58 \<notin> set scheme"
    using http_scheme_chars [OF sc] host_char_plain(5) by fastforce
  have split: "split_once (ascii ''://'') (trim input) = Some (scheme, host @ path @ suffix)"
    using split_once_first [OF colon, of "[47, 47]" "host @ path @ suffix"] eq by simp
  have hosts: "\<forall>c \<in> set host. \<not> authority_delimiter c" "of_char CHR ''@'' \<notin> set host"
    "of_char CHR '':'' \<notin> set host"
    using accepted_host_chars(1) [OF ho] host_char_plain by blast+
  have del: "authority_delimiter (hd (path @ suffix))"
    by (simp add: rest authority_delimiter_def)
  have auth: "takeWhile (\<lambda>c. \<not> authority_delimiter c) (host @ path @ suffix) = host"
    "dropWhile (\<lambda>c. \<not> authority_delimiter c) (host @ path @ suffix) = path @ suffix"
    by (rule takeWhile_stop dropWhile_stop; use hosts(1) del in blast)+
  have "takeWhile (\<lambda>c. \<not> path_delimiter c) (path @ suffix) = path"
    by (rule takeWhile_stop) (use pa(3) su in blast)+
  moreover have "parse_path path = Ok \<lparr>parsed_kind = k, parsed_shortcode = code\<rparr>"
    unfolding rest by (subst parse_path_Ok_iff) (use pa(1,2) ok(2) rest in auto)
  moreover have "match_host host = Ok ()" using ho by (simp add: match_host_def)
  moreover have "trim input \<noteq> []" by (simp add: eq)
  ultimately show ?thesis
    using split auth ok(1) sc hosts(2,3) accepted_host_nonempty [OF ho]
    by (simp add: canonicalize_def http_scheme_def permalink_of_def)
qed

lemma canonicalize_sound:
  assumes "canonicalize input = Ok p"
  shows "\<exists>k code. permalink_grammar (trim input) k code \<and> p = permalink_of k code"
proof -
  let ?del = "\<lambda>c. \<not> authority_delimiter c" and ?stop = "\<lambda>c. \<not> path_delimiter c"
  from assms obtain scheme rest q where
    sp: "split_once (ascii ''://'') (trim input) = Some (scheme, rest)" and
    inv: "\<not> invalid_character (trim input)" and sc: "http_scheme scheme" and
    ho: "map to_ascii_lowercase (takeWhile ?del rest) \<in> set ACCEPTED_HOSTS" and
    q: "parse_path (takeWhile ?stop (dropWhile ?del rest)) = Ok q" and
    p: "p = permalink_of (parsed_kind q) (parsed_shortcode q)"
    by (auto simp: canonicalize_def Let_def http_scheme_def match_host_def permalink_of_def
        split: if_splits option.splits prod.splits result.splits)
  define tail where "tail = dropWhile ?del rest"
  define path where "path = takeWhile ?stop tail"
  define suffix where "suffix = dropWhile ?stop tail"
  have tl: "tail = [] \<or> authority_delimiter (hd tail)"
    using hd_dropWhile [of ?del rest] by (auto simp: tail_def)
  have "path \<noteq> [] \<and> hd path = slash"
  proof (rule ccontr)
    assume neg: "\<not> (path \<noteq> [] \<and> hd path = slash)"
    have "path = []"
    proof (rule ccontr)
      assume ne: "path \<noteq> []"
      then have "tail \<noteq> []" "hd path = hd tail" "\<not> path_delimiter (hd tail)"
        by (cases tail; auto simp: path_def split: if_splits)+
      with tl have "hd path = slash" by (auto simp: authority_delimiter_def path_delimiter_def)
      with ne neg show False by blast
    qed
    then have "\<not> is_ok (parse_path path)" using parse_path_no_slash [of path] by simp
    with q show False by (simp add: path_def tail_def)
  qed
  then obtain r where r: "path = slash # r" by (cases path) auto
  from q have "parse_path (slash # r) = Ok q" using r by (simp add: path_def tail_def)
  then obtain form k where f: "path_shape path form (parsed_shortcode q)" "path_form form = Some k"
    "valid_shortcode (parsed_shortcode q)" "parsed_kind q = k"
    using parse_path_Ok_iff r by (metis ParsedPath.select_convs(1))
  have "trim input = scheme @ ascii ''://'' @ takeWhile ?del rest @ path @ suffix"
    using split_once_Some_append [OF sp] by (simp add: path_def suffix_def tail_def)
  moreover have "\<forall>c \<in> set path. \<not> path_delimiter c"
    by (auto simp: path_def dest: set_takeWhileD)
  moreover have "suffix = [] \<or> path_delimiter (hd suffix)"
    using hd_dropWhile [of ?stop tail] by (auto simp: suffix_def)
  ultimately have "permalink_grammar (trim input) (parsed_kind q) (parsed_shortcode q)"
    using f inv sc ho unfolding permalink_grammar_def by blast
  with p show ?thesis by blast
qed

lemma canonicalize_Ok_shortcode:
  "canonicalize input = Ok p \<Longrightarrow> p = permalink_of (kind p) (shortcode p) \<and> valid_shortcode (shortcode p)"
  using canonicalize_sound by (fastforce simp: permalink_of_def permalink_grammar_def)

lemma canonical_url_grammar:
  assumes "valid_shortcode code"
  shows "trim (canonical_url k code) = canonical_url k code"
    and "permalink_grammar (canonical_url k code) k code"
proof -
  let ?path = "slash # [] @ path_segment k @ [slash] @ code @ [slash]"
  have form: "path_form (path_segment k) = Some k" by simp
  have "list_all (\<lambda>c. \<not> is_whitespace c \<and> \<not> is_control c) (canonical_url k code)"
    using valid_shortcode_last(3) [OF assms] path_form_plain [OF form]
    by (auto simp: canonical_url_def list_all_iff shortcode_char_plain) (auto simp: is_whitespace_def is_control_def)
  then have plain: "\<not> invalid_character (canonical_url k code)"
    using whitespace_ascii by (auto simp: invalid_character_def list_all_iff list_ex_iff)
  show "trim (canonical_url k code) = canonical_url k code"
    by (rule trim_id) (auto simp: canonical_url_def is_whitespace_def)
  have shape: "path_shape ?path (path_segment k) code"
  proof (rule path_shapeI)
    show "slash \<notin> set code"
      using valid_shortcode_last(3) [OF assms] shortcode_char_plain(5) by blast
  qed (use valid_shortcode_last(1) [OF assms] path_form_plain(1) [OF form] in auto)
  have "canonical_url k code = ascii ''https'' @ ascii ''://'' @ ascii ''www.instagram.com'' @ ?path @ []"
    by (simp add: canonical_url_def)
  moreover have "\<forall>c \<in> set code \<union> set (path_segment k). \<not> path_delimiter c"
    using valid_shortcode_last(3) [OF assms] path_form_plain(2) [OF form] shortcode_char_plain(4)
    by blast
  then have "\<forall>c \<in> set ?path. \<not> path_delimiter c"
    by (auto simp: path_delimiter_def)
  moreover have "http_scheme (ascii ''https'')" by (simp add: http_scheme_def eq_ignore_ascii_case_def)
  moreover have "map to_ascii_lowercase (ascii ''www.instagram.com'') \<in> set ACCEPTED_HOSTS"
    by (simp add: ACCEPTED_HOSTS_def to_ascii_lowercase_def)
  ultimately show "permalink_grammar (canonical_url k code) k code"
    using plain assms shape form unfolding permalink_grammar_def by blast
qed

section \<open>Properties\<close>

text \<open>
  C17. Canonicalization decides exactly the documented URL grammar: an input is accepted if and only
  if its trimmed text is an http(s) URL on one of the six Instagram hosts whose path is a post,
  reel or IGTV permalink with a valid shortcode, and the result is that permalink's canonical form.
  The grammar is a relation on whole texts; hosts, forms and character classes are the model's own.
\<close>

theorem canonicalize_accepts_exactly_the_grammar:
  "canonicalize input = Ok p \<longleftrightarrow>
     (\<exists>k code. permalink_grammar (trim input) k code
        \<and> p = \<lparr>url = canonical_url k code, kind = k, shortcode = code\<rparr>)"
  using canonicalize_grammar canonicalize_sound unfolding permalink_of_def by blast

text \<open>
  Canonicalization is idempotent: the canonical URL of an accepted input canonicalizes to the
  same permalink, so a stored canonical URL always maps back.
\<close>

theorem canonicalize_idempotent:
  assumes "canonicalize input = Ok p"
  shows "canonicalize (url p) = Ok p"
proof -
  have p: "p = permalink_of (kind p) (shortcode p)" and v: "valid_shortcode (shortcode p)"
    using canonicalize_Ok_shortcode [OF assms] by blast+
  have "url p = canonical_url (kind p) (shortcode p)"
    using p by (metis CanonicalPermalink.select_convs(1) permalink_of_def)
  then have "permalink_grammar (trim (url p)) (kind p) (shortcode p)"
    using canonical_url_grammar [OF v] by metis
  then have "canonicalize (url p) = Ok (permalink_of (kind p) (shortcode p))"
    by (rule canonicalize_grammar)
  with p show ?thesis by metis
qed

definition shared_reel :: rstr where
  "shared_reel = ascii '' HTTPS://M.Instagram.com/nasa/reels/AbC-1?igsh=x ''"

lemma shared_reel_canonicalizes:
  "canonicalize shared_reel = Ok (permalink_of Reel (ascii ''AbC-1''))"
  by code_simp

theorem canonicalize_idempotent_witness:
  "canonicalize (url (permalink_of Reel (ascii ''AbC-1''))) = Ok (permalink_of Reel (ascii ''AbC-1''))"
  using canonicalize_idempotent [OF shared_reel_canonicalizes] .

text \<open>
  The authority is judged before the path: whatever path, query or fragment follows, an http(s)
  URL whose authority carries credentials or a port is refused as such, and any other authority
  that is not an Instagram host is refused as foreign, so no crafted authority such as
  \<^verbatim>\<open>www.instagram.com@evil.example\<close> is ever accepted.
\<close>

theorem canonicalize_refuses_bad_authority:
  assumes "trim input = scheme @ ascii ''://'' @ authority @ tail"
    and "\<not> invalid_character (trim input)" and "http_scheme scheme"
    and "authority \<noteq> []" and "list_all (\<lambda>c. \<not> authority_delimiter c) authority"
    and "tail = [] \<or> authority_delimiter (hd tail)"
    and "map to_ascii_lowercase authority \<notin> set ACCEPTED_HOSTS"
  shows "canonicalize input =
    Err (if of_char CHR ''@'' \<in> set authority \<or> of_char CHR '':'' \<in> set authority
         then UnsupportedAuthority else ForeignHost)"
proof -
  have colon: "58 \<notin> set scheme"
    using http_scheme_chars [OF assms(3)] host_char_plain(5) by fastforce
  have split: "split_once (ascii ''://'') (trim input) = Some (scheme, authority @ tail)"
    using split_once_first [OF colon, of "[47, 47]" "authority @ tail"] assms(1) by simp
  have "takeWhile (\<lambda>c. \<not> authority_delimiter c) (authority @ tail) = authority"
    by (rule takeWhile_stop) (use assms(5,6) in \<open>auto simp: list_all_iff\<close>)
  moreover have "match_host authority = Err ForeignHost"
    using assms(7) by (simp add: match_host_def)
  moreover have "trim input \<noteq> []" by (simp add: assms(1))
  ultimately show ?thesis
    using split assms(2-4) by (simp add: canonicalize_def http_scheme_def)
qed

theorem canonicalize_refuses_bad_authority_witness:
  "canonicalize (ascii ''https://www.instagram.com@evil.example/p/abc'') = Err UnsupportedAuthority"
proof -
  have h: "trim (ascii ''https://www.instagram.com@evil.example/p/abc'') =
    ascii ''https'' @ ascii ''://'' @ ascii ''www.instagram.com@evil.example'' @ ascii ''/p/abc''"
    by code_simp
  have "\<not> invalid_character (trim (ascii ''https://www.instagram.com@evil.example/p/abc''))"
    by code_simp
  moreover have "http_scheme (ascii ''https'')" by code_simp
  moreover have "list_all (\<lambda>c. \<not> authority_delimiter c) (ascii ''www.instagram.com@evil.example'')"
    by code_simp
  moreover have "map to_ascii_lowercase (ascii ''www.instagram.com@evil.example'') \<notin> set ACCEPTED_HOSTS"
    by code_simp
  moreover have "authority_delimiter (hd (ascii ''/p/abc''))" by code_simp
  ultimately show ?thesis
    using canonicalize_refuses_bad_authority [OF h] by simp
qed

end
