(* ===== verification/Archive.thy ===== *)
theory Archive
  imports Capability Permalink
begin

text \<open>
  The \<^verbatim>\<open>instagram_archive\<close> tables the capture pipeline reads and writes (\<^verbatim>\<open>schema.sql\<close>) as one record
  of row lists, the vocabularies of \<^verbatim>\<open>capture.rs\<close> and \<^verbatim>\<open>resolution.rs\<close> the rows are made of, and
  the third-party functions the pipeline calls, collected in the record \<open>env\<close>:

  \<^item> \<open>e_now_v7 E k\<close> is the \<open>k\<close>-th identifier \<^verbatim>\<open>Uuid::now_v7\<close> hands out (\<open>minted\<close> counts them);
  \<^item> \<open>e_uuid_v5\<close>, \<open>e_sha256\<close> and \<open>e_canonical_json\<close> are the hashing and canonical-JSON functions;
  \<^item> \<open>e_payload_title\<close> deserializes an oEmbed payload (\<open>None\<close>: not the grammar; \<open>Some t\<close>: its title),
    \<open>e_json_object\<close> tells whether a body is a JSON object;
  \<^item> \<open>e_report_ok\<close>, \<open>e_snapshot_ok\<close> and \<open>e_instant_ok\<close> tell whether the shared contracts accept a
    report, a snapshot or a wire timestamp.

  A column whose CHECK constraint closes its vocabulary has the enum as its type. A transaction is
  one function from tables to tables; a query that fails aborts it and leaves the tables as they
  were, so an aborted transaction is no step of the model.
\<close>

section \<open>Capture vocabulary\<close>

datatype ClientSource = IosShareExtension | AndroidShareTarget | BrowserExtension | Telegram

definition ClientSource_ALL :: "ClientSource list" where
  "ClientSource_ALL = [IosShareExtension, AndroidShareTarget, BrowserExtension, Telegram]"

definition client_source_parse :: "string \<Rightarrow> ClientSource option" where
  "client_source_parse raw =
     (if raw = ''ios_share_extension'' then Some IosShareExtension
      else if raw = ''android_share_target'' then Some AndroidShareTarget
      else if raw = ''browser_extension'' then Some BrowserExtension
      else if raw = ''telegram'' then Some Telegram
      else None)"

fun client_source_wire :: "ClientSource \<Rightarrow> string" where
  "client_source_wire IosShareExtension = ''ios_share_extension''"
| "client_source_wire AndroidShareTarget = ''android_share_target''"
| "client_source_wire BrowserExtension = ''browser_extension''"
| "client_source_wire Telegram = ''telegram''"

fun acquisition_wire_method :: "ClientSource \<Rightarrow> string option" where
  "acquisition_wire_method IosShareExtension = Some ''share_extension''"
| "acquisition_wire_method AndroidShareTarget = Some ''share_extension''"
| "acquisition_wire_method BrowserExtension = Some ''browser_extension''"
| "acquisition_wire_method Telegram = None"

datatype CaptureStatus = Accepted | Resolved | Unavailable | Failed | Tombstoned

definition capture_status_parse :: "string \<Rightarrow> CaptureStatus option" where
  "capture_status_parse raw =
     (if raw = ''accepted'' then Some Accepted
      else if raw = ''resolved'' then Some Resolved
      else if raw = ''unavailable'' then Some Unavailable
      else if raw = ''failed'' then Some Failed
      else if raw = ''tombstoned'' then Some Tombstoned
      else None)"

fun capture_status_wire :: "CaptureStatus \<Rightarrow> string" where
  "capture_status_wire Accepted = ''accepted''"
| "capture_status_wire Resolved = ''resolved''"
| "capture_status_wire Unavailable = ''unavailable''"
| "capture_status_wire Failed = ''failed''"
| "capture_status_wire Tombstoned = ''tombstoned''"

definition EXPLICIT_AUTHORITY :: string where
  "EXPLICIT_AUTHORITY = ''explicit_user_capture''"

interpretation client_source_codec: wire_codec client_source_wire client_source_parse
proof
  show "client_source_parse (client_source_wire a) = Some a" for a
    by (cases a) (simp_all add: client_source_parse_def)
  show "client_source_wire a = s" if "client_source_parse s = Some a" for s a
    using that by (auto simp: client_source_parse_def split: if_splits)
qed

interpretation capture_status_codec: wire_codec capture_status_wire capture_status_parse
proof
  show "capture_status_parse (capture_status_wire a) = Some a" for a
    by (cases a) (simp_all add: capture_status_parse_def)
  show "capture_status_wire a = s" if "capture_status_parse s = Some a" for s a
    using that by (auto simp: capture_status_parse_def split: if_splits)
qed

section \<open>Reports, snapshots and events\<close>

text \<open>
  The operation reports of the shared contracts: a queued report, a report that names the preserved
  source, and a terminal failure with its reason.
\<close>

datatype SourceUnavailability = DeletedSource | Inaccessible | Transient

datatype OperationReport =
  QueuedReport (report_operation: uuid)
| PreservedReport (report_operation: uuid) (report_source: uuid)
| UnavailableReport (report_operation: uuid) (report_reason: SourceUnavailability)

fun is_terminal_report :: "OperationReport \<Rightarrow> bool" where
  "is_terminal_report (QueuedReport _) = False"
| "is_terminal_report _ = True"

datatype RemovalReason = UserRequested | RetentionPolicy | OtherRemovalReason

datatype AcquisitionMethod =
  OfficialApiMethod | ShareExtensionMethod | BrowserExtensionMethod | PublicResolutionMethod
| DataExportMethod | LegacyImportMethod

datatype UpstreamAvailability = AvailableUpstream | DeletedUpstream | UnavailableUpstream

record BlobEvidence =
  blob_digest_hex :: string
  blob_length_bytes :: int

record Snapshot =
  snap_source_id :: uuid
  snap_external_post_id :: rstr
  snap_permalink :: rstr
  snap_owner :: uuid
  snap_published_at :: "instant option"
  snap_captured_at :: instant
  snap_text :: "rstr option"
  snap_content_digest :: string
  snap_raw_blob :: BlobEvidence
  snap_acquisition :: AcquisitionMethod
  snap_authority :: SavedAuthority
  snap_upstream :: UpstreamAvailability
  snap_checkpoint :: "rstr option"

datatype FactKind = Captured | Updated

datatype EventType = OperationReported | SourceCaptured | SourceUpdated | SourceRemoved

datatype AggregateType = AggCapture | AggMedia | AggAccount | AggImport | AggOperation

datatype EventPayload =
  ReportPayload OperationReport
| SnapshotPayload Snapshot
| RemovalPayload uuid RemovalReason instant

datatype AckOutcome = Applied | Refused

section \<open>Rows\<close>

record CaptureRow =
  cap_id :: uuid
  cap_user :: uuid
  cap_media :: "uuid option"
  cap_url :: rstr
  cap_acquisition :: string
  cap_authority :: string
  cap_client :: ClientSource
  cap_status :: CaptureStatus
  cap_note :: "rstr option"
  cap_key :: "string option"
  cap_captured_at :: instant
  cap_next :: "instant option"
  cap_attempts :: int

record OperationRow =
  op_id :: uuid
  op_command :: uuid
  op_capture :: uuid
  op_user :: uuid
  op_reported_at :: "instant option"

record ObservationRow =
  obs_id :: uuid
  obs_media :: "uuid option"
  obs_capture :: "uuid option"
  obs_kind :: AvailabilityObservationKind
  obs_resolver :: "string option"
  obs_at :: instant

record RawRow =
  raw_id :: uuid
  raw_kind :: string
  raw_blob_ref :: string
  raw_hash :: "u8 list"
  raw_size :: int
  raw_body :: "u8 list"
  raw_at :: instant

text \<open>A stored object of the blob store: its reference, digest and size.\<close>

record StoredBlob =
  sb_ref :: string
  sb_hash :: "u8 list"
  sb_size :: int

record MediaRow =
  med_id :: uuid
  med_permalink :: rstr
  med_type :: string
  med_caption :: "rstr option"
  med_acquisition :: string
  med_authority :: string
  med_upstream :: UpstreamStatus
  med_revision :: "uuid option"
  med_updated_at :: instant
  med_account :: "uuid option"
  med_provider :: "rstr option"
  med_blob :: "StoredBlob option"

record RevisionRow =
  rev_id :: uuid
  rev_media :: uuid
  rev_raw :: uuid
  rev_parser :: string
  rev_at :: instant

record RemovalRow =
  rem_user :: uuid
  rem_source :: uuid
  rem_capture :: "uuid option"
  rem_media :: "uuid option"
  rem_operation :: uuid
  rem_reason :: string
  rem_at :: instant

datatype DeletionKind = CaptureTarget | ConnectionTarget

datatype DeletionState = Planned | DatabaseCommitted | PendingBlobDeletion | DeletionComplete | DeletionFailed

record DeletionOperationRow =
  del_id :: uuid
  del_user :: uuid
  del_kind :: DeletionKind
  del_target :: uuid
  del_reason :: string
  del_state :: DeletionState
  del_at :: instant
  del_finished_at :: "instant option"

record InboxRow =
  in_consumer :: string
  in_event :: uuid
  in_outcome :: string

record OutboxRow =
  ob_event_id :: uuid
  ob_type :: EventType
  ob_agg_type :: AggregateType
  ob_agg_id :: uuid
  ob_tenant :: uuid
  ob_payload :: EventPayload
  ob_correlation :: uuid
  ob_causation :: "uuid option"
  ob_occurred_at :: instant
  ob_published_at :: "instant option"
  ob_attempt_count :: nat
  ob_next_attempt_at :: "instant option"
  ob_last_error :: "string option"
  ob_undeliverable_at :: "instant option"
  ob_acknowledged_at :: "instant option"
  ob_ack_outcome :: "AckOutcome option"
  ob_resend_count :: nat
  ob_next_resend_at :: "instant option"

record archive =
  captures :: "CaptureRow list"
  operations :: "OperationRow list"
  observations :: "ObservationRow list"
  raws :: "RawRow list"
  media :: "MediaRow list"
  revisions :: "RevisionRow list"
  removals :: "RemovalRow list"
  deletions :: "DeletionOperationRow list"
  inbox :: "InboxRow list"
  outbox :: "OutboxRow list"
  minted :: nat

definition empty_archive :: archive where
  "empty_archive = \<lparr>captures = [], operations = [], observations = [], raws = [], media = [],
     revisions = [], removals = [], deletions = [], inbox = [], outbox = [], minted = 0\<rparr>"

section \<open>Third-party functions\<close>

text \<open>What the snapshot digest is computed over, in declaration order.\<close>

record Preimage =
  pre_domain :: string
  pre_permalink :: rstr
  pre_external_post_id :: rstr
  pre_caption :: "rstr option"
  pre_upstream :: string

record env =
  e_now_v7 :: "nat \<Rightarrow> uuid"
  e_uuid_v5 :: "uuid \<Rightarrow> u8 list \<Rightarrow> uuid"
  e_sha256 :: "u8 list \<Rightarrow> u8 list"
  e_canonical_json :: "Preimage \<Rightarrow> u8 list"
  e_payload_title :: "rstr \<Rightarrow> rstr option option"
  e_json_object :: "rstr \<Rightarrow> bool"
  e_report_ok :: "OperationReport \<Rightarrow> bool"
  e_snapshot_ok :: "Snapshot \<Rightarrow> bool"
  e_instant_ok :: "instant \<Rightarrow> bool"

text \<open>\<^verbatim>\<open>Uuid::now_v7\<close>: the next identifier and the tables with one more drawn.\<close>

definition now_v7 :: "env \<Rightarrow> archive \<Rightarrow> uuid" where
  "now_v7 E db = e_now_v7 E (minted db)"

definition drawn :: "archive \<Rightarrow> archive" where
  "drawn db = db\<lparr>minted := Suc (minted db)\<rparr>"

section \<open>Row access\<close>

definition capture_of :: "archive \<Rightarrow> uuid \<Rightarrow> CaptureRow option" where
  "capture_of db i = find (\<lambda>c. cap_id c = i) (captures db)"

definition capture_by_identity :: "archive \<Rightarrow> uuid \<Rightarrow> rstr \<Rightarrow> CaptureRow option" where
  "capture_by_identity db user link = find (\<lambda>c. cap_user c = user \<and> cap_url c = link) (captures db)"

definition media_of :: "archive \<Rightarrow> uuid \<Rightarrow> MediaRow option" where
  "media_of db i = find (\<lambda>m. med_id m = i) (media db)"

definition media_by_permalink :: "archive \<Rightarrow> rstr \<Rightarrow> MediaRow option" where
  "media_by_permalink db link = find (\<lambda>m. med_permalink m = link) (media db)"

definition revision_of :: "archive \<Rightarrow> uuid \<Rightarrow> RevisionRow option" where
  "revision_of db i = find (\<lambda>r. rev_id r = i) (revisions db)"

definition raw_of :: "archive \<Rightarrow> uuid \<Rightarrow> RawRow option" where
  "raw_of db i = find (\<lambda>r. raw_id r = i) (raws db)"

definition update_capture :: "archive \<Rightarrow> (CaptureRow \<Rightarrow> bool) \<Rightarrow> (CaptureRow \<Rightarrow> CaptureRow) \<Rightarrow> archive" where
  "update_capture db P f = db\<lparr>captures := update_where P f (captures db)\<rparr>"

lemma drawn_simps [simp]:
  "captures (drawn db) = captures db" "operations (drawn db) = operations db"
  "observations (drawn db) = observations db" "raws (drawn db) = raws db"
  "media (drawn db) = media db" "revisions (drawn db) = revisions db"
  "removals (drawn db) = removals db" "deletions (drawn db) = deletions db"
  "inbox (drawn db) = inbox db" "outbox (drawn db) = outbox db"
  "minted (drawn db) = Suc (minted db)"
  by (simp_all add: drawn_def)

lemma update_capture_simps [simp]:
  "captures (update_capture db P f) = update_where P f (captures db)"
  "operations (update_capture db P f) = operations db"
  "observations (update_capture db P f) = observations db"
  "raws (update_capture db P f) = raws db" "media (update_capture db P f) = media db"
  "revisions (update_capture db P f) = revisions db"
  "removals (update_capture db P f) = removals db"
  "deletions (update_capture db P f) = deletions db"
  "inbox (update_capture db P f) = inbox db" "outbox (update_capture db P f) = outbox db"
  "minted (update_capture db P f) = minted db"
  by (simp_all add: update_capture_def)

text \<open>The updates the pipeline makes to a capture keep its primary key and its identity pair.\<close>

definition capture_identity :: "CaptureRow \<Rightarrow> uuid \<times> rstr" where
  "capture_identity c = (cap_user c, cap_url c)"

end
