(* ===== verification/Publishing.thy ===== *)
theory Publishing
  imports Archive
begin

text \<open>
  Model of the parts of \<^verbatim>\<open>publishing.rs\<close> and \<^verbatim>\<open>publishing/\<close> that build and append events inside a
  caller's transaction: source identities, the snapshot digest, snapshot construction from stored
  rows, the captured/updated facts, the removal fact and the operation report.
\<close>

section \<open>Bytes\<close>

definition byte :: "nat \<Rightarrow> u8" where
  "byte n = word_of_nat n"

text \<open>\<^verbatim>\<open>Uuid::as_bytes\<close>: the sixteen bytes, most significant first.\<close>

fun be_bytes :: "nat \<Rightarrow> nat \<Rightarrow> u8 list" where
  "be_bytes 0 n = []"
| "be_bytes (Suc k) n = be_bytes k (n div 256) @ [byte (n mod 256)]"

definition uuid_bytes :: "uuid \<Rightarrow> u8 list" where
  "uuid_bytes u = be_bytes 8 (unat (uuid_hi u)) @ be_bytes 8 (unat (uuid_lo u))"

text \<open>\<^verbatim>\<open>str::as_bytes\<close>: UTF-8.\<close>

definition utf8_char :: "nat \<Rightarrow> u8 list" where
  "utf8_char c =
     (if c < 128 then [byte c]
      else if c < 2048 then [byte (192 + c div 64), byte (128 + c mod 64)]
      else if c < 65536 then
        [byte (224 + c div 4096), byte (128 + c div 64 mod 64), byte (128 + c mod 64)]
      else [byte (240 + c div 262144), byte (128 + c div 4096 mod 64), byte (128 + c div 64 mod 64),
        byte (128 + c mod 64)])"

definition utf8 :: "rstr \<Rightarrow> u8 list" where
  "utf8 s = concat (map utf8_char s)"

definition hex_digit :: "nat \<Rightarrow> char" where
  "hex_digit n = (if n < 10 then char_of (48 + n) else char_of (87 + n))"

definition hex_encode :: "u8 list \<Rightarrow> string" where
  "hex_encode bytes = concat (map (\<lambda>b. [hex_digit (unat b div 16), hex_digit (unat b mod 16)]) bytes)"

section \<open>Source identity\<close>

text \<open>The fixed namespace: the sixteen bytes of \<^verbatim>\<open>IDENTITY_NAMESPACE\<close> as two big-endian halves.\<close>

definition IDENTITY_NAMESPACE :: uuid where
  "IDENTITY_NAMESPACE = Uuid 0x7261746f736b7249 0x6e7374616772616d"

definition source_material :: "uuid \<Rightarrow> rstr \<Rightarrow> u8 list" where
  "source_material owner link = uuid_bytes owner @ [0] @ utf8 link"

definition source_identity :: "env \<Rightarrow> uuid \<Rightarrow> rstr \<Rightarrow> uuid" where
  "source_identity E owner link = e_uuid_v5 E IDENTITY_NAMESPACE (source_material owner link)"

definition own_media_material :: "uuid \<Rightarrow> rstr \<Rightarrow> u8 list" where
  "own_media_material owner provider_media_id =
     uuid_bytes owner @ [0] @ utf8 (ascii ''official'') @ [0] @ utf8 provider_media_id"

definition own_media_source_identity :: "env \<Rightarrow> uuid \<Rightarrow> rstr \<Rightarrow> uuid" where
  "own_media_source_identity E owner provider_media_id =
     e_uuid_v5 E IDENTITY_NAMESPACE (own_media_material owner provider_media_id)"

section \<open>Snapshot construction\<close>

datatype PublishError =
  NothingToPublish uuid | InvalidStoredPermalink uuid | ContractViolation uuid | PublishPersistence

definition DOMAIN :: string where
  "DOMAIN = ''instagram.snapshot-content''"

fun upstream_token :: "UpstreamAvailability \<Rightarrow> string" where
  "upstream_token AvailableUpstream = ''available''"
| "upstream_token DeletedUpstream = ''deleted''"
| "upstream_token UnavailableUpstream = ''unavailable''"

definition snapshot_content_digest :: "env \<Rightarrow> Snapshot \<Rightarrow> string" where
  "snapshot_content_digest E s =
     hex_encode (e_sha256 E (e_canonical_json E
       \<lparr>pre_domain = DOMAIN, pre_permalink = snap_permalink s,
        pre_external_post_id = snap_external_post_id s, pre_caption = snap_text s,
        pre_upstream = upstream_token (snap_upstream s)\<rparr>))"

definition acquisition_from_token :: "uuid \<Rightarrow> string \<Rightarrow> (AcquisitionMethod, PublishError) result" where
  "acquisition_from_token capture_id token =
     (if token = ''official_api'' then Ok OfficialApiMethod
      else if token = ''share_extension'' then Ok ShareExtensionMethod
      else if token = ''browser_extension'' then Ok BrowserExtensionMethod
      else if token = ''public_resolution'' then Ok PublicResolutionMethod
      else if token = ''data_export'' then Ok DataExportMethod
      else if token = ''legacy_import'' then Ok LegacyImportMethod
      else Err (ContractViolation capture_id))"

fun upstream_of_status :: "UpstreamStatus \<Rightarrow> UpstreamAvailability" where
  "upstream_of_status UpAvailable = AvailableUpstream"
| "upstream_of_status UpDeleted = DeletedUpstream"
| "upstream_of_status _ = UnavailableUpstream"

text \<open>The join of a capture with its media, the current revision and that revision's raw record.\<close>

definition current_evidence :: "archive \<Rightarrow> CaptureRow \<Rightarrow> (MediaRow \<times> RevisionRow \<times> RawRow) option" where
  "current_evidence db c =
     Option.bind (cap_media c) (\<lambda>mid. Option.bind (media_of db mid) (\<lambda>m.
       Option.bind (med_revision m) (\<lambda>rid. Option.bind (revision_of db rid) (\<lambda>r.
         map_option (\<lambda>b. (m, r, b)) (raw_of db (rev_raw r))))))"

definition build_snapshot :: "env \<Rightarrow> archive \<Rightarrow> uuid \<Rightarrow> FactKind \<Rightarrow> (Snapshot, PublishError) result" where
  "build_snapshot E db capture_id fact_kind =
     (case capture_of db capture_id of
        None \<Rightarrow> Err PublishPersistence
      | Some c \<Rightarrow> (case canonicalize (cap_url c) of
          Err _ \<Rightarrow> Err (InvalidStoredPermalink capture_id)
        | Ok p \<Rightarrow> (case acquisition_from_token capture_id (cap_acquisition c) of
            Err e \<Rightarrow> Err e
          | Ok acquisition \<Rightarrow> (case current_evidence db c of
              None \<Rightarrow> Err (NothingToPublish capture_id)
            | Some (m, r, b) \<Rightarrow>
                let observed_at = max (cap_captured_at c) (max (rev_at r) (med_updated_at m));
                    fact_time = (case fact_kind of Captured \<Rightarrow> cap_captured_at c | Updated \<Rightarrow> observed_at);
                    caption = (case med_caption m of
                        Some body \<Rightarrow> if body \<noteq> [] then Some body else None | None \<Rightarrow> None);
                    draft = \<lparr>snap_source_id = source_identity E (cap_user c) (url p),
                      snap_external_post_id = shortcode p, snap_permalink = url p,
                      snap_owner = cap_user c, snap_published_at = None, snap_captured_at = fact_time, snap_text = caption,
                      snap_content_digest = raw_blob_ref b,
                      snap_raw_blob = \<lparr>blob_digest_hex = raw_blob_ref b, blob_length_bytes = raw_size b\<rparr>,
                      snap_acquisition = acquisition, snap_authority = ExplicitUserCapture,
                      snap_upstream = upstream_of_status (med_upstream m), snap_checkpoint = None\<rparr>;
                    snapshot = draft\<lparr>snap_content_digest := snapshot_content_digest E draft\<rparr>
                in if e_snapshot_ok E draft \<and> 0 \<le> raw_size b then Ok snapshot
                   else Err (ContractViolation capture_id)))))"

definition current_content_digest :: "env \<Rightarrow> archive \<Rightarrow> uuid \<Rightarrow> (string, PublishError) result" where
  "current_content_digest E db capture_id =
     (case build_snapshot E db capture_id Captured of Err e \<Rightarrow> Err e | Ok s \<Rightarrow> Ok (snap_content_digest s))"

section \<open>Appends\<close>

text \<open>\<^verbatim>\<open>payload #>> '{payload,source,content_digest,hex}'\<close>.\<close>

definition payload_digest :: "EventPayload \<Rightarrow> string option" where
  "payload_digest p = (case p of SnapshotPayload s \<Rightarrow> Some (snap_content_digest s) | _ \<Rightarrow> None)"

fun fact_event_type :: "FactKind \<Rightarrow> EventType" where
  "fact_event_type Captured = SourceCaptured"
| "fact_event_type Updated = SourceUpdated"

text \<open>A freshly inserted outbox row: every column the insert does not name has its default.\<close>

definition outbox_row ::
  "uuid \<Rightarrow> EventType \<Rightarrow> AggregateType \<Rightarrow> uuid \<Rightarrow> uuid \<Rightarrow> EventPayload \<Rightarrow> uuid \<Rightarrow> uuid option \<Rightarrow> instant \<Rightarrow> OutboxRow" where
  "outbox_row event_id event_type agg_type agg_id tenant payload correlation causation occurred_at =
     \<lparr>ob_event_id = event_id, ob_type = event_type, ob_agg_type = agg_type, ob_agg_id = agg_id,
      ob_tenant = tenant, ob_payload = payload, ob_correlation = correlation,
      ob_causation = causation, ob_occurred_at = occurred_at, ob_published_at = None,
      ob_attempt_count = 0, ob_next_attempt_at = None, ob_last_error = None,
      ob_undeliverable_at = None, ob_acknowledged_at = None, ob_ack_outcome = None,
      ob_resend_count = 0, ob_next_resend_at = None\<rparr>"

definition append_outbox :: "archive \<Rightarrow> OutboxRow \<Rightarrow> archive" where
  "append_outbox db r = db\<lparr>outbox := outbox db @ [r]\<rparr>"

definition append_fact ::
  "env \<Rightarrow> instant \<Rightarrow> archive \<Rightarrow> FactKind \<Rightarrow> uuid \<Rightarrow> (archive, PublishError) result" where
  "append_fact E now db fact_kind capture_id =
     (case build_snapshot E db capture_id fact_kind of
        Err e \<Rightarrow> Err e
      | Ok s \<Rightarrow>
          Ok (append_outbox (drawn db)
            (outbox_row (now_v7 E db) (fact_event_type fact_kind) AggCapture capture_id (snap_owner s)
              (SnapshotPayload s) (now_v7 E db) None now)))"

definition append_source_removal_fact ::
  "env \<Rightarrow> archive \<Rightarrow> uuid \<Rightarrow> uuid \<Rightarrow> AggregateType \<Rightarrow> uuid \<Rightarrow> RemovalReason \<Rightarrow> instant \<Rightarrow> archive" where
  "append_source_removal_fact E db owner source_id agg_type agg_id reason removed_at =
     append_outbox (drawn db)
       (outbox_row (now_v7 E db) SourceRemoved agg_type agg_id owner
         (RemovalPayload source_id reason removed_at) (now_v7 E db) None removed_at)"

definition append_removal_fact ::
  "env \<Rightarrow> archive \<Rightarrow> uuid \<Rightarrow> RemovalReason \<Rightarrow> instant \<Rightarrow> (archive, PublishError) result" where
  "append_removal_fact E db capture_id reason removed_at =
     (case capture_of db capture_id of
        None \<Rightarrow> Err PublishPersistence
      | Some c \<Rightarrow> (case canonicalize (cap_url c) of
          Err _ \<Rightarrow> Err (InvalidStoredPermalink capture_id)
        | Ok p \<Rightarrow> Ok (append_source_removal_fact E db (cap_user c) (source_identity E (cap_user c) (url p))
            AggCapture capture_id reason removed_at)))"

definition append_operation_report ::
  "env \<Rightarrow> instant \<Rightarrow> archive \<Rightarrow> uuid option \<Rightarrow> uuid \<Rightarrow> uuid \<Rightarrow> OperationReport \<Rightarrow> (archive, PublishError) result" where
  "append_operation_report E now db capture_id owner command_id report =
     (let operation_id = report_operation report;
          agg_type = (case capture_id of Some _ \<Rightarrow> AggCapture | None \<Rightarrow> AggOperation);
          agg_id = (case capture_id of Some c \<Rightarrow> c | None \<Rightarrow> operation_id)
      in if e_report_ok E report
         then Ok (append_outbox (drawn db)
           (outbox_row (now_v7 E db) OperationReported agg_type agg_id owner (ReportPayload report)
             operation_id (Some command_id) now))
         else Err (ContractViolation agg_id))"

section \<open>Frame lemmas\<close>

lemma append_outbox_simps [simp]:
  "captures (append_outbox db r) = captures db" "operations (append_outbox db r) = operations db"
  "observations (append_outbox db r) = observations db" "raws (append_outbox db r) = raws db"
  "media (append_outbox db r) = media db" "revisions (append_outbox db r) = revisions db"
  "removals (append_outbox db r) = removals db" "deletions (append_outbox db r) = deletions db"
  "inbox (append_outbox db r) = inbox db" "outbox (append_outbox db r) = outbox db @ [r]"
  "minted (append_outbox db r) = minted db"
  by (simp_all add: append_outbox_def)

lemma outbox_row_simps [simp]:
  "ob_event_id (outbox_row e t a i w p c k n) = e" "ob_type (outbox_row e t a i w p c k n) = t"
  "ob_agg_type (outbox_row e t a i w p c k n) = a" "ob_agg_id (outbox_row e t a i w p c k n) = i"
  "ob_tenant (outbox_row e t a i w p c k n) = w" "ob_payload (outbox_row e t a i w p c k n) = p"
  "ob_published_at (outbox_row e t a i w p c k n) = None"
  "ob_occurred_at (outbox_row e t a i w p c k n) = n"
  by (simp_all add: outbox_row_def)

lemma append_operation_report_Ok:
  assumes "append_operation_report E now db cid owner cmd report = Ok db'"
  shows "\<exists>r. db' = append_outbox (drawn db) r \<and> ob_payload r = ReportPayload report
    \<and> ob_type r = OperationReported \<and> ob_tenant r = owner
    \<and> ob_agg_type r = (case cid of Some _ \<Rightarrow> AggCapture | None \<Rightarrow> AggOperation)
    \<and> ob_agg_id r = (case cid of Some c \<Rightarrow> c | None \<Rightarrow> report_operation report)"
  using assms by (auto simp: append_operation_report_def Let_def split: if_splits)

lemma append_fact_Ok:
  assumes "append_fact E now db k cid = Ok db'"
  shows "\<exists>r s. build_snapshot E db cid k = Ok s \<and> db' = append_outbox (drawn db) r
    \<and> ob_payload r = SnapshotPayload s \<and> ob_type r = fact_event_type k
    \<and> ob_agg_type r = AggCapture \<and> ob_agg_id r = cid"
  using assms by (auto simp: append_fact_def split: result.splits)

section \<open>Identity material\<close>

lemma length_be_bytes [simp]: "length (be_bytes k n) = k"
  by (induction k arbitrary: n) auto

lemma unat_byte: "n < 256 \<Longrightarrow> unat (byte n) = n"
  by (simp add: byte_def unat_of_nat)

lemma byte_inject: "m < 256 \<Longrightarrow> n < 256 \<Longrightarrow> byte m = byte n \<longleftrightarrow> m = n"
  by (metis unat_byte)

lemma be_bytes_inject:
  "be_bytes k m = be_bytes k n \<Longrightarrow> m < 256 ^ k \<Longrightarrow> n < 256 ^ k \<Longrightarrow> m = n"
proof (induction k arbitrary: m n)
  case 0
  then show ?case by simp
next
  case (Suc k)
  from Suc.prems(1) have "be_bytes k (m div 256) = be_bytes k (n div 256)" "m mod 256 = n mod 256"
    by (auto simp: byte_inject)
  moreover have "m div 256 < 256 ^ k" "n div 256 < 256 ^ k"
    using Suc.prems(2,3) by (simp_all add: less_mult_imp_div_less mult.commute)
  ultimately show ?case using Suc.IH by (metis mod_mult_div_eq)
qed

lemma uuid_bytes_inject: "uuid_bytes a = uuid_bytes b \<longleftrightarrow> a = b"
proof
  assume eq: "uuid_bytes a = uuid_bytes b"
  have bound: "unat w < 256 ^ 8" for w :: "64 word"
    using unsigned_less [of w] by simp
  from eq have "unat (uuid_hi a) = unat (uuid_hi b)" "unat (uuid_lo a) = unat (uuid_lo b)"
    using be_bytes_inject [OF _ bound bound] by (auto simp: uuid_bytes_def)
  then have "uuid_hi a = uuid_hi b" "uuid_lo a = uuid_lo b" by (auto intro: unsigned_word_eqI)
  then show "a = b" by (cases a; cases b) simp
qed simp

lemma length_uuid_bytes [simp]: "length (uuid_bytes a) = 16"
  by (simp add: uuid_bytes_def)

lemma utf8_ascii: "list_all (\<lambda>c. c < 128) s \<Longrightarrow> utf8 s = map byte s"
  by (induction s) (auto simp: utf8_def utf8_char_def)

lemma map_byte_inject:
  assumes "list_all (\<lambda>c. c < 128) s" "list_all (\<lambda>c. c < 128) t" "map byte s = map byte t"
  shows "s = t"
proof (rule map_inj_on [OF assms(3)])
  have "c < 256" if "c \<in> set s \<union> set t" for c
    using that assms(1,2) by (force simp: list_all_iff)
  then show "inj_on byte (set s \<union> set t)"
    by (auto simp: inj_on_def byte_inject)
qed

lemma canonical_url_ascii:
  assumes "valid_shortcode code"
  shows "list_all (\<lambda>c. c < 128) (canonical_url k code)"
proof -
  have "\<forall>c \<in> set code. c < 128"
    using valid_shortcode_last(3) [OF assms]
    by (force simp: shortcode_char_def is_ascii_alphanumeric_def is_ascii_alphabetic_def)
  then show ?thesis by (cases k) (auto simp: canonical_url_def list_all_iff)
qed

lemma canonicalize_url_ascii:
  assumes "canonicalize s = Ok p"
  shows "list_all (\<lambda>c. c < 128) (url p)" "take 5 (url p) = ascii ''https''"
proof -
  have "url p = canonical_url (kind p) (shortcode p)" "valid_shortcode (shortcode p)"
    using canonicalize_Ok_shortcode [OF assms] by (metis CanonicalPermalink.select_convs(1) permalink_of_def, blast)
  then show "list_all (\<lambda>c. c < 128) (url p)" "take 5 (url p) = ascii ''https''"
    by (simp add: canonical_url_ascii, simp add: canonical_url_def)
qed

section \<open>Properties\<close>

text \<open>
  The hashed material of a source identity names exactly its owner and canonical permalink: two
  captures share the material only when owner and permalink agree, and no capture shares it with an
  official own-media source, whatever the provider identifier, so identities of the two lanes and of
  two owners are never derived from the same bytes.
\<close>

theorem source_material_separates:
  assumes "canonicalize a = Ok p" and "canonicalize b = Ok q"
  shows "(source_material u (url p) = source_material v (url q) \<longleftrightarrow> u = v \<and> url p = url q)
    \<and> source_material u (url p) \<noteq> own_media_material w media_id"
proof
  note asc = canonicalize_url_ascii [OF assms(1)] canonicalize_url_ascii [OF assms(2)]
  show "source_material u (url p) = source_material v (url q) \<longleftrightarrow> u = v \<and> url p = url q"
    using map_byte_inject [OF asc(1) asc(3)]
    by (auto simp: source_material_def uuid_bytes_inject utf8_ascii [OF asc(1)] utf8_ascii [OF asc(3)])
  show "source_material u (url p) \<noteq> own_media_material w media_id"
  proof
    assume "source_material u (url p) = own_media_material w media_id"
    then have "map byte (url p) = utf8 (ascii ''official'') @ [0] @ utf8 media_id"
      by (simp add: source_material_def own_media_material_def utf8_ascii [OF asc(1)])
    then have "take 5 (map byte (url p)) = take 5 (utf8 (ascii ''official''))"
      by (simp add: utf8_def utf8_char_def)
    then have "map byte (ascii ''https'') = take 5 (utf8 (ascii ''official''))"
      by (simp add: take_map asc(2))
    then show False
      by (simp add: utf8_def utf8_char_def byte_def)
  qed
qed

theorem source_material_separates_witness:
  "source_material (Uuid 1 1) (url (permalink_of Reel (ascii ''AbC-1''))) \<noteq>
     source_material (Uuid 1 2) (url (permalink_of Reel (ascii ''AbC-1'')))"
  using source_material_separates [OF shared_reel_canonicalizes shared_reel_canonicalizes, of "Uuid 1 1" "Uuid 1 2"]
  by simp

end
