(* ===== verification/Capture.thy ===== *)
theory Capture
  imports Publishing
begin

text \<open>
  Model of \<^verbatim>\<open>capture.rs\<close> (explicit capture intake and the unavailable fallback) and of \<^verbatim>\<open>tombstone.rs\<close>
  (local removal). Each function is one committed transaction: \<open>Ok (db', value)\<close> is the state after
  the commit, \<open>Err e\<close> an aborted transaction that changed nothing.
\<close>

type_synonym ('a, 'e) tx = "(archive \<times> 'a, 'e) result"

section \<open>Intake\<close>

record CaptureRequest =
  req_user :: uuid
  req_url :: rstr
  req_captured_at :: instant
  req_client :: ClientSource
  req_note :: "rstr option"
  req_key :: "string option"

record CaptureRecord =
  rec_id :: uuid
  rec_url :: rstr
  rec_acquisition :: string
  rec_authority :: string
  rec_client :: ClientSource
  rec_status :: CaptureStatus
  rec_note :: "rstr option"
  rec_captured_at :: instant

datatype CaptureSubmission = Created CaptureRecord | Reused CaptureRecord

fun submission_record :: "CaptureSubmission \<Rightarrow> CaptureRecord" where
  "submission_record (Created r) = r"
| "submission_record (Reused r) = r"

fun is_reuse :: "CaptureSubmission \<Rightarrow> bool" where
  "is_reuse (Reused _) = True"
| "is_reuse (Created _) = False"

datatype CaptureError =
  InvalidUrl PermalinkError | UnsupportedClientSource | UnknownCapture | CapturePersistence

definition record_of :: "CaptureRow \<Rightarrow> CaptureRecord" where
  "record_of c = \<lparr>rec_id = cap_id c, rec_url = cap_url c, rec_acquisition = cap_acquisition c,
     rec_authority = cap_authority c, rec_client = cap_client c, rec_status = cap_status c,
     rec_note = cap_note c, rec_captured_at = cap_captured_at c\<rparr>"

definition read_capture :: "archive \<Rightarrow> uuid \<Rightarrow> rstr \<Rightarrow> (CaptureRecord, CaptureError) result" where
  "read_capture db user link =
     (case capture_by_identity db user link of
        None \<Rightarrow> Err UnknownCapture
      | Some c \<Rightarrow> if cap_authority c \<noteq> EXPLICIT_AUTHORITY then Err CapturePersistence
                 else Ok (record_of c))"

definition new_capture :: "uuid \<Rightarrow> CaptureRequest \<Rightarrow> rstr \<Rightarrow> string \<Rightarrow> CaptureRow" where
  "new_capture i request link acquisition_method =
     \<lparr>cap_id = i, cap_user = req_user request, cap_media = None, cap_url = link,
      cap_acquisition = acquisition_method, cap_authority = EXPLICIT_AUTHORITY,
      cap_client = req_client request, cap_status = Accepted, cap_note = req_note request,
      cap_key = req_key request, cap_captured_at = req_captured_at request, cap_next = None,
      cap_attempts = 0\<rparr>"

text \<open>The insert with \<^verbatim>\<open>on conflict on constraint captures_user_canonical_key do nothing\<close>.\<close>

definition insert_capture :: "archive \<Rightarrow> CaptureRow \<Rightarrow> archive" where
  "insert_capture db c =
     (case capture_by_identity db (cap_user c) (cap_url c) of
        Some _ \<Rightarrow> db
      | None \<Rightarrow> db\<lparr>captures := captures db @ [c]\<rparr>)"

definition submit_capture_in_transaction ::
  "env \<Rightarrow> archive \<Rightarrow> CaptureRequest \<Rightarrow> (CaptureSubmission, CaptureError) tx" where
  "submit_capture_in_transaction E db request =
     (case canonicalize (req_url request) of
        Err e \<Rightarrow> Err (InvalidUrl e)
      | Ok permalink \<Rightarrow> (case acquisition_wire_method (req_client request) of
          None \<Rightarrow> Err UnsupportedClientSource
        | Some acquisition_method \<Rightarrow>
            let created = (capture_by_identity db (req_user request) (url permalink) = None);
                db' = insert_capture (drawn db)
                        (new_capture (now_v7 E db) request (url permalink) acquisition_method)
            in (case read_capture db' (req_user request) (url permalink) of
                  Err e \<Rightarrow> Err e
                | Ok r \<Rightarrow> Ok (db', if created then Created r else Reused r))))"

definition submit_capture :: "env \<Rightarrow> archive \<Rightarrow> CaptureRequest \<Rightarrow> (CaptureSubmission, CaptureError) tx" where
  "submit_capture E db request = submit_capture_in_transaction E db request"

section \<open>The unavailable fallback\<close>

definition add_observation :: "archive \<Rightarrow> ObservationRow \<Rightarrow> archive" where
  "add_observation db ob = db\<lparr>observations := observations db @ [ob]\<rparr>"

definition mark_unavailable :: "CaptureRow \<Rightarrow> CaptureRow" where
  "mark_unavailable c = c\<lparr>cap_status := Unavailable\<rparr>"

definition open_or_resolved :: "CaptureRow \<Rightarrow> bool" where
  "open_or_resolved c \<longleftrightarrow> cap_status c = Accepted \<or> cap_status c = Resolved"

definition record_capture_unavailable ::
  "env \<Rightarrow> archive \<Rightarrow> uuid \<Rightarrow> AvailabilityObservationKind \<Rightarrow> instant \<Rightarrow> (CaptureStatus, CaptureError) tx" where
  "record_capture_unavailable E db capture_id observed observed_at =
     (case capture_of db capture_id of
        None \<Rightarrow> Err UnknownCapture
      | Some c \<Rightarrow>
          let db' = add_observation (drawn db)
                \<lparr>obs_id = now_v7 E db, obs_media = None, obs_capture = Some capture_id,
                 obs_kind = observed, obs_resolver = None, obs_at = observed_at\<rparr>
          in if open_or_resolved c
             then Ok (update_capture db' (\<lambda>r. cap_id r = capture_id) mark_unavailable, Unavailable)
             else Ok (db', cap_status c))"

section \<open>Tombstones\<close>

datatype TombstoneOutcome = TombstonedNow | DuplicateTombstone

datatype TombstoneError = TombstoneUnknownCapture | TombstonePublish PublishError | TombstonePersistence

fun removal_reason_wire :: "RemovalReason \<Rightarrow> string" where
  "removal_reason_wire UserRequested = ''user_requested''"
| "removal_reason_wire RetentionPolicy = ''retention_policy''"
| "removal_reason_wire OtherRemovalReason = ''unknown''"

text \<open>\<^verbatim>\<open>local_source_removals_reason_check\<close>: the reasons the table accepts.\<close>

definition reason_check :: "string \<Rightarrow> bool" where
  "reason_check r \<longleftrightarrow> r = ''user_requested'' \<or> r = ''retention_policy''"

definition insert_deletion_operation :: "archive \<Rightarrow> DeletionOperationRow \<Rightarrow> archive" where
  "insert_deletion_operation db d =
     (if list_ex (\<lambda>x. del_id x = del_id d) (deletions db) then db
      else db\<lparr>deletions := deletions db @ [d]\<rparr>)"

definition mark_tombstoned :: "CaptureRow \<Rightarrow> CaptureRow" where
  "mark_tombstoned c = c\<lparr>cap_status := Tombstoned\<rparr>"

definition tombstone_capture ::
  "env \<Rightarrow> archive \<Rightarrow> uuid \<Rightarrow> RemovalReason \<Rightarrow> instant \<Rightarrow> (TombstoneOutcome, TombstoneError) tx" where
  "tombstone_capture E db capture_id reason removed_at =
     (case capture_of db capture_id of
        None \<Rightarrow> Err TombstoneUnknownCapture
      | Some c \<Rightarrow>
          let source_id = source_identity E (cap_user c) (cap_url c)
          in if list_ex (\<lambda>r. rem_user r = cap_user c \<and> rem_source r = source_id) (removals db)
             then Ok (db, DuplicateTombstone)
             else
               let db1 = insert_deletion_operation db
                     \<lparr>del_id = capture_id, del_user = cap_user c, del_kind = CaptureTarget, del_target = capture_id,
                      del_reason = removal_reason_wire reason, del_state = DeletionComplete, del_at = removed_at,
                      del_finished_at = Some removed_at\<rparr>
               in if \<not> reason_check (removal_reason_wire reason) then Err TombstonePersistence
                  else if \<not> e_instant_ok E removed_at then Err (TombstonePublish (ContractViolation capture_id))
                  else (case append_removal_fact E db1 capture_id reason removed_at of
                      Err e \<Rightarrow> Err (TombstonePublish e)
                    | Ok db2 \<Rightarrow>
                        let db3 = db2\<lparr>removals := removals db2 @
                              [\<lparr>rem_user = cap_user c, rem_source = source_id,
                                rem_capture = Some capture_id, rem_media = None, rem_operation = capture_id,
                                rem_reason = removal_reason_wire reason, rem_at = removed_at\<rparr>]\<rparr>
                        in Ok (update_capture db3 (\<lambda>r. cap_id r = capture_id) mark_tombstoned,
                               TombstonedNow)))"

end
