(* ===== verification/Resolution.thy ===== *)
theory Resolution
  imports Capture
begin

text \<open>
  Model of \<^verbatim>\<open>resolution.rs\<close> and of the status table of \<^verbatim>\<open>public_surface.rs\<close>: what the approved public
  surface may answer, the deterministic normalization of a payload, and the two transactions that
  conclude a capture: storing a resolution and recording a failed one.
\<close>

section \<open>Surface answers\<close>

definition OEMBED_PARSER_VERSION :: string where
  "OEMBED_PARSER_VERSION = ''instagram.oembed.v1''"

datatype SurfaceOutcome =
  Payload rstr | SfcDeleted | SfcPrivate | SfcTemporarilyUnavailable | SfcUnavailable
| SfcUnsupported | TransportFailure

fun observation :: "SurfaceOutcome \<Rightarrow> AvailabilityObservationKind" where
  "observation (Payload _) = ObsAvailable"
| "observation SfcDeleted = ObsDeleted"
| "observation SfcPrivate = ObsPrivate"
| "observation SfcTemporarilyUnavailable = ObsTemporarilyUnavailable"
| "observation SfcUnavailable = ObsResolutionFailed"
| "observation TransportFailure = ObsResolutionFailed"
| "observation SfcUnsupported = ObsUnsupported"

definition classify_response :: "env \<Rightarrow> u16 \<Rightarrow> rstr \<Rightarrow> SurfaceOutcome" where
  "classify_response E status body =
     (if status = 200 then (if e_json_object E body then Payload body else SfcUnavailable)
      else if status = 404 then SfcDeleted
      else if status = 403 then SfcPrivate
      else if status = 400 then SfcUnsupported
      else if status = 401 \<or> status = 429 \<or> 500 \<le> status \<and> status \<le> 599 then SfcTemporarilyUnavailable
      else SfcUnavailable)"

section \<open>Normalization\<close>

record NormalizedMedia =
  nm_media_type :: string
  nm_caption :: "rstr option"

datatype NormalizeError = MalformedPayload

fun kind_media_type :: "PermalinkKind \<Rightarrow> string" where
  "kind_media_type Post = ''unknown''"
| "kind_media_type Reel = ''reel''"
| "kind_media_type Igtv = ''video''"

definition normalize :: "env \<Rightarrow> rstr \<Rightarrow> PermalinkKind \<Rightarrow> (NormalizedMedia, NormalizeError) result" where
  "normalize E payload k =
     (case e_payload_title E payload of
        None \<Rightarrow> Err MalformedPayload
      | Some title \<Rightarrow>
          Ok \<lparr>nm_media_type = kind_media_type k,
              nm_caption = (case map_option trim title of
                  None \<Rightarrow> None
                | Some s \<Rightarrow> if s = [] then None else Some s)\<rparr>)"

section \<open>Concluding transactions\<close>

datatype ResolutionError =
  ResUnknownCapture | ResInvalidStoredPermalink PermalinkError | PayloadTooLarge | ResPersistence
| ResPublishing PublishError

record StoredResolution =
  sr_media_id :: uuid
  sr_revision_id :: uuid
  sr_raw_record_id :: uuid

datatype ResolutionOutcome =
  ResolvedOutcome StoredResolution | UnavailableOutcome AvailabilityObservationKind

definition PUBLIC_RESOLUTION_METHOD :: string where
  "PUBLIC_RESOLUTION_METHOD = ''public_resolution''"

definition RESOLUTION_AUTHORITY :: string where
  "RESOLUTION_AUTHORITY = ''explicit_user_capture''"

definition stored_capture_permalink :: "archive \<Rightarrow> uuid \<Rightarrow> (CanonicalPermalink, ResolutionError) result" where
  "stored_capture_permalink db capture_id =
     (case capture_of db capture_id of
        None \<Rightarrow> Err ResUnknownCapture
      | Some c \<Rightarrow> map_err ResInvalidStoredPermalink (canonicalize (cap_url c)))"

definition upsert_media_projection ::
  "env \<Rightarrow> instant \<Rightarrow> archive \<Rightarrow> CanonicalPermalink \<Rightarrow> NormalizedMedia \<Rightarrow> instant \<Rightarrow> archive \<times> uuid" where
  "upsert_media_projection E now db permalink normalized resolved_at =
     (case media_by_permalink db (url permalink) of
        Some m \<Rightarrow>
          (db\<lparr>media := update_where (\<lambda>r. med_id r = med_id m)
             (\<lambda>r. r\<lparr>med_type := nm_media_type normalized, med_caption := nm_caption normalized,
                    med_upstream := UpAvailable, med_updated_at := resolved_at\<rparr>) (media db)\<rparr>,
           med_id m)
      | None \<Rightarrow>
          ((drawn db)\<lparr>media := media db @
             [\<lparr>med_id = now_v7 E db, med_permalink = url permalink,
               med_type = nm_media_type normalized, med_caption = nm_caption normalized,
               med_acquisition = PUBLIC_RESOLUTION_METHOD, med_authority = RESOLUTION_AUTHORITY,
               med_upstream = UpAvailable, med_revision = None, med_updated_at = now,
               med_account = None, med_provider = None, med_blob = None\<rparr>]\<rparr>,
           now_v7 E db))"

definition capture_has_fact :: "archive \<Rightarrow> uuid \<Rightarrow> bool" where
  "capture_has_fact db capture_id =
     list_ex (\<lambda>r. ob_agg_type r = AggCapture \<and> ob_agg_id r = capture_id
       \<and> (ob_type r = SourceCaptured \<or> ob_type r = SourceUpdated)) (outbox db)"

definition insert_raw :: "env \<Rightarrow> archive \<Rightarrow> u8 list \<Rightarrow> instant \<Rightarrow> archive" where
  "insert_raw E db payload_bytes resolved_at =
     (drawn db)\<lparr>raws := raws db @
        [\<lparr>raw_id = now_v7 E db, raw_kind = ''oembed_response'',
          raw_blob_ref = hex_encode (e_sha256 E payload_bytes), raw_hash = e_sha256 E payload_bytes,
          raw_size = int (length payload_bytes), raw_body = payload_bytes, raw_at = resolved_at\<rparr>]\<rparr>"

definition insert_revision :: "env \<Rightarrow> archive \<Rightarrow> uuid \<Rightarrow> uuid \<Rightarrow> instant \<Rightarrow> archive" where
  "insert_revision E db media_id raw_record_id resolved_at =
     (drawn db)\<lparr>revisions := revisions db @
          [\<lparr>rev_id = now_v7 E db, rev_media = media_id, rev_raw = raw_record_id,
            rev_parser = OEMBED_PARSER_VERSION, rev_at = resolved_at\<rparr>],
        media := update_where (\<lambda>m. med_id m = media_id) (\<lambda>m. m\<lparr>med_revision := Some (now_v7 E db)\<rparr>)
          (media db)\<rparr>"

definition observe :: "env \<Rightarrow> archive \<Rightarrow> uuid option \<Rightarrow> uuid \<Rightarrow> AvailabilityObservationKind \<Rightarrow> instant \<Rightarrow> archive" where
  "observe E db media_id capture_id observed at_time =
     add_observation (drawn db)
       \<lparr>obs_id = now_v7 E db, obs_media = media_id, obs_capture = Some capture_id,
        obs_kind = observed, obs_resolver = Some OEMBED_PARSER_VERSION, obs_at = at_time\<rparr>"

definition link_resolved :: "uuid \<Rightarrow> CaptureRow \<Rightarrow> CaptureRow" where
  "link_resolved media_id c = c\<lparr>cap_status := Resolved, cap_media := Some media_id\<rparr>"

text \<open>
  The rows one payload answer appends: the raw evidence, the projection, the revision, the
  \<^verbatim>\<open>available\<close> observation and the capture link.
\<close>

definition store_evidence ::
  "env \<Rightarrow> instant \<Rightarrow> archive \<Rightarrow> uuid \<Rightarrow> CanonicalPermalink \<Rightarrow> NormalizedMedia \<Rightarrow> u8 list \<Rightarrow> instant
     \<Rightarrow> archive \<times> StoredResolution" where
  "store_evidence E now db capture_id permalink normalized payload_bytes resolved_at =
     (let raw_record_id = now_v7 E db;
          db1 = insert_raw E db payload_bytes resolved_at;
          (db2, media_id) = upsert_media_projection E now db1 permalink normalized resolved_at;
          revision_id = now_v7 E db2;
          db3 = insert_revision E db2 media_id raw_record_id resolved_at;
          db4 = observe E db3 (Some media_id) capture_id ObsAvailable resolved_at;
          db5 = update_capture db4 (\<lambda>c. cap_id c = capture_id \<and> cap_status c \<noteq> Failed)
                  (link_resolved media_id)
      in (db5, \<lparr>sr_media_id = media_id, sr_revision_id = revision_id, sr_raw_record_id = raw_record_id\<rparr>))"

definition store_resolution ::
  "env \<Rightarrow> instant \<Rightarrow> archive \<Rightarrow> uuid \<Rightarrow> CanonicalPermalink \<Rightarrow> NormalizedMedia \<Rightarrow> u8 list \<Rightarrow> instant
     \<Rightarrow> (StoredResolution, ResolutionError) tx" where
  "store_resolution E now db capture_id permalink normalized payload_bytes resolved_at =
     (if capture_of db capture_id = None then Err ResPersistence
      else
        let prior = map_option (\<lambda>m. (med_type m, med_caption m)) (media_by_permalink db (url permalink));
            has_fact = capture_has_fact db capture_id;
            (db5, stored) = store_evidence E now db capture_id permalink normalized payload_bytes resolved_at;
            normalized_changed = (prior \<noteq> Some (nm_media_type normalized, nm_caption normalized))
        in if \<not> has_fact \<or> normalized_changed
           then (case append_fact E now db5 (if has_fact then Updated else Captured) capture_id of
                   Err e \<Rightarrow> Err (ResPublishing e)
                 | Ok db6 \<Rightarrow> Ok (db6, stored))
           else Ok (db5, stored))"

definition record_failed_resolution ::
  "env \<Rightarrow> instant \<Rightarrow> archive \<Rightarrow> uuid \<Rightarrow> AvailabilityObservationKind \<Rightarrow> instant
     \<Rightarrow> (ResolutionOutcome, ResolutionError) tx" where
  "record_failed_resolution E now db capture_id observed resolved_at =
     (case capture_of db capture_id of
        None \<Rightarrow> Err ResPersistence
      | Some c \<Rightarrow>
          let db1 = observe E db None capture_id observed resolved_at;
              db2 = update_capture db1 (\<lambda>r. cap_id r = capture_id \<and> open_or_resolved r) mark_unavailable
          in (case (observed, cap_media c) of
                (ObsDeleted, Some media_id) \<Rightarrow>
                  let db3 = db2\<lparr>media := update_where (\<lambda>m. med_id m = media_id)
                        (\<lambda>m. m\<lparr>med_upstream := UpDeleted, med_updated_at := resolved_at\<rparr>) (media db2)\<rparr>
                  in (case append_fact E now db3 Updated capture_id of
                        Err e \<Rightarrow> Err (ResPublishing e)
                      | Ok db4 \<Rightarrow> Ok (db4, UnavailableOutcome observed))
              | _ \<Rightarrow> Ok (db2, UnavailableOutcome observed)))"

definition apply_surface_outcome ::
  "env \<Rightarrow> instant \<Rightarrow> archive \<Rightarrow> uuid \<Rightarrow> CanonicalPermalink \<Rightarrow> SurfaceOutcome \<Rightarrow> instant
     \<Rightarrow> (ResolutionOutcome, ResolutionError) tx" where
  "apply_surface_outcome E now db capture_id permalink outcome resolved_at =
     (case outcome of
        Payload body \<Rightarrow>
          (case normalize E body (kind permalink) of
             Err _ \<Rightarrow> record_failed_resolution E now db capture_id ObsResolutionFailed resolved_at
           | Ok normalized \<Rightarrow>
               if 2 ^ 63 \<le> int (length (utf8 body)) then Err PayloadTooLarge
               else (case store_resolution E now db capture_id permalink normalized (utf8 body) resolved_at of
                       Err e \<Rightarrow> Err e
                     | Ok (db', stored) \<Rightarrow> Ok (db', ResolvedOutcome stored)))
      | other \<Rightarrow> record_failed_resolution E now db capture_id (observation other) resolved_at)"

definition resolve_capture_permalink ::
  "env \<Rightarrow> instant \<Rightarrow> archive \<Rightarrow> uuid \<Rightarrow> (CanonicalPermalink \<Rightarrow> SurfaceOutcome) \<Rightarrow> instant
     \<Rightarrow> (ResolutionOutcome, ResolutionError) tx" where
  "resolve_capture_permalink E now db capture_id surface resolved_at =
     (case stored_capture_permalink db capture_id of
        Err e \<Rightarrow> Err e
      | Ok permalink \<Rightarrow>
          apply_surface_outcome E now db capture_id permalink (surface permalink) resolved_at)"

end
