(* ===== verification/Capture_Resolution.thy ===== *)
theory Capture_Resolution
  imports Resolution "HOL-Library.Option_ord" "HOL-Library.Product_Lexorder"
begin

text \<open>
  Model of \<^verbatim>\<open>capture_resolution.rs\<close>: the worker pass that claims captures with an unreported
  operation, fetches the accepted ones, concludes or reschedules them and reports every pending
  operation of a concluded capture. \<open>resolve_one\<close> and \<open>run_due_once\<close> return the committed state
  beside the result, because they span several transactions.
\<close>

definition LEASE :: duration where
  "LEASE = seconds 120"

definition MAX_RETRY_DELAY_SECONDS :: int where
  "MAX_RETRY_DELAY_SECONDS = 30 * 60"

record ResolutionPolicy =
  max_attempts :: u32
  batch_size :: nat

record ResolutionSummary =
  sm_claimed :: nat
  sm_fetched :: nat
  sm_retried :: nat
  sm_reported :: nat
  sm_failed :: nat

datatype CaptureResolutionError =
  CrPersistence | CrResolution ResolutionError | CrReport PublishError

definition retry_delay :: "u32 \<Rightarrow> duration" where
  "retry_delay attempt =
     (let exponent = min (unat (saturating_sub attempt 1)) 6
      in seconds (min (30 * 4 ^ exponent) MAX_RETRY_DELAY_SECONDS))"

record Step =
  st_fetched :: bool
  st_retried :: bool
  st_reported :: nat

definition is_transient :: "SurfaceOutcome \<Rightarrow> bool" where
  "is_transient outcome \<longleftrightarrow> outcome = SfcTemporarilyUnavailable \<or> outcome = TransportFailure"

section \<open>Terminal reports\<close>

datatype Conclusion = Preserved uuid | UnavailableConclusion SourceUnavailability

definition newest_observation :: "archive \<Rightarrow> uuid \<Rightarrow> ObservationRow option" where
  "newest_observation db capture_id =
     (let rows = sort_key (\<lambda>ob. (obs_at ob, obs_id ob))
                   (filter (\<lambda>ob. obs_capture ob = Some capture_id) (observations db))
      in if rows = [] then None else Some (last rows))"

definition latest_unavailability :: "archive \<Rightarrow> uuid \<Rightarrow> SourceUnavailability" where
  "latest_unavailability db capture_id =
     (case newest_observation db capture_id of
        None \<Rightarrow> Inaccessible
      | Some ob \<Rightarrow>
          if obs_kind ob = ObsDeleted then DeletedSource
          else if obs_kind ob = ObsTemporarilyUnavailable then Transient
          else Inaccessible)"

definition conclusion_of :: "env \<Rightarrow> archive \<Rightarrow> CaptureRow \<Rightarrow> Conclusion option" where
  "conclusion_of E db c =
     (case cap_status c of
        Resolved \<Rightarrow> Some (Preserved (source_identity E (cap_user c) (cap_url c)))
      | Unavailable \<Rightarrow> Some (UnavailableConclusion (latest_unavailability db (cap_id c)))
      | Failed \<Rightarrow> Some (UnavailableConclusion Inaccessible)
      | Tombstoned \<Rightarrow> Some (UnavailableConclusion Inaccessible)
      | Accepted \<Rightarrow> None)"

fun terminal_report :: "Conclusion \<Rightarrow> uuid \<Rightarrow> OperationReport" where
  "terminal_report (Preserved source) operation = PreservedReport operation source"
| "terminal_report (UnavailableConclusion reason) operation = UnavailableReport operation reason"

definition pending :: "uuid \<Rightarrow> OperationRow \<Rightarrow> bool" where
  "pending capture_id r \<longleftrightarrow> op_capture r = capture_id \<and> op_reported_at r = None"

definition mark_reported :: "instant \<Rightarrow> OperationRow \<Rightarrow> OperationRow" where
  "mark_reported now r = r\<lparr>op_reported_at := Some now\<rparr>"

text \<open>The loop over the rows the guarded update returned.\<close>

fun report_operations ::
  "env \<Rightarrow> instant \<Rightarrow> archive \<Rightarrow> uuid \<Rightarrow> uuid \<Rightarrow> Conclusion \<Rightarrow> OperationRow list \<Rightarrow> (archive, PublishError) result" where
  "report_operations E now db capture_id user conclusion [] = Ok db"
| "report_operations E now db capture_id user conclusion (r # rs) =
     (case append_operation_report E now db (Some capture_id) user (op_command r)
             (terminal_report conclusion (op_id r)) of
        Err e \<Rightarrow> Err e
      | Ok db' \<Rightarrow> report_operations E now db' capture_id user conclusion rs)"

definition report_pending ::
  "env \<Rightarrow> instant \<Rightarrow> archive \<Rightarrow> uuid \<Rightarrow> (nat, CaptureResolutionError) tx" where
  "report_pending E now db capture_id =
     (case capture_of db capture_id of
        None \<Rightarrow> Err CrPersistence
      | Some c \<Rightarrow> (case conclusion_of E db c of
          None \<Rightarrow> Ok (db, 0)
        | Some conclusion \<Rightarrow>
            let returned = filter (pending capture_id) (operations db);
                db' = db\<lparr>operations := update_where (pending capture_id) (mark_reported now) (operations db)\<rparr>
            in (case report_operations E now db' capture_id (cap_user c) conclusion returned of
                  Err e \<Rightarrow> Err (CrReport e)
                | Ok db'' \<Rightarrow> Ok (db'', length returned))))"

definition report_concluded ::
  "env \<Rightarrow> instant \<Rightarrow> archive \<Rightarrow> uuid \<Rightarrow> (nat, CaptureResolutionError) tx" where
  "report_concluded E now db capture_id = report_pending E now db capture_id"

section \<open>The claim\<close>

definition has_pending :: "archive \<Rightarrow> uuid \<Rightarrow> bool" where
  "has_pending db capture_id = list_ex (pending capture_id) (operations db)"

definition due :: "archive \<Rightarrow> instant \<Rightarrow> CaptureRow \<Rightarrow> bool" where
  "due db now c \<longleftrightarrow> has_pending db (cap_id c)
     \<and> (cap_status c = Accepted \<and> (case cap_next c of None \<Rightarrow> False | Some t \<Rightarrow> t \<le> now)
        \<or> cap_status c \<noteq> Accepted)"

definition claimed_rows :: "archive \<Rightarrow> instant \<Rightarrow> nat \<Rightarrow> CaptureRow list" where
  "claimed_rows db now limit =
     take limit (sort_key (\<lambda>c. (cap_next c, cap_id c)) (filter (due db now) (captures db)))"

definition lease_until :: "instant \<Rightarrow> CaptureRow \<Rightarrow> CaptureRow" where
  "lease_until t c = c\<lparr>cap_next := Some t\<rparr>"

type_synonym leased = "uuid \<times> rstr \<times> int"

fun claim_rows ::
  "env \<Rightarrow> instant \<Rightarrow> archive \<Rightarrow> CaptureRow list \<Rightarrow> leased list \<Rightarrow> nat \<Rightarrow> (leased list \<times> nat, CaptureResolutionError) tx" where
  "claim_rows E now db [] leases reported = Ok (db, (leases, reported))"
| "claim_rows E now db (c # cs) leases reported =
     (if cap_status c = Accepted
      then claim_rows E now (update_capture db (\<lambda>r. cap_id r = cap_id c) (lease_until (now + LEASE))) cs
             (leases @ [(cap_id c, cap_url c, cap_attempts c)]) reported
      else (case report_pending E now db (cap_id c) of
              Err e \<Rightarrow> Err e
            | Ok (db', n) \<Rightarrow> claim_rows E now db' cs leases (reported + n)))"

definition claim ::
  "env \<Rightarrow> instant \<Rightarrow> archive \<Rightarrow> ResolutionPolicy \<Rightarrow> (leased list \<times> ResolutionSummary, CaptureResolutionError) tx" where
  "claim E now db policy =
     (let claimed = claimed_rows db now (batch_size policy)
      in (case claim_rows E now db claimed [] 0 of
            Err e \<Rightarrow> Err e
          | Ok (db', (leases, reported)) \<Rightarrow>
              Ok (db', (leases, \<lparr>sm_claimed = length claimed, sm_fetched = 0, sm_retried = 0,
                                 sm_reported = reported, sm_failed = 0\<rparr>))))"

section \<open>One leased capture\<close>

definition attempt_number :: "int \<Rightarrow> u32" where
  "attempt_number attempts_so_far =
     saturating_add (if 0 \<le> attempts_so_far then word_of_int attempts_so_far else 0) 1"

definition i32_of_u32 :: "u32 \<Rightarrow> int" where
  "i32_of_u32 w = min (uint w) (2 ^ 31 - 1)"

definition rescheduled :: "u32 \<Rightarrow> instant \<Rightarrow> CaptureRow \<Rightarrow> CaptureRow" where
  "rescheduled attempt now c =
     c\<lparr>cap_attempts := i32_of_u32 attempt, cap_next := Some (now + retry_delay attempt)\<rparr>"

definition reschedule :: "archive \<Rightarrow> uuid \<Rightarrow> u32 \<Rightarrow> instant \<Rightarrow> archive" where
  "reschedule db capture_id attempt now =
     update_capture db (\<lambda>c. cap_id c = capture_id) (rescheduled attempt now)"

text \<open>Concluding a capture and then reporting it: the second transaction starts after the first committed.\<close>

definition conclude ::
  "env \<Rightarrow> instant \<Rightarrow> archive \<Rightarrow> (ResolutionOutcome, ResolutionError) tx \<Rightarrow> uuid \<Rightarrow> bool
     \<Rightarrow> archive \<times> (Step, CaptureResolutionError) result" where
  "conclude E now db concluded capture_id fetched =
     (case concluded of
        Err e \<Rightarrow> (db, Err (CrResolution e))
      | Ok (db1, _) \<Rightarrow>
          (case report_concluded E now db1 capture_id of
             Err e \<Rightarrow> (db1, Err e)
           | Ok (db2, n) \<Rightarrow> (db2, Ok \<lparr>st_fetched = fetched, st_retried = False, st_reported = n\<rparr>)))"

definition resolve_one ::
  "env \<Rightarrow> (CanonicalPermalink \<Rightarrow> SurfaceOutcome) \<Rightarrow> instant \<Rightarrow> ResolutionPolicy \<Rightarrow> archive \<Rightarrow> leased
     \<Rightarrow> archive \<times> (Step, CaptureResolutionError) result" where
  "resolve_one E surface now policy db lease =
     (let (capture_id, canonical, attempts_so_far) = lease
      in (case canonicalize canonical of
            Err _ \<Rightarrow>
              conclude E now db (record_failed_resolution E now db capture_id ObsResolutionFailed now)
                capture_id False
          | Ok permalink \<Rightarrow>
              let outcome = surface permalink;
                  attempt = attempt_number attempts_so_far
              in if is_transient outcome \<and> attempt < max_attempts policy
                 then (reschedule db capture_id attempt now,
                       Ok \<lparr>st_fetched = True, st_retried = True, st_reported = 0\<rparr>)
                 else
                   let final = (if is_transient outcome then SfcTemporarilyUnavailable else outcome)
                   in conclude E now db (apply_surface_outcome E now db capture_id permalink final now)
                        capture_id True))"

definition add_step :: "ResolutionSummary \<Rightarrow> (Step, CaptureResolutionError) result \<Rightarrow> ResolutionSummary" where
  "add_step s r =
     (case r of
        Ok t \<Rightarrow> s\<lparr>sm_fetched := sm_fetched s + of_bool (st_fetched t),
                  sm_retried := sm_retried s + of_bool (st_retried t),
                  sm_reported := sm_reported s + st_reported t\<rparr>
      | Err _ \<Rightarrow> s\<lparr>sm_failed := sm_failed s + 1\<rparr>)"

fun resolve_leased ::
  "env \<Rightarrow> (CanonicalPermalink \<Rightarrow> SurfaceOutcome) \<Rightarrow> instant \<Rightarrow> ResolutionPolicy \<Rightarrow> archive \<Rightarrow> leased list
     \<Rightarrow> ResolutionSummary \<Rightarrow> archive \<times> ResolutionSummary" where
  "resolve_leased E surface now policy db [] summary = (db, summary)"
| "resolve_leased E surface now policy db (l # ls) summary =
     (case resolve_one E surface now policy db l of
        (db', r) \<Rightarrow> resolve_leased E surface now policy db' ls (add_step summary r))"

definition run_due_once ::
  "env \<Rightarrow> (CanonicalPermalink \<Rightarrow> SurfaceOutcome) \<Rightarrow> instant \<Rightarrow> ResolutionPolicy \<Rightarrow> archive
     \<Rightarrow> archive \<times> (ResolutionSummary, CaptureResolutionError) result" where
  "run_due_once E surface now policy db =
     (case claim E now db policy of
        Err e \<Rightarrow> (db, Err e)
      | Ok (db1, (leases, summary)) \<Rightarrow>
          (case resolve_leased E surface now policy db1 leases summary of
             (db2, summary') \<Rightarrow> (db2, Ok summary')))"

end
