(* ===== verification/Command_Capture.thy ===== *)
theory Command_Capture
  imports Capture
begin

text \<open>
  Model of \<^verbatim>\<open>command_capture.rs\<close>: validation of a Platform browser-capture command and its
  exactly-once ingestion. The envelope and payload types belong to the shared contracts; the
  decoded envelope is the argument \<open>envelope\<close> (\<open>None\<close> when the contracts refuse the bytes), and
  \<open>parse_instant\<close> is the RFC 3339 parser.
\<close>

datatype SocialCaptureProvider = InstagramProvider | OtherProvider

record SocialCaptureRequested =
  scr_provider :: SocialCaptureProvider
  scr_acquisition :: AcquisitionMethod
  scr_authority :: SavedAuthority
  scr_captured_at :: string
  scr_operation_id :: uuid
  scr_permalink :: rstr
  scr_idempotency_key :: string

record CommandEnvelope =
  ce_command_id :: uuid
  ce_tenant :: "uuid option"
  ce_payload :: SocialCaptureRequested

datatype CommandCaptureError =
  WrongSubject | InvalidEnvelope | MissingOwner | WrongProvider | WrongAcquisition
| WrongSavedAuthority | InvalidCapturedAt | CommandCapture CaptureError | CommandPersistence
| CommandReport PublishError

record BrowserCaptureCommand =
  command_id :: uuid
  user_ref :: uuid
  operation_id :: uuid
  original_permalink :: rstr
  captured_at :: instant
  idempotency_key :: string
  client_source :: ClientSource

definition decode_browser_capture_command ::
  "(string \<Rightarrow> instant option) \<Rightarrow> string \<Rightarrow> CommandEnvelope option \<Rightarrow> (BrowserCaptureCommand, CommandCaptureError) result" where
  "decode_browser_capture_command parse_instant subject envelope =
     (if subject \<noteq> ''cmd.instagram.capture.requested.v1'' then Err WrongSubject
      else (case envelope of
        None \<Rightarrow> Err InvalidEnvelope
      | Some e \<Rightarrow>
          let payload = ce_payload e
          in if scr_provider payload \<noteq> InstagramProvider then Err WrongProvider
             else if scr_acquisition payload \<noteq> BrowserExtensionMethod then Err WrongAcquisition
             else if scr_authority payload \<noteq> ExplicitUserCapture then Err WrongSavedAuthority
             else (case ce_tenant e of
                None \<Rightarrow> Err MissingOwner
              | Some owner \<Rightarrow> (case parse_instant (scr_captured_at payload) of
                  None \<Rightarrow> Err InvalidCapturedAt
                | Some captured \<Rightarrow>
                    Ok \<lparr>command_id = ce_command_id e, user_ref = owner,
                        operation_id = scr_operation_id payload,
                        original_permalink = scr_permalink payload, captured_at = captured,
                        idempotency_key = scr_idempotency_key payload,
                        client_source = BrowserExtension\<rparr>))))"

section \<open>Ingestion\<close>

definition BROWSER_CAPTURE_CONSUMER :: string where
  "BROWSER_CAPTURE_CONSUMER = ''ratatoskr-instagram-browser-capture''"

datatype BrowserCaptureIngested = PreservedCapture CaptureSubmission | DuplicateCommand | Rejected

text \<open>\<^verbatim>\<open>From<PublishError>\<close>: a persistence failure keeps its class.\<close>

fun command_publish_error :: "PublishError \<Rightarrow> CommandCaptureError" where
  "command_publish_error PublishPersistence = CommandPersistence"
| "command_publish_error other = CommandReport other"

definition claimed_in_inbox :: "archive \<Rightarrow> uuid \<Rightarrow> bool" where
  "claimed_in_inbox db i =
     list_ex (\<lambda>r. in_consumer r = BROWSER_CAPTURE_CONSUMER \<and> in_event r = i) (inbox db)"

definition claim_inbox :: "archive \<Rightarrow> uuid \<Rightarrow> archive" where
  "claim_inbox db i = db\<lparr>inbox := inbox db @
     [\<lparr>in_consumer = BROWSER_CAPTURE_CONSUMER, in_event = i, in_outcome = ''processed''\<rparr>]\<rparr>"

definition mark_inbox_outcome :: "archive \<Rightarrow> uuid \<Rightarrow> string \<Rightarrow> archive" where
  "mark_inbox_outcome db i outcome = db\<lparr>inbox :=
     update_where (\<lambda>r. in_consumer r = BROWSER_CAPTURE_CONSUMER \<and> in_event r = i)
       (\<lambda>r. r\<lparr>in_outcome := outcome\<rparr>) (inbox db)\<rparr>"

text \<open>
  Making a capture due: an unavailable capture is reopened with zero attempts and due now, an
  accepted one keeps its schedule unless it has none, every other status is left alone.
\<close>

definition make_due :: "instant \<Rightarrow> CaptureRow \<Rightarrow> CaptureRow" where
  "make_due now c =
     c\<lparr>cap_status := Accepted,
       cap_attempts := (if cap_status c = Unavailable then 0 else cap_attempts c),
       cap_next := (if cap_status c = Unavailable then Some now
                    else (case cap_next c of None \<Rightarrow> Some now | Some t \<Rightarrow> Some t))\<rparr>"

definition reopenable :: "CaptureRow \<Rightarrow> bool" where
  "reopenable c \<longleftrightarrow> cap_status c = Accepted \<or> cap_status c = Unavailable"

text \<open>\<^verbatim>\<open>on conflict do nothing\<close> covers the primary key and the unique command id.\<close>

definition operation_conflict :: "archive \<Rightarrow> uuid \<Rightarrow> uuid \<Rightarrow> bool" where
  "operation_conflict db operation command =
     list_ex (\<lambda>r. op_id r = operation \<or> op_command r = command) (operations db)"

definition record_operation ::
  "env \<Rightarrow> instant \<Rightarrow> archive \<Rightarrow> BrowserCaptureCommand \<Rightarrow> uuid \<Rightarrow> (archive, CommandCaptureError) result" where
  "record_operation E now db command capture_id =
     (let inserted = \<not> operation_conflict db (operation_id command) (command_id command);
          db1 = (if inserted
                 then db\<lparr>operations := operations db @
                    [\<lparr>op_id = operation_id command, op_command = command_id command,
                      op_capture = capture_id, op_user = user_ref command, op_reported_at = None\<rparr>]\<rparr>
                 else db);
          db2 = update_capture db1 (\<lambda>c. cap_id c = capture_id \<and> reopenable c) (make_due now)
      in if inserted
         then map_err command_publish_error
           (append_operation_report E now db2 (Some capture_id) (user_ref command) (command_id command)
             (QueuedReport (operation_id command)))
         else Ok db2)"

definition capture_request_of :: "BrowserCaptureCommand \<Rightarrow> CaptureRequest" where
  "capture_request_of command =
     \<lparr>req_user = user_ref command, req_url = original_permalink command,
      req_captured_at = captured_at command, req_client = client_source command, req_note = None,
      req_key = Some (idempotency_key command)\<rparr>"

text \<open>The transaction that follows a successful decode.\<close>

definition ingest_command ::
  "env \<Rightarrow> instant \<Rightarrow> archive \<Rightarrow> BrowserCaptureCommand \<Rightarrow> (BrowserCaptureIngested, CommandCaptureError) tx" where
  "ingest_command E now db command =
     (if claimed_in_inbox db (command_id command) then Ok (db, DuplicateCommand)
      else
        let db1 = claim_inbox db (command_id command)
        in (case submit_capture_in_transaction E db1 (capture_request_of command) of
              Err (InvalidUrl _) \<Rightarrow>
                (case append_operation_report E now db1 None (user_ref command) (command_id command)
                        (UnavailableReport (operation_id command) Inaccessible) of
                   Err e \<Rightarrow> Err (command_publish_error e)
                 | Ok db2 \<Rightarrow> Ok (mark_inbox_outcome db2 (command_id command) ''rejected'', Rejected))
            | Err e \<Rightarrow> Err (CommandCapture e)
            | Ok (db2, submission) \<Rightarrow>
                (case record_operation E now db2 command (rec_id (submission_record submission)) of
                   Err e \<Rightarrow> Err e
                 | Ok db3 \<Rightarrow> Ok (mark_inbox_outcome db3 (command_id command) ''processed'',
                                 PreservedCapture submission))))"

definition ingest_browser_capture_command ::
  "env \<Rightarrow> (string \<Rightarrow> instant option) \<Rightarrow> instant \<Rightarrow> archive \<Rightarrow> string \<Rightarrow> CommandEnvelope option
     \<Rightarrow> (BrowserCaptureIngested, CommandCaptureError) tx" where
  "ingest_browser_capture_command E parse_instant now db subject envelope =
     (case decode_browser_capture_command parse_instant subject envelope of
        Err e \<Rightarrow> Err e
      | Ok command \<Rightarrow> ingest_command E now db command)"

end
