(* ===== verification/Outbox.thy ===== *)
theory Outbox
  imports Publishing "HOL-Library.Option_ord" "HOL-Library.Product_Lexorder"
begin

text \<open>
  Model of \<^verbatim>\<open>publishing/pump.rs\<close>, \<^verbatim>\<open>publishing/removal_ack.rs\<close> and \<^verbatim>\<open>publishing/health.rs\<close>: one claiming
  pass of the at-least-once publisher, the republication of unacknowledged removals, the
  acknowledgement and the health verdict. The transport seam is the argument \<open>deliver\<close>: its first
  argument counts the calls of the pass, so a carrier may answer every call differently. The
  statements of one pass read one instant \<open>now\<close>.
\<close>

section \<open>Vocabulary\<close>

datatype UndeliverableClass = PayloadTooLargeClass

fun undeliverable_token :: "UndeliverableClass \<Rightarrow> string" where
  "undeliverable_token PayloadTooLargeClass = ''payload_too_large''"

datatype TransportError = TransientError string | UndeliverableError UndeliverableClass

type_synonym transport = "nat \<Rightarrow> uuid \<Rightarrow> EventPayload \<Rightarrow> (unit, TransportError) result"

definition FAILING_ATTEMPTS :: nat where
  "FAILING_ATTEMPTS = 3"

definition FAILING_AGE_SECONDS :: int where
  "FAILING_AGE_SECONDS = 300"

definition LAST_ERROR_CHARS :: nat where
  "LAST_ERROR_CHARS = 200"

datatype PassVerdict = Healthy | Failing | Waiting

record PassSummary =
  ps_delivered :: nat
  ps_failed :: nat
  ps_undeliverable :: nat
  ps_resent :: nat
  ps_resend_failed :: nat
  ps_remaining :: nat
  ps_verdict :: PassVerdict

record ResendPolicy =
  resend_after :: duration
  resend_cap :: duration

definition default_resend_policy :: ResendPolicy where
  "default_resend_policy = \<lparr>resend_after = seconds 600, resend_cap = seconds 21600\<rparr>"

section \<open>Row updates\<close>

text \<open>The columns of a row that say what happened and never change after the insert.\<close>

definition fact_columns ::
  "OutboxRow \<Rightarrow> uuid \<times> EventType \<times> AggregateType \<times> uuid \<times> uuid \<times> EventPayload \<times> uuid \<times> uuid option \<times> instant" where
  "fact_columns r = (ob_event_id r, ob_type r, ob_agg_type r, ob_agg_id r, ob_tenant r, ob_payload r,
     ob_correlation r, ob_causation r, ob_occurred_at r)"

definition published_row :: "instant \<Rightarrow> ResendPolicy \<Rightarrow> OutboxRow \<Rightarrow> OutboxRow" where
  "published_row now policy r =
     r\<lparr>ob_published_at := Some now,
       ob_next_resend_at := (if ob_type r = SourceRemoved then Some (now + resend_after policy) else None)\<rparr>"

definition mark_published :: "instant \<Rightarrow> ResendPolicy \<Rightarrow> OutboxRow list \<Rightarrow> uuid \<Rightarrow> OutboxRow list" where
  "mark_published now policy rows event_id =
     update_where (\<lambda>r. ob_event_id r = event_id \<and> ob_published_at r = None) (published_row now policy) rows"

definition undeliverable_row :: "instant \<Rightarrow> UndeliverableClass \<Rightarrow> OutboxRow \<Rightarrow> OutboxRow" where
  "undeliverable_row now c r =
     r\<lparr>ob_attempt_count := ob_attempt_count r + 1, ob_undeliverable_at := Some now,
       ob_last_error := Some (undeliverable_token c)\<rparr>"

definition mark_undeliverable :: "instant \<Rightarrow> UndeliverableClass \<Rightarrow> OutboxRow list \<Rightarrow> uuid \<Rightarrow> OutboxRow list" where
  "mark_undeliverable now c rows event_id =
     update_where (\<lambda>r. ob_event_id r = event_id) (undeliverable_row now c) rows"

text \<open>The rendered error text, as \<^verbatim>\<open>TransportError\<close> displays it.\<close>

fun error_text :: "TransportError \<Rightarrow> string" where
  "error_text (TransientError reason) = ''event delivery failed: '' @ reason"
| "error_text (UndeliverableError c) = ''event is undeliverable: '' @ undeliverable_token c"

definition failed_row :: "instant \<Rightarrow> TransportError \<Rightarrow> OutboxRow \<Rightarrow> OutboxRow" where
  "failed_row now error r =
     r\<lparr>ob_attempt_count := ob_attempt_count r + 1, ob_next_attempt_at := Some (now + seconds 60),
       ob_last_error := Some (take LAST_ERROR_CHARS (error_text error))\<rparr>"

definition record_transient_failure :: "instant \<Rightarrow> TransportError \<Rightarrow> OutboxRow list \<Rightarrow> uuid \<Rightarrow> OutboxRow list" where
  "record_transient_failure now error rows event_id =
     update_where (\<lambda>r. ob_event_id r = event_id) (failed_row now error) rows"

definition resend_delay :: "ResendPolicy \<Rightarrow> nat \<Rightarrow> duration" where
  "resend_delay policy resends = min (resend_after policy * 2 ^ min resends 30) (resend_cap policy)"

definition resent_row :: "instant \<Rightarrow> ResendPolicy \<Rightarrow> OutboxRow \<Rightarrow> OutboxRow" where
  "resent_row now policy r =
     r\<lparr>ob_resend_count := ob_resend_count r + 1, ob_attempt_count := 0, ob_last_error := None,
       ob_next_resend_at := Some (now + resend_delay policy (ob_resend_count r))\<rparr>"

definition record_resend :: "instant \<Rightarrow> ResendPolicy \<Rightarrow> OutboxRow list \<Rightarrow> uuid \<Rightarrow> OutboxRow list" where
  "record_resend now policy rows event_id =
     update_where (\<lambda>r. ob_event_id r = event_id \<and> ob_type r = SourceRemoved \<and> ob_published_at r \<noteq> None
        \<and> ob_acknowledged_at r = None) (resent_row now policy) rows"

definition acknowledged_row :: "instant \<Rightarrow> AckOutcome \<Rightarrow> OutboxRow \<Rightarrow> OutboxRow" where
  "acknowledged_row now outcome r =
     r\<lparr>ob_acknowledged_at := Some now, ob_ack_outcome := Some outcome\<rparr>"

definition ack_matches :: "uuid \<Rightarrow> uuid \<Rightarrow> OutboxRow \<Rightarrow> bool" where
  "ack_matches event_id tenant r \<longleftrightarrow> ob_event_id r = event_id \<and> ob_type r = SourceRemoved
     \<and> ob_tenant r = tenant \<and> ob_acknowledged_at r = None"

definition acknowledge ::
  "instant \<Rightarrow> OutboxRow list \<Rightarrow> uuid \<Rightarrow> uuid \<Rightarrow> AckOutcome \<Rightarrow> OutboxRow list \<times> bool" where
  "acknowledge now rows event_id tenant outcome =
     (update_where (ack_matches event_id tenant) (acknowledged_row now outcome) rows,
      rows_affected (ack_matches event_id tenant) rows = 1)"

section \<open>The publisher pass\<close>

definition publishable :: "OutboxRow \<Rightarrow> bool" where
  "publishable r \<longleftrightarrow> ob_published_at r = None \<and> ob_undeliverable_at r = None"

definition attempt_due :: "instant \<Rightarrow> OutboxRow \<Rightarrow> bool" where
  "attempt_due now r \<longleftrightarrow> (case ob_next_attempt_at r of None \<Rightarrow> True | Some t \<Rightarrow> t \<le> now)"

definition selected_rows :: "instant \<Rightarrow> nat \<Rightarrow> OutboxRow list \<Rightarrow> OutboxRow list" where
  "selected_rows now batch rows =
     take batch (sort_key (\<lambda>r. (ob_occurred_at r, ob_event_id r))
       (filter (\<lambda>r. publishable r \<and> attempt_due now r) rows))"

fun deliver_rows ::
  "instant \<Rightarrow> transport \<Rightarrow> ResendPolicy \<Rightarrow> nat \<Rightarrow> OutboxRow list \<Rightarrow> OutboxRow list \<Rightarrow> PassSummary
     \<Rightarrow> OutboxRow list \<times> PassSummary" where
  "deliver_rows now deliver policy k rows [] s = (rows, s)"
| "deliver_rows now deliver policy k rows (r # rs) s =
     (case deliver k (ob_event_id r) (ob_payload r) of
        Ok _ \<Rightarrow>
          deliver_rows now deliver policy (Suc k) (mark_published now policy rows (ob_event_id r)) rs
            (s\<lparr>ps_delivered := ps_delivered s + 1\<rparr>)
      | Err (UndeliverableError c) \<Rightarrow>
          deliver_rows now deliver policy (Suc k) (mark_undeliverable now c rows (ob_event_id r)) rs
            (s\<lparr>ps_undeliverable := ps_undeliverable s + 1\<rparr>)
      | Err (TransientError reason) \<Rightarrow>
          deliver_rows now deliver policy (Suc k)
            (record_transient_failure now (TransientError reason) rows (ob_event_id r)) rs
            (s\<lparr>ps_failed := ps_failed s + 1\<rparr>))"

definition resend_due_rows :: "instant \<Rightarrow> nat \<Rightarrow> OutboxRow list \<Rightarrow> OutboxRow list" where
  "resend_due_rows now batch rows =
     take batch (sort_key (\<lambda>r. (ob_next_resend_at r, ob_event_id r))
       (filter (\<lambda>r. ob_type r = SourceRemoved \<and> ob_published_at r \<noteq> None \<and> ob_acknowledged_at r = None
          \<and> (case ob_next_resend_at r of None \<Rightarrow> False | Some t \<Rightarrow> t \<le> now) \<and> attempt_due now r) rows))"

fun resend_rows ::
  "instant \<Rightarrow> transport \<Rightarrow> ResendPolicy \<Rightarrow> nat \<Rightarrow> OutboxRow list \<Rightarrow> OutboxRow list \<Rightarrow> nat
     \<Rightarrow> OutboxRow list \<times> nat \<times> nat" where
  "resend_rows now deliver policy k rows [] resent = (rows, resent, 0)"
| "resend_rows now deliver policy k rows (r # rs) resent =
     (case deliver k (ob_event_id r) (ob_payload r) of
        Ok _ \<Rightarrow> resend_rows now deliver policy (Suc k) (record_resend now policy rows (ob_event_id r)) rs (resent + 1)
      | Err error \<Rightarrow> (record_transient_failure now error rows (ob_event_id r), resent, 1))"

definition resend_due ::
  "instant \<Rightarrow> transport \<Rightarrow> nat \<Rightarrow> ResendPolicy \<Rightarrow> nat \<Rightarrow> OutboxRow list \<Rightarrow> OutboxRow list \<times> nat \<times> nat" where
  "resend_due now deliver batch policy k rows =
     resend_rows now deliver policy k rows (resend_due_rows now batch rows) 0"

definition oldest_row_is_stuck :: "instant \<Rightarrow> OutboxRow list \<Rightarrow> bool" where
  "oldest_row_is_stuck now rows =
     (case sort_key (\<lambda>r. (ob_occurred_at r, ob_event_id r)) (filter publishable rows) of
        [] \<Rightarrow> False
      | r # _ \<Rightarrow> FAILING_ATTEMPTS \<le> ob_attempt_count r
                 \<or> ob_occurred_at r < now - seconds FAILING_AGE_SECONDS)"

definition verdict_for :: "instant \<Rightarrow> OutboxRow list \<Rightarrow> PassSummary \<Rightarrow> PassVerdict" where
  "verdict_for now rows s =
     (if ps_remaining s = 0 then Healthy
      else if \<not> oldest_row_is_stuck now rows then Healthy
      else if 0 < ps_failed s then Failing
      else Waiting)"

definition empty_summary :: PassSummary where
  "empty_summary = \<lparr>ps_delivered = 0, ps_failed = 0, ps_undeliverable = 0, ps_resent = 0,
     ps_resend_failed = 0, ps_remaining = 0, ps_verdict = Healthy\<rparr>"

definition run_once ::
  "instant \<Rightarrow> transport \<Rightarrow> nat \<Rightarrow> ResendPolicy \<Rightarrow> OutboxRow list \<Rightarrow> OutboxRow list \<times> PassSummary" where
  "run_once now deliver batch policy rows =
     (let chosen = selected_rows now batch rows;
          (rows1, s1) = deliver_rows now deliver policy 0 rows chosen empty_summary;
          (rows2, s2) =
            (if ps_failed s1 = 0
             then (case resend_due now deliver batch policy (length chosen) rows1 of
                     (rows', resent, failed) \<Rightarrow>
                       (rows', s1\<lparr>ps_resent := resent, ps_resend_failed := failed\<rparr>))
             else (rows1, s1));
          s3 = s2\<lparr>ps_remaining := length (filter publishable rows2)\<rparr>
      in (rows2, s3\<lparr>ps_verdict := verdict_for now rows2 s3\<rparr>))"

section \<open>Health\<close>

fun record_verdict :: "bool \<Rightarrow> PassVerdict \<Rightarrow> bool" where
  "record_verdict failing Failing = True"
| "record_verdict failing Healthy = False"
| "record_verdict failing Waiting = failing"

definition publisher_health :: "bool \<Rightarrow> PassSummary list \<Rightarrow> bool" where
  "publisher_health failing summaries = foldl record_verdict failing (map ps_verdict summaries)"

record UnacknowledgedRemovals =
  unack_count :: nat
  unack_oldest_age :: duration

definition unacknowledged_removals :: "instant \<Rightarrow> OutboxRow list \<Rightarrow> UnacknowledgedRemovals" where
  "unacknowledged_removals now rows =
     (let waiting = filter (\<lambda>r. ob_type r = SourceRemoved \<and> ob_acknowledged_at r = None) rows
      in \<lparr>unack_count = length waiting,
          unack_oldest_age = (if waiting = [] then 0 else now - Min (set (map ob_occurred_at waiting)))\<rparr>)"

section \<open>Every update keeps the fact\<close>

interpretation published: key_preserving fact_columns "published_row now policy" for now policy
  by unfold_locales (simp add: fact_columns_def published_row_def)

interpretation undeliverable: key_preserving fact_columns "undeliverable_row now c" for now c
  by unfold_locales (simp add: fact_columns_def undeliverable_row_def)

interpretation failed: key_preserving fact_columns "failed_row now error" for now error
  by unfold_locales (simp add: fact_columns_def failed_row_def)

interpretation resent: key_preserving fact_columns "resent_row now policy" for now policy
  by unfold_locales (simp add: fact_columns_def resent_row_def)

interpretation acknowledged: key_preserving fact_columns "acknowledged_row now outcome" for now outcome
  by unfold_locales (simp add: fact_columns_def acknowledged_row_def)

lemmas fact_columns_kept =
  published.map_key_update undeliverable.map_key_update failed.map_key_update
  resent.map_key_update acknowledged.map_key_update

lemma deliver_rows_keeps_facts:
  "map fact_columns (fst (deliver_rows now deliver policy k rows rs s)) = map fact_columns rows"
  by (induction now deliver policy k rows rs s rule: deliver_rows.induct)
    (auto simp: mark_published_def mark_undeliverable_def record_transient_failure_def fact_columns_kept
      split: result.splits TransportError.splits)

lemma resend_rows_keeps_facts:
  "map fact_columns (fst (resend_rows now deliver policy k rows rs n)) = map fact_columns rows"
  by (induction now deliver policy k rows rs n rule: resend_rows.induct)
    (auto simp: record_resend_def record_transient_failure_def fact_columns_kept split: result.splits)

lemma run_once_keeps_facts:
  "map fact_columns (fst (run_once now deliver batch policy rows)) = map fact_columns rows"
  using deliver_rows_keeps_facts [of now deliver policy 0 rows "selected_rows now batch rows" empty_summary]
    resend_rows_keeps_facts [of now deliver policy "length (selected_rows now batch rows)"]
  by (auto simp: run_once_def resend_due_def Let_def split: prod.splits if_splits)
    (metis fst_conv)+

section \<open>What one pass does to a row\<close>

text \<open>The row after the \<open>k\<close>-th delivery of a pass.\<close>

definition row_after :: "instant \<Rightarrow> transport \<Rightarrow> ResendPolicy \<Rightarrow> nat \<Rightarrow> OutboxRow \<Rightarrow> OutboxRow" where
  "row_after now deliver policy k r =
     (case deliver k (ob_event_id r) (ob_payload r) of
        Ok _ \<Rightarrow> published_row now policy r
      | Err (UndeliverableError c) \<Rightarrow> undeliverable_row now c r
      | Err (TransientError reason) \<Rightarrow> failed_row now (TransientError reason) r)"

definition event_update :: "uuid \<Rightarrow> (OutboxRow \<Rightarrow> OutboxRow) \<Rightarrow> OutboxRow list \<Rightarrow> OutboxRow list" where
  "event_update i f rows = map (\<lambda>r. if ob_event_id r = i then f r else r) rows"

lemma event_update_simps [simp]:
  "length (event_update i f rows) = length rows"
  "j < length rows \<Longrightarrow> event_update i f rows ! j = (if ob_event_id (rows ! j) = i then f (rows ! j) else rows ! j)"
  by (simp_all add: event_update_def)

lemma update_where_event:
  assumes "distinct (map ob_event_id rows)" "r \<in> set rows" "P r"
    and "\<And>x. P x \<longleftrightarrow> ob_event_id x = ob_event_id r \<and> Q x"
  shows "update_where P f rows = event_update (ob_event_id r) f rows"
proof -
  have "P x \<longleftrightarrow> ob_event_id x = ob_event_id r" if "x \<in> set rows" for x
  proof
    assume "ob_event_id x = ob_event_id r"
    with assms(1,2) that have "x = r" by (meson distinct_map inj_onD)
    with assms(3) show "P x" by simp
  qed (use assms(4) in blast)
  then show ?thesis by (simp add: update_where_def event_update_def)
qed

lemma ids_event_update:
  "(\<And>r. ob_event_id (f r) = ob_event_id r) \<Longrightarrow> map ob_event_id (event_update i f rows) = map ob_event_id rows"
  by (simp add: event_update_def)

lemma ob_event_id_row_updates [simp]:
  "ob_event_id (published_row now policy r) = ob_event_id r"
  "ob_event_id (undeliverable_row now c r) = ob_event_id r"
  "ob_event_id (failed_row now error r) = ob_event_id r"
  "ob_event_id (resent_row now policy r) = ob_event_id r"
  "ob_event_id (row_after now deliver policy k r) = ob_event_id r"
  by (simp_all add: published_row_def undeliverable_row_def failed_row_def resent_row_def row_after_def
      split: result.splits TransportError.splits)

definition delivery_fails :: "transport \<Rightarrow> nat \<Rightarrow> OutboxRow \<Rightarrow> bool" where
  "delivery_fails deliver k r =
     (case deliver k (ob_event_id r) (ob_payload r) of Err (TransientError _) \<Rightarrow> True | _ \<Rightarrow> False)"

lemma deliver_rows_step:
  assumes "distinct (map ob_event_id rows)" "r \<in> set rows" "ob_published_at r = None"
  shows "\<exists>s'. deliver_rows now deliver policy k rows (r # rs) s =
    deliver_rows now deliver policy (Suc k)
      (event_update (ob_event_id r) (\<lambda>x. if x = r then row_after now deliver policy k r else x) rows) rs s'
    \<and> ps_delivered s' + ps_undeliverable s' + (if delivery_fails deliver k r then 1 else 0) =
        Suc (ps_delivered s + ps_undeliverable s)"
proof -
  have only: "event_update (ob_event_id r) f rows =
      event_update (ob_event_id r) (\<lambda>x. if x = r then f r else x) rows" for f
    unfolding event_update_def
    by (rule map_cong) (use assms(1,2) in \<open>auto simp: distinct_map dest: inj_onD\<close>)
  show ?thesis
  proof (cases "deliver k (ob_event_id r) (ob_payload r)")
    case (Ok u)
    then have after: "row_after now deliver policy k r = published_row now policy r"
      by (simp add: row_after_def)
    have "mark_published now policy rows (ob_event_id r) =
        event_update (ob_event_id r) (published_row now policy) rows"
      unfolding mark_published_def
      by (rule update_where_event [OF assms(1,2)]) (use assms(3) in auto)
    with Ok show ?thesis unfolding after only [of "published_row now policy", symmetric]
      by (intro exI [of _ "s\<lparr>ps_delivered := ps_delivered s + 1\<rparr>"]) (simp add: delivery_fails_def)
  next
    case (Err e)
    show ?thesis
    proof (cases e)
      case (TransientError reason)
      have after: "row_after now deliver policy k r = failed_row now (TransientError reason) r"
        using Err TransientError by (simp add: row_after_def)
      have "record_transient_failure now (TransientError reason) rows (ob_event_id r) =
          event_update (ob_event_id r) (failed_row now (TransientError reason)) rows"
        by (simp add: record_transient_failure_def update_where_def event_update_def)
      with Err TransientError show ?thesis
        unfolding after only [of "failed_row now (TransientError reason)", symmetric]
        by (intro exI [of _ "s\<lparr>ps_failed := ps_failed s + 1\<rparr>"]) (simp add: delivery_fails_def)
    next
      case (UndeliverableError c)
      have after: "row_after now deliver policy k r = undeliverable_row now c r"
        using Err UndeliverableError by (simp add: row_after_def)
      have "mark_undeliverable now c rows (ob_event_id r) =
          event_update (ob_event_id r) (undeliverable_row now c) rows"
        by (simp add: mark_undeliverable_def update_where_def event_update_def)
      with Err UndeliverableError show ?thesis
        unfolding after only [of "undeliverable_row now c", symmetric]
        by (intro exI [of _ "s\<lparr>ps_undeliverable := ps_undeliverable s + 1\<rparr>"]) (simp add: delivery_fails_def)
    qed
  qed
qed

text \<open>The rows a pass works on: distinct identifiers, all of the table, none published.\<close>

definition pass_ready :: "OutboxRow list \<Rightarrow> OutboxRow list \<Rightarrow> bool" where
  "pass_ready rows rs \<longleftrightarrow> distinct (map ob_event_id rows) \<and> distinct (map ob_event_id rs)
     \<and> set rs \<subseteq> set rows \<and> (\<forall>r \<in> set rs. ob_published_at r = None)"

lemma pass_ready_step:
  assumes "pass_ready rows (r # rs)" "ob_event_id y = ob_event_id r"
  shows "pass_ready (event_update (ob_event_id r) (\<lambda>x. if x = r then y else x) rows) rs"
proof -
  have "x \<in> set (event_update (ob_event_id r) (\<lambda>x. if x = r then y else x) rows)" if "x \<in> set rs" for x
  proof -
    from assms(1) that have "x \<in> set rows" "ob_event_id x \<noteq> ob_event_id r"
      by (auto simp: pass_ready_def) (metis imageI)
    then show ?thesis by (force simp: event_update_def)
  qed
  moreover have "map ob_event_id (event_update (ob_event_id r) (\<lambda>x. if x = r then y else x) rows) =
      map ob_event_id rows"
    by (rule ids_event_update) (use assms(2) in auto)
  ultimately show ?thesis using assms(1) by (auto simp: pass_ready_def)
qed

lemma deliver_rows_nth:
  assumes "pass_ready rows rs" "j < length rows"
  shows "(rows ! j \<notin> set rs \<longrightarrow> fst (deliver_rows now deliver policy k rows rs s) ! j = rows ! j)
    \<and> (\<forall>i < length rs. rs ! i = rows ! j \<longrightarrow>
        fst (deliver_rows now deliver policy k rows rs s) ! j = row_after now deliver policy (k + i) (rows ! j))"
  using assms
proof (induction rs arbitrary: rows k s)
  case Nil
  then show ?case by simp
next
  case (Cons r rs)
  let ?y = "row_after now deliver policy k r"
  let ?rows = "event_update (ob_event_id r) (\<lambda>x. if x = r then ?y else x) rows"
  have r: "r \<in> set rows" "ob_published_at r = None" "distinct (map ob_event_id rows)"
    using Cons.prems(1) by (auto simp: pass_ready_def)
  obtain s' where s': "deliver_rows now deliver policy k rows (r # rs) s =
      deliver_rows now deliver policy (Suc k) ?rows rs s'"
    using deliver_rows_step [OF r(3,1,2)] by blast
  have ready: "pass_ready ?rows rs" by (rule pass_ready_step [OF Cons.prems(1)]) simp
  note IH = Cons.IH [OF ready, of "Suc k" s', unfolded event_update_simps(1), OF Cons.prems(2)]
  have nth: "?rows ! j = (if rows ! j = r then ?y else rows ! j)"
    using Cons.prems(2) by simp
  have fresh: "?y \<notin> set rs" "r \<notin> set rs"
    using Cons.prems(1) by (auto simp: pass_ready_def) (metis imageI ob_event_id_row_updates(5))
  show ?case
  proof (cases "rows ! j = r")
    case True
    then have "fst (deliver_rows now deliver policy (Suc k) ?rows rs s') ! j = ?y"
      using IH nth fresh(1) by simp
    moreover have "i = 0" if "i < length (r # rs)" "(r # rs) ! i = rows ! j" for i
      using that True fresh(2) by (cases i) (auto simp: in_set_conv_nth)
    ultimately show ?thesis unfolding s' True
      by (metis True add_0_right list.set_intros(1))
  next
    case False
    then have eq: "?rows ! j = rows ! j" using nth by simp
    have "(r # rs) ! i = rows ! j \<Longrightarrow> i < length (r # rs) \<Longrightarrow>
        fst (deliver_rows now deliver policy (Suc k) ?rows rs s') ! j =
          row_after now deliver policy (k + i) (rows ! j)" for i
      using IH eq False by (cases i) auto
    moreover have "rows ! j \<notin> set (r # rs) \<Longrightarrow>
        fst (deliver_rows now deliver policy (Suc k) ?rows rs s') ! j = rows ! j"
      using IH eq by simp
    ultimately show ?thesis unfolding s' by blast
  qed
qed

lemma deliver_rows_total:
  "ps_delivered (snd (deliver_rows now deliver policy k rows rs s))
     + ps_undeliverable (snd (deliver_rows now deliver policy k rows rs s))
     + ps_failed (snd (deliver_rows now deliver policy k rows rs s))
   = ps_delivered s + ps_undeliverable s + ps_failed s + length rs"
  by (induction now deliver policy k rows rs s rule: deliver_rows.induct)
    (simp_all split: result.splits TransportError.splits)

lemma selected_rows_ready:
  assumes "distinct (map ob_event_id rows)"
  shows "pass_ready rows (selected_rows now batch rows)"
proof -
  let ?f = "filter (\<lambda>r. publishable r \<and> attempt_due now r) rows"
  let ?s = "sort_key (\<lambda>r. (ob_occurred_at r, ob_event_id r)) ?f"
  have "distinct (map ob_event_id ?f)"
    using assms by (simp add: distinct_map_filter)
  moreover have "mset (map ob_event_id ?s) = mset (map ob_event_id ?f)" by simp
  ultimately have "distinct (map ob_event_id ?s)"
    by (metis mset_eq_imp_distinct_iff)
  then have "distinct (map ob_event_id (take batch ?s))"
    by (simp add: take_map [symmetric])
  moreover have "set (take batch ?s) \<subseteq> set ?f"
    using set_take_subset [of batch ?s] by simp
  ultimately show ?thesis
    using assms by (auto simp: pass_ready_def selected_rows_def publishable_def)
qed

lemma resend_rows_untouched:
  assumes "\<forall>r \<in> set rs. ob_event_id r \<noteq> ob_event_id (rows ! j)" "j < length rows"
  shows "fst (resend_rows now deliver policy k rows rs n) ! j = rows ! j"
  using assms
proof (induction rs arbitrary: rows k n)
  case Nil
  then show ?case by simp
next
  case (Cons r rs)
  have same: "update_where (\<lambda>x. ob_event_id x = ob_event_id r \<and> P x) f rows ! j = rows ! j" for P f
    using Cons.prems by (auto simp: update_where_def)
  then have "update_where (\<lambda>x. ob_event_id x = ob_event_id r) f rows ! j = rows ! j" for f
    using same [of "\<lambda>_. True"] by simp
  with same Cons show ?case
    by (auto simp: record_resend_def record_transient_failure_def split: result.splits)
qed

lemma resend_due_rows_props:
  assumes "x \<in> set (resend_due_rows now batch rows)"
  shows "x \<in> set rows" "ob_type x = SourceRemoved" "ob_published_at x \<noteq> None" "ob_acknowledged_at x = None"
    "\<exists>t \<le> now. ob_next_resend_at x = Some t"
  using in_set_takeD [OF assms [unfolded resend_due_rows_def]] by (auto split: option.splits)

lemma row_after_not_resend_due:
  assumes "ob_published_at r = None" "0 < resend_after policy"
  shows "row_after now deliver policy k r \<notin> set (resend_due_rows now batch rows)"
proof
  assume "row_after now deliver policy k r \<in> set (resend_due_rows now batch rows)"
  from resend_due_rows_props(2,3,5) [OF this] assms show False
    by (auto simp: row_after_def published_row_def undeliverable_row_def failed_row_def
        split: result.splits TransportError.splits if_splits)
qed

lemma fst_run_once:
  "fst (run_once now deliver batch policy rows) =
     (let chosen = selected_rows now batch rows;
          d = deliver_rows now deliver policy 0 rows chosen empty_summary
      in if ps_failed (snd d) = 0
         then fst (resend_due now deliver batch policy (length chosen) (fst d)) else fst d)"
  by (simp add: run_once_def Let_def split: prod.splits)

lemma ids_deliver_rows:
  "map ob_event_id (fst (deliver_rows now deliver policy k rows rs s)) = map ob_event_id rows"
proof -
  have "map ob_event_id xs = map fst (map fact_columns xs)" for xs
    by (simp add: fact_columns_def comp_def)
  then show ?thesis by (simp only: deliver_rows_keeps_facts)
qed

lemma run_once_nth:
  assumes "distinct (map ob_event_id rows)" "j < length rows"
    and "fst (deliver_rows now deliver policy 0 rows (selected_rows now batch rows) empty_summary) ! j = y"
    and "\<And>rows'. y \<notin> set (resend_due_rows now batch rows')"
  shows "fst (run_once now deliver batch policy rows) ! j = y"
proof -
  define rows1 where "rows1 = fst (deliver_rows now deliver policy 0 rows (selected_rows now batch rows) empty_summary)"
  have ids: "map ob_event_id rows1 = map ob_event_id rows"
    unfolding rows1_def by (rule ids_deliver_rows)
  then have len: "j < length rows1" using assms(2) by (metis length_map)
  have y: "rows1 ! j = y" using assms(3) by (simp add: rows1_def)
  have "ob_event_id x \<noteq> ob_event_id (rows1 ! j)" if "x \<in> set (resend_due_rows now batch rows1)" for x
  proof
    assume "ob_event_id x = ob_event_id (rows1 ! j)"
    moreover have "distinct (map ob_event_id rows1)" using ids assms(1) by simp
    ultimately have "x = rows1 ! j"
      using resend_due_rows_props(1) [OF that] len by (meson distinct_map inj_onD nth_mem)
    with that assms(4) y show False by simp
  qed
  then have "fst (resend_due now deliver batch policy k rows1) ! j = y" for k
    unfolding resend_due_def y [symmetric] by (intro resend_rows_untouched len) blast
  then show ?thesis using y by (simp add: fst_run_once Let_def rows1_def)
qed

lemma publisher_pass_outcome_row:
  assumes "distinct (map ob_event_id rows)" "0 < resend_after policy"
    and "j < length rows" "i < length (selected_rows now batch rows)"
    and "selected_rows now batch rows ! i = rows ! j"
  shows "fst (run_once now deliver batch policy rows) ! j = row_after now deliver policy i (rows ! j)"
proof (rule run_once_nth [OF assms(1,3)])
  have ready: "pass_ready rows (selected_rows now batch rows)" by (rule selected_rows_ready [OF assms(1)])
  then show "fst (deliver_rows now deliver policy 0 rows (selected_rows now batch rows) empty_summary) ! j
      = row_after now deliver policy i (rows ! j)"
    using deliver_rows_nth [OF ready assms(3)] assms(4,5) by simp
  from ready assms(4,5) have "ob_published_at (rows ! j) = None"
    by (metis nth_mem pass_ready_def)
  then show "row_after now deliver policy i (rows ! j) \<notin> set (resend_due_rows now batch rows')" for rows'
    by (rule row_after_not_resend_due [OF _ assms(2)])
qed

text \<open>
  C23. One publisher pass: the \<open>i\<close>-th claimed row is delivered by the \<open>i\<close>-th call of the transport and
  becomes exactly what that answer says (published, undeliverable, or backed off), whatever the other
  deliveries of the pass answer; in particular a failing row never prevents a later row of the batch
  from being delivered.
\<close>
theorem publisher_pass_outcome:
  assumes "distinct (map ob_event_id rows)" "0 < resend_after policy"
    and "j < length rows" "i < length (selected_rows now batch rows)"
    and "selected_rows now batch rows ! i = rows ! j"
  shows "fst (run_once now deliver batch policy rows) ! j = row_after now deliver policy i (rows ! j)"
  by (rule publisher_pass_outcome_row [OF assms])

text \<open>A two-row table whose older row the transport always refuses.\<close>

definition sample_fact :: "nat \<Rightarrow> instant \<Rightarrow> OutboxRow" where
  "sample_fact n at = outbox_row (Uuid 7 (word_of_nat n)) SourceRemoved AggCapture (Uuid 1 1) (Uuid 2 2)
     (RemovalPayload (Uuid 3 3) UserRequested at) (Uuid 4 4) None at"

definition refusing_first :: transport where
  "refusing_first k i p = (if i = Uuid 7 0 then Err (TransientError ''bus down'') else Ok ())"

lemma sample_selection:
  "selected_rows 100 10 [sample_fact 0 5, sample_fact 1 6] = [sample_fact 0 5, sample_fact 1 6]"
  by code_simp

theorem publisher_pass_outcome_witness:
  "fst (run_once 100 refusing_first 10 default_resend_policy [sample_fact 0 5, sample_fact 1 6]) ! 1 =
     published_row 100 default_resend_policy (sample_fact 1 6)"
proof -
  have "fst (run_once 100 refusing_first 10 default_resend_policy [sample_fact 0 5, sample_fact 1 6]) ! 1 =
      row_after 100 refusing_first default_resend_policy 1 ([sample_fact 0 5, sample_fact 1 6] ! 1)"
    by (rule publisher_pass_outcome)
      (unfold sample_selection, simp_all add: default_resend_policy_def seconds_def sample_fact_def)
  then show ?thesis by (simp add: row_after_def refusing_first_def sample_fact_def)
qed

lemma failed_row_not_due:
  "now' < now + seconds 60 \<Longrightarrow> \<not> attempt_due now' (failed_row now e r)"
  by (simp add: attempt_due_def failed_row_def)

lemma selected_rows_subset: "x \<in> set (selected_rows now batch rows) \<Longrightarrow> x \<in> set rows \<and> publishable x \<and> attempt_due now x"
  unfolding selected_rows_def by (drule in_set_takeD) simp

lemma ids_run_once: "map ob_event_id (fst (run_once now deliver batch policy rows)) = map ob_event_id rows"
proof -
  have "map ob_event_id xs = map fst (map fact_columns xs)" for xs
    by (simp add: fact_columns_def comp_def)
  then show ?thesis by (simp only: run_once_keeps_facts)
qed

text \<open>
  A row whose delivery failed transiently waits at least sixty seconds: no pass before that selects
  it again, so the next passes spend their batch on the rows behind it instead of retrying the oldest
  failure for ever.
\<close>
theorem failed_row_leaves_the_head:
  assumes "distinct (map ob_event_id rows)" "0 < resend_after policy"
    and "j < length rows" "i < length (selected_rows now batch rows)"
    and "selected_rows now batch rows ! i = rows ! j"
    and "deliver i (ob_event_id (rows ! j)) (ob_payload (rows ! j)) = Err (TransientError reason)"
    and "now' < now + seconds 60"
  shows "ob_event_id (rows ! j) \<notin>
    ob_event_id ` set (selected_rows now' batch' (fst (run_once now deliver batch policy rows)))"
proof
  let ?rows = "fst (run_once now deliver batch policy rows)"
  assume "ob_event_id (rows ! j) \<in> ob_event_id ` set (selected_rows now' batch' ?rows)"
  then obtain x where x: "x \<in> set ?rows" "attempt_due now' x" "ob_event_id x = ob_event_id (rows ! j)"
    by (auto dest: selected_rows_subset)
  have j: "?rows ! j = failed_row now (TransientError reason) (rows ! j)"
    using publisher_pass_outcome_row [OF assms(1-5)] assms(6) by (simp add: row_after_def)
  have "distinct (map ob_event_id ?rows)" "j < length ?rows"
    using assms(1,3) ids_run_once [of now deliver batch policy rows] by (simp, metis length_map)
  moreover have "ob_event_id (?rows ! j) = ob_event_id (rows ! j)" by (simp add: j)
  ultimately have "x = ?rows ! j"
    using x(1,3) by (metis distinct_map inj_onD nth_mem)
  with x(2) j failed_row_not_due [OF assms(7)] show False by simp
qed

theorem failed_row_leaves_the_head_witness:
  "Uuid 7 0 \<notin> ob_event_id ` set (selected_rows (seconds 30) 10
     (fst (run_once 100 refusing_first 10 default_resend_policy [sample_fact 0 5, sample_fact 1 6])))"
proof -
  let ?rows = "[sample_fact 0 5, sample_fact 1 6]"
  have "ob_event_id (?rows ! 0) \<notin> ob_event_id ` set (selected_rows (seconds 30) 10
     (fst (run_once 100 refusing_first 10 default_resend_policy ?rows)))"
    by (rule failed_row_leaves_the_head [where i = 0 and reason = "''bus down''"])
      (unfold sample_selection, simp_all add: default_resend_policy_def seconds_def sample_fact_def refusing_first_def)
  then show ?thesis by (simp add: sample_fact_def)
qed

section \<open>Accounting\<close>

definition open_rows :: "OutboxRow list \<Rightarrow> nat" where
  "open_rows rows = length (filter publishable rows)"

lemma open_rows_event_update:
  assumes "distinct (map ob_event_id rows)" "r \<in> set rows" "publishable r"
  shows "open_rows (event_update (ob_event_id r) (\<lambda>x. if x = r then y else x) rows) + 1 =
    open_rows rows + (if publishable y then 1 else 0)"
proof -
  obtain as bs where rows: "rows = as @ r # bs" using assms(2) by (auto simp: in_set_conv_decomp)
  have other: "map (\<lambda>x. if ob_event_id x = ob_event_id r then if x = r then y else x else x) xs = xs"
    if "set xs \<subseteq> set as \<union> set bs" for xs
    by (rule map_idI) (use that assms(1) rows in auto)
  then show ?thesis using assms(3) by (simp add: rows open_rows_def event_update_def)
qed

lemma publishable_row_after:
  "publishable r \<Longrightarrow> publishable (row_after now deliver policy k r) \<longleftrightarrow> delivery_fails deliver k r"
  by (auto simp: row_after_def publishable_def published_row_def undeliverable_row_def failed_row_def
      delivery_fails_def split: result.splits TransportError.splits)

lemma deliver_rows_open:
  assumes "pass_ready rows rs" "\<forall>r \<in> set rs. publishable r"
  shows "open_rows (fst (deliver_rows now deliver policy k rows rs s))
      + ps_delivered (snd (deliver_rows now deliver policy k rows rs s))
      + ps_undeliverable (snd (deliver_rows now deliver policy k rows rs s))
    = open_rows rows + ps_delivered s + ps_undeliverable s"
  using assms
proof (induction rs arbitrary: rows k s)
  case Nil
  then show ?case by simp
next
  case (Cons r rs)
  let ?rows = "event_update (ob_event_id r) (\<lambda>x. if x = r then row_after now deliver policy k r else x) rows"
  have r: "distinct (map ob_event_id rows)" "r \<in> set rows" "publishable r" "ob_published_at r = None"
    using Cons.prems by (auto simp: pass_ready_def)
  obtain s' where s': "deliver_rows now deliver policy k rows (r # rs) s =
      deliver_rows now deliver policy (Suc k) ?rows rs s'"
    and n: "ps_delivered s' + ps_undeliverable s' + (if delivery_fails deliver k r then 1 else 0) =
        Suc (ps_delivered s + ps_undeliverable s)"
    using deliver_rows_step [OF r(1,2,4)] by blast
  have o: "open_rows ?rows + 1 = open_rows rows + (if delivery_fails deliver k r then 1 else 0)"
    using open_rows_event_update [OF r(1-3)] by (simp add: publishable_row_after [OF r(3)])
  have "pass_ready ?rows rs" by (rule pass_ready_step [OF Cons.prems(1)]) simp
  from Cons.IH [OF this, of "Suc k" s'] Cons.prems(2) n o show ?case
    unfolding s' by (simp split: if_splits)
qed

lemma open_rows_same: "(\<And>r. P r \<Longrightarrow> publishable (f r) = publishable r) \<Longrightarrow> open_rows (update_where P f rows) = open_rows rows"
  by (induction rows) (auto simp: open_rows_def)

lemma resend_rows_open: "open_rows (fst (resend_rows now deliver policy k rows rs n)) = open_rows rows"
proof -
  have "open_rows (record_resend now policy rows i) = open_rows rows" for rows i
    unfolding record_resend_def by (rule open_rows_same) (simp add: publishable_def resent_row_def)
  moreover have "open_rows (record_transient_failure now e rows i) = open_rows rows" for e rows i
    unfolding record_transient_failure_def by (rule open_rows_same) (simp add: publishable_def failed_row_def)
  ultimately show ?thesis
    by (induction now deliver policy k rows rs n rule: resend_rows.induct) (auto split: result.splits)
qed

lemma snd_run_once:
  "ps_delivered (snd (run_once now deliver batch policy rows)) =
     ps_delivered (snd (deliver_rows now deliver policy 0 rows (selected_rows now batch rows) empty_summary))"
  "ps_undeliverable (snd (run_once now deliver batch policy rows)) =
     ps_undeliverable (snd (deliver_rows now deliver policy 0 rows (selected_rows now batch rows) empty_summary))"
  "ps_failed (snd (run_once now deliver batch policy rows)) =
     ps_failed (snd (deliver_rows now deliver policy 0 rows (selected_rows now batch rows) empty_summary))"
  "ps_remaining (snd (run_once now deliver batch policy rows)) =
     open_rows (fst (run_once now deliver batch policy rows))"
  by (simp_all add: run_once_def Let_def open_rows_def split: prod.splits)

text \<open>
  The summary of a pass accounts for every row: each selected row is delivered, undeliverable or
  failed, and the rows still to be published are exactly those of before less the ones this pass
  delivered or set aside as undeliverable. Republishing removals moves none of these counts.
\<close>
theorem publisher_pass_accounts:
  assumes "distinct (map ob_event_id rows)"
  shows "ps_delivered (snd (run_once now deliver batch policy rows))
       + ps_undeliverable (snd (run_once now deliver batch policy rows))
       + ps_failed (snd (run_once now deliver batch policy rows)) = length (selected_rows now batch rows)
     \<and> ps_remaining (snd (run_once now deliver batch policy rows))
       + ps_delivered (snd (run_once now deliver batch policy rows))
       + ps_undeliverable (snd (run_once now deliver batch policy rows)) = length (filter publishable rows)"
proof
  let ?d = "deliver_rows now deliver policy 0 rows (selected_rows now batch rows) empty_summary"
  show "ps_delivered (snd (run_once now deliver batch policy rows))
       + ps_undeliverable (snd (run_once now deliver batch policy rows))
       + ps_failed (snd (run_once now deliver batch policy rows)) = length (selected_rows now batch rows)"
    unfolding snd_run_once deliver_rows_total by (simp add: empty_summary_def)
  have "open_rows (fst (run_once now deliver batch policy rows)) = open_rows (fst ?d)"
    by (simp add: fst_run_once Let_def resend_due_def resend_rows_open)
  moreover have "open_rows (fst ?d) + ps_delivered (snd ?d) + ps_undeliverable (snd ?d) = open_rows rows"
    using deliver_rows_open [OF selected_rows_ready [OF assms]] selected_rows_subset
    by (simp add: empty_summary_def)
  ultimately show "ps_remaining (snd (run_once now deliver batch policy rows))
       + ps_delivered (snd (run_once now deliver batch policy rows))
       + ps_undeliverable (snd (run_once now deliver batch policy rows)) = length (filter publishable rows)"
    unfolding snd_run_once by (simp add: open_rows_def)
qed

theorem publisher_pass_accounts_witness:
  "ps_remaining (snd (run_once 100 refusing_first 10 default_resend_policy [sample_fact 0 5, sample_fact 1 6])) = 1"
proof -
  have d: "distinct (map ob_event_id [sample_fact 0 5, sample_fact 1 6])" by (simp add: sample_fact_def)
  have "ps_delivered (snd (run_once 100 refusing_first 10 default_resend_policy [sample_fact 0 5, sample_fact 1 6])) = 1"
    "ps_undeliverable (snd (run_once 100 refusing_first 10 default_resend_policy [sample_fact 0 5, sample_fact 1 6])) = 0"
    by code_simp+
  with conjunct2 [OF publisher_pass_accounts [OF d, of 100 refusing_first 10 default_resend_policy]]
  show ?thesis by (simp add: sample_fact_def publishable_def outbox_row_def)
qed

section \<open>Removals until acknowledged\<close>

definition ack_columns :: "OutboxRow \<Rightarrow> uuid \<times> instant option \<times> AckOutcome option" where
  "ack_columns r = (ob_event_id r, ob_acknowledged_at r, ob_ack_outcome r)"

interpretation published_ack: key_preserving ack_columns "published_row now policy" for now policy
  by unfold_locales (simp add: ack_columns_def published_row_def)

interpretation undeliverable_ack: key_preserving ack_columns "undeliverable_row now c" for now c
  by unfold_locales (simp add: ack_columns_def undeliverable_row_def)

interpretation failed_ack: key_preserving ack_columns "failed_row now error" for now error
  by unfold_locales (simp add: ack_columns_def failed_row_def)

interpretation resent_ack: key_preserving ack_columns "resent_row now policy" for now policy
  by unfold_locales (simp add: ack_columns_def resent_row_def)

lemmas ack_columns_kept = published_ack.map_key_update undeliverable_ack.map_key_update
  failed_ack.map_key_update resent_ack.map_key_update

lemma deliver_rows_keeps_acks:
  "map ack_columns (fst (deliver_rows now deliver policy k rows rs s)) = map ack_columns rows"
  by (induction now deliver policy k rows rs s rule: deliver_rows.induct)
    (auto simp: mark_published_def mark_undeliverable_def record_transient_failure_def ack_columns_kept
      split: result.splits TransportError.splits)

lemma resend_rows_keeps_acks:
  "map ack_columns (fst (resend_rows now deliver policy k rows rs n)) = map ack_columns rows"
  by (induction now deliver policy k rows rs n rule: resend_rows.induct)
    (auto simp: record_resend_def record_transient_failure_def ack_columns_kept split: result.splits)

lemma run_once_keeps_acks:
  "map ack_columns (fst (run_once now deliver batch policy rows)) = map ack_columns rows"
  by (simp add: fst_run_once Let_def resend_due_def deliver_rows_keeps_acks resend_rows_keeps_acks)

text \<open>A sequence of publisher passes, each with its own instant, transport and batch.\<close>

fun run_passes :: "(instant \<times> transport \<times> nat) list \<Rightarrow> ResendPolicy \<Rightarrow> OutboxRow list \<Rightarrow> OutboxRow list" where
  "run_passes [] policy rows = rows"
| "run_passes ((now, deliver, batch) # ps) policy rows =
     run_passes ps policy (fst (run_once now deliver batch policy rows))"

lemma run_passes_keeps_acks: "map ack_columns (run_passes ps policy rows) = map ack_columns rows"
  by (induction ps policy rows rule: run_passes.induct) (simp_all add: run_once_keeps_acks)

lemma run_passes_keeps_facts: "map fact_columns (run_passes ps policy rows) = map fact_columns rows"
  by (induction ps policy rows rule: run_passes.induct) (simp_all add: run_once_keeps_facts)

lemma acknowledge_twice:
  assumes "acknowledge now rows e tenant oc = (rows1, b)"
  shows "acknowledge now' rows1 e tenant oc' = (rows1, False)"
proof -
  have rows1: "rows1 = update_where (ack_matches e tenant) (acknowledged_row now oc) rows"
    using assms by (simp add: acknowledge_def)
  have "\<not> ack_matches e tenant (if ack_matches e tenant x then acknowledged_row now oc x else x)" for x
    by (simp add: ack_matches_def acknowledged_row_def)
  then have none: "\<not> ack_matches e tenant r" if "r \<in> set rows1" for r
    using that by (fastforce simp only: rows1 set_update_where image_iff)
  then show ?thesis
    by (simp add: acknowledge_def update_where_none rows_affected_def filter_empty_conv)
qed

text \<open>
  An acknowledged removal is settled for good: after the acknowledgement that matched, every
  further acknowledgement of that event changes nothing and reports \<^verbatim>\<open>false\<close>, and no publisher pass,
  after any sequence of passes, ever selects the event for republication again.
\<close>
theorem acknowledged_removal_is_settled:
  assumes "acknowledge now rows e tenant oc = (rows1, True)" "distinct (map ob_event_id rows)"
  shows "acknowledge now' rows1 e tenant oc' = (rows1, False)
    \<and> e \<notin> ob_event_id ` set (resend_due_rows later batch (run_passes passes policy rows1))"
proof
  show "acknowledge now' rows1 e tenant oc' = (rows1, False)" by (rule acknowledge_twice [OF assms(1)])
  have rows1: "rows1 = update_where (ack_matches e tenant) (acknowledged_row now oc) rows"
    and one: "rows_affected (ack_matches e tenant) rows = 1"
    using assms(1) by (auto simp: acknowledge_def)
  from one obtain r where "r \<in> set rows" "ack_matches e tenant r"
    by (metis One_nat_def filter_False length_0_conv rows_affected_def zero_neq_one)
  then have "acknowledged_row now oc r \<in> set rows1" "ob_event_id r = e"
    unfolding rows1 set_update_where by (metis (mono_tags, lifting) imageI, simp add: ack_matches_def)
  then have hit: "(e, Some now, Some oc) \<in> set (map ack_columns rows1)"
    unfolding set_map by (intro image_eqI [where x = "acknowledged_row now oc r"])
      (simp_all add: ack_columns_def acknowledged_row_def)
  have "map fst (map ack_columns rows1) = map ob_event_id rows"
    by (simp add: rows1 ack_columns_def comp_def update_where_def acknowledged_row_def)
  then have d: "distinct (map fst (map ack_columns rows1))" using assms(2) by metis
  show "e \<notin> ob_event_id ` set (resend_due_rows later batch (run_passes passes policy rows1))"
  proof
    assume "e \<in> ob_event_id ` set (resend_due_rows later batch (run_passes passes policy rows1))"
    then obtain x where x: "x \<in> set (run_passes passes policy rows1)" "ob_acknowledged_at x = None" "ob_event_id x = e"
      by (auto dest: resend_due_rows_props)
    then have "(e, None, ob_ack_outcome x) \<in> set (map ack_columns (run_passes passes policy rows1))"
      by (force simp: ack_columns_def)
    then have "(e, None, ob_ack_outcome x) \<in> set (map ack_columns rows1)"
      by (simp only: run_passes_keeps_acks)
    with hit d show False by (meson eq_key_imp_eq_value option.distinct(1) prod.inject)
  qed
qed

theorem acknowledged_removal_is_settled_witness:
  "Uuid 7 0 \<notin> ob_event_id ` set (resend_due_rows (seconds 9000) 10
     (run_passes [(200, refusing_first, 5)] default_resend_policy
       (fst (acknowledge 100 [sample_fact 0 5, sample_fact 1 6] (Uuid 7 0) (Uuid 2 2) Applied))))"
proof -
  let ?rows = "[sample_fact 0 5, sample_fact 1 6]"
  have "snd (acknowledge 100 ?rows (Uuid 7 0) (Uuid 2 2) Applied)" by code_simp
  then have a: "acknowledge 100 ?rows (Uuid 7 0) (Uuid 2 2) Applied =
      (fst (acknowledge 100 ?rows (Uuid 7 0) (Uuid 2 2) Applied), True)" by (metis (full_types) prod.collapse)
  show ?thesis
    by (rule conjunct2 [OF acknowledged_removal_is_settled [OF a]]) (simp add: sample_fact_def)
qed

section \<open>Resend schedule and health\<close>

text \<open>
  The republication delay of an unacknowledged removal doubles with every resend from
  \<^verbatim>\<open>resend_after\<close> and never exceeds \<^verbatim>\<open>resend_cap\<close>: it is the pure exponential up to the thirtieth
  doubling and the cap once that passes it; under the default policy the delays start at ten
  minutes and are six hours from the sixth doubling on.
\<close>
theorem resend_delay_schedule:
  "resend_delay policy n \<le> resend_cap policy
   \<and> (resend_delay policy n = resend_cap policy \<or> resend_delay policy n = resend_after policy * 2 ^ min n 30)
   \<and> resend_delay default_resend_policy 0 = seconds 600
   \<and> resend_delay default_resend_policy 5 = seconds 19200
   \<and> resend_delay default_resend_policy (6 + n) = seconds 21600"
proof -
  have "(2::int) ^ 6 \<le> 2 ^ min (6 + n) 30"
    by (intro power_increasing) auto
  then have "seconds 21600 \<le> seconds 600 * 2 ^ min (6 + n) 30" by (simp add: seconds_def)
  then show ?thesis
    by (auto simp: resend_delay_def default_resend_policy_def seconds_def min_def)
qed

lemma publisher_health_waiting:
  "list_all (\<lambda>s. ps_verdict s = Waiting) ss \<Longrightarrow> publisher_health b ss = b"
  by (induction ss) (auto simp: publisher_health_def)

text \<open>
  The recorded health is the last conclusive verdict: passes that could not tell leave it as it
  was, however many there are, so backing off never reads as recovery.
\<close>
theorem publisher_health_is_last_conclusive:
  assumes "list_all (\<lambda>s. ps_verdict s = Waiting) later"
  shows "publisher_health failing (earlier @ later) = publisher_health failing earlier
    \<and> publisher_health failing (earlier @ x # later) =
        (case ps_verdict x of Failing \<Rightarrow> True | Healthy \<Rightarrow> False | Waiting \<Rightarrow> publisher_health failing earlier)"
  using publisher_health_waiting [OF assms]
  by (simp add: publisher_health_def split: PassVerdict.splits)

theorem publisher_health_is_last_conclusive_witness:
  "publisher_health False ([] @ empty_summary\<lparr>ps_verdict := Failing\<rparr> # [empty_summary\<lparr>ps_verdict := Waiting\<rparr>])"
  using publisher_health_is_last_conclusive [of "[empty_summary\<lparr>ps_verdict := Waiting\<rparr>]" False "[]"
      "empty_summary\<lparr>ps_verdict := Failing\<rparr>"]
  by simp

section \<open>Draining\<close>

definition all_due :: "instant \<Rightarrow> OutboxRow list \<Rightarrow> bool" where
  "all_due now rows = list_all (\<lambda>r. publishable r \<longrightarrow> attempt_due now r) rows"

lemma all_due_update:
  "(\<And>r. P r \<Longrightarrow> publishable (f r) \<Longrightarrow> publishable r \<and> ob_next_attempt_at (f r) = ob_next_attempt_at r) \<Longrightarrow>
   all_due now rows \<Longrightarrow> all_due now (update_where P f rows)"
  by (induction rows) (auto simp: all_due_def attempt_due_def)

lemma all_due_marks:
  assumes "all_due now rows"
  shows "all_due now (mark_published now policy rows i)" "all_due now (record_resend now policy rows i)"
  unfolding mark_published_def record_resend_def
  by (rule all_due_update [OF _ assms], simp add: publishable_def published_row_def resent_row_def)+

lemma deliver_rows_accepting:
  assumes "\<And>k i p. deliver k i p = Ok ()" "all_due now rows"
  shows "all_due now (fst (deliver_rows now deliver policy k rows rs s))
    \<and> ps_failed (snd (deliver_rows now deliver policy k rows rs s)) = ps_failed s
    \<and> ps_undeliverable (snd (deliver_rows now deliver policy k rows rs s)) = ps_undeliverable s"
  using assms by (induction rs arbitrary: k rows s) (simp_all add: all_due_marks)

lemma resend_rows_accepting:
  assumes "\<And>k i p. deliver k i p = Ok ()" "all_due now rows"
  shows "all_due now (fst (resend_rows now deliver policy k rows rs n))"
  using assms by (induction rs arbitrary: k rows n) (simp_all add: all_due_marks)

lemma run_once_accepting:
  assumes "\<And>k i p. deliver k i p = Ok ()" "all_due now rows" "distinct (map ob_event_id rows)"
  shows "all_due now (fst (run_once now deliver batch policy rows))"
    and "open_rows (fst (run_once now deliver batch policy rows)) = open_rows rows - batch"
proof -
  let ?d = "deliver_rows now deliver policy 0 rows (selected_rows now batch rows) empty_summary"
  note d = deliver_rows_accepting [of deliver, OF assms(1,2), of policy 0 "selected_rows now batch rows" empty_summary]
  show "all_due now (fst (run_once now deliver batch policy rows))"
    using d resend_rows_accepting [of deliver, OF assms(1)]
    by (simp add: fst_run_once Let_def resend_due_def)
  have "filter (\<lambda>r. publishable r \<and> attempt_due now r) rows = filter publishable rows"
    using assms(2) by (intro filter_cong) (auto simp: all_due_def list_all_iff)
  then have "length (selected_rows now batch rows) = min batch (open_rows rows)"
    by (simp add: selected_rows_def open_rows_def min.commute)
  moreover have "ps_delivered (snd ?d) = length (selected_rows now batch rows)"
    using deliver_rows_total [of now deliver policy 0 rows "selected_rows now batch rows" empty_summary] d
    by (simp add: empty_summary_def)
  moreover have "open_rows (fst ?d) + ps_delivered (snd ?d) + ps_undeliverable (snd ?d) = open_rows rows"
    using deliver_rows_open [OF selected_rows_ready [OF assms(3)]] selected_rows_subset
    by (simp add: empty_summary_def)
  ultimately show "open_rows (fst (run_once now deliver batch policy rows)) = open_rows rows - batch"
    using d by (simp add: fst_run_once Let_def resend_due_def resend_rows_open empty_summary_def)
qed

text \<open>
  A publisher whose transport accepts drains the outbox: with every open row due, \<open>n\<close> passes of a
  batch publish \<open>n\<close> batches, so after enough passes no open row remains.
\<close>
theorem publisher_drains_outbox:
  assumes "\<And>k i p. deliver k i p = Ok ()"
    and "list_all (\<lambda>r. publishable r \<longrightarrow> attempt_due now r) rows" "distinct (map ob_event_id rows)"
  shows "length (filter publishable (run_passes (replicate n (now, deliver, batch)) policy rows)) =
    length (filter publishable rows) - n * batch"
proof -
  have "open_rows (run_passes (replicate n (now, deliver, batch)) policy rows) = open_rows rows - n * batch"
    using assms(2,3) unfolding all_due_def [symmetric]
  proof (induction n arbitrary: rows)
    case (Suc n)
    note step = run_once_accepting [of deliver, OF assms(1) Suc.prems, of batch policy]
    have "distinct (map ob_event_id (fst (run_once now deliver batch policy rows)))"
      using Suc.prems(2) by (simp add: ids_run_once)
    from Suc.IH [OF step(1) this] step(2) show ?case by simp
  qed simp
  then show ?thesis by (simp add: open_rows_def)
qed

theorem publisher_drains_outbox_witness:
  "filter publishable (run_passes (replicate 2 (100, \<lambda>k i p. Ok (), 1)) default_resend_policy
     [sample_fact 0 5, sample_fact 1 6]) = []"
proof -
  have "length (filter publishable (run_passes (replicate 2 (100, \<lambda>k i p. Ok (), 1)) default_resend_policy
      [sample_fact 0 5, sample_fact 1 6])) = length (filter publishable [sample_fact 0 5, sample_fact 1 6]) - 2 * 1"
    by (rule publisher_drains_outbox) (simp_all add: sample_fact_def attempt_due_def outbox_row_def)
  then show ?thesis by (simp add: sample_fact_def publishable_def outbox_row_def)
qed

text \<open>
  The fact an outbox row states never changes: whatever passes run and however the transport
  answers, no row is added, dropped or reordered, and its identifier, type, aggregate, tenant, payload
  and instant stay as appended.
\<close>
theorem publisher_never_rewrites_facts:
  "map fact_columns (run_passes passes policy rows) = map fact_columns rows"
  by (rule run_passes_keeps_facts)

end
