(* ===== verification/Capture_Pipeline.thy ===== *)
theory Capture_Pipeline
  imports Capture_Resolution Command_Capture Outbox
begin

text \<open>
  The capture pipeline as one transition system: every transaction of intake, ingestion, removal,
  resolution, reporting and publication is a step on the shared tables, in any order and any
  interleaving. The invariants say that operations are reported exactly once and refused commands answered
  exactly once, that a user holds at most one capture of a permalink, and that identifiers are never reused.
\<close>

section \<open>What the invariant reads\<close>

definition cap_key_of :: "CaptureRow \<Rightarrow> uuid \<times> uuid \<times> rstr" where
  "cap_key_of c = (cap_id c, cap_user c, cap_url c)"

definition op_key :: "OperationRow \<Rightarrow> uuid \<times> bool" where
  "op_key r = (op_id r, op_reported_at r \<noteq> None)"

text \<open>The operation a row reports as concluded, for the reports that belong to a capture.\<close>

definition terminal_of :: "OutboxRow \<Rightarrow> uuid option" where
  "terminal_of r =
     (case ob_payload r of
        ReportPayload p \<Rightarrow> if ob_agg_type r = AggCapture \<and> is_terminal_report p then Some (report_operation p) else None
      | _ \<Rightarrow> None)"

definition terminal_ops :: "OutboxRow list \<Rightarrow> uuid list" where
  "terminal_ops rows = List.map_filter terminal_of rows"

definition reported_ops :: "OperationRow list \<Rightarrow> uuid list" where
  "reported_ops ops = map op_id (filter (\<lambda>r. op_reported_at r \<noteq> None) ops)"

definition outbox_key :: "OutboxRow \<Rightarrow> uuid \<times> uuid option" where
  "outbox_key r = (ob_event_id r, terminal_of r)"

lemma terminal_ops_key: "terminal_ops rows = List.map_filter snd (map outbox_key rows)"
  by (simp add: terminal_ops_def List.map_filter_def comp_def filter_map outbox_key_def)

lemma map_filter_append: "List.map_filter f (xs @ ys) = List.map_filter f xs @ List.map_filter f ys"
  by (simp add: List.map_filter_def)

lemma reported_ops_key: "reported_ops ops = map fst (filter snd (map op_key ops))"
  by (induction ops) (auto simp: reported_ops_def op_key_def)

definition minted_before :: "env \<Rightarrow> nat \<Rightarrow> uuid set" where
  "minted_before E n = e_now_v7 E ` {..<n}"

record pipeline_view =
  v_captures :: "(uuid \<times> uuid \<times> rstr) list"
  v_operations :: "(uuid \<times> bool) list"
  v_outbox :: "(uuid \<times> uuid option) list"
  v_minted :: nat

definition view_of :: "archive \<Rightarrow> pipeline_view" where
  "view_of db = \<lparr>v_captures = map cap_key_of (captures db), v_operations = map op_key (operations db),
     v_outbox = map outbox_key (outbox db), v_minted = minted db\<rparr>"

definition view_inv :: "env \<Rightarrow> pipeline_view \<Rightarrow> bool" where
  "view_inv E v \<longleftrightarrow>
     distinct (map fst (v_operations v))
     \<and> mset (List.map_filter snd (v_outbox v)) = mset (map fst (filter snd (v_operations v)))
     \<and> distinct (map snd (v_captures v))
     \<and> distinct (map fst (v_captures v)) \<and> fst ` set (v_captures v) \<subseteq> minted_before E (v_minted v)
     \<and> distinct (map fst (v_outbox v)) \<and> fst ` set (v_outbox v) \<subseteq> minted_before E (v_minted v)"

definition archive_inv :: "env \<Rightarrow> archive \<Rightarrow> bool" where
  "archive_inv E db = view_inv E (view_of db)"

section \<open>Moves that append facts and nothing else\<close>

definition tick :: "pipeline_view \<Rightarrow> pipeline_view" where
  "tick v = v\<lparr>v_minted := Suc (v_minted v)\<rparr>"

definition fact_added :: "env \<Rightarrow> pipeline_view \<Rightarrow> pipeline_view" where
  "fact_added E v = tick (v\<lparr>v_outbox := v_outbox v @ [(e_now_v7 E (v_minted v), None)]\<rparr>)"

text \<open>
  Identifiers drawn so far are pairwise distinct. A move advances the pipeline when it only draws
  further identifiers and, as long as those are fresh, keeps the invariant.
\<close>

definition ids_fresh :: "env \<Rightarrow> nat \<Rightarrow> bool" where
  "ids_fresh E n = inj_on (e_now_v7 E) {..<n}"

definition advances :: "env \<Rightarrow> pipeline_view \<Rightarrow> pipeline_view \<Rightarrow> bool" where
  "advances E v w \<longleftrightarrow> v_minted v \<le> v_minted w
     \<and> (ids_fresh E (v_minted w) \<longrightarrow> view_inv E v \<longrightarrow> view_inv E w)"

lemma ids_fresh_mono: "ids_fresh E n \<Longrightarrow> m \<le> n \<Longrightarrow> ids_fresh E m"
  by (auto simp: ids_fresh_def elim: inj_on_subset)

lemma minted_before_mono: "m \<le> n \<Longrightarrow> minted_before E m \<subseteq> minted_before E n"
  by (auto simp: minted_before_def)

lemma minted_fresh: "ids_fresh E (Suc n) \<Longrightarrow> e_now_v7 E n \<notin> minted_before E n"
  unfolding minted_before_def ids_fresh_def by (auto dest: inj_onD)

lemma minted_before_Suc: "minted_before E (Suc n) = insert (e_now_v7 E n) (minted_before E n)"
  by (auto simp: minted_before_def lessThan_Suc)

lemma advances_refl: "advances E v v"
  by (simp add: advances_def)

lemma advances_trans: "advances E v w \<Longrightarrow> advances E u v \<Longrightarrow> advances E u w"
  by (auto simp: advances_def intro: ids_fresh_mono)

lemma advances_tick: "advances E v (tick v)"
  by (auto simp: advances_def view_inv_def tick_def minted_before_Suc)

lemma advances_fact: "advances E v (fact_added E v)"
proof -
  have "e_now_v7 E (v_minted v) \<notin> fst ` set (v_outbox v)"
    if "view_inv E v" "ids_fresh E (Suc (v_minted v))"
    using that minted_fresh [OF that(2)] by (auto simp: view_inv_def)
  then show ?thesis
    by (auto simp: advances_def view_inv_def fact_added_def tick_def map_filter_append List.map_filter_simps
        minted_before_Suc)
qed

lemmas advances_intros = advances_refl advances_tick advances_fact

named_theorems view_simps

lemma view_update_capture [view_simps]:
  assumes "\<And>c. cap_key_of (f c) = cap_key_of c"
  shows "view_of (update_capture db P f) = view_of db"
  by (simp add: view_of_def map_update_where_same [of P cap_key_of f, OF assms])

lemma view_drawn [view_simps]: "view_of (drawn db) = tick (view_of db)"
  by (simp add: view_of_def tick_def)

lemma view_append_outbox [view_simps]:
  "view_of (append_outbox db r) = (view_of db)\<lparr>v_outbox := v_outbox (view_of db) @ [outbox_key r]\<rparr>"
  by (simp add: view_of_def)

lemma view_minted [simp]: "v_minted (view_of db) = minted db"
  by (simp add: view_of_def)

lemma view_other_tables [view_simps]:
  "view_of (db\<lparr>observations := a\<rparr>) = view_of db" "view_of (db\<lparr>raws := b\<rparr>) = view_of db"
  "view_of (db\<lparr>media := c\<rparr>) = view_of db" "view_of (db\<lparr>revisions := d\<rparr>) = view_of db"
  "view_of (db\<lparr>removals := e\<rparr>) = view_of db" "view_of (db\<lparr>deletions := f\<rparr>) = view_of db"
  "view_of (db\<lparr>inbox := g\<rparr>) = view_of db"
  by (simp_all add: view_of_def)

lemma cap_key_kept [simp]:
  "cap_key_of (mark_unavailable c) = cap_key_of c" "cap_key_of (mark_tombstoned c) = cap_key_of c"
  "cap_key_of (link_resolved m c) = cap_key_of c" "cap_key_of (lease_until t c) = cap_key_of c"
  "cap_key_of (rescheduled n t c) = cap_key_of c" "cap_key_of (make_due t c) = cap_key_of c"
  by (simp_all add: cap_key_of_def mark_unavailable_def mark_tombstoned_def link_resolved_def
      lease_until_def rescheduled_def make_due_def)

lemma advances_append:
  assumes "ob_event_id r = now_v7 E db" "terminal_of r = None"
  shows "advances E (view_of db) (view_of (append_outbox (drawn db) r))"
proof -
  have "view_of (append_outbox (drawn db) r) = fact_added E (view_of db)"
    using assms by (simp add: view_append_outbox view_drawn outbox_key_def now_v7_def fact_added_def tick_def)
  then show ?thesis by (simp add: advances_intros)
qed

lemma advances_append_fact:
  "append_fact E now db k cid = Ok db' \<Longrightarrow> advances E (view_of db) (view_of db')"
  by (auto simp: append_fact_def terminal_of_def intro!: advances_append split: result.splits)

lemma advances_append_removal_fact:
  "append_removal_fact E db cid reason t = Ok db' \<Longrightarrow> advances E (view_of db) (view_of db')"
  by (auto simp: append_removal_fact_def append_source_removal_fact_def terminal_of_def intro!: advances_append
      split: option.splits result.splits)

lemma advances_report:
  assumes "append_operation_report E now db cid owner cmd report = Ok db'"
    and "cid = None \<or> \<not> is_terminal_report report"
  shows "advances E (view_of db) (view_of db')"
  using assms by (auto simp: append_operation_report_def terminal_of_def Let_def intro!: advances_append
      split: if_splits option.splits)

section \<open>Every transaction but three is quiet\<close>

lemma advances_observe: "advances E (view_of db) (view_of (observe E db m cid k t))"
  by (simp add: observe_def add_observation_def view_simps advances_intros)

lemma advances_unavailable:
  "record_capture_unavailable E db cid k t = Ok (db', x) \<Longrightarrow> advances E (view_of db) (view_of db')"
  by (auto simp: record_capture_unavailable_def add_observation_def view_simps Let_def advances_intros
      split: option.splits if_splits)

lemma advances_tombstone:
  "tombstone_capture E db cid reason t = Ok (db', x) \<Longrightarrow> advances E (view_of db) (view_of db')"
  by (auto simp: tombstone_capture_def insert_deletion_operation_def view_simps Let_def advances_refl
      dest!: advances_append_removal_fact split: option.splits if_splits result.splits)

lemma advances_reschedule: "advances E (view_of db) (view_of (reschedule db cid n now))"
  by (simp add: reschedule_def view_simps advances_refl)

lemma advances_insert_raw: "advances E (view_of db) (view_of (insert_raw E db b t))"
  by (simp add: insert_raw_def view_simps advances_intros)

lemma advances_insert_revision: "advances E (view_of db) (view_of (insert_revision E db m r t))"
  by (simp add: insert_revision_def view_simps advances_intros)

lemma advances_upsert: "upsert_media_projection E now db p n t = (db', m) \<Longrightarrow> advances E (view_of db) (view_of db')"
  by (auto simp: upsert_media_projection_def view_simps advances_intros split: option.splits)

lemma advances_store_evidence:
  assumes "store_evidence E now db cid p n b t = (db', s)"
  shows "advances E (view_of db) (view_of db')"
proof -
  obtain db2 m where up: "upsert_media_projection E now (insert_raw E db b t) p n t = (db2, m)" by fastforce
  define db3 where "db3 = insert_revision E db2 m (now_v7 E db) t"
  define db4 where "db4 = observe E db3 (Some m) cid ObsAvailable t"
  from assms up have "view_of db' = view_of db4"
    by (auto simp: store_evidence_def Let_def view_simps db3_def db4_def)
  then show ?thesis
    using advances_observe [of E db3 "Some m" cid ObsAvailable t] advances_insert_revision [of E db2 m "now_v7 E db" t]
      advances_upsert [OF up] advances_insert_raw [of E db b t]
    unfolding db4_def [symmetric] db3_def [symmetric] by (metis advances_trans)
qed

lemma advances_store_resolution:
  assumes "store_resolution E now db cid p n b t = Ok (db', s)"
  shows "advances E (view_of db) (view_of db')"
proof -
  obtain db5 s5 where ev: "store_evidence E now db cid p n b t = (db5, s5)" by fastforce
  from assms have "db' = db5 \<or> (\<exists>k. append_fact E now db5 k cid = Ok db')"
    by (auto simp: store_resolution_def Let_def ev split: if_splits result.splits)
  then show ?thesis
    using advances_store_evidence [OF ev] by (auto intro: advances_trans advances_append_fact)
qed

lemma advances_failed_resolution:
  assumes "record_failed_resolution E now db cid k t = Ok (db', x)"
  shows "advances E (view_of db) (view_of db')"
proof -
  define v where "v = view_of (observe E db None cid k t)"
  have v: "advances E (view_of db) v" unfolding v_def by (rule advances_observe)
  from assms have "advances E v (view_of db')"
    by (auto simp: record_failed_resolution_def Let_def view_simps v_def advances_refl dest!: advances_append_fact
        split: option.splits AvailabilityObservationKind.splits result.splits)
  then show ?thesis using v by (rule advances_trans)
qed

lemma advances_apply:
  "apply_surface_outcome E now db cid p oc t = Ok (db', x) \<Longrightarrow> advances E (view_of db) (view_of db')"
  by (auto simp: apply_surface_outcome_def dest: advances_failed_resolution advances_store_resolution
      split: SurfaceOutcome.splits result.splits if_splits)


section \<open>Intake\<close>

lemma advances_new_capture:
  assumes "k \<notin> snd ` set (v_captures v)"
  shows "advances E v (tick (v\<lparr>v_captures := v_captures v @ [(e_now_v7 E (v_minted v), k)]\<rparr>))"
proof -
  have "e_now_v7 E (v_minted v) \<notin> fst ` set (v_captures v)"
    if "view_inv E v" "ids_fresh E (Suc (v_minted v))"
    using that minted_fresh [OF that(2)] by (auto simp: view_inv_def)
  then show ?thesis using assms by (auto simp: advances_def view_inv_def tick_def minted_before_Suc)
qed

lemma capture_by_identity_None:
  "capture_by_identity db u l = None \<longleftrightarrow> (u, l) \<notin> snd ` set (v_captures (view_of db))"
  by (force simp: capture_by_identity_def find_None_iff view_of_def cap_key_of_def image_iff)

lemma submit_Ok:
  assumes "submit_capture_in_transaction E db req = Ok (db', s)"
  shows "\<exists>p am. canonicalize (req_url req) = Ok p \<and> acquisition_wire_method (req_client req) = Some am
    \<and> db' = insert_capture (drawn db) (new_capture (now_v7 E db) req (url p) am)
    \<and> read_capture db' (req_user req) (url p) = Ok (submission_record s)
    \<and> (is_reuse s \<longleftrightarrow> capture_by_identity db (req_user req) (url p) \<noteq> None)"
proof -
  from assms obtain p am where pa: "canonicalize (req_url req) = Ok p" "acquisition_wire_method (req_client req) = Some am"
    by (auto simp: submit_capture_in_transaction_def Let_def split: result.splits option.splits)
  let ?db = "insert_capture (drawn db) (new_capture (now_v7 E db) req (url p) am)"
  from assms pa obtain r where "read_capture ?db (req_user req) (url p) = Ok r" "db' = ?db"
    "s = (if capture_by_identity db (req_user req) (url p) = None then Created r else Reused r)"
    by (auto simp: submit_capture_in_transaction_def Let_def split: result.splits)
  with pa show ?thesis by (intro exI [of _ p] exI [of _ am]) auto
qed

lemma advances_submit:
  assumes "submit_capture_in_transaction E db req = Ok (db', s)"
  shows "advances E (view_of db) (view_of db')"
proof -
  from submit_Ok [OF assms(1)]
  obtain p :: CanonicalPermalink and am
    where db': "db' = insert_capture (drawn db) (new_capture (now_v7 E db) req (url p) am)"
    by blast
  show ?thesis
  proof (cases "capture_by_identity (drawn db) (req_user req) (url p)")
    case None
    then have new: "(req_user req, url p) \<notin> snd ` set (v_captures (view_of db))"
      by (simp add: capture_by_identity_None [symmetric] capture_by_identity_def)
    have "view_of db' = tick ((view_of db)\<lparr>v_captures := v_captures (view_of db) @
        [(e_now_v7 E (v_minted (view_of db)), (req_user req, url p))]\<rparr>)"
      using None by (simp add: db' insert_capture_def new_capture_def view_of_def cap_key_of_def tick_def now_v7_def)
    with advances_new_capture [OF new] show ?thesis by simp
  next
    case (Some c)
    then have "view_of db' = tick (view_of db)"
      by (simp add: db' insert_capture_def new_capture_def view_drawn)
    then show ?thesis by (simp add: advances_tick)
  qed
qed

lemma advances_new_operation:
  "k \<notin> fst ` set (v_operations v) \<Longrightarrow> advances E v (v\<lparr>v_operations := v_operations v @ [(k, False)]\<rparr>)"
  by (auto simp: advances_def view_inv_def)

lemma advances_record_operation:
  assumes "record_operation E now db cmd cid = Ok db'"
  shows "advances E (view_of db) (view_of db')"
proof (cases "operation_conflict db (operation_id cmd) (command_id cmd)")
  case True
  with assms(1) have "view_of db' = view_of db"
    by (auto simp: record_operation_def Let_def view_simps)
  then show ?thesis by (simp add: advances_refl)
next
  case False
  define db2 where "db2 = update_capture (db\<lparr>operations := operations db @
       [\<lparr>op_id = operation_id cmd, op_command = command_id cmd, op_capture = cid,
         op_user = user_ref cmd, op_reported_at = None\<rparr>]\<rparr>) (\<lambda>c. cap_id c = cid \<and> reopenable c) (make_due now)"
  have "view_of db2 = (view_of db)\<lparr>v_operations := v_operations (view_of db) @ [(operation_id cmd, False)]\<rparr>"
    by (simp add: db2_def view_simps) (simp add: view_of_def op_key_def)
  moreover have "operation_id cmd \<notin> fst ` set (v_operations (view_of db))"
    using False by (force simp: operation_conflict_def list_ex_iff view_of_def op_key_def)
  ultimately have db2: "advances E (view_of db) (view_of db2)"
    using advances_new_operation by simp
  from False assms(1) have "append_operation_report E now db2 (Some cid) (user_ref cmd) (command_id cmd)
      (QueuedReport (operation_id cmd)) = Ok db'"
    by (auto simp: record_operation_def Let_def db2_def elim!: map_err.elims)
  then have "advances E (view_of db2) (view_of db')" by (rule advances_report) simp
  then show ?thesis using db2 by (rule advances_trans)
qed

text \<open>What a command that was not claimed before leads to.\<close>

lemma ingest_cases:
  assumes "ingest_command E now db cmd = Ok (db', r)" "\<not> claimed_in_inbox db (command_id cmd)"
  obtains (rejected) db2 where
      "append_operation_report E now (claim_inbox db (command_id cmd)) None (user_ref cmd) (command_id cmd)
        (UnavailableReport (operation_id cmd) Inaccessible) = Ok db2"
      "db' = mark_inbox_outcome db2 (command_id cmd) ''rejected''" "r = Rejected"
  | (preserved) db2 s db3 where
      "submit_capture_in_transaction E (claim_inbox db (command_id cmd)) (capture_request_of cmd) = Ok (db2, s)"
      "record_operation E now db2 cmd (rec_id (submission_record s)) = Ok db3"
      "db' = mark_inbox_outcome db3 (command_id cmd) ''processed''" "r = PreservedCapture s"
  using assms by (auto simp: ingest_command_def Let_def split: result.splits CaptureError.splits)

lemma advances_ingest:
  assumes "ingest_command E now db cmd = Ok (db', r)"
  shows "advances E (view_of db) (view_of db')"
proof (cases "claimed_in_inbox db (command_id cmd)")
  case True
  with assms show ?thesis by (simp add: ingest_command_def advances_refl)
next
  case False
  have db1: "view_of (claim_inbox db i) = view_of db" for i by (simp add: claim_inbox_def view_simps)
  have inbox: "view_of (mark_inbox_outcome d i o1) = view_of d" for d i o1
    by (simp add: mark_inbox_outcome_def view_simps)
  from assms False show ?thesis
  proof (cases rule: ingest_cases)
    case (rejected db2)
    then show ?thesis using advances_report [OF rejected(1)] by (simp add: inbox db1)
  next
    case (preserved db2 s db3)
    then show ?thesis
      using advances_trans [OF advances_record_operation advances_submit, OF preserved(2,1)] by (simp add: inbox db1)
  qed
qed

section \<open>Reports\<close>

lemma report_operations_view:
  assumes "report_operations E now db cid user concl rs = Ok db'"
  shows "view_of db' = (view_of db)\<lparr>v_minted := minted db + length rs,
    v_outbox := v_outbox (view_of db) @
      zip (map (e_now_v7 E) [minted db ..< minted db + length rs]) (map (\<lambda>r. Some (op_id r)) rs)\<rparr>
    \<and> operations db' = operations db"
  using assms
proof (induction rs arbitrary: db)
  case Nil
  then show ?case by (simp add: view_of_def)
next
  case (Cons r rs)
  let ?row = "outbox_row (now_v7 E db) OperationReported AggCapture cid user
     (ReportPayload (terminal_report concl (op_id r))) (op_id r) (Some (op_command r)) now"
  have op: "report_operation (terminal_report concl (op_id r)) = op_id r"
    "is_terminal_report (terminal_report concl (op_id r))"
    by (cases concl; simp)+
  have step: "report_operations E now (append_outbox (drawn db) ?row) cid user concl rs = Ok db'"
    using Cons.prems by (auto simp: append_operation_report_def op Let_def split: if_splits)
  have key: "outbox_key ?row = (e_now_v7 E (minted db), Some (op_id r))"
    by (simp add: outbox_key_def terminal_of_def op now_v7_def)
  have "[minted db ..< Suc (minted db + length rs)] = minted db # [Suc (minted db) ..< Suc (minted db + length rs)]"
    by (rule upt_conv_Cons) simp
  with Cons.IH [OF step] show ?case
    by (simp add: view_append_outbox view_drawn tick_def key del: upt_Suc)
qed

lemma pending_update:
  "map op_key (update_where (pending cid) (mark_reported now) ops) =
     map (\<lambda>r. (op_id r, op_reported_at r \<noteq> None \<or> pending cid r)) ops"
  by (induction ops) (auto simp: op_key_def mark_reported_def pending_def)

lemma mset_reported:
  "mset (map fst (filter snd (map (\<lambda>r. (op_id r, op_reported_at r \<noteq> None \<or> pending cid r)) ops))) =
     mset (map fst (filter snd (map op_key ops))) + mset (map op_id (filter (pending cid) ops))"
  by (induction ops) (auto simp: op_key_def pending_def)

lemma map_filter_zip_Some:
  "length xs = length ys \<Longrightarrow> List.map_filter snd (zip xs (map (\<lambda>r. Some (f r)) ys)) = map f ys"
  by (induction xs ys rule: list_induct2) (auto simp: List.map_filter_simps)

lemma advances_report_view:
  assumes "v_operations v = map op_key ops"
  shows "advances E v (v\<lparr>v_minted := v_minted v + length (filter (pending cid) ops),
    v_operations := map op_key (update_where (pending cid) (mark_reported now) ops),
    v_outbox := v_outbox v @ zip (map (e_now_v7 E) [v_minted v ..< v_minted v + length (filter (pending cid) ops)])
      (map (\<lambda>r. Some (op_id r)) (filter (pending cid) ops))\<rparr>)"
proof -
  let ?rs = "filter (pending cid) ops"
  let ?new = "map (e_now_v7 E) [v_minted v ..< v_minted v + length ?rs]"
  let ?z = "zip ?new (map (\<lambda>r. Some (op_id r)) ?rs)"
  let ?ops = "map op_key (update_where (pending cid) (mark_reported now) ops)"
  let ?w = "v\<lparr>v_minted := v_minted v + length ?rs, v_operations := ?ops, v_outbox := v_outbox v @ ?z\<rparr>"
  have later: "minted_before E (v_minted v) \<subseteq> minted_before E (v_minted v + length ?rs)"
    by (rule minted_before_mono) simp
  have z: "map fst ?z = ?new" by simp
  have fz: "fst ` set ?z = set ?new" using arg_cong [OF z, of set] by (simp only: set_map)
  have ops: "map fst ?ops = map fst (map op_key ops)"
    by (simp add: pending_update comp_def op_key_def)
  have new: "set ?new \<subseteq> minted_before E (v_minted v + length ?rs)" by (auto simp: minted_before_def)
  have sel: "v_operations ?w = ?ops" "v_outbox ?w = v_outbox v @ ?z" "v_captures ?w = v_captures v"
    "v_minted ?w = v_minted v + length ?rs"
    by simp_all
  have "view_inv E ?w" if inv: "view_inv E v" and inj: "ids_fresh E (v_minted v + length ?rs)"
  proof -
    have old: "distinct (map fst (map op_key ops))"
      "mset (List.map_filter snd (v_outbox v)) = mset (map fst (filter snd (map op_key ops)))"
      "distinct (map snd (v_captures v))" "distinct (map fst (v_captures v))"
      "fst ` set (v_captures v) \<subseteq> minted_before E (v_minted v)"
      "distinct (map fst (v_outbox v))" "fst ` set (v_outbox v) \<subseteq> minted_before E (v_minted v)"
      using inv assms by (simp_all only: view_inv_def)
    have "distinct ?new" using inj by (auto simp: distinct_map ids_fresh_def intro: inj_on_subset)
    moreover have "set ?new \<inter> minted_before E (v_minted v) = {}"
      using inj by (auto simp: minted_before_def ids_fresh_def dest: inj_onD)
    ultimately have d: "distinct (map fst (v_outbox v @ ?z))"
      using old(6,7) by (simp only: map_append z distinct_append set_map) blast
    have sub: "fst ` set (v_outbox v @ ?z) \<subseteq> minted_before E (v_minted v + length ?rs)"
      using old(7) later new by (simp only: set_append image_Un fz) blast
    have m: "mset (List.map_filter snd (v_outbox v @ ?z)) = mset (map fst (filter snd ?ops))"
      using mset_reported [of cid ops] old(2) map_filter_zip_Some [of ?new ?rs op_id]
      by (simp add: map_filter_append pending_update)
    have "distinct (map fst ?ops)" using old(1) by (simp only: ops)
    moreover have "fst ` set (v_captures v) \<subseteq> minted_before E (v_minted v + length ?rs)"
      using old(5) later by (rule subset_trans)
    ultimately show ?thesis
      unfolding view_inv_def sel using old(3,4) m d sub by (intro conjI)
  qed
  then show ?thesis unfolding advances_def sel by simp
qed

lemma advances_report_pending:
  assumes "report_pending E now db cid = Ok (db', n)"
  shows "advances E (view_of db) (view_of db')"
proof -
  let ?rs = "filter (pending cid) (operations db)"
  define db1 where "db1 = db\<lparr>operations := update_where (pending cid) (mark_reported now) (operations db)\<rparr>"
  from assms(1) consider "db' = db" |
    (reported) user concl where "report_operations E now db1 cid user concl ?rs = Ok db'"
    by (auto simp: report_pending_def Let_def db1_def split: option.splits result.splits)
  then show ?thesis
  proof cases
    case reported
    have "view_of db' = (view_of db)\<lparr>v_minted := v_minted (view_of db) + length ?rs,
      v_operations := map op_key (update_where (pending cid) (mark_reported now) (operations db)),
      v_outbox := v_outbox (view_of db) @ zip (map (e_now_v7 E) [v_minted (view_of db) ..< v_minted (view_of db) + length ?rs])
        (map (\<lambda>r. Some (op_id r)) ?rs)\<rparr>"
      using report_operations_view [OF reported] by (simp add: db1_def view_of_def)
    moreover have "v_operations (view_of db) = map op_key (operations db)" by (simp add: view_of_def)
    ultimately show ?thesis using advances_report_view [of "view_of db" "operations db" E cid now] by (simp only:)
  qed (simp add: advances_refl)
qed

lemma advances_claim_rows:
  "claim_rows E now db cs ls n = Ok (db', x) \<Longrightarrow> advances E (view_of db) (view_of db')"
proof (induction E now db cs ls n rule: claim_rows.induct)
  case (2 E now db c cs ls n)
  show ?case
  proof (cases "cap_status c = Accepted")
    case True
    then show ?thesis using 2 by (simp add: view_simps)
  next
    case False
    with "2.prems"(1) obtain db1 m where r: "report_pending E now db (cap_id c) = Ok (db1, m)"
      and rest: "claim_rows E now db1 cs ls (n + m) = Ok (db', x)"
      by (auto split: result.splits)
    show ?thesis
      by (rule advances_trans [OF "2.IH"(2) [OF False r _ rest]])
        (simp_all add: advances_report_pending [OF r])
  qed
qed (simp add: advances_refl)

section \<open>The transition system\<close>

inductive archive_step :: "env \<Rightarrow> archive \<Rightarrow> archive \<Rightarrow> bool" for E where
  step_submit: "submit_capture E db request = Ok (db', submission) \<Longrightarrow> archive_step E db db'"
| step_ingest: "ingest_command E now db command = Ok (db', ingested) \<Longrightarrow> archive_step E db db'"
| step_unavailable: "record_capture_unavailable E db capture_id observed observed_at = Ok (db', status)
    \<Longrightarrow> archive_step E db db'"
| step_tombstone: "tombstone_capture E db capture_id reason removed_at = Ok (db', outcome) \<Longrightarrow> archive_step E db db'"
| step_claim: "claim E now db policy = Ok (db', leases) \<Longrightarrow> archive_step E db db'"
| step_reschedule: "archive_step E db (reschedule db capture_id attempt now)"
| step_failed: "record_failed_resolution E now db capture_id observed resolved_at = Ok (db', resolution)
    \<Longrightarrow> archive_step E db db'"
| step_apply: "apply_surface_outcome E now db capture_id permalink answer resolved_at = Ok (db', resolution)
    \<Longrightarrow> archive_step E db db'"
| step_report: "report_concluded E now db capture_id = Ok (db', n) \<Longrightarrow> archive_step E db db'"
| step_publish: "archive_step E db (db\<lparr>outbox := fst (run_once now deliver batch rpolicy (outbox db))\<rparr>)"
| step_acknowledge: "archive_step E db (db\<lparr>outbox := fst (acknowledge now (outbox db) event tenant ack)\<rparr>)"

definition reachable :: "env \<Rightarrow> archive \<Rightarrow> bool" where
  "reachable E db \<longleftrightarrow> (archive_step E)\<^sup>*\<^sup>* empty_archive db"

definition key_of_fact ::
  "uuid \<times> EventType \<times> AggregateType \<times> uuid \<times> uuid \<times> EventPayload \<times> uuid \<times> uuid option \<times> instant \<Rightarrow> uuid \<times> uuid option" where
  "key_of_fact f = (case f of (i, _, at, _, _, p, _) \<Rightarrow>
     (i, case p of ReportPayload q \<Rightarrow> if at = AggCapture \<and> is_terminal_report q then Some (report_operation q) else None
         | _ \<Rightarrow> None))"

lemma map_outbox_key: "map outbox_key rows = map key_of_fact (map fact_columns rows)"
  by (simp add: outbox_key_def terminal_of_def fact_columns_def key_of_fact_def comp_def)

lemma view_outbox_update:
  "map fact_columns rows = map fact_columns (outbox db) \<Longrightarrow> view_of (db\<lparr>outbox := rows\<rparr>) = view_of db"
  by (simp add: view_of_def map_outbox_key del: map_map)

lemma archive_step_advances: "archive_step E db db' \<Longrightarrow> advances E (view_of db) (view_of db')"
proof (induction rule: archive_step.induct)
  case (step_claim now db policy db' leases)
  then show ?case by (auto simp: claim_def Let_def dest: advances_claim_rows split: result.splits)
next
  case (step_publish db now deliver batch rpolicy)
  show ?case by (simp add: view_outbox_update run_once_keeps_facts advances_refl)
next
  case (step_acknowledge db now event tenant ack)
  show ?case by (simp add: view_outbox_update acknowledge_def fact_columns_kept advances_refl)
qed (simp_all add: submit_capture_def report_concluded_def advances_submit advances_ingest advances_unavailable
  advances_tombstone advances_reschedule advances_failed_resolution advances_apply advances_report_pending)

interpretation pipeline: invariant_system "\<lambda>v. v = view_of empty_archive" "advances E"
  "\<lambda>v. ids_fresh E (v_minted v) \<longrightarrow> view_inv E v" for E
proof
  show "ids_fresh E (v_minted v) \<longrightarrow> view_inv E v" if "v = view_of empty_archive" for v
    using that by (simp add: view_of_def view_inv_def empty_archive_def List.map_filter_simps)
  show "ids_fresh E (v_minted w) \<longrightarrow> view_inv E w"
    if "ids_fresh E (v_minted v) \<longrightarrow> view_inv E v" "advances E v w" for v w
    using that by (auto simp: advances_def intro: ids_fresh_mono)
qed

lemma reachable_inv:
  assumes "reachable E db" "ids_fresh E (minted db)"
  shows "archive_inv E db"
proof -
  have "(advances E)\<^sup>*\<^sup>* (view_of empty_archive) (view_of db)"
    using assms(1) unfolding reachable_def
    by (induction rule: rtranclp_induct) (auto intro: rtranclp.rtrancl_into_rtrancl archive_step_advances)
  from pipeline.inv_reachable [OF refl this] assms(2) show ?thesis by (simp add: archive_inv_def)
qed


section \<open>The worker pass is a sequence of transactions\<close>

lemma step_rtrancl: "archive_step E db db' \<Longrightarrow> (archive_step E)\<^sup>*\<^sup>* db db'"
  by (rule r_into_rtranclp)

lemma conclude_steps:
  assumes "\<And>db1 x. concluded = Ok (db1, x) \<Longrightarrow> archive_step E db db1"
  shows "(archive_step E)\<^sup>*\<^sup>* db (fst (conclude E now db concluded cid fetched))"
proof (cases concluded)
  case (Ok y)
  obtain db1 x where y: "y = (db1, x)" by fastforce
  have one: "archive_step E db db1" using assms Ok y by simp
  show ?thesis
  proof (cases "report_concluded E now db1 cid")
    case (Ok z)
    obtain db2 n where z: "z = (db2, n)" by fastforce
    have "archive_step E db1 db2" using Ok z by (auto intro: step_report)
    with one \<open>concluded = Ok y\<close> y z Ok show ?thesis by (simp add: conclude_def)
  qed (use one \<open>concluded = Ok y\<close> y in \<open>simp add: conclude_def\<close>)
qed (simp add: conclude_def)

lemma resolve_one_steps: "(archive_step E)\<^sup>*\<^sup>* db (fst (resolve_one E surface now policy db lease))"
proof -
  obtain cid canonical n where lease: "lease = (cid, canonical, n)" by (cases lease) auto
  show ?thesis
  proof (cases "canonicalize canonical")
    case (Ok p)
    show ?thesis
    proof (cases "is_transient (surface p) \<and> attempt_number n < max_attempts policy")
      case True
      then show ?thesis
        by (simp add: resolve_one_def lease Ok Let_def step_rtrancl step_reschedule)
    next
      case False
      then show ?thesis
        by (auto simp: resolve_one_def lease Ok Let_def intro!: conclude_steps step_apply)
    qed
  qed (auto simp: resolve_one_def lease intro!: conclude_steps step_failed)
qed

lemma resolve_leased_steps: "(archive_step E)\<^sup>*\<^sup>* db (fst (resolve_leased E surface now policy db ls s))"
proof (induction ls arbitrary: db s)
  case (Cons l ls)
  then show ?case
    using resolve_one_steps [of E db surface now policy l]
    by (auto split: prod.splits) (metis fst_conv rtranclp_trans)
qed simp

lemma run_due_once_steps:
  "(archive_step E)\<^sup>*\<^sup>* db (fst (run_due_once E surface now policy db))"
proof (cases "claim E now db policy")
  case (Ok y)
  obtain db1 ls s where y: "y = (db1, ls, s)" by (cases y) auto
  have "archive_step E db db1" using Ok y by (auto intro: step_claim)
  with Ok y resolve_leased_steps [of E db1 surface now policy ls s] show ?thesis
    by (auto simp: run_due_once_def split: prod.splits)
qed (simp add: run_due_once_def)

section \<open>Rejected commands\<close>

text \<open>
  A terminal report that does not belong to a capture answers a command that was refused; it names the
  command as its cause. The refused commands are the inbox rows of the capture consumer with that outcome.
\<close>

definition terminal_report_of :: "OutboxRow \<Rightarrow> uuid option" where
  "terminal_report_of r =
     (case ob_payload r of ReportPayload p \<Rightarrow> if is_terminal_report p then Some (report_operation p) else None
      | _ \<Rightarrow> None)"

definition rejections :: "OutboxRow list \<Rightarrow> uuid option list" where
  "rejections rows = map ob_causation (filter (\<lambda>r. terminal_report_of r \<noteq> None \<and> ob_agg_type r \<noteq> AggCapture) rows)"

definition of_consumer :: "InboxRow \<Rightarrow> bool" where
  "of_consumer r \<longleftrightarrow> in_consumer r = BROWSER_CAPTURE_CONSUMER"

definition rejected_commands :: "InboxRow list \<Rightarrow> uuid list" where
  "rejected_commands rows = map in_event (filter (\<lambda>r. of_consumer r \<and> in_outcome r = ''rejected'') rows)"

definition rejections_inv :: "archive \<Rightarrow> bool" where
  "rejections_inv db \<longleftrightarrow> rejections (outbox db) = map Some (rejected_commands (inbox db))
     \<and> distinct (map in_event (filter of_consumer (inbox db)))"

text \<open>Every transaction but ingestion leaves both sides alone.\<close>

definition answers_kept :: "archive \<Rightarrow> archive \<Rightarrow> bool" where
  "answers_kept db db' \<longleftrightarrow> inbox db' = inbox db \<and> rejections (outbox db') = rejections (outbox db)"

lemma answers_kept_refl: "answers_kept db db"
  by (simp add: answers_kept_def)

lemma answers_kept_trans: "answers_kept a b \<Longrightarrow> answers_kept b c \<Longrightarrow> answers_kept a c"
  by (simp add: answers_kept_def)

lemma answers_kept_inv: "answers_kept db db' \<Longrightarrow> rejections_inv db' = rejections_inv db"
  by (simp add: answers_kept_def rejections_inv_def)

lemma rejections_append: "rejections (xs @ ys) = rejections xs @ rejections ys"
  by (simp add: rejections_def)

lemma rejections_row:
  "terminal_report_of r = None \<or> ob_agg_type r = AggCapture \<Longrightarrow> rejections [r] = []"
  by (auto simp: rejections_def)

lemma answers_kept_append:
  "terminal_report_of r = None \<or> ob_agg_type r = AggCapture \<Longrightarrow> answers_kept db (append_outbox (drawn db) r)"
  by (simp add: answers_kept_def rejections_append rejections_row)

lemma answers_kept_append_fact: "append_fact E now db k cid = Ok db' \<Longrightarrow> answers_kept db db'"
  by (auto simp: append_fact_def intro!: answers_kept_append split: result.splits)

lemma answers_kept_removal_fact: "append_removal_fact E db cid reason t = Ok db' \<Longrightarrow> answers_kept db db'"
  by (auto simp: append_removal_fact_def append_source_removal_fact_def intro!: answers_kept_append
      split: option.splits result.splits)

lemma answers_kept_report:
  "append_operation_report E now db (Some cid) owner cmd report = Ok db' \<Longrightarrow> answers_kept db db'"
  by (auto simp: append_operation_report_def Let_def intro!: answers_kept_append split: if_splits)

lemma answers_kept_submit:
  assumes "submit_capture_in_transaction E db req = Ok (db', s)"
  shows "answers_kept db db'"
proof -
  from submit_Ok [OF assms] obtain p :: CanonicalPermalink and am
    where "db' = insert_capture (drawn db) (new_capture (now_v7 E db) req (url p) am)" by blast
  then show ?thesis by (auto simp: insert_capture_def answers_kept_def split: option.splits)
qed

lemma answers_kept_unavailable:
  "record_capture_unavailable E db cid k t = Ok (db', x) \<Longrightarrow> answers_kept db db'"
  by (auto simp: record_capture_unavailable_def add_observation_def Let_def answers_kept_def
      split: option.splits if_splits)

lemma answers_kept_tombstone:
  assumes "tombstone_capture E db cid reason t = Ok (db', x)"
  shows "answers_kept db db'"
  using assms
  by (auto simp: tombstone_capture_def insert_deletion_operation_def Let_def answers_kept_def
      dest!: answers_kept_removal_fact split: option.splits if_splits result.splits)

lemma answers_kept_store_evidence:
  "store_evidence E now db cid p n b t = (db', s) \<Longrightarrow> answers_kept db db'"
  by (auto simp: store_evidence_def upsert_media_projection_def insert_raw_def insert_revision_def observe_def
      add_observation_def Let_def answers_kept_def split: option.splits prod.splits)

lemma answers_kept_store_resolution:
  assumes "store_resolution E now db cid p n b t = Ok (db', s)"
  shows "answers_kept db db'"
proof -
  obtain db5 s5 where ev: "store_evidence E now db cid p n b t = (db5, s5)" by fastforce
  from assms have "db' = db5 \<or> (\<exists>k. append_fact E now db5 k cid = Ok db')"
    by (auto simp: store_resolution_def Let_def ev split: if_splits result.splits)
  then show ?thesis
    using answers_kept_store_evidence [OF ev] by (auto intro: answers_kept_trans answers_kept_append_fact)
qed

lemma answers_kept_failed:
  "record_failed_resolution E now db cid k t = Ok (db', x) \<Longrightarrow> answers_kept db db'"
  by (auto simp: record_failed_resolution_def observe_def add_observation_def Let_def answers_kept_def
      dest!: answers_kept_append_fact
      split: option.splits AvailabilityObservationKind.splits result.splits)

lemma answers_kept_apply:
  "apply_surface_outcome E now db cid p oc t = Ok (db', x) \<Longrightarrow> answers_kept db db'"
  by (auto simp: apply_surface_outcome_def dest: answers_kept_failed answers_kept_store_resolution
      split: SurfaceOutcome.splits result.splits if_splits)

lemma answers_kept_report_operations:
  "report_operations E now db cid u cc rs = Ok db' \<Longrightarrow> answers_kept db db'"
  by (induction E now db cid u cc rs rule: report_operations.induct)
    (auto simp: answers_kept_refl intro: answers_kept_trans dest: answers_kept_report split: result.splits)

lemma answers_kept_report_pending: "report_pending E now db cid = Ok (db', n) \<Longrightarrow> answers_kept db db'"
  by (auto simp: report_pending_def Let_def answers_kept_refl dest!: answers_kept_report_operations
      split: option.splits result.splits) (simp add: answers_kept_def)

lemma answers_kept_claim_rows: "claim_rows E now db cs ls n = Ok (db', x) \<Longrightarrow> answers_kept db db'"
proof (induction E now db cs ls n rule: claim_rows.induct)
  case (2 E now db c cs ls n)
  have "answers_kept db (update_capture db P f)" for P f by (simp add: answers_kept_def)
  with 2 show ?case
    by (auto split: if_splits result.splits intro: answers_kept_trans dest: answers_kept_report_pending)
qed (simp add: answers_kept_refl)

lemma answers_kept_record_operation:
  assumes "record_operation E now db cmd cid = Ok db'"
  shows "answers_kept db db'"
proof (cases "operation_conflict db (operation_id cmd) (command_id cmd)")
  case True
  with assms show ?thesis by (auto simp: record_operation_def Let_def answers_kept_def)
next
  case False
  define db2 where "db2 = update_capture (db\<lparr>operations := operations db @
       [\<lparr>op_id = operation_id cmd, op_command = command_id cmd, op_capture = cid,
         op_user = user_ref cmd, op_reported_at = None\<rparr>]\<rparr>) (\<lambda>c. cap_id c = cid \<and> reopenable c) (make_due now)"
  from False assms have "append_operation_report E now db2 (Some cid) (user_ref cmd) (command_id cmd)
      (QueuedReport (operation_id cmd)) = Ok db'"
    by (auto simp: record_operation_def Let_def db2_def elim!: map_err.elims)
  from answers_kept_report [OF this] show ?thesis by (simp add: answers_kept_def db2_def)
qed

lemma rejections_keep_facts: "map fact_columns rows = map fact_columns rows' \<Longrightarrow> rejections rows = rejections rows'"
proof (induction rows arbitrary: rows')
  case (Cons r rows)
  then obtain r' rs where rs: "rows' = r' # rs" "fact_columns r' = fact_columns r"
    "map fact_columns rows = map fact_columns rs" by (cases rows') auto
  from rs(2) have "rejections [r] = rejections [r']"
    by (simp add: fact_columns_def rejections_def terminal_report_of_def)
  then show ?case
    using Cons.IH [OF rs(3)] rejections_append [of "[r]" rows] rejections_append [of "[r']" rs] rs(1) by simp
qed simp

lemma update_where_append: "update_where P f (xs @ ys) = update_where P f xs @ update_where P f ys"
  by (simp add: update_where_def)

lemma rejected_commands_mark:
  "\<not> list_ex (\<lambda>r. of_consumer r \<and> in_event r = i) rows
    \<Longrightarrow> update_where (\<lambda>r. in_consumer r = BROWSER_CAPTURE_CONSUMER \<and> in_event r = i) f rows = rows"
  by (induction rows) (auto simp: of_consumer_def)

lemma rejections_inv_ingest:
  assumes "ingest_command E now db cmd = Ok (db', r)" "rejections_inv db"
  shows "rejections_inv db'"
proof (cases "claimed_in_inbox db (command_id cmd)")
  case True
  with assms show ?thesis by (simp add: ingest_command_def)
next
  case False
  define db1 where "db1 = claim_inbox db (command_id cmd)"
  define claimed where "claimed o1 = inbox db @
    [\<lparr>in_consumer = BROWSER_CAPTURE_CONSUMER, in_event = command_id cmd, in_outcome = o1\<rparr>]" for o1
  have new: "\<not> list_ex (\<lambda>r. of_consumer r \<and> in_event r = command_id cmd) (inbox db)"
    using False by (simp add: claimed_in_inbox_def of_consumer_def)
  have mark: "inbox (mark_inbox_outcome d (command_id cmd) o1) = claimed o1"
    "outbox (mark_inbox_outcome d (command_id cmd) o1) = outbox d" if "inbox d = inbox db1" for d o1
    using that rejected_commands_mark [OF new]
    by (simp_all add: mark_inbox_outcome_def db1_def claim_inbox_def claimed_def update_where_append)
  have uniq: "distinct (map in_event (filter of_consumer (claimed o1)))" for o1
    using assms(2) new by (auto simp: rejections_inv_def claimed_def list_ex_iff)
  have out1: "outbox db1 = outbox db" by (simp add: db1_def claim_inbox_def)
  from assms(1) False show ?thesis
  proof (cases rule: ingest_cases)
    case (rejected db2)
    then obtain row where row: "db2 = append_outbox (drawn db1) row" "rejections [row] = [Some (command_id cmd)]"
      by (auto simp: append_operation_report_def Let_def rejections_def terminal_report_of_def outbox_row_def db1_def
          split: if_splits)
    then show ?thesis
      using assms(2) uniq mark [of db2] rejected(2) out1
      by (simp add: rejections_inv_def rejections_append rejected_commands_def claimed_def of_consumer_def)
  next
    case (preserved db2 s db3)
    have "answers_kept db1 db3" unfolding db1_def
      by (rule answers_kept_trans [OF answers_kept_submit answers_kept_record_operation]) (use preserved in auto)
    then show ?thesis
      using assms(2) uniq mark [of db3] preserved(3) out1
      by (simp add: rejections_inv_def answers_kept_def rejected_commands_def claimed_def of_consumer_def)
  qed
qed

lemma archive_step_rejections: "archive_step E db db' \<Longrightarrow> rejections_inv db \<Longrightarrow> rejections_inv db'"
proof (induction rule: archive_step.induct)
  case (step_ingest now db command db' ingested)
  then show ?case by (rule rejections_inv_ingest)
next
  case (step_claim now db policy db' leases)
  then show ?case
    by (auto simp: claim_def Let_def dest!: answers_kept_claim_rows answers_kept_inv split: result.splits)
next
  case (step_publish db now deliver batch rpolicy)
  then show ?case
    using rejections_keep_facts [OF run_once_keeps_facts [of now deliver batch rpolicy "outbox db"]]
    by (simp add: rejections_inv_def)
next
  case (step_acknowledge db now event tenant ack)
  have "map fact_columns (fst (acknowledge now (outbox db) event tenant ack)) = map fact_columns (outbox db)"
    by (simp add: acknowledge_def fact_columns_kept)
  from rejections_keep_facts [OF this] step_acknowledge show ?case by (simp add: rejections_inv_def)
next
  case (step_reschedule db capture_id attempt now)
  then show ?case by (simp add: reschedule_def rejections_inv_def)
qed (auto simp: submit_capture_def report_concluded_def dest!: answers_kept_submit answers_kept_unavailable
  answers_kept_tombstone answers_kept_failed answers_kept_apply answers_kept_report_pending answers_kept_inv)

interpretation answered: invariant_system "\<lambda>db. db = empty_archive" "archive_step E" rejections_inv for E
proof
  show "rejections_inv db" if "db = empty_archive" for db
    using that by (simp add: rejections_inv_def rejections_def rejected_commands_def empty_archive_def)
qed (rule archive_step_rejections)

lemma distinct_rejected_commands:
  assumes "rejections_inv db"
  shows "distinct (rejected_commands (inbox db))"
proof -
  have "rejected_commands (inbox db) =
      map in_event (filter (\<lambda>r. in_outcome r = ''rejected'') (filter of_consumer (inbox db)))"
    by (simp add: rejected_commands_def conj_commute)
  with assms show ?thesis by (simp add: rejections_inv_def distinct_map_filter del: filter_filter)
qed

section \<open>Properties of every reachable state\<close>

lemma archive_inv_fields:
  assumes "archive_inv E db"
  shows "distinct (map op_id (operations db))"
    and "mset (terminal_ops (outbox db)) = mset (reported_ops (operations db))"
    and "distinct (map capture_identity (captures db))" "distinct (map cap_id (captures db))"
    and "distinct (map ob_event_id (outbox db))"
  using assms
  by (simp_all add: archive_inv_def view_inv_def view_of_def terminal_ops_key reported_ops_key
      op_key_def cap_key_of_def outbox_key_def capture_identity_def [abs_def] comp_def)

lemma count_reported:
  assumes "distinct (map op_id ops)" "r \<in> set ops"
  shows "count_list (reported_ops ops) (op_id r) = (if op_reported_at r = None then 0 else 1)"
proof -
  have d: "distinct (reported_ops ops)" using assms(1) by (simp add: reported_ops_def distinct_map_filter)
  have "op_id r \<in> set (reported_ops ops) \<longleftrightarrow> op_reported_at r \<noteq> None"
    using assms by (auto simp: reported_ops_def distinct_map dest: inj_onD)
  with d show ?thesis by (simp add: distinct_count_atmost_1 count_mset [symmetric] del: count_mset)
qed


text \<open>
  C33. A user never holds two captures of one permalink, and capture and event identifiers are unique,
  in every reachable state; the last is what the publisher relies on.
\<close>
theorem reachable_identities_unique:
  assumes "reachable E db" "ids_fresh E (minted db)"
  shows "distinct (map capture_identity (captures db)) \<and> distinct (map cap_id (captures db))
    \<and> distinct (map ob_event_id (outbox db)) \<and> distinct (map op_id (operations db))"
  using archive_inv_fields [OF reachable_inv [OF assms]] by blast


section \<open>A concrete pipeline\<close>

text \<open>An environment whose identifiers count up and whose contracts accept everything.\<close>

definition sample_env :: env where
  "sample_env = \<lparr>e_now_v7 = (\<lambda>n. Uuid 9 (word_of_nat n)), e_uuid_v5 = (\<lambda>ns b. Uuid 5 (word_of_nat (length b))),
     e_sha256 = (\<lambda>b. b), e_canonical_json = (\<lambda>p. []), e_payload_title = (\<lambda>b. Some (Some b)),
     e_json_object = (\<lambda>b. True), e_report_ok = (\<lambda>r. True), e_snapshot_ok = (\<lambda>s. True), e_instant_ok = (\<lambda>t. True)\<rparr>"

definition sample_command :: "nat \<Rightarrow> nat \<Rightarrow> BrowserCaptureCommand" where
  "sample_command c p = \<lparr>command_id = Uuid 3 (word_of_nat c), user_ref = Uuid 1 1, operation_id = Uuid 4 (word_of_nat p),
     original_permalink = shared_reel, captured_at = 5, idempotency_key = ''k'', client_source = BrowserExtension\<rparr>"

definition committed :: "archive \<Rightarrow> ('a, 'e) tx \<Rightarrow> archive" where
  "committed db t = (case t of Ok (db', _) \<Rightarrow> db' | Err _ \<Rightarrow> db)"

definition ingested_once :: archive where
  "ingested_once = committed empty_archive (ingest_command sample_env 10 empty_archive (sample_command 0 0))"

definition sample_policy :: ResolutionPolicy where
  "sample_policy = \<lparr>max_attempts = 3, batch_size = 10\<rparr>"

definition concluded_once :: archive where
  "concluded_once = fst (run_due_once sample_env (\<lambda>p. SfcDeleted) 20 sample_policy ingested_once)"

lemma committed_steps:
  "(\<And>db' x. t = Ok (db', x) \<Longrightarrow> archive_step E db db') \<Longrightarrow> (archive_step E)\<^sup>*\<^sup>* db (committed db t)"
  by (auto simp: committed_def split: result.splits)

lemma reachable_ingested_once: "reachable sample_env ingested_once"
  unfolding reachable_def ingested_once_def by (rule committed_steps) (rule step_ingest)

lemma reachable_concluded_once: "reachable sample_env concluded_once"
  using reachable_ingested_once run_due_once_steps unfolding reachable_def concluded_once_def
  by (rule rtranclp_trans)

lemma sample_ids_fresh: "n \<le> 100 \<Longrightarrow> ids_fresh sample_env n"
proof -
  have "i = j" if "i \<le> 100" "j \<le> 100" "(word_of_nat i :: 64 word) = word_of_nat j" for i j :: nat
  proof -
    have "unat (word_of_nat k :: 64 word) = k" if "k \<le> 100" for k
      using that by (simp add: unat_of_nat)
    with that show ?thesis by metis
  qed
  then show "n \<le> 100 \<Longrightarrow> ids_fresh sample_env n"
    by (auto simp: ids_fresh_def sample_env_def inj_on_def)
qed

lemmas sample_defs = sample_env_def sample_command_def capture_request_of_def new_capture_def now_v7_def

lemmas table_defs = drawn_def update_capture_def update_where_def append_outbox_def add_observation_def
  capture_by_identity_def capture_of_def

lemmas ingest_defs = ingest_command_def claimed_in_inbox_def claim_inbox_def submit_capture_in_transaction_def
  insert_capture_def read_capture_def record_of_def record_operation_def operation_conflict_def reopenable_def
  make_due_def append_operation_report_def mark_inbox_outcome_def EXPLICIT_AUTHORITY_def

lemmas worker_defs = run_due_once_def claim_def claimed_rows_def due_def has_pending_def pending_def lease_until_def
  resolve_one_def is_transient_def conclude_def apply_surface_outcome_def record_failed_resolution_def
  observe_def open_or_resolved_def mark_unavailable_def report_concluded_def report_pending_def conclusion_of_def
  mark_reported_def append_operation_report_def

definition sample_permalink :: CanonicalPermalink where
  "sample_permalink = permalink_of Reel (ascii ''AbC-1'')"

lemma sample_canonicalize:
  "canonicalize shared_reel = Ok sample_permalink" "canonicalize (url sample_permalink) = Ok sample_permalink"
  by (simp only: sample_permalink_def shared_reel_canonicalizes) code_simp

definition sample_capture :: CaptureRow where
  "sample_capture = \<lparr>cap_id = Uuid 9 0, cap_user = Uuid 1 1, cap_media = None,
     cap_url = url sample_permalink, cap_acquisition = ''browser_extension'',
     cap_authority = ''explicit_user_capture'', cap_client = BrowserExtension, cap_status = Accepted, cap_note = None,
     cap_key = Some ''k'', cap_captured_at = 5, cap_next = Some 10, cap_attempts = 0\<rparr>"

definition sample_operation :: OperationRow where
  "sample_operation = \<lparr>op_id = Uuid 4 0, op_command = Uuid 3 0, op_capture = Uuid 9 0, op_user = Uuid 1 1,
     op_reported_at = None\<rparr>"

lemma ingested_once_eq:
  "ingested_once = empty_archive\<lparr>captures := [sample_capture], operations := [sample_operation],
     inbox := [\<lparr>in_consumer = BROWSER_CAPTURE_CONSUMER, in_event = Uuid 3 0, in_outcome = ''processed''\<rparr>],
     outbox := [outbox_row (Uuid 9 1) OperationReported AggCapture (Uuid 9 0) (Uuid 1 1)
       (ReportPayload (QueuedReport (Uuid 4 0))) (Uuid 4 0) (Some (Uuid 3 0)) 10],
     minted := 2\<rparr>"
  by (simp add: ingested_once_def committed_def empty_archive_def sample_defs table_defs ingest_defs
      sample_canonicalize Let_def sample_capture_def sample_operation_def)

lemma concluded_once_tables:
  "operations concluded_once = [sample_operation\<lparr>op_reported_at := Some 20\<rparr>]" "minted concluded_once = 4"
  by (simp_all add: concluded_once_def ingested_once_eq empty_archive_def worker_defs table_defs sample_defs Let_def
      sample_policy_def sample_capture_def sample_operation_def sample_canonicalize newest_observation_def
      latest_unavailability_def)

text \<open>A second command, with a permalink that is none, is refused and answered.\<close>

definition refused_after :: archive where
  "refused_after = committed concluded_once
     (ingest_command sample_env 30 concluded_once ((sample_command 1 1)\<lparr>original_permalink := []\<rparr>))"

lemma reachable_refused_after: "reachable sample_env refused_after"
proof -
  have "(archive_step sample_env)\<^sup>*\<^sup>* concluded_once refused_after"
    unfolding refused_after_def by (rule committed_steps) (rule step_ingest)
  then show ?thesis using reachable_concluded_once unfolding reachable_def by (rule rtranclp_trans [rotated])
qed

lemma empty_permalink_refused: "canonicalize [] = Err Malformed"
  by code_simp

lemma concluded_once_inbox:
  "inbox concluded_once = [\<lparr>in_consumer = BROWSER_CAPTURE_CONSUMER, in_event = Uuid 3 0, in_outcome = ''processed''\<rparr>]"
  by (simp add: concluded_once_def ingested_once_eq empty_archive_def worker_defs table_defs sample_defs Let_def
      sample_policy_def sample_capture_def sample_operation_def sample_canonicalize newest_observation_def
      latest_unavailability_def)

lemma refused_after_tables:
  "operations refused_after = operations concluded_once" "minted refused_after = 5"
  "inbox refused_after = inbox concluded_once @
     [\<lparr>in_consumer = BROWSER_CAPTURE_CONSUMER, in_event = Uuid 3 1, in_outcome = ''rejected''\<rparr>]"
  by (simp_all add: refused_after_def committed_def ingest_defs table_defs sample_defs Let_def
      concluded_once_inbox concluded_once_tables empty_permalink_refused)


theorem reachable_identities_unique_witness:
  "distinct (map capture_identity (captures concluded_once)) \<and> distinct (map cap_id (captures concluded_once))
    \<and> distinct (map ob_event_id (outbox concluded_once)) \<and> distinct (map op_id (operations concluded_once))"
  by (rule reachable_identities_unique [OF reachable_concluded_once])
    (simp add: concluded_once_tables sample_ids_fresh)

end
