(* ===== verification/Capture_History.thy ===== *)
theory Capture_History
  imports Capture_Pipeline "HOL-Library.Sublist"
begin

text \<open>
  What the pipeline never rewrites: every table keeps the rows it has, in order, with the columns
  that state provenance. The relation \<open>grows\<close> holds for every transaction, so for every run.
\<close>

section \<open>Provenance columns\<close>

definition capture_provenance where
  "capture_provenance c = (cap_id c, cap_user c, cap_url c, cap_acquisition c, cap_authority c, cap_client c,
     cap_note c, cap_key c, cap_captured_at c)"

definition operation_provenance where
  "operation_provenance r = (op_id r, op_command r, op_capture r, op_user r)"

definition media_provenance where
  "media_provenance m = (med_id m, med_permalink m, med_acquisition m, med_authority m)"

definition inbox_provenance where
  "inbox_provenance r = (in_consumer r, in_event r)"

definition grows :: "archive \<Rightarrow> archive \<Rightarrow> bool" where
  "grows db db' \<longleftrightarrow>
     prefix (raws db) (raws db') \<and> prefix (revisions db) (revisions db')
     \<and> prefix (observations db) (observations db') \<and> prefix (removals db) (removals db')
     \<and> prefix (deletions db) (deletions db')
     \<and> prefix (map capture_provenance (captures db)) (map capture_provenance (captures db'))
     \<and> prefix (map operation_provenance (operations db)) (map operation_provenance (operations db'))
     \<and> prefix (map media_provenance (media db)) (map media_provenance (media db'))
     \<and> prefix (map inbox_provenance (inbox db)) (map inbox_provenance (inbox db'))
     \<and> prefix (map fact_columns (outbox db)) (map fact_columns (outbox db'))"

named_theorems grows_intros

lemma grows_refl [grows_intros]: "grows db db"
  by (simp add: grows_def)

lemma grows_trans: "grows a b \<Longrightarrow> grows b c \<Longrightarrow> grows a c"
  unfolding grows_def by (meson prefix_order.trans)

section \<open>Table operations\<close>

lemma grows_drawn [grows_intros]: "grows db (drawn db)"
  by (simp add: grows_def)

lemma grows_append_outbox [grows_intros]: "grows db (append_outbox db r)"
  by (simp add: grows_def)

lemma grows_add_observation [grows_intros]: "grows db (add_observation db ob)"
  by (simp add: grows_def add_observation_def)

lemma grows_update_capture:
  assumes "\<And>c. capture_provenance (f c) = capture_provenance c"
  shows "grows db (update_capture db P f)"
  by (simp add: grows_def map_update_where_same [of P capture_provenance f, OF assms])

lemma provenance_kept [simp]:
  "capture_provenance (mark_unavailable c) = capture_provenance c"
  "capture_provenance (mark_tombstoned c) = capture_provenance c"
  "capture_provenance (link_resolved m c) = capture_provenance c"
  "capture_provenance (lease_until t c) = capture_provenance c"
  "capture_provenance (rescheduled n t c) = capture_provenance c"
  "capture_provenance (make_due t c) = capture_provenance c"
  by (simp_all add: capture_provenance_def mark_unavailable_def mark_tombstoned_def link_resolved_def
      lease_until_def rescheduled_def make_due_def)

lemma grows_update_media:
  assumes "\<And>m. media_provenance (f m) = media_provenance m"
  shows "grows db (db\<lparr>media := update_where P f (media db)\<rparr>)"
  by (simp add: grows_def map_update_where_same [of P media_provenance f, OF assms])

lemma grows_update_operations:
  assumes "\<And>r. operation_provenance (f r) = operation_provenance r"
  shows "grows db (db\<lparr>operations := update_where P f (operations db)\<rparr>)"
  by (simp add: grows_def map_update_where_same [of P operation_provenance f, OF assms])

lemma grows_outbox_update:
  "map fact_columns rows = map fact_columns (outbox db) \<Longrightarrow> grows db (db\<lparr>outbox := rows\<rparr>)"
  by (simp add: grows_def)

section \<open>Transactions\<close>

lemma grows_append_row: "grows db (append_outbox (drawn db) r)"
  by (rule grows_trans [OF grows_drawn grows_append_outbox])

lemma grows_append_fact: "append_fact E now db k cid = Ok db' \<Longrightarrow> grows db db'"
  by (auto simp: append_fact_def grows_append_row split: result.splits)

lemma grows_append_report: "append_operation_report E now db cid o1 cmd r = Ok db' \<Longrightarrow> grows db db'"
  by (auto simp: append_operation_report_def Let_def grows_append_row split: if_splits)

lemma grows_append_removal: "append_removal_fact E db cid reason t = Ok db' \<Longrightarrow> grows db db'"
  by (auto simp: append_removal_fact_def append_source_removal_fact_def grows_append_row
      split: option.splits result.splits)

lemma grows_submit:
  assumes "submit_capture_in_transaction E db req = Ok (db', s)"
  shows "grows db db'"
proof -
  from submit_Ok [OF assms] obtain p :: CanonicalPermalink and am
    where "db' = insert_capture (drawn db) (new_capture (now_v7 E db) req (url p) am)" by blast
  then show ?thesis by (auto simp: insert_capture_def grows_def split: option.splits)
qed

lemma grows_unavailable: "record_capture_unavailable E db cid k t = Ok (db', x) \<Longrightarrow> grows db db'"
  by (auto simp: record_capture_unavailable_def Let_def split: option.splits if_splits
      intro: grows_trans [OF grows_drawn grows_add_observation]
        grows_trans [OF grows_trans [OF grows_drawn grows_add_observation] grows_update_capture])

lemma grows_tombstone:
  assumes "tombstone_capture E db cid reason t = Ok (db', x)"
  shows "grows db db'"
proof -
  have del: "grows db (insert_deletion_operation db d)" for d
    by (simp add: insert_deletion_operation_def grows_def)
  have fin: "grows d (update_capture (d\<lparr>removals := removals d @ [r]\<rparr>) P mark_tombstoned)" for d r P
  proof (rule grows_trans)
    show "grows d (d\<lparr>removals := removals d @ [r]\<rparr>)" by (simp add: grows_def)
  qed (simp add: grows_update_capture)
  show ?thesis using assms
    by (auto simp: tombstone_capture_def Let_def grows_refl dest!: grows_append_removal
        intro!: grows_trans [OF grows_trans [OF del _] fin] split: option.splits if_splits result.splits)
qed

lemma grows_store_evidence:
  assumes "store_evidence E now db cid p n b t = (db', s)"
  shows "grows db db'"
proof -
  obtain db2 m where up: "upsert_media_projection E now (insert_raw E db b t) p n t = (db2, m)" by fastforce
  define db3 where "db3 = insert_revision E db2 m (now_v7 E db) t"
  have "grows db (insert_raw E db b t)" by (simp add: insert_raw_def grows_def)
  moreover have "grows (insert_raw E db b t) db2"
    using up by (auto simp: upsert_media_projection_def grows_def map_update_where_same media_provenance_def
        split: option.splits)
  moreover have "grows db2 db3"
    by (simp add: db3_def insert_revision_def grows_def map_update_where_same media_provenance_def)
  moreover have "grows db3 (observe E db3 (Some m) cid ObsAvailable t)"
    unfolding observe_def by (rule grows_trans [OF grows_drawn grows_add_observation])
  moreover have "grows (observe E db3 (Some m) cid ObsAvailable t) db'"
    using assms up by (auto simp: store_evidence_def Let_def db3_def intro: grows_update_capture)
  ultimately show ?thesis by (blast intro: grows_trans)
qed

lemma grows_store_resolution:
  assumes "store_resolution E now db cid p n b t = Ok (db', s)"
  shows "grows db db'"
proof -
  obtain db5 s5 where ev: "store_evidence E now db cid p n b t = (db5, s5)" by fastforce
  from assms have "db' = db5 \<or> (\<exists>k. append_fact E now db5 k cid = Ok db')"
    by (auto simp: store_resolution_def Let_def ev split: if_splits result.splits)
  then show ?thesis
    using grows_store_evidence [OF ev] by (auto intro: grows_trans grows_append_fact)
qed

lemma grows_failed_resolution:
  assumes "record_failed_resolution E now db cid k t = Ok (db', x)"
  shows "grows db db'"
proof -
  let ?db1 = "observe E db None cid k t"
  let ?db2 = "update_capture ?db1 (\<lambda>r. cap_id r = cid \<and> open_or_resolved r) mark_unavailable"
  have "grows db ?db1"
    unfolding observe_def by (rule grows_trans [OF grows_drawn grows_add_observation])
  then have db2: "grows db ?db2" by (rule grows_trans) (simp add: grows_update_capture)
  from assms consider "db' = ?db2" | (deleted) mid db3 where
      "db3 = ?db2\<lparr>media := update_where (\<lambda>m. med_id m = mid)
        (\<lambda>m. m\<lparr>med_upstream := UpDeleted, med_updated_at := t\<rparr>) (media ?db2)\<rparr>"
      "append_fact E now db3 Updated cid = Ok db'"
    by (auto simp: record_failed_resolution_def Let_def
        split: option.splits AvailabilityObservationKind.splits result.splits)
  then show ?thesis
  proof cases
    case deleted
    have "grows ?db2 db3" unfolding deleted(1)
      by (rule grows_update_media) (simp add: media_provenance_def)
    with db2 grows_append_fact [OF deleted(2)] show ?thesis by (blast intro: grows_trans)
  qed (use db2 in simp)
qed

lemma grows_apply: "apply_surface_outcome E now db cid p oc t = Ok (db', x) \<Longrightarrow> grows db db'"
  by (auto simp: apply_surface_outcome_def dest: grows_failed_resolution grows_store_resolution
      split: SurfaceOutcome.splits result.splits if_splits)

lemma grows_record_operation:
  assumes "record_operation E now db cmd cid = Ok db'"
  shows "grows db db'"
proof -
  define db1 where "db1 = (if \<not> operation_conflict db (operation_id cmd) (command_id cmd)
     then db\<lparr>operations := operations db @ [\<lparr>op_id = operation_id cmd, op_command = command_id cmd,
       op_capture = cid, op_user = user_ref cmd, op_reported_at = None\<rparr>]\<rparr> else db)"
  define db2 where "db2 = update_capture db1 (\<lambda>c. cap_id c = cid \<and> reopenable c) (make_due now)"
  have "grows db db1" by (simp add: db1_def grows_def)
  moreover have "grows db1 db2" by (simp add: db2_def grows_update_capture)
  moreover have "grows db2 db'"
    using assms by (cases "operation_conflict db (operation_id cmd) (command_id cmd)")
      (auto simp: record_operation_def db1_def db2_def grows_refl dest: grows_append_report)
  ultimately show ?thesis by (blast intro: grows_trans)
qed

lemma grows_ingest:
  assumes "ingest_command E now db cmd = Ok (db', r)"
  shows "grows db db'"
proof -
  have claim: "grows db (claim_inbox db i)" for i by (simp add: claim_inbox_def grows_def)
  have inbox: "grows d (mark_inbox_outcome d i o1)" for d i o1
    by (simp add: mark_inbox_outcome_def grows_def map_update_where_same inbox_provenance_def)
  show ?thesis
  proof (cases "claimed_in_inbox db (command_id cmd)")
    case True
    with assms show ?thesis by (simp add: ingest_command_def grows_refl)
  next
    case False
    with assms show ?thesis
      by (cases rule: ingest_cases)
        (blast intro: grows_trans claim grows_append_report grows_submit grows_record_operation inbox)+
  qed
qed

lemma grows_report_operations:
  "report_operations E now db cid u cc rs = Ok db' \<Longrightarrow> grows db db'"
  by (induction E now db cid u cc rs rule: report_operations.induct)
    (auto simp: grows_refl intro: grows_trans dest: grows_append_report split: result.splits)

lemma grows_report_pending:
  assumes "report_pending E now db cid = Ok (db', n)"
  shows "grows db db'"
proof -
  define db1 where "db1 = db\<lparr>operations := update_where (pending cid) (mark_reported now) (operations db)\<rparr>"
  have "grows db db1" unfolding db1_def
    by (rule grows_update_operations) (simp add: operation_provenance_def mark_reported_def)
  with assms show ?thesis
    by (auto simp: report_pending_def Let_def db1_def [symmetric] grows_refl intro: grows_trans
        dest: grows_report_operations split: option.splits result.splits)
qed

lemma grows_claim_rows: "claim_rows E now db cs ls n = Ok (db', x) \<Longrightarrow> grows db db'"
proof (induction E now db cs ls n rule: claim_rows.induct)
  case (2 E now db c cs ls n)
  have "grows db (update_capture db P (lease_until t))" for P t by (simp add: grows_update_capture)
  with 2 show ?case
    by (auto split: if_splits result.splits intro: grows_trans dest: grows_report_pending)
qed (simp add: grows_refl)

lemma archive_step_grows: "archive_step E db db' \<Longrightarrow> grows db db'"
proof (induction rule: archive_step.induct)
  case (step_claim now db policy db' leases)
  then show ?case by (auto simp: claim_def Let_def dest: grows_claim_rows split: result.splits)
next
  case (step_reschedule db cid attempt now)
  show ?case by (simp add: reschedule_def grows_update_capture)
next
  case (step_publish db now deliver batch rpolicy)
  show ?case by (simp add: grows_outbox_update run_once_keeps_facts)
next
  case (step_acknowledge db now event tenant ack)
  show ?case by (simp add: grows_outbox_update acknowledge_def fact_columns_kept)
qed (simp_all add: submit_capture_def report_concluded_def grows_submit grows_ingest grows_unavailable
  grows_tombstone grows_failed_resolution grows_apply grows_report_pending)

interpretation history: invariant_system "\<lambda>db. db = base" "archive_step E" "grows base" for E base
  by unfold_locales (auto simp: grows_refl intro: grows_trans archive_step_grows)


lemma steps_grow: "(archive_step E)\<^sup>*\<^sup>* db db' \<Longrightarrow> grows db db'"
  by (rule history.inv_reachable [of _ _ E, OF refl])

section \<open>Properties\<close>

text \<open>
  C2. What is archived is never rewritten: along any run of intake, ingestion, removal, resolution,
  reporting and publication, the raw payloads, the revisions, the observations and the removals are
  only appended to, and every capture keeps its owner, permalink, acquisition, authority, client,
  note and capture time, every media row its identity and provenance, and every event its fact.
\<close>
theorem evidence_is_append_only:
  assumes "(archive_step E)\<^sup>*\<^sup>* db db'"
  shows "prefix (raws db) (raws db') \<and> prefix (revisions db) (revisions db')
     \<and> prefix (observations db) (observations db') \<and> prefix (removals db) (removals db')
     \<and> prefix (map capture_provenance (captures db)) (map capture_provenance (captures db'))
     \<and> prefix (map media_provenance (media db)) (map media_provenance (media db'))
     \<and> prefix (map fact_columns (outbox db)) (map fact_columns (outbox db'))"
  using steps_grow [OF assms] by (simp add: grows_def)

theorem evidence_is_append_only_witness:
  "prefix (map capture_provenance (captures ingested_once)) (map capture_provenance (captures concluded_once))"
proof -
  have "(archive_step sample_env)\<^sup>*\<^sup>* ingested_once concluded_once"
    unfolding concluded_once_def by (rule run_due_once_steps)
  from evidence_is_append_only [OF this] show ?thesis by blast
qed

lemma claimed_in_inbox_iff:
  "claimed_in_inbox db i \<longleftrightarrow> (BROWSER_CAPTURE_CONSUMER, i) \<in> set (map inbox_provenance (inbox db))"
  by (simp add: claimed_in_inbox_def inbox_provenance_def list_ex_iff image_iff) metis

lemma claimed_stays: "grows db db' \<Longrightarrow> claimed_in_inbox db i \<Longrightarrow> claimed_in_inbox db' i"
  unfolding claimed_in_inbox_iff grows_def by (meson set_mono_prefix subsetD)

lemma ingest_claims:
  assumes "ingest_command E now db cmd = Ok (db1, r)"
  shows "claimed_in_inbox db1 (command_id cmd)"
proof (cases "claimed_in_inbox db (command_id cmd)")
  case True
  with assms show ?thesis by (simp add: ingest_command_def)
next
  case False
  have d: "claimed_in_inbox (claim_inbox db (command_id cmd)) (command_id cmd)"
    by (simp add: claim_inbox_def claimed_in_inbox_def)
  have mark: "claimed_in_inbox (mark_inbox_outcome x i o1) j = claimed_in_inbox x j" for x i o1 j
    unfolding claimed_in_inbox_iff
    by (simp add: mark_inbox_outcome_def map_update_where_same inbox_provenance_def del: set_map)
  from assms False show ?thesis
  proof (cases rule: ingest_cases)
    case (rejected db2)
    then show ?thesis using claimed_stays [OF grows_append_report d] by (simp add: mark)
  next
    case (preserved db2 s db3)
    then show ?thesis
      using claimed_stays [OF grows_trans [OF grows_submit grows_record_operation] d] by (simp add: mark)
  qed
qed

text \<open>
  C14. Ingestion is idempotent for ever: once a command has been ingested, whatever the outcome and
  whatever happens afterwards, a redelivery of the same command identifier is a duplicate that
  changes no table.
\<close>
theorem redelivered_command_changes_nothing:
  assumes "ingest_command E now db cmd = Ok (db1, r)" "(archive_step E)\<^sup>*\<^sup>* db1 db2"
    and "command_id cmd' = command_id cmd"
  shows "ingest_command E now' db2 cmd' = Ok (db2, DuplicateCommand)"
  using claimed_stays [OF steps_grow [OF assms(2)] ingest_claims [OF assms(1)]] assms(3)
  by (simp add: ingest_command_def)

lemma ingested_once_Ok: "\<exists>r. ingest_command sample_env 10 empty_archive (sample_command 0 0) = Ok (ingested_once, r)"
  by (simp add: ingested_once_def committed_def empty_archive_def sample_defs table_defs ingest_defs
      sample_canonicalize Let_def)

theorem redelivered_command_changes_nothing_witness:
  "ingest_command sample_env 30 concluded_once (sample_command 0 7) = Ok (concluded_once, DuplicateCommand)"
proof -
  obtain r where r: "ingest_command sample_env 10 empty_archive (sample_command 0 0) = Ok (ingested_once, r)"
    using ingested_once_Ok by blast
  have "(archive_step sample_env)\<^sup>*\<^sup>* ingested_once concluded_once"
    unfolding concluded_once_def by (rule run_due_once_steps)
  from redelivered_command_changes_nothing [OF r this] show ?thesis by (simp add: sample_command_def)
qed

end
