(* ===== verification/Capture_Worker.thy ===== *)
theory Capture_Worker
  imports Capture_History
begin

text \<open>
  Properties of intake, of the resolution worker and of the two concluding transactions: idempotent
  submission, leases, bounded retries, what a failed and what a successful resolution writes, and
  the terminal reports.
\<close>

section \<open>Capture rows under updates\<close>

interpretation unavailable_row: key_preserving cap_id mark_unavailable
  by unfold_locales (simp add: mark_unavailable_def)

interpretation tombstoned_row: key_preserving cap_id mark_tombstoned
  by unfold_locales (simp add: mark_tombstoned_def)

interpretation linked_row: key_preserving cap_id "link_resolved m" for m
  by unfold_locales (simp add: link_resolved_def)

interpretation leased_row: key_preserving cap_id "lease_until t" for t
  by unfold_locales (simp add: lease_until_def)

interpretation rescheduled_row: key_preserving cap_id "rescheduled n t" for n t
  by unfold_locales (simp add: rescheduled_def)

interpretation due_row: key_preserving cap_id "make_due t" for t
  by unfold_locales (simp add: make_due_def)

lemmas capture_of_update = unavailable_row.find_key_update tombstoned_row.find_key_update
  linked_row.find_key_update leased_row.find_key_update rescheduled_row.find_key_update due_row.find_key_update

lemma capture_of_id: "capture_of db i = Some c \<Longrightarrow> cap_id c = i"
  by (auto simp: capture_of_def find_Some_iff)

lemma capture_of_in: "capture_of db i = Some c \<Longrightarrow> c \<in> set (captures db)"
  by (auto simp: capture_of_def find_Some_iff)

section \<open>Submission\<close>

lemma capture_by_identity_insert:
  "capture_by_identity (insert_capture (drawn db) c) (cap_user c) (cap_url c) =
     Some (case capture_by_identity db (cap_user c) (cap_url c) of None \<Rightarrow> c | Some x \<Rightarrow> x)"
  by (auto simp: insert_capture_def capture_by_identity_def find_append split: option.splits)

lemma new_capture_key [simp]:
  "cap_user (new_capture i req l am) = req_user req" "cap_url (new_capture i req l am) = l"
  by (simp_all add: new_capture_def)

lemma resubmission:
  assumes "submit_capture_in_transaction E db req = Ok (db1, s1)"
    and "req_user req' = req_user req" "canonicalize (req_url req') = canonicalize (req_url req)"
    and "acquisition_wire_method (req_client req') \<noteq> None"
  shows "submit_capture_in_transaction E db1 req' = Ok (drawn db1, Reused (submission_record s1))"
proof -
  from submit_Ok [OF assms(1)] obtain p am where p: "canonicalize (req_url req) = Ok p"
    and r: "read_capture db1 (req_user req) (url p) = Ok (submission_record s1)" by blast
  from assms(4) obtain am' where am': "acquisition_wire_method (req_client req') = Some am'" by auto
  from r obtain c where c: "capture_by_identity db1 (req_user req) (url p) = Some c"
    by (auto simp: read_capture_def split: option.splits)
  then have same: "capture_by_identity (drawn db1) (req_user req) (url p) = Some c"
    by (simp add: capture_by_identity_def)
  then have "insert_capture (drawn db1) (new_capture (now_v7 E db1) req' (url p) am') = drawn db1"
    by (simp add: insert_capture_def assms(2))
  moreover have "read_capture (drawn db1) (req_user req) (url p) = Ok (submission_record s1)"
    using r c same by (simp add: read_capture_def)
  ultimately show ?thesis
    by (simp add: submit_capture_in_transaction_def assms(2,3) p am' Let_def c)
qed

text \<open>
  Submitting is idempotent per user and permalink: after a submission, any further submission by
  the same user of a link with the same canonical form, through any supported client and whatever
  note, time or key it carries, is a reuse of the same record and changes no table.
\<close>
theorem resubmission_is_reuse:
  assumes "submit_capture E db req = Ok (db1, s1)"
    and "req_user req' = req_user req" "canonicalize (req_url req') = canonicalize (req_url req)"
    and "acquisition_wire_method (req_client req') \<noteq> None"
  shows "submit_capture E db1 req' = Ok (drawn db1, Reused (submission_record s1))"
  using resubmission assms unfolding submit_capture_def by blast

definition sample_request :: "rstr option \<Rightarrow> ClientSource \<Rightarrow> CaptureRequest" where
  "sample_request note client = \<lparr>req_user = Uuid 1 1, req_url = shared_reel, req_captured_at = 5, req_client = client,
     req_note = note, req_key = None\<rparr>"

theorem resubmission_is_reuse_witness:
  "\<exists>db1 s1. submit_capture sample_env empty_archive (sample_request None IosShareExtension) = Ok (db1, s1)
     \<and> submit_capture sample_env db1 (sample_request (Some [65]) BrowserExtension) =
         Ok (drawn db1, Reused (submission_record s1))"
proof -
  obtain db1 s1 where s1: "submit_capture sample_env empty_archive (sample_request None IosShareExtension) = Ok (db1, s1)"
    by (simp add: submit_capture_def sample_request_def empty_archive_def sample_defs table_defs ingest_defs
        sample_canonicalize Let_def)
  have "submit_capture sample_env db1 (sample_request (Some [65]) BrowserExtension) =
      Ok (drawn db1, Reused (submission_record s1))"
    by (rule resubmission_is_reuse [OF s1]) (simp_all add: sample_request_def)
  with s1 show ?thesis by blast
qed

section \<open>Leases\<close>

lemma report_operations_captures:
  "report_operations E now db cid u cc rs = Ok db' \<Longrightarrow> captures db' = captures db \<and> operations db' = operations db"
  by (induction E now db cid u cc rs rule: report_operations.induct)
    (auto split: result.splits dest!: append_operation_report_Ok)

lemma report_pending_captures: "report_pending E now db cid = Ok (db', n) \<Longrightarrow> captures db' = captures db"
  by (auto simp: report_pending_def Let_def dest: report_operations_captures split: option.splits result.splits)

definition lease_of :: "CaptureRow \<Rightarrow> leased" where
  "lease_of c = (cap_id c, cap_url c, cap_attempts c)"

definition is_accepted :: "CaptureRow \<Rightarrow> bool" where
  "is_accepted c \<longleftrightarrow> cap_status c = Accepted"

lemma claim_rows_leases:
  "claim_rows E now db cs ls n = Ok (db', (ls', n')) \<Longrightarrow> ls' = ls @ map lease_of (filter is_accepted cs)"
  by (induction E now db cs ls n rule: claim_rows.induct)
    (auto simp: lease_of_def is_accepted_def split: if_splits result.splits)

lemma lease_twice:
  "update_where (\<lambda>c. cap_id c \<in> A) (lease_until t) (update_where (\<lambda>c. cap_id c = i) (lease_until t) cs) =
     update_where (\<lambda>c. cap_id c \<in> insert i A) (lease_until t) cs"
  by (induction cs) (auto simp: lease_until_def)

lemma claim_rows_captures:
  "claim_rows E now db cs ls n = Ok (db', x) \<Longrightarrow>
   captures db' = update_where (\<lambda>c. cap_id c \<in> cap_id ` set (filter is_accepted cs)) (lease_until (now + LEASE)) (captures db)"
proof (induction E now db cs ls n rule: claim_rows.induct)
  case (1 E now db ls n)
  then show ?case by (simp add: update_where_none)
next
  case (2 E now db c cs ls n)
  show ?case
  proof (cases "is_accepted c")
    case True
    then have "captures db' = update_where (\<lambda>x. cap_id x \<in> cap_id ` set (filter is_accepted cs)) (lease_until (now + LEASE))
        (update_where (\<lambda>r. cap_id r = cap_id c) (lease_until (now + LEASE)) (captures db))"
      using 2 by (simp add: is_accepted_def)
    with True show ?thesis by (simp add: lease_twice)
  next
    case False
    then obtain db1 m where r: "report_pending E now db (cap_id c) = Ok (db1, m)"
      and rest: "claim_rows E now db1 cs ls (n + m) = Ok (db', x)"
      using "2.prems" by (auto simp: is_accepted_def split: result.splits)
    have "cap_status c \<noteq> Accepted" using False by (simp add: is_accepted_def)
    from "2.IH"(2) [OF this r refl rest] False show ?thesis
      by (simp add: report_pending_captures [OF r])
  qed
qed

lemma claimed_rows_props:
  "c \<in> set (claimed_rows db now limit) \<Longrightarrow> c \<in> set (captures db) \<and> due db now c"
  unfolding claimed_rows_def by (drule in_set_takeD) simp

lemma claim_props:
  assumes "claim E now db policy = Ok (db', (ls, s))"
  shows "ls = map lease_of (filter is_accepted (claimed_rows db now (batch_size policy)))"
    and "captures db' = update_where (\<lambda>c. cap_id c \<in> fst ` set ls) (lease_until (now + LEASE)) (captures db)"
proof -
  from assms obtain n where c: "claim_rows E now db (claimed_rows db now (batch_size policy)) [] 0 = Ok (db', (ls, n))"
    by (auto simp: claim_def Let_def split: result.splits)
  from claim_rows_leases [OF c] show ls: "ls = map lease_of (filter is_accepted (claimed_rows db now (batch_size policy)))"
    by simp
  have "fst ` set ls = cap_id ` set (filter is_accepted (claimed_rows db now (batch_size policy)))"
    unfolding ls by (force simp: lease_of_def)
  with claim_rows_captures [OF c]
  show "captures db' = update_where (\<lambda>c. cap_id c \<in> fst ` set ls) (lease_until (now + LEASE)) (captures db)"
    by simp
qed

lemma leased_capture:
  assumes "claim E now db policy = Ok (db', (ls, s))" "i \<in> fst ` set ls"
  shows "\<exists>c \<in> set (captures db). cap_id c = i \<and> cap_status c = Accepted \<and> due db now c"
  using assms(2) claimed_rows_props unfolding claim_props(1) [OF assms(1)]
  by (auto simp: lease_of_def is_accepted_def)

lemma reclaim_disjoint:
  assumes "claim E now db policy = Ok (db1, (ls1, s1))" "claim E now' db1 policy' = Ok (db2, (ls2, s2))"
    and "now' < now + LEASE" "i \<in> fst ` set ls1"
  shows "i \<notin> fst ` set ls2"
proof
  assume "i \<in> fst ` set ls2"
  from leased_capture [OF assms(2) this] obtain c where c: "c \<in> set (captures db1)" "cap_id c = i"
    "cap_status c = Accepted" "due db1 now' c" by blast
  from c(1) have "c \<in> set (update_where (\<lambda>c. cap_id c \<in> fst ` set ls1) (lease_until (now + LEASE)) (captures db))"
    by (simp only: claim_props(2) [OF assms(1)])
  then obtain d where "c = (if cap_id d \<in> fst ` set ls1 then lease_until (now + LEASE) d else d)"
    unfolding set_update_where by blast
  with c(2) assms(4) have "cap_next c = Some (now + LEASE)"
    by (auto simp: lease_until_def split: if_splits)
  with c(3,4) assms(3) show False by (auto simp: due_def)
qed

text \<open>
  Leases exclude each other and only open work is fetched: a claim leases captures that are
  accepted, due and still owe a report, never a resolved, failed, unavailable or tombstoned one, and
  until the lease of 120 seconds expires no other claim hands any of them out again.
\<close>
theorem claim_leases_exclusively:
  assumes "claim E now db policy = Ok (db1, (ls1, s1))" "i \<in> fst ` set ls1"
  shows "(\<exists>c \<in> set (captures db). cap_id c = i \<and> cap_status c = Accepted \<and> has_pending db i)
    \<and> (\<forall>now' policy' db2 ls2 s2. now' < now + seconds 120 \<longrightarrow>
        claim E now' db1 policy' = Ok (db2, (ls2, s2)) \<longrightarrow> i \<notin> fst ` set ls2)"
  using leased_capture [OF assms] reclaim_disjoint [OF assms(1) _ _ assms(2)]
  by (auto simp: due_def LEASE_def)


lemma sample_claim:
  "\<exists>db1 s1. claim sample_env 20 ingested_once sample_policy = Ok (db1, ([(Uuid 9 0, url sample_permalink, 0)], s1))"
  by (simp add: ingested_once_eq empty_archive_def worker_defs table_defs Let_def
      sample_policy_def sample_capture_def sample_operation_def)

theorem claim_leases_exclusively_witness:
  "\<exists>db1 ls1 s1. claim sample_env 20 ingested_once sample_policy = Ok (db1, (ls1, s1)) \<and> Uuid 9 0 \<in> fst ` set ls1
     \<and> (\<forall>now' policy' db2 ls2 s2. now' < 20 + seconds 120 \<longrightarrow>
        claim sample_env now' db1 policy' = Ok (db2, (ls2, s2)) \<longrightarrow> Uuid 9 0 \<notin> fst ` set ls2)"
proof -
  obtain db1 s1 where c: "claim sample_env 20 ingested_once sample_policy =
      Ok (db1, ([(Uuid 9 0, url sample_permalink, 0)], s1))"
    using sample_claim by blast
  have "Uuid 9 0 \<in> fst ` set [(Uuid 9 0, url sample_permalink, 0 :: int)]" by simp
  with c claim_leases_exclusively [OF c this] show ?thesis by blast
qed

section \<open>Terminal reports\<close>

lemma report_operations_outbox:
  "report_operations E now db cid u cc rs = Ok db' \<Longrightarrow>
   \<exists>rows. outbox db' = outbox db @ rows \<and> map ob_payload rows = map (\<lambda>r. ReportPayload (terminal_report cc (op_id r))) rs
     \<and> list_all (\<lambda>r. ob_tenant r = u \<and> ob_agg_id r = cid) rows"
proof (induction E now db cid u cc rs rule: report_operations.induct)
  case (2 E now db cid u cc r rs)
  then obtain db1 where one: "append_operation_report E now db (Some cid) u (op_command r) (terminal_report cc (op_id r)) = Ok db1"
    and rest: "report_operations E now db1 cid u cc rs = Ok db'"
    by (auto split: result.splits)
  from append_operation_report_Ok [OF one] obtain row where row: "outbox db1 = outbox db @ [row]"
    "ob_payload row = ReportPayload (terminal_report cc (op_id r))" "ob_tenant row = u" "ob_agg_id row = cid"
    by auto
  from "2.IH" [OF one rest] obtain rows where "outbox db' = outbox db1 @ rows"
    "map ob_payload rows = map (\<lambda>r. ReportPayload (terminal_report cc (op_id r))) rs"
    "list_all (\<lambda>r. ob_tenant r = u \<and> ob_agg_id r = cid) rows" by blast
  with row show ?case by (intro exI [of _ "row # rows"]) simp
qed simp

lemma pending_marked: "\<not> pending cid (if pending cid r then mark_reported now r else r)"
  by (simp add: pending_def mark_reported_def)

lemma no_pending_after: "\<not> list_ex (pending cid) (update_where (pending cid) (mark_reported now) ops)"
  unfolding list_ex_iff set_update_where using pending_marked by blast

text \<open>
  Reporting a concluded capture: every operation of it that still owes a report gets exactly one
  terminal report, in order, stating the capture's own conclusion (the preserved source, or why it is
  unavailable) for the capture's owner, and none is left owing; an open capture reports nothing.
\<close>
theorem report_concluded_reports_all:
  assumes "report_concluded E now db cid = Ok (db', n)" "capture_of db cid = Some c"
  shows "case conclusion_of E db c of
      None \<Rightarrow> db' = db \<and> n = 0
    | Some k \<Rightarrow> n = length (filter (pending cid) (operations db)) \<and> \<not> has_pending db' cid
        \<and> (\<exists>rows. outbox db' = outbox db @ rows
            \<and> map ob_payload rows = map (\<lambda>r. ReportPayload (terminal_report k (op_id r))) (filter (pending cid) (operations db))
            \<and> list_all (\<lambda>r. ob_tenant r = cap_user c \<and> ob_agg_id r = cid) rows)"
proof (cases "conclusion_of E db c")
  case None
  with assms show ?thesis by (simp add: report_concluded_def report_pending_def)
next
  case (Some k)
  define db1 where "db1 = db\<lparr>operations := update_where (pending cid) (mark_reported now) (operations db)\<rparr>"
  from assms Some have r: "report_operations E now db1 cid (cap_user c) k (filter (pending cid) (operations db)) = Ok db'"
    and n: "n = length (filter (pending cid) (operations db))"
    by (auto simp: report_concluded_def report_pending_def Let_def db1_def split: result.splits)
  have "\<not> has_pending db' cid"
    using report_operations_captures [OF r] no_pending_after by (simp add: has_pending_def db1_def)
  with report_operations_outbox [OF r] n Some show ?thesis by (simp add: db1_def)
qed

definition unavailable_once :: archive where
  "unavailable_once = update_capture ingested_once (\<lambda>c. True) mark_unavailable"

theorem report_concluded_reports_all_witness:
  "\<exists>db' rows. report_concluded sample_env 30 unavailable_once (Uuid 9 0) = Ok (db', 1)
     \<and> outbox db' = outbox unavailable_once @ rows
     \<and> map ob_payload rows = [ReportPayload (UnavailableReport (Uuid 4 0) Inaccessible)]"
proof -
  note defs = unavailable_once_def ingested_once_eq empty_archive_def worker_defs table_defs Let_def
    sample_capture_def sample_operation_def newest_observation_def latest_unavailability_def sample_env_def
  have c: "capture_of unavailable_once (Uuid 9 0) = Some (mark_unavailable sample_capture)"
    by (simp add: defs)
  obtain db' where d: "report_concluded sample_env 30 unavailable_once (Uuid 9 0) = Ok (db', 1)"
    by (simp add: defs)
  have k: "conclusion_of sample_env unavailable_once (mark_unavailable sample_capture) =
      Some (UnavailableConclusion Inaccessible)"
    "filter (pending (Uuid 9 0)) (operations unavailable_once) = [sample_operation]"
    by (simp_all add: defs)
  from report_concluded_reports_all [OF d c] d show ?thesis
    by (simp add: k) (auto simp: sample_operation_def)
qed

section \<open>Retries\<close>

text \<open>
  The retry schedule: 30 seconds, two minutes and eight minutes after the first three transient
  failures, thirty minutes after every later one.
\<close>
theorem retry_delay_schedule:
  "retry_delay attempt =
     (if attempt \<le> 1 then seconds 30 else if attempt = 2 then seconds 120
      else if attempt = 3 then seconds 480 else seconds 1800)"
proof -
  have e: "unat (saturating_sub attempt 1) = unat attempt - 1" by (simp add: unat_saturating_sub)
  have u: "attempt \<le> 1 \<longleftrightarrow> unat attempt \<le> 1" "attempt = 2 \<longleftrightarrow> unat attempt = 2" "attempt = 3 \<longleftrightarrow> unat attempt = 3"
    by (simp_all add: word_le_nat_alt word_unat_eq_iff)
  consider "unat attempt \<le> 1" | "unat attempt = 2" | "unat attempt = 3" | "4 \<le> unat attempt" by linarith
  then show ?thesis
  proof cases
    case 4
    then have "(4::int) ^ 3 \<le> 4 ^ min (unat attempt - 1) 6" by (intro power_increasing) auto
    then have "min (30 * 4 ^ min (unat attempt - 1) 6) 1800 = (1800::int)" by simp
    with 4 show ?thesis by (simp add: retry_delay_def e u MAX_RETRY_DELAY_SECONDS_def)
  qed (simp_all add: retry_delay_def e u MAX_RETRY_DELAY_SECONDS_def)
qed

end
