(* ===== verification/Capture_Outcomes.thy ===== *)
theory Capture_Outcomes
  imports Capture_Worker
begin

text \<open>
  What a failed and what a successful resolution writes, that transient failures are retried a
  bounded number of times, and two behaviours of concluded captures that the code does not mean to
  have: a resolution in flight revives a tombstoned capture, and a re-issued command reopens a
  capture that no claim selects until a further operation is recorded for it.
\<close>

section \<open>A failed resolution\<close>

definition media_content where
  "media_content m = (med_id m, med_permalink m, med_type m, med_caption m, med_acquisition m, med_authority m,
     med_revision m)"

lemma failed_resolution_cases:
  assumes "record_failed_resolution E now db cid k t = Ok (db', x)"
  obtains (plain) "db' = update_capture (observe E db None cid k t) (\<lambda>r. cap_id r = cid \<and> open_or_resolved r) mark_unavailable"
  | (deleted) mid db3 where "k = ObsDeleted" "append_fact E now db3 Updated cid = Ok db'"
      "db3 = (update_capture (observe E db None cid k t) (\<lambda>r. cap_id r = cid \<and> open_or_resolved r) mark_unavailable)
        \<lparr>media := update_where (\<lambda>m. med_id m = mid) (\<lambda>m. m\<lparr>med_upstream := UpDeleted, med_updated_at := t\<rparr>) (media db)\<rparr>"
  using assms
  by (auto simp: record_failed_resolution_def Let_def observe_def add_observation_def
      split: option.splits AvailabilityObservationKind.splits result.splits)

lemma observe_tables [simp]:
  "captures (observe E db m c k t) = captures db" "operations (observe E db m c k t) = operations db"
  "raws (observe E db m c k t) = raws db" "revisions (observe E db m c k t) = revisions db"
  "media (observe E db m c k t) = media db" "outbox (observe E db m c k t) = outbox db"
  "removals (observe E db m c k t) = removals db"
  "observations (observe E db m c k t) = observations db @
     [\<lparr>obs_id = now_v7 E db, obs_media = m, obs_capture = Some c, obs_kind = k,
       obs_resolver = Some OEMBED_PARSER_VERSION, obs_at = t\<rparr>]"
  by (simp_all add: observe_def add_observation_def)

lemma append_fact_tables:
  assumes "append_fact E now db k cid = Ok db'"
  shows "captures db' = captures db" "operations db' = operations db" "raws db' = raws db"
    "revisions db' = revisions db" "media db' = media db" "observations db' = observations db"
    "\<exists>r. outbox db' = outbox db @ [r] \<and> ob_type r = fact_event_type k \<and> ob_agg_id r = cid"
  using append_fact_Ok [OF assms] by auto

text \<open>
  A failed resolution fabricates nothing: it stores no payload and no revision, leaves every media
  row's content, provenance and revision alone, appends the one observation it made, moves only this
  capture and only from accepted or resolved to unavailable, and publishes at most an update saying a
  known source was deleted.
\<close>
theorem failed_resolution_fabricates_nothing:
  assumes "record_failed_resolution E now db cid k t = Ok (db', x)"
  shows "x = UnavailableOutcome k \<and> raws db' = raws db \<and> revisions db' = revisions db
    \<and> map media_content (media db') = map media_content (media db)
    \<and> captures db' = update_where (\<lambda>r. cap_id r = cid \<and> open_or_resolved r) mark_unavailable (captures db)
    \<and> (\<exists>ob. observations db' = observations db @ [ob] \<and> obs_kind ob = k \<and> obs_capture ob = Some cid \<and> obs_media ob = None)
    \<and> (outbox db' = outbox db \<or> (k = ObsDeleted \<and> (\<exists>r. outbox db' = outbox db @ [r] \<and> ob_type r = SourceUpdated)))"
proof -
  have x: "x = UnavailableOutcome k"
    using assms by (auto simp: record_failed_resolution_def Let_def
        split: option.splits AvailabilityObservationKind.splits result.splits)
  have mc: "map media_content (update_where P (\<lambda>m. m\<lparr>med_upstream := u, med_updated_at := v\<rparr>) ms) = map media_content ms"
    for P u v ms by (rule map_update_where_same) (simp add: media_content_def)
  from assms show ?thesis
  proof (cases rule: failed_resolution_cases)
    case plain
    then show ?thesis by (simp add: x)
  next
    case (deleted mid db3)
    note tab = append_fact_tables [OF deleted(2)]
    from tab(7) obtain r where "outbox db' = outbox db @ [r]" "ob_type r = SourceUpdated"
      by (auto simp: deleted(3))
    with deleted(1) show ?thesis by (simp add: x tab(1-6) deleted(3) mc)
  qed
qed

theorem failed_resolution_fabricates_nothing_witness:
  "\<exists>db'. record_failed_resolution sample_env 30 ingested_once (Uuid 9 0) ObsPrivate 30 =
       Ok (db', UnavailableOutcome ObsPrivate)
     \<and> raws db' = [] \<and> map cap_status (captures db') = [Unavailable]"
proof -
  note defs = ingested_once_eq empty_archive_def worker_defs table_defs sample_capture_def
  obtain db' where d: "record_failed_resolution sample_env 30 ingested_once (Uuid 9 0) ObsPrivate 30 =
      Ok (db', UnavailableOutcome ObsPrivate)"
    by (simp add: defs)
  from failed_resolution_fabricates_nothing [OF d] d show ?thesis
    by (intro exI [of _ db']) (simp add: defs)
qed

section \<open>A successful resolution\<close>

lemma store_evidence_tables:
  assumes "store_evidence E now db cid p n b t = (db', s)"
  shows "outbox db' = outbox db" "operations db' = operations db"
    and "raws db' = raws db @ [\<lparr>raw_id = sr_raw_record_id s, raw_kind = ''oembed_response'',
          raw_blob_ref = hex_encode (e_sha256 E b), raw_hash = e_sha256 E b, raw_size = int (length b),
          raw_body = b, raw_at = t\<rparr>]"
    and "revisions db' = revisions db @ [\<lparr>rev_id = sr_revision_id s, rev_media = sr_media_id s,
          rev_raw = sr_raw_record_id s, rev_parser = OEMBED_PARSER_VERSION, rev_at = t\<rparr>]"
    and "captures db' = update_where (\<lambda>c. cap_id c = cid \<and> cap_status c \<noteq> Failed) (link_resolved (sr_media_id s)) (captures db)"
    and "\<exists>ob. observations db' = observations db @ [ob] \<and> obs_kind ob = ObsAvailable \<and> obs_capture ob = Some cid"
  using assms
  by (auto simp: store_evidence_def Let_def insert_raw_def upsert_media_projection_def insert_revision_def
      split: prod.splits option.splits)

text \<open>The projection after a payload: the row of the permalink carries the payload's type, caption and revision.\<close>

lemma find_permalink_update:
  "(\<And>m. med_permalink (f m) = med_permalink m) \<Longrightarrow>
   find (\<lambda>m. med_permalink m = l) (update_where P f ms) =
     map_option (\<lambda>m. if P m then f m else m) (find (\<lambda>m. med_permalink m = l) ms)"
  by (rule find_update_where) simp

lemma store_evidence_media:
  assumes "store_evidence E now db cid p n b t = (db', s)"
  shows "\<exists>m. media_by_permalink db' (url p) = Some m \<and> med_id m = sr_media_id s \<and> med_type m = nm_media_type n
    \<and> med_caption m = nm_caption n \<and> med_revision m = Some (sr_revision_id s) \<and> med_upstream m = UpAvailable"
proof (cases "media_by_permalink db (url p)")
  case None
  then have "find (\<lambda>m. med_permalink m = url p) (media db) = None" by (simp add: media_by_permalink_def)
  with None assms show ?thesis
    by (auto simp: store_evidence_def Let_def insert_raw_def upsert_media_projection_def insert_revision_def
        media_by_permalink_def find_append find_permalink_update split: option.splits)
next
  case (Some m)
  then have f: "find (\<lambda>m. med_permalink m = url p) (media db) = Some m" by (simp add: media_by_permalink_def)
  with assms show ?thesis
    by (auto simp: store_evidence_def Let_def insert_raw_def upsert_media_projection_def insert_revision_def
        media_by_permalink_def find_permalink_update)
qed

lemma store_resolution_cases:
  assumes "store_resolution E now db cid p n b t = Ok (db', s)"
  obtains db5 where "store_evidence E now db cid p n b t = (db5, s)"
    and "if \<not> capture_has_fact db cid \<or> map_option (\<lambda>m. (med_type m, med_caption m)) (media_by_permalink db (url p))
            \<noteq> Some (nm_media_type n, nm_caption n)
         then append_fact E now db5 (if capture_has_fact db cid then Updated else Captured) cid = Ok db'
         else db' = db5"
proof -
  obtain db5 s5 where ev: "store_evidence E now db cid p n b t = (db5, s5)" by fastforce
  from assms show ?thesis
    by (intro that [of db5]) (auto simp: store_resolution_def Let_def ev split: if_splits result.splits)
qed



lemma sample_store:
  "\<exists>db' s. store_resolution sample_env 30 ingested_once (Uuid 9 0) sample_permalink
     \<lparr>nm_media_type = ''reel'', nm_caption = None\<rparr> [1, 2] 30 = Ok (db', s)"
  by (simp add: store_resolution_def store_evidence_def Let_def insert_raw_def upsert_media_projection_def insert_revision_def
      observe_def capture_has_fact_def media_by_permalink_def append_fact_def build_snapshot_def current_evidence_def
      acquisition_from_token_def media_of_def revision_of_def raw_of_def link_resolved_def sample_canonicalize
      ingested_once_eq empty_archive_def table_defs sample_capture_def sample_env_def now_v7_def)


section \<open>Bounded retries\<close>

text \<open>One attempt on a capture: what the worker does with the lease of that row.\<close>

definition attempt_once ::
  "env \<Rightarrow> (CanonicalPermalink \<Rightarrow> SurfaceOutcome) \<Rightarrow> ResolutionPolicy \<Rightarrow> uuid \<Rightarrow> instant \<Rightarrow> archive \<Rightarrow> archive" where
  "attempt_once E surface policy cid now db =
     (case capture_of db cid of
        None \<Rightarrow> db
      | Some c \<Rightarrow> fst (resolve_one E surface now policy db (cap_id c, cap_url c, cap_attempts c)))"

fun attempts ::
  "env \<Rightarrow> (CanonicalPermalink \<Rightarrow> SurfaceOutcome) \<Rightarrow> ResolutionPolicy \<Rightarrow> uuid \<Rightarrow> instant list \<Rightarrow> archive \<Rightarrow> archive" where
  "attempts E surface policy cid [] db = db"
| "attempts E surface policy cid (now # ts) db = attempts E surface policy cid ts (attempt_once E surface policy cid now db)"

lemma attempt_number_small:
  "0 \<le> a \<Longrightarrow> a < 2 ^ 31 \<Longrightarrow> uint (attempt_number a) = a + 1"
proof -
  assume a: "0 \<le> a" "a < 2 ^ 31"
  have u: "uint (word_of_int a :: 32 word) = a" using a by (simp add: uint_word_of_int)
  have "unat (word_of_int a :: 32 word) = nat a" using u by (metis nat_uint_eq)
  then have "unat (attempt_number a) = nat a + 1"
    using a by (simp add: attempt_number_def unat_saturating_add)
  then show ?thesis using a by (metis (mono_tags, lifting) Suc_eq_plus1 int_Suc int_nat_eq of_nat_unat add.commute)
qed

lemma attempt_reschedules:
  assumes "capture_of db cid = Some c" "canonicalize (cap_url c) = Ok p" "is_transient (surface p)"
    and "0 \<le> cap_attempts c" "cap_attempts c + 1 < uint (max_attempts policy)" "uint (max_attempts policy) < 2 ^ 31"
  shows "capture_of (attempt_once E surface policy cid now db) cid =
    Some (c\<lparr>cap_attempts := cap_attempts c + 1, cap_next := Some (now + retry_delay (attempt_number (cap_attempts c)))\<rparr>)"
proof -
  have n: "uint (attempt_number (cap_attempts c)) = cap_attempts c + 1"
    by (rule attempt_number_small) (use assms(4-6) in linarith)+
  then have "attempt_number (cap_attempts c) < max_attempts policy" using assms(5) by (simp add: word_less_def)
  moreover have "i32_of_u32 (attempt_number (cap_attempts c)) = cap_attempts c + 1"
    using assms(5,6) by (simp add: i32_of_u32_def n)
  ultimately show ?thesis using assms(1-3) capture_of_id [OF assms(1)]
    by (simp add: attempt_once_def resolve_one_def Let_def reschedule_def capture_of_def
        rescheduled_row.find_key_update) (simp add: rescheduled_def)
qed

lemma report_operations_total:
  "(\<And>r. e_report_ok E r) \<Longrightarrow> \<exists>db'. report_operations E now db cid u cc rs = Ok db'"
  by (induction rs arbitrary: db) (simp_all add: append_operation_report_def Let_def)

lemma attempt_gives_up:
  assumes "capture_of db cid = Some c" "canonicalize (cap_url c) = Ok p" "is_transient (surface p)"
    and "cap_status c = Accepted" "0 \<le> cap_attempts c" "cap_attempts c < 2 ^ 31"
    and "uint (max_attempts policy) \<le> cap_attempts c + 1" "\<And>r. e_report_ok E r"
  shows "capture_of (attempt_once E surface policy cid now db) cid = Some (c\<lparr>cap_status := Unavailable\<rparr>)
    \<and> \<not> has_pending (attempt_once E surface policy cid now db) cid"
proof -
  have id: "cap_id c = cid" by (rule capture_of_id [OF assms(1)])
  have "\<not> attempt_number (cap_attempts c) < max_attempts policy"
    using attempt_number_small [OF assms(5,6)] assms(7) by (simp add: word_less_def)
  define db1 where "db1 = update_capture (observe E db None cid ObsTemporarilyUnavailable now)
     (\<lambda>r. cap_id r = cid \<and> open_or_resolved r) mark_unavailable"
  have c1: "capture_of db1 cid = Some (c\<lparr>cap_status := Unavailable\<rparr>)"
    using assms(1,4) id
    by (simp add: db1_def capture_of_def unavailable_row.find_key_update open_or_resolved_def mark_unavailable_def)
  define db2 where "db2 = db1\<lparr>operations := update_where (pending cid) (mark_reported now) (operations db1)\<rparr>"
  obtain db3 where r: "report_operations E now db2 cid (cap_user c)
      (UnavailableConclusion (latest_unavailability db1 cid)) (filter (pending cid) (operations db1)) = Ok db3"
    using report_operations_total [OF assms(8)] by blast
  have rep: "report_pending E now db1 cid = Ok (db3, length (filter (pending cid) (operations db1)))"
    using r by (simp add: report_pending_def c1 conclusion_of_def id db2_def [symmetric] Let_def)
  have fail: "record_failed_resolution E now db cid ObsTemporarilyUnavailable now =
      Ok (db1, UnavailableOutcome ObsTemporarilyUnavailable)"
    by (simp add: record_failed_resolution_def assms(1) Let_def db1_def)
  have "attempt_once E surface policy cid now db = db3"
    using \<open>\<not> attempt_number (cap_attempts c) < max_attempts policy\<close>
    by (simp add: attempt_once_def assms(1-3) resolve_one_def Let_def id apply_surface_outcome_def conclude_def fail
        report_concluded_def rep)
  moreover have "captures db3 = captures db1" "operations db3 = operations db2"
    using report_operations_captures [OF r] by (simp_all add: db2_def)
  ultimately show ?thesis using c1 no_pending_after
    by (simp add: capture_of_def has_pending_def db2_def)
qed

text \<open>
  C22. Transient failures are retried a bounded number of times: against a surface that never answers
  conclusively, a capture with \<open>a\<close> attempts stays accepted, counting one more each time, until attempt
  \<^verbatim>\<open>max_attempts\<close>, and that attempt concludes it as unavailable with every pending operation reported.
\<close>
theorem transient_failures_are_bounded:
  assumes "capture_of db cid = Some c" "canonicalize (cap_url c) = Ok p" "is_transient (surface p)"
    and "cap_status c = Accepted" "0 \<le> cap_attempts c" "cap_attempts c < uint (max_attempts policy)"
    and "uint (max_attempts policy) < 2 ^ 31" "\<And>r. e_report_ok E r"
    and "cap_attempts c + int (length ts) + 1 = uint (max_attempts policy)"
  shows "(\<exists>d. capture_of (attempts E surface policy cid ts db) cid = Some d \<and> cap_status d = Accepted
        \<and> cap_attempts d = cap_attempts c + int (length ts))
    \<and> (\<exists>d. capture_of (attempts E surface policy cid (ts @ [now]) db) cid = Some d \<and> cap_status d = Unavailable)
    \<and> \<not> has_pending (attempts E surface policy cid (ts @ [now]) db) cid"
  using assms(1,2,4,5,6,9)
proof (induction ts arbitrary: db c)
  case Nil
  from attempt_gives_up [where now = now and E = E and surface = surface, OF Nil(1,2) assms(3) Nil(3,4) _ _ assms(8)]
    Nil assms(7) show ?case by simp
next
  case (Cons t ts)
  let ?db = "attempt_once E surface policy cid t db"
  let ?c = "c\<lparr>cap_attempts := cap_attempts c + 1, cap_next := Some (t + retry_delay (attempt_number (cap_attempts c)))\<rparr>"
  have one: "capture_of ?db cid = Some ?c"
    by (rule attempt_reschedules [where surface = surface, OF Cons.prems(1,2) assms(3) Cons.prems(4) _ assms(7)]) (use Cons.prems(6) in simp)
  have "canonicalize (cap_url ?c) = Ok p" "cap_status ?c = Accepted" "0 \<le> cap_attempts ?c"
    "cap_attempts ?c < uint (max_attempts policy)"
    "cap_attempts ?c + int (length ts) + 1 = uint (max_attempts policy)"
    using Cons.prems by simp_all
  from Cons.IH [OF one this] show ?case by (simp add: add.assoc)
qed

theorem transient_failures_are_bounded_witness:
  "\<not> has_pending (attempts sample_env (\<lambda>p. TransportFailure) sample_policy (Uuid 9 0) ([20, 60] @ [200]) ingested_once) (Uuid 9 0)"
proof -
  have c: "capture_of ingested_once (Uuid 9 0) = Some sample_capture"
    by (simp add: ingested_once_eq empty_archive_def table_defs sample_capture_def)
  have "canonicalize (cap_url sample_capture) = Ok sample_permalink"
    by (simp add: sample_capture_def sample_canonicalize)
  from transient_failures_are_bounded [where surface = "\<lambda>p. TransportFailure" and policy = sample_policy
      and ts = "[20, 60]" and now = 200 and E = sample_env, OF c this]
  show ?thesis by (simp add: is_transient_def sample_capture_def sample_policy_def sample_env_def)
qed

section \<open>Concluded captures that come back\<close>

text \<open>
  C34. A tombstone does not survive a resolution in flight: storing a resolution for a capture the user
  has removed meanwhile sets it back to resolved, and when nothing was published before it appends a
  captured fact behind the removal.
\<close>
theorem resolution_revives_tombstone:
  assumes "store_resolution E now db cid p n b t = Ok (db', s)"
    and "capture_of db cid = Some c" "cap_status c = Tombstoned"
  shows "map_option cap_status (capture_of db' cid) = Some Resolved
    \<and> (capture_has_fact db cid \<or> (\<exists>r. outbox db' = outbox db @ [r] \<and> ob_type r = SourceCaptured))"
  using assms(1)
proof (cases rule: store_resolution_cases)
  case (1 db5)
  have "captures db' = captures db5" using 1(2) by (auto simp: append_fact_tables split: if_splits)
  then have "map_option cap_status (capture_of db' cid) = Some Resolved"
    using assms(2,3) capture_of_id [OF assms(2)]
    by (simp add: capture_of_def store_evidence_tables(5) [OF 1(1)] linked_row.find_key_update)
      (simp add: link_resolved_def)
  moreover have "capture_has_fact db cid \<or> (\<exists>r. outbox db' = outbox db @ [r] \<and> ob_type r = SourceCaptured)"
    using 1(2) store_evidence_tables(1) [OF 1(1)] by (auto dest: append_fact_tables(7) split: if_splits)
  ultimately show ?thesis by blast
qed

definition tombstoned_once :: archive where
  "tombstoned_once = committed ingested_once (tombstone_capture sample_env ingested_once (Uuid 9 0) UserRequested 25)"

lemma tombstoned_once_eq:
  "captures tombstoned_once = [mark_tombstoned sample_capture]" "media tombstoned_once = []" "minted tombstoned_once = 3"
  "map ob_type (outbox tombstoned_once) = [OperationReported, SourceRemoved]" "raws tombstoned_once = []"
  "revisions tombstoned_once = []"
  by (simp_all add: tombstoned_once_def committed_def tombstone_capture_def insert_deletion_operation_def reason_check_def
      append_removal_fact_def append_source_removal_fact_def sample_canonicalize Let_def mark_tombstoned_def
      ingested_once_eq empty_archive_def table_defs sample_capture_def sample_env_def)

theorem resolution_revives_tombstone_witness:
  "\<exists>db' s. store_resolution sample_env 30 tombstoned_once (Uuid 9 0) sample_permalink
     \<lparr>nm_media_type = ''reel'', nm_caption = None\<rparr> [1, 2] 30 = Ok (db', s)
     \<and> map ob_type (outbox db') = [OperationReported, SourceRemoved, SourceCaptured]"
proof -
  have t: "capture_of tombstoned_once (Uuid 9 0) = Some (mark_tombstoned sample_capture)"
    by (simp add: capture_of_def tombstoned_once_eq mark_tombstoned_def sample_capture_def)
  have f: "\<not> capture_has_fact tombstoned_once (Uuid 9 0)"
    using tombstoned_once_eq(4) by (auto simp: capture_has_fact_def list_ex_iff dest: arg_cong [where f = set])
  obtain db' s where d: "store_resolution sample_env 30 tombstoned_once (Uuid 9 0) sample_permalink
     \<lparr>nm_media_type = ''reel'', nm_caption = None\<rparr> [1, 2] 30 = Ok (db', s)"
    by (simp add: store_resolution_def store_evidence_def Let_def insert_raw_def upsert_media_projection_def
      insert_revision_def f t
      observe_def media_by_permalink_def append_fact_def build_snapshot_def current_evidence_def
      acquisition_from_token_def media_of_def revision_of_def raw_of_def link_resolved_def sample_canonicalize
      tombstoned_once_eq table_defs mark_tombstoned_def sample_capture_def sample_env_def now_v7_def)
  from resolution_revives_tombstone [OF d t] f d show ?thesis
    by (auto simp: mark_tombstoned_def tombstoned_once_eq(4))
qed

text \<open>
  What a transaction can do to the operations of one capture: record further ones, and otherwise leave
  them as they are or mark them reported, never the reverse.
\<close>

definition recorded_for :: "uuid \<Rightarrow> archive \<Rightarrow> OperationRow list" where
  "recorded_for cid db = filter (\<lambda>r. op_capture r = cid) (operations db)"

definition settles :: "uuid \<Rightarrow> archive \<Rightarrow> archive \<Rightarrow> bool" where
  "settles cid db db' \<longleftrightarrow> length (recorded_for cid db) \<le> length (recorded_for cid db')
     \<and> (length (recorded_for cid db') = length (recorded_for cid db)
          \<longrightarrow> \<not> has_pending db cid \<longrightarrow> \<not> has_pending db' cid)"

lemma settles_same: "operations db' = operations db \<Longrightarrow> settles cid db db'"
  by (simp add: settles_def recorded_for_def has_pending_def)

lemma settles_trans: "settles cid a b \<Longrightarrow> settles cid b c \<Longrightarrow> settles cid a c"
  unfolding settles_def by (metis le_antisym le_trans)

lemma recorded_after_marks:
  "length (filter (\<lambda>r. op_capture r = cid) (update_where (pending c) (mark_reported now) ops)) =
     length (filter (\<lambda>r. op_capture r = cid) ops)"
  "\<not> list_ex (pending cid) ops \<Longrightarrow> \<not> list_ex (pending cid) (update_where (pending c) (mark_reported now) ops)"
  by (induction ops) (auto simp: mark_reported_def pending_def)

lemma settles_report_pending: "report_pending E now db c = Ok (db', n) \<Longrightarrow> settles cid db db'"
  by (auto simp: report_pending_def Let_def settles_def recorded_for_def has_pending_def recorded_after_marks
      dest!: report_operations_view split: option.splits result.splits)

lemma settles_claim_rows: "claim_rows E now db cs ls n = Ok (db', x) \<Longrightarrow> settles cid db db'"
proof (induction E now db cs ls n rule: claim_rows.induct)
  case (2 E now db c cs ls n)
  have "settles cid db (update_capture db P f)" for P f by (simp add: settles_same)
  with 2 show ?case
    by (auto split: if_splits result.splits intro: settles_trans dest: settles_report_pending)
qed (simp add: settles_same)

lemma settles_submit:
  assumes "submit_capture_in_transaction E db req = Ok (db', s)"
  shows "settles cid db db'"
proof -
  from submit_Ok [OF assms] obtain p :: CanonicalPermalink and am
    where "db' = insert_capture (drawn db) (new_capture (now_v7 E db) req (url p) am)" by blast
  then show ?thesis by (auto simp: insert_capture_def settles_same split: option.splits)
qed

lemma settles_record_operation:
  assumes "record_operation E now db cmd c = Ok db'"
  shows "settles cid db db'"
proof (cases "operation_conflict db (operation_id cmd) (command_id cmd)")
  case True
  with assms show ?thesis by (auto simp: record_operation_def Let_def settles_same)
next
  case False
  define new where "new = \<lparr>op_id = operation_id cmd, op_command = command_id cmd, op_capture = c,
    op_user = user_ref cmd, op_reported_at = None\<rparr>"
  from False assms have "operations db' = operations db @ [new]"
    by (auto simp: record_operation_def Let_def new_def elim!: map_err.elims dest!: append_operation_report_Ok)
  then show ?thesis by (auto simp: settles_def recorded_for_def has_pending_def new_def pending_def)
qed

lemma settles_ingest:
  assumes "ingest_command E now db cmd = Ok (db', r)"
  shows "settles cid db db'"
proof (cases "claimed_in_inbox db (command_id cmd)")
  case True
  with assms show ?thesis by (simp add: ingest_command_def settles_same)
next
  case False
  have claim: "settles cid db (claim_inbox db i)" and mark: "settles cid d (mark_inbox_outcome d i o1)" for d i o1
    by (simp_all add: settles_same claim_inbox_def mark_inbox_outcome_def)
  from assms False show ?thesis
  proof (cases rule: ingest_cases)
    case (rejected db2)
    then show ?thesis
      by (auto simp: mark_inbox_outcome_def claim_inbox_def intro!: settles_same dest!: append_operation_report_Ok)
  next
    case (preserved db2 s db3)
    show ?thesis
      using settles_trans [OF settles_trans [OF settles_trans [OF claim settles_submit] settles_record_operation] mark]
        preserved by blast
  qed
qed

lemma failed_resolution_operations:
  "record_failed_resolution E now db c k t = Ok (db', x) \<Longrightarrow> operations db' = operations db"
  by (erule failed_resolution_cases) (auto dest: append_fact_tables)

lemma store_resolution_operations:
  "store_resolution E now db c p n b t = Ok (db', s) \<Longrightarrow> operations db' = operations db"
  by (auto simp: store_resolution_def store_evidence_def upsert_media_projection_def insert_raw_def
      insert_revision_def Let_def dest!: append_fact_tables(2) split: if_splits result.splits option.splits prod.splits)

lemma archive_step_settles: "archive_step E db db' \<Longrightarrow> settles cid db db'"
proof (induction rule: archive_step.induct)
  case (step_claim now db policy db' leases)
  then show ?case by (auto simp: claim_def Let_def dest: settles_claim_rows split: result.splits)
next
  case (step_unavailable db capture_id observed observed_at db' status)
  then show ?case
    by (auto simp: record_capture_unavailable_def add_observation_def Let_def intro!: settles_same
        split: option.splits if_splits)
next
  case (step_tombstone db capture_id reason removed_at db' outcome)
  then show ?case
    by (auto simp: tombstone_capture_def insert_deletion_operation_def append_removal_fact_def
        append_source_removal_fact_def Let_def intro!: settles_same split: option.splits if_splits result.splits)
next
  case (step_failed now db capture_id observed resolved_at db' resolution)
  then show ?case by (intro settles_same failed_resolution_operations)
next
  case (step_apply now db capture_id permalink answer resolved_at db' resolution)
  then show ?case
    by (auto simp: apply_surface_outcome_def intro!: settles_same dest: failed_resolution_operations
        store_resolution_operations split: SurfaceOutcome.splits result.splits if_splits)
qed (simp_all add: submit_capture_def report_concluded_def reschedule_def settles_submit settles_ingest
  settles_report_pending settles_same)

interpretation settled: invariant_system "\<lambda>db. db = base" "archive_step E" "settles cid base" for E base cid
  by unfold_locales (auto simp: settles_same intro: settles_trans archive_step_settles)

lemma reopened_by_reissue:
  assumes "ingest_command E now db cmd = Ok (db', PreservedCapture s)" "rec_id (submission_record s) = cid"
    and "operation_conflict db (operation_id cmd) (command_id cmd)"
    and "capture_of db cid = Some c" "cap_status c = Unavailable"
  shows "map_option cap_status (capture_of db' cid) = Some Accepted \<and> operations db' = operations db"
proof -
  have "\<not> claimed_in_inbox db (command_id cmd)" using assms(1) by (auto simp: ingest_command_def)
  with assms(1) show ?thesis
  proof (cases rule: ingest_cases)
    case (preserved db2 s' db3)
    from submit_Ok [OF preserved(1)] obtain p :: CanonicalPermalink and am where db2: "db2 =
        insert_capture (drawn (claim_inbox db (command_id cmd)))
          (new_capture (now_v7 E (claim_inbox db (command_id cmd))) (capture_request_of cmd) (url p) am)" by blast
    have ops: "operations db2 = operations db" and cap: "capture_of db2 cid = Some c"
      using assms(4)
      by (auto simp: db2 insert_capture_def claim_inbox_def capture_of_def find_append split: option.splits)
    then have "db3 = update_capture db2 (\<lambda>c. cap_id c = cid \<and> reopenable c) (make_due now)"
      using preserved(2,4) assms(2,3) by (auto simp: record_operation_def operation_conflict_def)
    with cap ops preserved(3) assms(5) capture_of_id [OF assms(4)] show ?thesis
      by (simp add: mark_inbox_outcome_def capture_of_def due_row.find_key_update reopenable_def)
        (simp add: make_due_def)
  qed simp
qed

text \<open>
  C35. A re-issued command strands its capture: when a command arrives under a fresh command id with an
  operation id that was already recorded, for an unavailable capture whose operations have all been
  reported, the capture goes back to accepted with nothing left to report. From then on, whatever
  transactions of the pipeline follow, in any order and at whatever instants, no claim selects the
  capture until a further operation is recorded for it.
\<close>
theorem reissued_operation_strands_capture:
  assumes "ingest_command E now db cmd = Ok (db', PreservedCapture s)" "rec_id (submission_record s) = cid"
    and "operation_conflict db (operation_id cmd) (command_id cmd)" "\<not> has_pending db cid"
    and "capture_of db cid = Some c" "cap_status c = Unavailable"
  shows "map_option cap_status (capture_of db' cid) = Some Accepted
    \<and> (\<forall>db''. (archive_step E)\<^sup>*\<^sup>* db' db'' \<longrightarrow> length (recorded_for cid db'') = length (recorded_for cid db')
        \<longrightarrow> (\<forall>later limit. cid \<notin> cap_id ` set (claimed_rows db'' later limit)))"
proof -
  note reopened = reopened_by_reissue [OF assms(1,2,3,5,6)]
  have "\<not> has_pending db'' cid"
    if "(archive_step E)\<^sup>*\<^sup>* db' db''" "length (recorded_for cid db'') = length (recorded_for cid db')" for db''
    using settled.inv_reachable [OF refl that(1), of cid] that(2) reopened assms(4)
    by (simp add: settles_def has_pending_def)
  moreover have "has_pending d cid" if "cid \<in> cap_id ` set (claimed_rows d later limit)" for d later limit
    using that claimed_rows_props by (fastforce simp: due_def)
  ultimately show ?thesis using reopened by blast
qed

definition reissued_once :: archive where
  "reissued_once = committed concluded_once (ingest_command sample_env 40 concluded_once (sample_command 1 0))"

lemma concluded_once_captures:
  "captures concluded_once = [sample_capture\<lparr>cap_status := Unavailable, cap_next := Some (20 + LEASE)\<rparr>]"
  by (simp add: concluded_once_def ingested_once_eq empty_archive_def worker_defs table_defs sample_defs Let_def
      sample_policy_def sample_capture_def sample_operation_def sample_canonicalize newest_observation_def
      latest_unavailability_def)

lemma reissued_once_Ok:
  "\<exists>s. ingest_command sample_env 40 concluded_once (sample_command 1 0) = Ok (reissued_once, PreservedCapture s)
    \<and> rec_id (submission_record s) = Uuid 9 0"
  by (simp add: reissued_once_def committed_def ingest_defs table_defs sample_defs Let_def concluded_once_inbox
      concluded_once_tables concluded_once_captures sample_canonicalize sample_capture_def sample_operation_def)

theorem reissued_operation_strands_capture_witness:
  "map_option cap_status (capture_of reissued_once (Uuid 9 0)) = Some Accepted
    \<and> (\<forall>later. Uuid 9 0 \<notin> cap_id ` set (claimed_rows (reschedule reissued_once (Uuid 9 0) 1 50) later 10))"
proof -
  obtain s where s: "ingest_command sample_env 40 concluded_once (sample_command 1 0) = Ok (reissued_once, PreservedCapture s)"
    "rec_id (submission_record s) = Uuid 9 0" using reissued_once_Ok by blast
  have "operation_conflict concluded_once (operation_id (sample_command 1 0)) (command_id (sample_command 1 0))"
    "\<not> has_pending concluded_once (Uuid 9 0)"
    "capture_of concluded_once (Uuid 9 0) = Some (sample_capture\<lparr>cap_status := Unavailable, cap_next := Some (20 + LEASE)\<rparr>)"
    "cap_status (sample_capture\<lparr>cap_status := Unavailable, cap_next := Some (20 + LEASE)\<rparr>) = Unavailable"
    by (simp_all add: operation_conflict_def has_pending_def pending_def concluded_once_tables sample_operation_def
        sample_command_def capture_of_def concluded_once_captures sample_capture_def)
  note strands = reissued_operation_strands_capture [OF s this]
  have "(archive_step sample_env)\<^sup>*\<^sup>* reissued_once (reschedule reissued_once (Uuid 9 0) 1 50)"
    by (rule r_into_rtranclp) (rule step_reschedule)
  with strands show ?thesis by (auto simp: recorded_for_def reschedule_def)
qed

end
