(* ===== verification/Re_Resolution.thy ===== *)
theory Re_Resolution
  imports Capture "HOL-Library.Product_Lexorder"
begin

text \<open>
  Model of \<^verbatim>\<open>re_resolution.rs\<close>: the selection of retryable captures, the finite admission budget of one
  run, the last check before a fetch and the deterministic spread of deadlines. The resolver closure
  is counted: an attempt returns how often it was called.
\<close>

section \<open>Vocabulary\<close>

datatype PriorResolutionState =
  PriorResolved | PriorResolverFailed | PriorTemporarilyUnavailable | PriorPrivateOrInaccessible
| PriorDeleted | PriorUnsupported | PriorPermanentlyUnavailable

record ReResolutionCandidate =
  cand_id :: uuid
  cand_captured_at :: instant
  cand_next :: instant
  cand_removed :: bool
  cand_prior :: PriorResolutionState

datatype ReResolutionSkipReason =
  NotDue | TooOld | LocallyRemoved | PrivacyTerminal | SkipUnsupported | ItemBudget | RequestBudget
| ByteBudget | Deadline | Concurrency | SkipProviderBudget

record ReResolutionBudget =
  max_items :: u32
  items_admitted :: u32
  max_requests :: u32
  requests_reserved :: u32
  max_response_bytes :: u64
  response_bytes :: u64
  max_concurrency :: u32
  in_flight :: u32
  deadline_at :: instant
  endpoint_remaining :: "u32 option"

datatype ReResolutionAttemptOutcome = Started | Skipped ReResolutionSkipReason

datatype RefreshClassification = RefreshUpdated | RefreshUnchanged

record RefreshAccounting =
  classification :: RefreshClassification
  evidence_appended :: bool
  update_emitted :: bool

section \<open>Operations\<close>

definition classify_refresh :: "u8 list \<Rightarrow> u8 list \<Rightarrow> RefreshAccounting" where
  "classify_refresh previous_digest current_digest =
     (let unchanged = (previous_digest = current_digest)
      in \<lparr>classification = (if unchanged then RefreshUnchanged else RefreshUpdated),
          evidence_appended = True, update_emitted = (\<not> unchanged)\<rparr>)"

definition refusal :: "ReResolutionBudget \<Rightarrow> u64 \<Rightarrow> instant \<Rightarrow> ReResolutionSkipReason option" where
  "refusal budget expected_bytes now =
     (if max_items budget = 0 \<or> max_items budget \<le> items_admitted budget then Some ItemBudget
      else if max_requests budget = 0 \<or> max_requests budget \<le> requests_reserved budget then Some RequestBudget
      else if (case checked_add (response_bytes budget) expected_bytes of
                 None \<Rightarrow> True | Some leased \<Rightarrow> max_response_bytes budget < leased) then Some ByteBudget
      else if deadline_at budget \<le> now then Some Deadline
      else if max_concurrency budget = 0 \<or> max_concurrency budget \<le> in_flight budget then Some Concurrency
      else if (case endpoint_remaining budget of None \<Rightarrow> True | Some remaining \<Rightarrow> remaining = 0)
        then Some SkipProviderBudget
      else None)"

text \<open>The budget while the resolver runs.\<close>

definition reserved_budget :: "ReResolutionBudget \<Rightarrow> u64 \<Rightarrow> ReResolutionBudget" where
  "reserved_budget budget expected_bytes =
     budget\<lparr>items_admitted := saturating_add (items_admitted budget) 1,
       requests_reserved := saturating_add (requests_reserved budget) 1,
       response_bytes := saturating_add (response_bytes budget) expected_bytes,
       in_flight := saturating_add (in_flight budget) 1,
       endpoint_remaining := map_option (\<lambda>remaining. remaining - 1) (endpoint_remaining budget)\<rparr>"

definition attempt_with_budget ::
  "ReResolutionBudget \<Rightarrow> u64 \<Rightarrow> instant \<Rightarrow> ReResolutionBudget \<times> nat \<times> ReResolutionAttemptOutcome" where
  "attempt_with_budget budget expected_bytes now =
     (case refusal budget expected_bytes now of
        Some reason \<Rightarrow> (budget, 0, Skipped reason)
      | None \<Rightarrow>
          let b = reserved_budget budget expected_bytes
          in (b\<lparr>in_flight := saturating_sub (in_flight b) 1\<rparr>, 1, Started))"

text \<open>The row the claim rechecks: the capture of this user, and whether it was removed locally.\<close>

definition claim_capture_for_resolution ::
  "archive \<Rightarrow> uuid \<Rightarrow> uuid \<Rightarrow> ReResolutionBudget \<Rightarrow> u64 \<Rightarrow> instant \<Rightarrow> duration
     \<Rightarrow> ReResolutionBudget \<times> nat \<times> ReResolutionAttemptOutcome" where
  "claim_capture_for_resolution db user capture_id budget expected_bytes now recency_window =
     (case find (\<lambda>c. cap_id c = capture_id \<and> cap_user c = user) (captures db) of
        None \<Rightarrow> (budget, 0, Skipped LocallyRemoved)
      | Some c \<Rightarrow>
          let removed = list_ex (\<lambda>r. rem_user r = cap_user c \<and> rem_capture r = Some (cap_id c)) (removals db);
              reason =
                (if removed \<or> cap_status c = Tombstoned then Some LocallyRemoved
                 else if cap_captured_at c < now - recency_window then Some TooOld
                 else if (case cap_next c of None \<Rightarrow> True | Some deadline \<Rightarrow> now < deadline) then Some NotDue
                 else if \<not> (cap_status c = Resolved \<or> cap_status c = Unavailable \<or> cap_status c = Failed)
                   then Some SkipUnsupported
                 else None)
          in (case reason of
                Some r \<Rightarrow> (budget, 0, Skipped r)
              | None \<Rightarrow> attempt_with_budget budget expected_bytes now))"

record ReResolutionSelection =
  admitted :: "uuid list"
  skipped :: "(uuid \<times> ReResolutionSkipReason) list"

definition skip_reason :: "instant \<Rightarrow> duration \<Rightarrow> ReResolutionCandidate \<Rightarrow> ReResolutionSkipReason option" where
  "skip_reason now recency_window c =
     (if cand_removed c then Some LocallyRemoved
      else if cand_captured_at c < now - recency_window then Some TooOld
      else if now < cand_next c then Some NotDue
      else (case cand_prior c of
          PriorResolved \<Rightarrow> None
        | PriorResolverFailed \<Rightarrow> None
        | PriorTemporarilyUnavailable \<Rightarrow> None
        | PriorPrivateOrInaccessible \<Rightarrow> Some PrivacyTerminal
        | PriorDeleted \<Rightarrow> Some PrivacyTerminal
        | PriorUnsupported \<Rightarrow> Some SkipUnsupported
        | PriorPermanentlyUnavailable \<Rightarrow> Some SkipUnsupported))"

fun select_loop ::
  "instant \<Rightarrow> duration \<Rightarrow> ReResolutionCandidate list \<Rightarrow> ReResolutionSelection \<Rightarrow> ReResolutionSelection" where
  "select_loop now recency_window [] s = s"
| "select_loop now recency_window (c # cs) s =
     (case skip_reason now recency_window c of
        Some reason \<Rightarrow> select_loop now recency_window cs (s\<lparr>skipped := skipped s @ [(cand_id c, reason)]\<rparr>)
      | None \<Rightarrow> select_loop now recency_window cs (s\<lparr>admitted := admitted s @ [cand_id c]\<rparr>))"

definition select_candidates ::
  "ReResolutionCandidate list \<Rightarrow> instant \<Rightarrow> duration \<Rightarrow> ReResolutionSelection" where
  "select_candidates candidates now recency_window =
     select_loop now recency_window (sort_key (\<lambda>c. (cand_next c, cand_id c)) candidates)
       \<lparr>admitted = [], skipped = []\<rparr>"

text \<open>
  \<open>in_range\<close> says which instants the \<^verbatim>\<open>time\<close> crate can represent; \<open>whole_seconds\<close> truncates towards
  zero. The first eight bytes of an identifier are its high half.
\<close>

definition whole_seconds :: "duration \<Rightarrow> int" where
  "whole_seconds d = (if 0 \<le> d then d div 1000000 else - ((- d) div 1000000))"

definition checked_add_instant :: "(instant \<Rightarrow> bool) \<Rightarrow> instant \<Rightarrow> duration \<Rightarrow> instant option" where
  "checked_add_instant in_range t d = (if in_range (t + d) then Some (t + d) else None)"

definition deterministic_next_resolution_at ::
  "(instant \<Rightarrow> bool) \<Rightarrow> uuid \<Rightarrow> instant \<Rightarrow> duration \<Rightarrow> duration \<Rightarrow> instant option" where
  "deterministic_next_resolution_at in_range capture_id observed_at base_interval max_jitter =
     (if whole_seconds max_jitter < 0 \<or> 2 ^ 63 \<le> whole_seconds max_jitter then None
      else
        let jitter_ceiling = word_of_int (whole_seconds max_jitter) :: u64;
            jitter_seconds = uuid_hi capture_id mod saturating_add jitter_ceiling 1
        in Option.bind (checked_add_instant in_range observed_at base_interval)
             (\<lambda>t. if 2 ^ 63 \<le> uint jitter_seconds then None
                  else checked_add_instant in_range t (seconds (uint jitter_seconds))))"

section \<open>Selection\<close>

lemma select_loop_eq:
  "select_loop now w cs s =
     \<lparr>admitted = admitted s @ map cand_id (filter (\<lambda>c. skip_reason now w c = None) cs),
      skipped = skipped s @ map (\<lambda>c. (cand_id c, the (skip_reason now w c))) (filter (\<lambda>c. skip_reason now w c \<noteq> None) cs)\<rparr>"
  by (induction cs arbitrary: s) (auto split: option.splits)

definition retryable :: "instant \<Rightarrow> duration \<Rightarrow> ReResolutionCandidate \<Rightarrow> bool" where
  "retryable now w c \<longleftrightarrow> \<not> cand_removed c \<and> now - w \<le> cand_captured_at c \<and> cand_next c \<le> now
     \<and> cand_prior c \<in> {PriorResolved, PriorResolverFailed, PriorTemporarilyUnavailable}"

lemma skip_reason_None: "skip_reason now w c = None \<longleftrightarrow> retryable now w c"
  by (auto simp: skip_reason_def retryable_def split: PriorResolutionState.splits)

text \<open>
  Selection is complete and private by construction: every candidate is either admitted or skipped
  with a reason, exactly once; the admitted ones are, in order of due time and identity, precisely
  those still held, recent, due and last seen in a retryable state, so a removed, private or deleted
  source is never retried automatically.
\<close>
theorem selection_partitions_candidates:
  "admitted (select_candidates cs now w) =
      map cand_id (filter (retryable now w) (sort_key (\<lambda>c. (cand_next c, cand_id c)) cs))
   \<and> mset (admitted (select_candidates cs now w) @ map fst (skipped (select_candidates cs now w))) = mset (map cand_id cs)"
proof
  let ?cs = "sort_key (\<lambda>c. (cand_next c, cand_id c)) cs"
  show "admitted (select_candidates cs now w) = map cand_id (filter (retryable now w) ?cs)"
    by (simp add: select_candidates_def select_loop_eq skip_reason_None)
  have "image_mset cand_id (filter_mset (retryable now w) (mset cs)) +
      image_mset cand_id (filter_mset (\<lambda>c. \<not> retryable now w c) (mset cs)) = image_mset cand_id (mset cs)"
    by (metis image_mset_union multiset_partition)
  then show "mset (admitted (select_candidates cs now w) @ map fst (skipped (select_candidates cs now w))) =
      mset (map cand_id cs)"
    by (simp add: select_candidates_def select_loop_eq skip_reason_None comp_def image_mset.compositionality)
qed

section \<open>Admission\<close>

text \<open>A run: the attempts of one budget in order.\<close>

fun run_attempts :: "(u64 \<times> instant) list \<Rightarrow> ReResolutionBudget \<Rightarrow> ReResolutionBudget \<times> nat" where
  "run_attempts [] b = (b, 0)"
| "run_attempts ((bytes, now) # rest) b =
     (case attempt_with_budget b bytes now of
        (b', n, _) \<Rightarrow> (case run_attempts rest b' of (b'', m) \<Rightarrow> (b'', n + m)))"

definition within_ceilings :: "ReResolutionBudget \<Rightarrow> bool" where
  "within_ceilings b \<longleftrightarrow> items_admitted b \<le> max_items b \<and> requests_reserved b \<le> max_requests b
     \<and> response_bytes b \<le> max_response_bytes b"

lemma saturating_succ: "a < b \<Longrightarrow> unat (saturating_add a 1) = unat a + 1 \<and> saturating_add a 1 \<le> b"
  for a b :: "'a::len word"
proof -
  assume "a < b"
  then have "unat a < unat b" by (simp add: word_less_nat_alt)
  moreover have "unat b < 2 ^ LENGTH('a)" by (rule unsigned_less)
  ultimately have "unat a + 1 \<le> 2 ^ LENGTH('a) - 1" by linarith
  then have u: "unat (saturating_add a 1) = unat a + 1"
    by (simp add: unat_saturating_add)
  with \<open>unat a < unat b\<close> show ?thesis by (simp add: word_le_nat_alt)
qed

lemma attempt_started:
  assumes "refusal b bytes now = None"
  obtains r where "endpoint_remaining b = Some r" "0 < unat r"
    and "items_admitted b < max_items b" "requests_reserved b < max_requests b" "in_flight b < max_concurrency b"
    and "unat (response_bytes b) + unat bytes \<le> unat (max_response_bytes b)"
proof -
  from assms obtain leased where l: "checked_add (response_bytes b) bytes = Some leased" "leased \<le> max_response_bytes b"
    by (auto simp: refusal_def not_less split: if_splits option.splits)
  then have "unat (response_bytes b) + unat bytes \<le> unat (max_response_bytes b)"
    by (simp add: checked_add_eq_Some_iff word_le_nat_alt)
  with assms that show ?thesis
    by (auto simp: refusal_def not_le unat_gt_0 split: if_splits option.splits)
qed

lemma attempt_ceilings:
  assumes "attempt_with_budget b bytes now = (b', n, oc)" "within_ceilings b"
  shows "within_ceilings b' \<and> max_items b' = max_items b \<and> max_requests b' = max_requests b
    \<and> max_response_bytes b' = max_response_bytes b \<and> in_flight b' = in_flight b
    \<and> unat (items_admitted b') = unat (items_admitted b) + n \<and> unat (requests_reserved b') = unat (requests_reserved b) + n
    \<and> (endpoint_remaining b = None \<longrightarrow> n = 0)
    \<and> (\<forall>r. endpoint_remaining b = Some r \<longrightarrow> (\<exists>r'. endpoint_remaining b' = Some r' \<and> unat r' + n = unat r))"
proof (cases "refusal b bytes now")
  case (Some reason)
  with assms show ?thesis by (auto simp: attempt_with_budget_def)
next
  case None
  from attempt_started [OF this] obtain r where r: "endpoint_remaining b = Some r" "0 < unat r"
    "items_admitted b < max_items b" "requests_reserved b < max_requests b" "in_flight b < max_concurrency b"
    "unat (response_bytes b) + unat bytes \<le> unat (max_response_bytes b)" .
  have bytes: "saturating_add (response_bytes b) bytes \<le> max_response_bytes b"
    using r(6) by (simp add: word_le_nat_alt unat_saturating_add)
  have flight: "saturating_sub (saturating_add (in_flight b) 1) 1 = in_flight b"
    using saturating_succ [OF r(5)] by (simp add: word_unat_eq_iff unat_saturating_sub)
  have rem: "unat (r - 1) + 1 = unat r"
    using r(2) by (simp add: unat_sub word_le_nat_alt)
  show ?thesis
    using assms None r(1) saturating_succ [OF r(3)] saturating_succ [OF r(4)] bytes flight rem
    by (auto simp: attempt_with_budget_def reserved_budget_def Let_def within_ceilings_def)
qed

text \<open>
  The ceilings of a run hold whatever is attempted: starting within its ceilings, a run of any
  attempts at any instants never admits more items or requests, never leases more bytes and never
  makes more resolver calls than the budget and the provider's remaining allowance permit, returns
  every in-flight slot, and fails closed when the allowance is unknown.
\<close>
theorem run_stays_within_budget:
  assumes "run_attempts as b = (b', calls)" "within_ceilings b"
  shows "within_ceilings b' \<and> unat (items_admitted b) + calls \<le> unat (max_items b)
    \<and> unat (requests_reserved b) + calls \<le> unat (max_requests b) \<and> in_flight b' = in_flight b
    \<and> calls \<le> (case endpoint_remaining b of None \<Rightarrow> 0 | Some r \<Rightarrow> unat r)"
  using assms
proof (induction as arbitrary: b b' calls)
  case Nil
  then show ?case by (auto simp: within_ceilings_def word_le_nat_alt split: option.splits)
next
  case (Cons a as)
  obtain bytes now where a: "a = (bytes, now)" by fastforce
  obtain b1 n oc where one: "attempt_with_budget b bytes now = (b1, n, oc)" by (metis prod_cases3)
  obtain m where rest: "run_attempts as b1 = (b', m)" and calls: "calls = n + m"
    using Cons.prems(1) by (auto simp: a one split: prod.splits)
  note one' = attempt_ceilings [OF one Cons.prems(2)]
  from Cons.IH [OF rest] one' have IH: "within_ceilings b' \<and> unat (items_admitted b1) + m \<le> unat (max_items b)
    \<and> unat (requests_reserved b1) + m \<le> unat (max_requests b) \<and> in_flight b' = in_flight b
    \<and> m \<le> (case endpoint_remaining b1 of None \<Rightarrow> 0 | Some r \<Rightarrow> unat r)" by simp
  show ?case
  proof (cases "endpoint_remaining b")
    case None
    then have "n = 0" using one' by blast
    then have "b1 = b" using one by (auto simp: attempt_with_budget_def Let_def split: option.splits)
    with IH \<open>n = 0\<close> calls None show ?thesis by simp
  next
    case (Some r)
    with one' obtain r' where "endpoint_remaining b1 = Some r'" "unat r' + n = unat r" by blast
    with IH one' calls Some show ?thesis by simp
  qed
qed

definition sample_budget :: ReResolutionBudget where
  "sample_budget = \<lparr>max_items = 5, items_admitted = 0, max_requests = 1, requests_reserved = 0, max_response_bytes = 100,
     response_bytes = 0, max_concurrency = 1, in_flight = 0, deadline_at = 1000, endpoint_remaining = Some 9\<rparr>"

theorem run_stays_within_budget_witness:
  "snd (run_attempts [(10, 1), (20, 2), (30, 3)] sample_budget) \<le> 1"
proof -
  obtain b' n where r: "run_attempts [(10, 1), (20, 2), (30, 3)] sample_budget = (b', n)" by fastforce
  have "within_ceilings sample_budget" by (simp add: within_ceilings_def sample_budget_def)
  from run_stays_within_budget [OF r this] r show ?thesis by (simp add: sample_budget_def)
qed

section \<open>The last check\<close>

text \<open>
  No fetch for a removed or foreign capture: the resolver runs only when the capture belongs to the
  asking user, is neither tombstoned nor in the removal ledger, was captured within the recency window
  and is due; otherwise nothing is called and no counter moves.
\<close>
theorem claim_fetches_only_held_captures:
  assumes "claim_capture_for_resolution db user cid budget bytes now window = (budget', n, oc)"
  shows "(oc = Started \<and> n = 1 \<and> (\<exists>c \<in> set (captures db). cap_id c = cid \<and> cap_user c = user
      \<and> cap_status c \<in> {Resolved, Unavailable, Failed} \<and> now - window \<le> cap_captured_at c
      \<and> (\<exists>t \<le> now. cap_next c = Some t)
      \<and> \<not> list_ex (\<lambda>r. rem_user r = user \<and> rem_capture r = Some cid) (removals db)))
    \<or> (n = 0 \<and> budget' = budget \<and> (\<exists>r. oc = Skipped r))"
proof (cases "find (\<lambda>c. cap_id c = cid \<and> cap_user c = user) (captures db)")
  case None
  with assms show ?thesis by (auto simp: claim_capture_for_resolution_def)
next
  case (Some c)
  then have c: "c \<in> set (captures db)" "cap_id c = cid" "cap_user c = user"
    by (auto simp: find_Some_iff)
  with assms Some show ?thesis
    by (auto simp: claim_capture_for_resolution_def attempt_with_budget_def Let_def
        split: if_splits option.splits intro!: bexI [of _ c])
qed

theorem claim_fetches_only_held_captures_witness:
  "fst (snd (claim_capture_for_resolution empty_archive (Uuid 1 1) (Uuid 2 2) sample_budget 10 5 100)) = 0"
proof -
  obtain b n oc where c: "claim_capture_for_resolution empty_archive (Uuid 1 1) (Uuid 2 2) sample_budget 10 5 100 = (b, n, oc)"
    by (metis prod_cases3)
  from claim_fetches_only_held_captures [OF c] c show ?thesis by (auto simp: empty_archive_def)
qed

section \<open>Deadlines\<close>

text \<open>
  The next deadline is spread but bounded: it lies at or after the base interval and at most the
  configured jitter later, whole seconds apart, and it exists whenever the jitter is not negative and
  the instants are representable.
\<close>
theorem next_resolution_is_bounded:
  assumes "0 \<le> max_jitter" "max_jitter div 1000000 < 2 ^ 63"
    and "\<And>t. observed_at + base \<le> t \<Longrightarrow> t \<le> observed_at + base + max_jitter \<Longrightarrow> in_range t"
  shows "\<exists>k. deterministic_next_resolution_at in_range cid observed_at base max_jitter = Some (observed_at + base + seconds k)
    \<and> 0 \<le> k \<and> seconds k \<le> max_jitter"
proof -
  define c where "c = max_jitter div 1000000"
  define j where "j = uuid_hi cid mod saturating_add (word_of_int c) 1"
  have c: "0 \<le> c" "c < 2 ^ 63" "whole_seconds max_jitter = c"
    using assms(1,2) by (simp_all add: c_def whole_seconds_def)
  have "uint (word_of_int c :: u64) = c" using c by (simp add: uint_word_of_int)
  then have "unat (word_of_int c :: u64) = nat c" by (metis nat_uint_eq)
  then have s: "unat (saturating_add (word_of_int c :: u64) 1) = nat c + 1"
    using c by (simp add: unat_saturating_add)
  have "unat j = unat (uuid_hi cid) mod (nat c + 1)" by (simp add: j_def unat_mod s)
  then have "unat j \<le> nat c" by (simp add: less_Suc_eq_le [symmetric])
  then have j: "0 \<le> uint j" "uint j \<le> c" using c(1) by (simp, metis int_nat_eq of_nat_le_iff of_nat_unat)
  have "seconds (uint j) \<le> seconds c" using j(2) by (simp add: seconds_def)
  also have "seconds c \<le> max_jitter" by (simp add: seconds_def c_def)
  finally have le: "seconds (uint j) \<le> max_jitter" .
  have "in_range (observed_at + base)" "in_range (observed_at + base + seconds (uint j))"
    using assms(1,3) le j(1) by (simp_all add: seconds_def)
  moreover have "(whole_seconds max_jitter < 0 \<or> 2 ^ 63 \<le> whole_seconds max_jitter) = False"
    "(2 ^ 63 \<le> uint j) = False" "word_of_int (whole_seconds max_jitter) = (word_of_int c :: u64)"
    unfolding c(3) using c(1,2) j(2) by auto
  ultimately have "deterministic_next_resolution_at in_range cid observed_at base max_jitter =
      Some (observed_at + base + seconds (uint j))"
    unfolding deterministic_next_resolution_at_def Let_def checked_add_instant_def
    by (simp only: j_def [symmetric] if_False if_True Option.bind.simps)
  with le j(1) show ?thesis by blast
qed

theorem next_resolution_is_bounded_witness:
  "\<exists>k. deterministic_next_resolution_at (\<lambda>t. True) (Uuid 12345 1) 0 (seconds 60) (seconds 10) = Some (0 + seconds 60 + seconds k)
    \<and> 0 \<le> k \<and> seconds k \<le> seconds 10"
  by (rule next_resolution_is_bounded) (simp_all add: seconds_def)

end
