(* ===== verification/Media_Retention.thy ===== *)
theory Media_Retention
  imports Publishing
begin

text \<open>
  Model of \<^verbatim>\<open>media_retention.rs\<close>: the fail-closed policy before provider bytes are fetched, the
  verified write into the content-addressed media store, and the durable tasks that delete
  unreferenced objects. The store is the map of its \<^verbatim>\<open>sha256/\<close> directory and the files left in its
  \<^verbatim>\<open>tmp/\<close> directory; whether one file-system call succeeds is an argument (\<open>StoreIo\<close>, \<open>DeleteIo\<close>).
  \<^verbatim>\<open>reqwest::Url::parse\<close> is the argument \<open>url_scheme\<close> (\<open>None\<close>: not a URL). One run of a deletion task is
  one step of the model: the code reads the task, counts the references, calls the backend and records the
  outcome in separate statements, and a reference added between the count and the deletion is not
  considered here. References of export snapshots are counted by the same text as the others, as the query
  does; \<^verbatim>\<open>data_export.rs\<close> stores the JSON text of its reference there, which never equals a media reference, so
  in practice the media rows and raw records decide.
\<close>

section \<open>Policy\<close>

datatype MetadataOnlyReason =
  PolicyNotAuthorized | AcquisitionNotEligible | RightsUnknown | ExplicitActionRequired | HttpsRequired
| KindUnknown | MimeUnknown | UrlLifetimeUnknown | ObjectSizeUnknown | ObjectBudgetExceeded
| OwnerBudgetUnknown | OwnerBudgetExceeded

record MediaFetchLease =
  lease_max_bytes :: u64

datatype MediaRetentionDecision = MetadataOnly MetadataOnlyReason | Archive MediaFetchLease

record MediaPolicyInput =
  archive_requested :: bool
  acquisition_eligible :: bool
  rights_confirmed :: "bool option"
  url_is_https :: "bool option"
  kind_eligible :: "bool option"
  mime_eligible :: "bool option"
  url_lifetime_sufficient :: "bool option"
  declared_bytes :: "u64 option"
  max_object_bytes :: u64
  owner_remaining_bytes :: "u64 option"
  explicit_action :: bool

definition media_refusal :: "MediaPolicyInput \<Rightarrow> MetadataOnlyReason option" where
  "media_refusal input =
     (if \<not> acquisition_eligible input then Some AcquisitionNotEligible
      else if \<not> explicit_action input then Some ExplicitActionRequired
      else if rights_confirmed input \<noteq> Some True then Some RightsUnknown
      else if url_is_https input \<noteq> Some True then Some HttpsRequired
      else if kind_eligible input \<noteq> Some True then Some KindUnknown
      else if mime_eligible input \<noteq> Some True then Some MimeUnknown
      else if url_lifetime_sufficient input \<noteq> Some True then Some UrlLifetimeUnknown
      else if declared_bytes input = None then Some ObjectSizeUnknown
      else if declared_bytes input = Some 0
           \<or> (case declared_bytes input of None \<Rightarrow> False | Some n \<Rightarrow> max_object_bytes input < n)
        then Some ObjectBudgetExceeded
      else if owner_remaining_bytes input = None then Some OwnerBudgetUnknown
      else if (case (owner_remaining_bytes input, declared_bytes input) of
                 (Some remaining, Some n) \<Rightarrow> remaining < n | _ \<Rightarrow> False)
        then Some OwnerBudgetExceeded
      else None)"

text \<open>The decision, and the leases the callback \<^verbatim>\<open>fetch\<close> is invoked with.\<close>

definition observe_media :: "MediaPolicyInput \<Rightarrow> MediaRetentionDecision \<times> MediaFetchLease list" where
  "observe_media input =
     (if \<not> archive_requested input then (MetadataOnly PolicyNotAuthorized, [])
      else (case media_refusal input of
        Some reason \<Rightarrow> (MetadataOnly reason, [])
      | None \<Rightarrow> (case declared_bytes input of
          None \<Rightarrow> (MetadataOnly ObjectSizeUnknown, [])
        | Some max_bytes \<Rightarrow>
            let lease = \<lparr>lease_max_bytes = max_bytes\<rparr> in (Archive lease, [lease]))))"

section \<open>The media store\<close>

datatype ApprovedMediaMime = ImageJpeg | ImagePng | VideoMp4

fun mime_str :: "ApprovedMediaMime \<Rightarrow> string" where
  "mime_str ImageJpeg = ''image/jpeg''"
| "mime_str ImagePng = ''image/png''"
| "mime_str VideoMp4 = ''video/mp4''"

record AcquiredMedia =
  am_final_url :: rstr
  am_expected_mime :: ApprovedMediaMime
  am_content_type :: rstr
  am_declared_bytes :: u64
  am_expected_digest :: "u8 list"
  am_body :: "u8 list"

datatype MediaVerificationReason =
  FinalUrlNotHttps | MimeMismatch | ContentLengthMismatch | ContentDigestMismatch | ResponseBudgetExceeded

record ArchivedMedia =
  ar_blob :: StoredBlob
  ar_media_type :: string

datatype MediaArchiveOutcome = KeptMetadata MediaVerificationReason | Archived ArchivedMedia

datatype MediaStoreError = SizeOverflow | StorageError | DigestConflict

record MediaBlobStore =
  ms_objects :: "string \<Rightarrow> u8 list option"
  ms_temporaries :: "(uuid \<times> u8 list) list"

text \<open>Which calls succeed; \<open>io_written\<close> is how much of the body reaches the file when the write fails.\<close>

record StoreIo =
  io_dirs :: bool
  io_open :: bool
  io_write :: bool
  io_written :: nat
  io_sync :: bool
  io_link :: bool
  io_read :: bool
  io_remove :: bool

definition media_ref :: "string \<Rightarrow> string" where
  "media_ref digest_hex = ''instagram-archive/media/sha256/'' @ digest_hex"

definition verify_acquired ::
  "env \<Rightarrow> (rstr \<Rightarrow> rstr option) \<Rightarrow> MediaFetchLease \<Rightarrow> AcquiredMedia \<Rightarrow> MediaVerificationReason option" where
  "verify_acquired E url_scheme lease response =
     (if url_scheme (am_final_url response) \<noteq> Some (ascii ''https'') then Some FinalUrlNotHttps
      else if trim (hd (split_on 59 (am_content_type response))) \<noteq> ascii (mime_str (am_expected_mime response))
        then Some MimeMismatch
      else if unat (lease_max_bytes lease) < length (am_body response) then Some ResponseBudgetExceeded
      else if length (am_body response) \<noteq> unat (am_declared_bytes response) then Some ContentLengthMismatch
      else if e_sha256 E (am_body response) \<noteq> am_expected_digest response then Some ContentDigestMismatch
      else None)"

definition remove_temporary :: "StoreIo \<Rightarrow> uuid \<Rightarrow> MediaBlobStore \<Rightarrow> MediaBlobStore" where
  "remove_temporary io name store =
     (if io_remove io then store\<lparr>ms_temporaries := filter (\<lambda>t. fst t \<noteq> name) (ms_temporaries store)\<rparr> else store)"

text \<open>The write through a fresh temporary file and a no-overwrite link.\<close>

definition store_object ::
  "env \<Rightarrow> StoreIo \<Rightarrow> uuid \<Rightarrow> MediaBlobStore \<Rightarrow> u8 list \<Rightarrow> MediaBlobStore \<times> (unit, MediaStoreError) result" where
  "store_object E io name store body =
     (if \<not> io_dirs io \<or> \<not> io_open io \<or> name \<in> fst ` set (ms_temporaries store) then (store, Err StorageError)
      else if \<not> io_write io then
        (remove_temporary io name
           (store\<lparr>ms_temporaries := ms_temporaries store @ [(name, take (io_written io) body)]\<rparr>), Err StorageError)
      else
        let written = store\<lparr>ms_temporaries := ms_temporaries store @ [(name, body)]\<rparr>;
            digest_hex = hex_encode (e_sha256 E body);
            removed = remove_temporary io name
        in if \<not> io_sync io then (removed written, Err StorageError)
           else if \<not> io_link io then (removed written, Err StorageError)
           else (case ms_objects store digest_hex of
               None \<Rightarrow>
                 (removed (written\<lparr>ms_objects := (ms_objects written)(digest_hex \<mapsto> body)\<rparr>),
                  if io_remove io then Ok () else Err StorageError)
             | Some existing \<Rightarrow>
                 (removed written,
                  if \<not> io_remove io \<or> \<not> io_read io then Err StorageError
                  else if e_sha256 E existing \<noteq> e_sha256 E body then Err DigestConflict
                  else Ok ())))"

definition archive_acquired_media ::
  "env \<Rightarrow> (rstr \<Rightarrow> rstr option) \<Rightarrow> StoreIo \<Rightarrow> uuid \<Rightarrow> MediaBlobStore \<Rightarrow> MediaFetchLease \<Rightarrow> AcquiredMedia
     \<Rightarrow> MediaBlobStore \<times> (MediaArchiveOutcome, MediaStoreError) result" where
  "archive_acquired_media E url_scheme io name store lease response =
     (case verify_acquired E url_scheme lease response of
        Some reason \<Rightarrow> (store, Ok (KeptMetadata reason))
      | None \<Rightarrow>
          let digest = e_sha256 E (am_body response);
              (store', stored) = store_object E io name store (am_body response)
          in (store', bind_result stored (\<lambda>_.
               if int (length (am_body response)) < 2 ^ 63
               then Ok (Archived \<lparr>ar_blob = \<lparr>sb_ref = media_ref (hex_encode digest), sb_hash = digest,
                                            sb_size = int (length (am_body response))\<rparr>,
                                  ar_media_type = mime_str (am_expected_mime response)\<rparr>)
               else Err SizeOverflow)))"

section \<open>Deleting stored objects\<close>

datatype BlobDeletionFailure = StorageUnavailable | DigestMismatch | StillReferenced

fun deletion_failure_str :: "BlobDeletionFailure \<Rightarrow> string" where
  "deletion_failure_str StorageUnavailable = ''storage_unavailable''"
| "deletion_failure_str DigestMismatch = ''digest_mismatch''"
| "deletion_failure_str StillReferenced = ''still_referenced''"

record DeleteIo =
  dio_exists :: bool
  dio_read :: bool
  dio_remove :: bool
  dio_recheck :: bool

definition delete_if_matches ::
  "env \<Rightarrow> DeleteIo \<Rightarrow> MediaBlobStore \<Rightarrow> StoredBlob \<Rightarrow> MediaBlobStore \<times> (unit, BlobDeletionFailure) result" where
  "delete_if_matches E io store blob =
     (let digest_hex = hex_encode (sb_hash blob)
      in if sb_ref blob \<noteq> media_ref digest_hex \<or> sb_size blob < 0 then (store, Err DigestMismatch)
         else if \<not> dio_exists io then (store, Err StorageUnavailable)
         else (case ms_objects store digest_hex of
             None \<Rightarrow> (store, Ok ())
           | Some bytes \<Rightarrow>
               if \<not> dio_read io then (store, Err StorageUnavailable)
               else if int (length bytes) \<noteq> sb_size blob \<or> e_sha256 E bytes \<noteq> sb_hash blob
                 then (store, Err DigestMismatch)
               else if \<not> dio_remove io then (store, Err StorageUnavailable)
               else (store\<lparr>ms_objects := (ms_objects store)(digest_hex := None)\<rparr>,
                     if dio_recheck io then Ok () else Err StorageUnavailable)))"

section \<open>Deletion tasks\<close>

datatype TaskState = TaskPending | TaskComplete

record BlobDeletionTask =
  bt_id :: uuid
  bt_operation :: "uuid option"
  bt_blob :: StoredBlob
  bt_class :: string
  bt_state :: TaskState
  bt_attempts :: nat
  bt_failure :: "BlobDeletionFailure option"
  bt_completed_at :: "instant option"

text \<open>
  The tables a deletion reads and writes beside the archive's: the blobs the export snapshots hold and
  the deletion tasks.
\<close>

record holdings =
  h_archive :: archive
  h_exports :: "StoredBlob list"
  h_tasks :: "BlobDeletionTask list"

datatype BlobDeletionTaskOutcome = TaskStays BlobDeletionFailure | TaskFinished

definition raw_blob :: "RawRow \<Rightarrow> StoredBlob" where
  "raw_blob r = \<lparr>sb_ref = raw_blob_ref r, sb_hash = raw_hash r, sb_size = raw_size r\<rparr>"

definition live_references :: "'a holdings_scheme \<Rightarrow> StoredBlob \<Rightarrow> nat" where
  "live_references h blob =
     length (filter (\<lambda>m. med_blob m = Some blob) (media (h_archive h)))
     + length (filter (\<lambda>r. raw_blob r = blob) (raws (h_archive h)))
     + length (filter (\<lambda>b. b = blob) (h_exports h))"

definition set_operation_state ::
  "(DeletionOperationRow \<Rightarrow> bool) \<Rightarrow> (DeletionOperationRow \<Rightarrow> DeletionOperationRow) \<Rightarrow> 'a holdings_scheme
     \<Rightarrow> 'a holdings_scheme" where
  "set_operation_state P f h =
     h\<lparr>h_archive := (h_archive h)\<lparr>deletions := update_where P f (deletions (h_archive h))\<rparr>\<rparr>"

definition record_blob_failure ::
  "'a holdings_scheme \<Rightarrow> uuid \<Rightarrow> uuid option \<Rightarrow> BlobDeletionFailure \<Rightarrow> 'a holdings_scheme" where
  "record_blob_failure h task_id operation_id failure =
     (let h1 = h\<lparr>h_tasks := update_where (\<lambda>t. bt_id t = task_id \<and> bt_state t = TaskPending)
                  (\<lambda>t. t\<lparr>bt_attempts := bt_attempts t + 1, bt_failure := Some failure\<rparr>) (h_tasks h)\<rparr>
      in (case operation_id of
            None \<Rightarrow> h1
          | Some i \<Rightarrow> set_operation_state (\<lambda>d. del_id d = i) (\<lambda>d. d\<lparr>del_state := PendingBlobDeletion\<rparr>) h1))"

definition operation_pending :: "'a holdings_scheme \<Rightarrow> uuid \<Rightarrow> bool" where
  "operation_pending h i \<longleftrightarrow> list_ex (\<lambda>t. bt_operation t = Some i \<and> bt_state t = TaskPending) (h_tasks h)"

definition complete_task :: "'a holdings_scheme \<Rightarrow> instant \<Rightarrow> uuid \<Rightarrow> uuid option \<Rightarrow> 'a holdings_scheme" where
  "complete_task h now task_id operation_id =
     (let h1 = h\<lparr>h_tasks := update_where (\<lambda>t. bt_id t = task_id)
                  (\<lambda>t. t\<lparr>bt_state := TaskComplete, bt_attempts := bt_attempts t + 1, bt_failure := None,
                         bt_completed_at := Some now\<rparr>) (h_tasks h)\<rparr>
      in (case operation_id of
            None \<Rightarrow> h1
          | Some i \<Rightarrow> set_operation_state (\<lambda>d. del_id d = i \<and> \<not> operation_pending h1 i)
              (\<lambda>d. d\<lparr>del_state := DeletionComplete, del_finished_at := Some now\<rparr>) h1))"

text \<open>\<open>delete\<close> is the backend; \<open>None\<close> is the missing row \<^verbatim>\<open>fetch_one\<close> refuses.\<close>

definition process_blob_deletion_task ::
  "('s \<Rightarrow> StoredBlob \<Rightarrow> 's \<times> (unit, BlobDeletionFailure) result) \<Rightarrow> instant \<Rightarrow> 'a holdings_scheme \<Rightarrow> 's \<Rightarrow> uuid
     \<Rightarrow> ('a holdings_scheme \<times> 's \<times> BlobDeletionTaskOutcome) option" where
  "process_blob_deletion_task delete now h store task_id =
     (case find (\<lambda>t. bt_id t = task_id) (h_tasks h) of
        None \<Rightarrow> None
      | Some task \<Rightarrow>
          if bt_state task = TaskComplete then Some (h, store, TaskFinished)
          else if 0 < live_references h (bt_blob task)
            then Some (record_blob_failure h task_id (bt_operation task) StillReferenced, store,
                       TaskStays StillReferenced)
          else (case delete store (bt_blob task) of
              (store', Err failure) \<Rightarrow>
                Some (record_blob_failure h task_id (bt_operation task) failure, store', TaskStays failure)
            | (store', Ok _) \<Rightarrow> Some (complete_task h now task_id (bt_operation task), store', TaskFinished)))"

datatype BlobCleanupPlan = RetainShared nat | ScheduleDelete string "u8 list"

text \<open>
  The plan reads a media row's reference and digest; a row without a stored object cannot be decoded
  and, like a missing row, is the failure \<open>None\<close>.
\<close>

definition plan_media_reference_expiry :: "'a holdings_scheme \<Rightarrow> uuid \<Rightarrow> BlobCleanupPlan option" where
  "plan_media_reference_expiry h media_id =
     (case find (\<lambda>m. med_id m = media_id) (media (h_archive h)) of
        None \<Rightarrow> None
      | Some row \<Rightarrow> (case med_blob row of
          None \<Rightarrow> None
        | Some b \<Rightarrow>
            let same = (\<lambda>c. sb_ref c = sb_ref b \<and> sb_hash c = sb_hash b);
                live = length (filter (\<lambda>m. (case med_blob m of None \<Rightarrow> False | Some c \<Rightarrow> same c) \<and> med_id m \<noteq> media_id)
                                 (media (h_archive h)))
                       + length (filter (\<lambda>r. same (raw_blob r)) (raws (h_archive h)))
                       + length (filter same (h_exports h))
            in Some (if 0 < live then RetainShared live else ScheduleDelete (sb_ref b) (sb_hash b))))"
section \<open>The policy is fail-closed\<close>

definition authorized :: "MediaPolicyInput \<Rightarrow> bool" where
  "authorized input \<longleftrightarrow> archive_requested input \<and> acquisition_eligible input \<and> explicit_action input
     \<and> rights_confirmed input = Some True \<and> url_is_https input = Some True \<and> kind_eligible input = Some True
     \<and> mime_eligible input = Some True \<and> url_lifetime_sufficient input = Some True
     \<and> (\<exists>n r. declared_bytes input = Some n \<and> owner_remaining_bytes input = Some r
          \<and> 0 < n \<and> n \<le> max_object_bytes input \<and> n \<le> r)"

text \<open>
  Provider bytes are requested exactly when every condition of the policy is established: the
  callback then runs once, with a lease of exactly the declared size, which is positive and within
  the object and the owner budget; any unknown or failed condition keeps metadata only and starts no
  request.
\<close>
theorem media_fetch_needs_every_condition:
  "observe_media input =
     (if authorized input
      then (Archive \<lparr>lease_max_bytes = the (declared_bytes input)\<rparr>, [\<lparr>lease_max_bytes = the (declared_bytes input)\<rparr>])
      else (MetadataOnly
        (if \<not> archive_requested input then PolicyNotAuthorized else the (media_refusal input)), []))"
proof (cases "declared_bytes input")
  case None
  then show ?thesis by (simp add: observe_media_def media_refusal_def authorized_def)
next
  case n: (Some n)
  show ?thesis
  proof (cases "owner_remaining_bytes input")
    case None
    with n show ?thesis by (simp add: observe_media_def media_refusal_def authorized_def)
  next
    case (Some r)
    with n show ?thesis
      by (simp add: observe_media_def media_refusal_def authorized_def Let_def word_neq_0_conv) (auto simp: not_less)
  qed
qed

section \<open>The store is content-addressed\<close>

lemma hex_digit_inject: "m < 16 \<Longrightarrow> n < 16 \<Longrightarrow> hex_digit m = hex_digit n \<Longrightarrow> m = n"
proof -
  assume m: "m < 16" "n < 16" and eq: "hex_digit m = hex_digit n"
  have c: "of_char (hex_digit k) = (if k < 10 then 48 + k else 87 + k)" if "k < 16" for k :: nat
    using that by (simp add: hex_digit_def)
  from arg_cong [OF eq, of "of_char :: char \<Rightarrow> nat"] m show "m = n"
    by (simp add: c split: if_splits)
qed

lemma hex_encode_simps [simp]:
  "hex_encode [] = []"
  "hex_encode (b # bs) = hex_digit (unat b div 16) # hex_digit (unat b mod 16) # hex_encode bs"
  by (simp_all add: hex_encode_def)

lemma hex_encode_inject: "hex_encode a = hex_encode b \<Longrightarrow> a = b"
proof (induction a arbitrary: b)
  case Nil
  then show ?case by (cases b) simp_all
next
  case (Cons x xs)
  then obtain y ys where b: "b = y # ys" by (cases b) auto
  have "unat x < 256" "unat y < 256" using unsigned_less [of x] unsigned_less [of y] by simp_all
  then have d: "unat x div 16 < 16" "unat y div 16 < 16" by simp_all
  have e: "hex_digit (unat x div 16) = hex_digit (unat y div 16)" "hex_digit (unat x mod 16) = hex_digit (unat y mod 16)"
    using Cons.prems b by simp_all
  have "unat x div 16 = unat y div 16" by (rule hex_digit_inject [OF d e(1)])
  moreover have "unat x mod 16 = unat y mod 16" by (rule hex_digit_inject [OF _ _ e(2)]) simp_all
  ultimately have "unat x div 16 = unat y div 16" "unat x mod 16 = unat y mod 16" by simp_all
  then have "unat x = unat y" by (metis div_mult_mod_eq)
  then have "x = y" by (rule unsigned_word_eqI)
  with Cons b show ?case by simp
qed

definition content_addressed :: "env \<Rightarrow> MediaBlobStore \<Rightarrow> bool" where
  "content_addressed E store \<longleftrightarrow> (\<forall>name bytes. ms_objects store name = Some bytes \<longrightarrow> name = hex_encode (e_sha256 E bytes))"

lemma remove_temporary_objects [simp]: "ms_objects (remove_temporary io name store) = ms_objects store"
  by (simp add: remove_temporary_def)

lemma store_object_objects:
  assumes "store_object E io name store body = (store', r)"
  shows "ms_objects store' = ms_objects store \<or>
    ms_objects store (hex_encode (e_sha256 E body)) = None \<and>
    ms_objects store' = (ms_objects store)(hex_encode (e_sha256 E body) \<mapsto> body)"
  using assms by (auto simp: store_object_def Let_def split: if_splits option.splits)

lemma store_object_Ok:
  assumes "store_object E io name store body = (store', Ok u)"
  shows "ms_temporaries store' = ms_temporaries store \<and>
    (\<exists>bytes. ms_objects store' (hex_encode (e_sha256 E body)) = Some bytes \<and> e_sha256 E bytes = e_sha256 E body)"
proof -
  have "filter (\<lambda>t. fst t \<noteq> name) ts = ts" if "name \<notin> fst ` set ts" for ts :: "(uuid \<times> u8 list) list"
    using that by (induction ts) auto
  with assms show ?thesis
    by (auto simp: store_object_def Let_def remove_temporary_def split: if_splits option.splits)
qed

lemma store_object_no_conflict:
  assumes "content_addressed E store" "store_object E io name store body = (store', Err e)"
  shows "e = StorageError"
proof -
  have "e_sha256 E existing = e_sha256 E body" if "ms_objects store (hex_encode (e_sha256 E body)) = Some existing" for existing
    using assms(1) that hex_encode_inject [of "e_sha256 E body" "e_sha256 E existing"] by (auto simp: content_addressed_def)
  with assms(2) show ?thesis by (auto simp: store_object_def Let_def split: if_splits option.splits)
qed

text \<open>
  Archiving keeps the media store content-addressed and append-only, whichever file-system call
  fails: no stored object is changed or removed, a digest conflict cannot arise, and a refused
  response leaves no trace. An archived object is there under its digest, the bytes pass every check
  of the lease, and no temporary file is left.
\<close>
theorem archived_media_is_verified:
  assumes "content_addressed E store"
    and "archive_acquired_media E url_scheme io name store lease response = (store', r)"
  shows "content_addressed E store' \<and> ms_objects store \<subseteq>\<^sub>m ms_objects store' \<and> r \<noteq> Err DigestConflict
    \<and> (\<forall>reason. r = Ok (KeptMetadata reason) \<longrightarrow> store' = store)
    \<and> (\<forall>m. r = Ok (Archived m) \<longrightarrow>
         verify_acquired E url_scheme lease response = None \<and> ms_temporaries store' = ms_temporaries store
         \<and> sb_hash (ar_blob m) = am_expected_digest response
         \<and> nat (sb_size (ar_blob m)) \<le> unat (lease_max_bytes lease)
         \<and> (\<exists>bytes. ms_objects store' (hex_encode (sb_hash (ar_blob m))) = Some bytes
              \<and> e_sha256 E bytes = am_expected_digest response))"
proof (cases "verify_acquired E url_scheme lease response")
  case (Some reason)
  with assms show ?thesis by (auto simp: archive_acquired_media_def)
next
  case None
  obtain s where s: "store_object E io name store (am_body response) = (store', s)"
    and r: "r = bind_result s (\<lambda>_. if int (length (am_body response)) < 2 ^ 63
               then Ok (Archived \<lparr>ar_blob = \<lparr>sb_ref = media_ref (hex_encode (e_sha256 E (am_body response))),
                                  sb_hash = e_sha256 E (am_body response),
                                  sb_size = int (length (am_body response))\<rparr>,
                                  ar_media_type = mime_str (am_expected_mime response)\<rparr>)
               else Err SizeOverflow)"
    using assms None
    by (cases "store_object E io name store (am_body response)") (simp add: archive_acquired_media_def Let_def)
  note objs = store_object_objects [OF s]
  have v: "e_sha256 E (am_body response) = am_expected_digest response"
    "length (am_body response) \<le> unat (lease_max_bytes lease)"
    using None by (auto simp: verify_acquired_def split: if_splits)
  have addr: "content_addressed E store'" "ms_objects store \<subseteq>\<^sub>m ms_objects store'"
    using objs assms(1) by (auto simp: content_addressed_def map_le_def split: if_splits)
  show ?thesis
  proof (cases s)
    case (Err e)
    with store_object_no_conflict [OF assms(1), of io name "am_body response" store' e] s r addr show ?thesis by auto
  next
    case (Ok u)
    have "ms_temporaries store' = ms_temporaries store"
      "\<exists>bytes. ms_objects store' (hex_encode (am_expected_digest response)) = Some bytes \<and> e_sha256 E bytes = am_expected_digest response"
      using store_object_Ok s Ok v(1) by metis+
    with Ok r addr v None show ?thesis by (auto split: if_splits)
  qed
qed

definition retention_env :: env where
  "retention_env = \<lparr>e_now_v7 = (\<lambda>n. Uuid 0 (word_of_nat n)), e_uuid_v5 = (\<lambda>n _. n),
     e_sha256 = (\<lambda>b. take 2 (b @ [0, 0])), e_canonical_json = (\<lambda>_. []), e_payload_title = (\<lambda>_. None),
     e_json_object = (\<lambda>_. True), e_report_ok = (\<lambda>_. True), e_snapshot_ok = (\<lambda>_. True), e_instant_ok = (\<lambda>_. True)\<rparr>"

definition retention_io :: StoreIo where
  "retention_io = \<lparr>io_dirs = True, io_open = True, io_write = True, io_written = 0, io_sync = True, io_link = True,
     io_read = True, io_remove = True\<rparr>"

definition empty_store :: MediaBlobStore where
  "empty_store = \<lparr>ms_objects = (\<lambda>_. None), ms_temporaries = []\<rparr>"

definition sample_response :: AcquiredMedia where
  "sample_response = \<lparr>am_final_url = [104], am_expected_mime = ImagePng, am_content_type = ascii ''image/png; q=1'',
     am_declared_bytes = 3, am_expected_digest = [7, 8], am_body = [7, 8, 9]\<rparr>"

definition sample_archived :: "MediaBlobStore \<times> (MediaArchiveOutcome, MediaStoreError) result" where
  "sample_archived = archive_acquired_media retention_env (\<lambda>_. Some (ascii ''https'')) retention_io (Uuid 0 1) empty_store
     \<lparr>lease_max_bytes = 3\<rparr> sample_response"

theorem archived_media_is_verified_witness:
  "content_addressed retention_env (fst sample_archived) \<and>
   (\<exists>m bytes. snd sample_archived = Ok (Archived m) \<and> sb_hash (ar_blob m) = [7, 8] \<and> sb_size (ar_blob m) = 3
      \<and> ms_objects (fst sample_archived) (hex_encode (sb_hash (ar_blob m))) = Some bytes
      \<and> e_sha256 retention_env bytes = am_expected_digest sample_response)"
proof -
  have "snd sample_archived = Ok (Archived \<lparr>ar_blob = \<lparr>sb_ref = media_ref ''0708'', sb_hash = [7, 8], sb_size = 3\<rparr>,
      ar_media_type = ''image/png''\<rparr>)"
    by code_simp
  moreover have "content_addressed retention_env empty_store" by (simp add: content_addressed_def empty_store_def)
  moreover have "archive_acquired_media retention_env (\<lambda>_. Some (ascii ''https'')) retention_io (Uuid 0 1) empty_store
     \<lparr>lease_max_bytes = 3\<rparr> sample_response = (fst sample_archived, snd sample_archived)"
    by (simp add: sample_archived_def)
  ultimately show ?thesis using archived_media_is_verified by fastforce
qed

section \<open>Deletion tasks respect references\<close>

text \<open>
  A reference of another form than the media store's own is never deleted by it: a task for a raw
  record, whose reference is the bare digest, stays pending with a digest mismatch.
\<close>

lemma foreign_reference_refused:
  "sb_ref b \<noteq> media_ref (hex_encode (sb_hash b)) \<Longrightarrow> delete_if_matches E io store b = (store, Err DigestMismatch)"
  by (simp add: delete_if_matches_def Let_def)

lemma raw_task_stays_pending:
  assumes "find (\<lambda>t. bt_id t = i) (h_tasks h) = Some t" "bt_state t = TaskPending"
    and "sb_ref (bt_blob t) = hex_encode (sb_hash (bt_blob t))"
  shows "\<exists>h' failure. process_blob_deletion_task (delete_if_matches E io) now h store i = Some (h', store, TaskStays failure)"
proof -
  have "length (media_ref x) \<noteq> length x" for x by (simp add: media_ref_def)
  with assms(3) have "sb_ref (bt_blob t) \<noteq> media_ref (hex_encode (sb_hash (bt_blob t)))" by metis
  from foreign_reference_refused [OF this] assms(1,2) show ?thesis by (simp add: process_blob_deletion_task_def)
qed

text \<open>
  What \<^verbatim>\<open>trait BlobDeletionBackend\<close> promises: after a successful deletion the store no longer holds the
  object, and nothing but that object goes.
\<close>

locale blob_backend =
  fixes delete :: "'s \<Rightarrow> StoredBlob \<Rightarrow> 's \<times> (unit, BlobDeletionFailure) result"
    and held :: "'s \<Rightarrow> StoredBlob \<Rightarrow> bool"
  assumes delete_gone: "delete s b = (s', Ok u) \<Longrightarrow> \<not> held s' b"
    and delete_only: "delete s b = (s', r) \<Longrightarrow> held s c \<Longrightarrow> c \<noteq> b \<Longrightarrow> held s' c"
begin

lemma process_keeps_referenced:
  assumes "process_blob_deletion_task delete now h s i = Some (h', s', out)" "0 < live_references h c" "held s c"
  shows "held s' c"
proof -
  from assms(1) obtain t where "find (\<lambda>t. bt_id t = i) (h_tasks h) = Some t"
    by (auto simp: process_blob_deletion_task_def split: option.splits)
  with assms show ?thesis
    by (cases "c = bt_blob t")
       (auto simp: process_blob_deletion_task_def split: if_splits prod.splits result.splits dest: delete_only)
qed

lemma process_finished_gone:
  assumes "process_blob_deletion_task delete now h s i = Some (h', s', TaskFinished)"
    and "find (\<lambda>t. bt_id t = i) (h_tasks h) = Some t" "bt_state t = TaskPending"
  shows "\<not> held s' (bt_blob t)"
  using assms by (auto simp: process_blob_deletion_task_def split: if_splits prod.splits result.splits dest: delete_gone)

end

definition store_holds :: "env \<Rightarrow> MediaBlobStore \<Rightarrow> StoredBlob \<Rightarrow> bool" where
  "store_holds E store b \<longleftrightarrow> sb_ref b = media_ref (hex_encode (sb_hash b)) \<and>
     (case ms_objects store (hex_encode (sb_hash b)) of
        None \<Rightarrow> False
      | Some bytes \<Rightarrow> int (length bytes) = sb_size b \<and> e_sha256 E bytes = sb_hash b)"

interpretation media_backend: blob_backend "delete_if_matches E io" "store_holds E" for E io
proof
  show "\<not> store_holds E s' b" if "delete_if_matches E io s b = (s', Ok u)" for s b s' u
    using that by (auto simp: delete_if_matches_def store_holds_def Let_def split: if_splits option.splits)
  show "store_holds E s' c" if "delete_if_matches E io s b = (s', r)" "store_holds E s c" "c \<noteq> b" for s b s' r c
  proof (cases "ms_objects s' = ms_objects s")
    case True
    with that show ?thesis by (simp add: store_holds_def)
  next
    case False
    with that(1) obtain bytes where b: "ms_objects s (hex_encode (sb_hash b)) = Some bytes"
      "int (length bytes) = sb_size b" "sb_ref b = media_ref (hex_encode (sb_hash b))"
      "ms_objects s' = (ms_objects s)(hex_encode (sb_hash b) := None)"
      unfolding delete_if_matches_def Let_def
      by (cases "ms_objects s (hex_encode (sb_hash b))") (simp_all split: if_splits, safe, simp_all)
    have "sb_hash c \<noteq> sb_hash b"
    proof
      assume "sb_hash c = sb_hash b"
      with b that(2) have "sb_ref c = sb_ref b" "sb_size c = sb_size b" by (auto simp: store_holds_def)
      with \<open>sb_hash c = sb_hash b\<close> that(3) show False by simp
    qed
    then have "hex_encode (sb_hash c) \<noteq> hex_encode (sb_hash b)" using hex_encode_inject by blast
    with b(4) that(2) show ?thesis by (simp add: store_holds_def)
  qed
qed

text \<open>The references do not depend on tasks or operations.\<close>

lemma live_references_frame [simp]:
  "live_references (set_operation_state P f h) b = live_references h b"
  "live_references (h\<lparr>h_tasks := ts\<rparr>) b = live_references h b"
  by (simp_all add: live_references_def set_operation_state_def)

lemma process_live_references:
  "process_blob_deletion_task delete now h s i = Some (h', s', out) \<Longrightarrow> live_references h' b = live_references h b"
  by (auto simp: process_blob_deletion_task_def record_blob_failure_def complete_task_def Let_def
      split: option.splits if_splits prod.splits result.splits)

text \<open>Any number of task runs, on any tasks, with any file-system behaviour.\<close>

inductive task_runs :: "env \<Rightarrow> holdings \<Rightarrow> MediaBlobStore \<Rightarrow> holdings \<Rightarrow> MediaBlobStore \<Rightarrow> bool" for E where
  task_runs_none: "task_runs E h s h s"
| task_runs_more: "task_runs E h s h' s' \<Longrightarrow>
    process_blob_deletion_task (delete_if_matches E io) now h' s' i = Some (h'', s'', out) \<Longrightarrow> task_runs E h s h'' s''"


lemma process_collapse:
  "process_blob_deletion_task delete now h s i \<noteq> None \<Longrightarrow>
   process_blob_deletion_task delete now h s i =
     Some (fst (the (process_blob_deletion_task delete now h s i)), fst (snd (the (process_blob_deletion_task delete now h s i))),
       snd (snd (the (process_blob_deletion_task delete now h s i))))"
  by auto

definition sample_blob :: "u8 \<Rightarrow> StoredBlob" where
  "sample_blob n = \<lparr>sb_ref = media_ref (hex_encode [n, n]), sb_hash = [n, n], sb_size = 3\<rparr>"

definition sample_task :: "u64 \<Rightarrow> BlobDeletionTask" where
  "sample_task n = \<lparr>bt_id = Uuid 1 n, bt_operation = Some (Uuid 2 1), bt_blob = sample_blob (ucast n), bt_class = ''provider_media'',
     bt_state = TaskPending, bt_attempts = 0, bt_failure = None, bt_completed_at = None\<rparr>"

definition sample_holdings :: holdings where
  "sample_holdings =
     \<lparr>h_archive = empty_archive\<lparr>deletions := [\<lparr>del_id = Uuid 2 1, del_user = Uuid 3 1, del_kind = CaptureTarget,
        del_target = Uuid 4 1, del_reason = ''user_requested'', del_state = PendingBlobDeletion, del_at = 0,
        del_finished_at = None\<rparr>]\<rparr>,
      h_exports = [sample_blob 9], h_tasks = [sample_task 1, sample_task 2]\<rparr>"

definition media_store_sample :: MediaBlobStore where
  "media_store_sample = empty_store\<lparr>ms_objects := [hex_encode [1, 1] \<mapsto> [1, 1, 5], hex_encode [9, 9] \<mapsto> [9, 9, 5]]\<rparr>"

definition delete_io :: DeleteIo where
  "delete_io = \<lparr>dio_exists = True, dio_read = True, dio_remove = True, dio_recheck = True\<rparr>"


section \<open>Operations follow their tasks\<close>

definition tasks_consistent :: "holdings \<Rightarrow> bool" where
  "tasks_consistent h \<longleftrightarrow> distinct (map bt_id (h_tasks h)) \<and>
     (\<forall>d \<in> set (deletions (h_archive h)).
        (del_state d = DeletionComplete \<longrightarrow> \<not> operation_pending h (del_id d)) \<and>
        (del_state d = PendingBlobDeletion \<longrightarrow> operation_pending h (del_id d)))"

lemma list_ex_update_where_same:
  "(\<And>t. t \<in> set ts \<Longrightarrow> P t \<Longrightarrow> Q (f t) = Q t) \<Longrightarrow> list_ex Q (update_where P f ts) = list_ex Q ts"
  by (induction ts) auto

lemma set_operation_state_simps [simp]:
  "h_tasks (set_operation_state P f h) = h_tasks h"
  "deletions (h_archive (set_operation_state P f h)) = update_where P f (deletions (h_archive h))"
  "operation_pending (set_operation_state P f h) i = operation_pending h i"
  by (simp_all add: set_operation_state_def operation_pending_def)

lemma record_failure_consistent:
  assumes "tasks_consistent h" "t \<in> set (h_tasks h)" "bt_state t = TaskPending"
  shows "tasks_consistent (record_blob_failure h (bt_id t) (bt_operation t) failure)"
proof -
  let ?h1 = "h\<lparr>h_tasks := update_where (\<lambda>t'. bt_id t' = bt_id t \<and> bt_state t' = TaskPending)
    (\<lambda>t. t\<lparr>bt_attempts := bt_attempts t + 1, bt_failure := Some failure\<rparr>) (h_tasks h)\<rparr>"
  have pend: "operation_pending ?h1 i = operation_pending h i" for i
    by (simp add: operation_pending_def list_ex_update_where_same)
  have ids: "map bt_id (h_tasks ?h1) = map bt_id (h_tasks h)"
    by (simp add: map_update_where_same)
  have own: "operation_pending h i" if "bt_operation t = Some i" for i
    using assms(2,3) that by (auto simp: operation_pending_def list_ex_iff)
  show ?thesis
    using assms(1) pend ids own
    by (cases "bt_operation t")
       (auto simp: tasks_consistent_def record_blob_failure_def Let_def set_update_where)
qed

lemma complete_task_consistent:
  assumes "tasks_consistent h" "t \<in> set (h_tasks h)" "bt_state t = TaskPending"
  shows "tasks_consistent (complete_task h now (bt_id t) (bt_operation t))"
proof -
  let ?h1 = "h\<lparr>h_tasks := update_where (\<lambda>t'. bt_id t' = bt_id t)
    (\<lambda>t. t\<lparr>bt_state := TaskComplete, bt_attempts := bt_attempts t + 1, bt_failure := None,
           bt_completed_at := Some now\<rparr>) (h_tasks h)\<rparr>"
  have ids: "map bt_id (h_tasks ?h1) = map bt_id (h_tasks h)" by (simp add: map_update_where_same)
  have only: "t' = t" if "t' \<in> set (h_tasks h)" "bt_id t' = bt_id t" for t'
    using assms(1,2) that by (auto simp: tasks_consistent_def distinct_map dest: inj_onD)
  have other: "operation_pending ?h1 i = operation_pending h i" if "bt_operation t \<noteq> Some i" for i
    unfolding operation_pending_def using only that
    by (simp, intro list_ex_update_where_same) auto
  have own: "operation_pending h i" if "bt_operation t = Some i" for i
    using assms(2,3) that by (auto simp: operation_pending_def list_ex_iff)
  show ?thesis
  proof (cases "bt_operation t")
    case None
    with assms(1) ids other show ?thesis
      by (simp add: tasks_consistent_def complete_task_def Let_def)
  next
    case (Some i)
    have "tasks_consistent (set_operation_state (\<lambda>d. del_id d = i \<and> \<not> operation_pending ?h1 i)
      (\<lambda>d. d\<lparr>del_state := DeletionComplete, del_finished_at := Some now\<rparr>) ?h1)"
      using assms(1) ids other own Some
      by (force simp: tasks_consistent_def set_update_where)
    with Some show ?thesis by (simp add: complete_task_def Let_def)
  qed
qed

lemma process_consistent:
  assumes "tasks_consistent h" "process_blob_deletion_task delete now h s i = Some (h', s', out)"
  shows "tasks_consistent h'"
proof -
  from assms(2) obtain t where t: "find (\<lambda>t. bt_id t = i) (h_tasks h) = Some t"
    by (auto simp: process_blob_deletion_task_def split: option.splits)
  then have "t \<in> set (h_tasks h)" "bt_id t = i" by (auto simp: find_Some_iff)
  with assms t record_failure_consistent [of h t] complete_task_consistent [of h t] show ?thesis
    by (cases "bt_state t")
       (auto simp: process_blob_deletion_task_def split: if_splits prod.splits result.splits)
qed

section \<open>Operations finish\<close>

text \<open>A store on which the deletion of a blob succeeds: the object is the one described, or already gone.\<close>

definition deletable :: "env \<Rightarrow> MediaBlobStore \<Rightarrow> StoredBlob \<Rightarrow> bool" where
  "deletable E store b \<longleftrightarrow> sb_ref b = media_ref (hex_encode (sb_hash b)) \<and> 0 \<le> sb_size b \<and>
     (case ms_objects store (hex_encode (sb_hash b)) of
        None \<Rightarrow> True
      | Some bytes \<Rightarrow> int (length bytes) = sb_size b \<and> e_sha256 E bytes = sb_hash b)"

definition tasks_ready :: "env \<Rightarrow> holdings \<Rightarrow> MediaBlobStore \<Rightarrow> bool" where
  "tasks_ready E h store \<longleftrightarrow> (\<forall>t \<in> set (h_tasks h). bt_state t = TaskPending \<longrightarrow>
     live_references h (bt_blob t) = 0 \<and> deletable E store (bt_blob t))"

definition complete_ids :: "holdings \<Rightarrow> uuid set" where
  "complete_ids h = bt_id ` {t \<in> set (h_tasks h). bt_state t = TaskComplete}"

fun run_tasks :: "env \<Rightarrow> DeleteIo \<Rightarrow> instant \<Rightarrow> uuid list \<Rightarrow> holdings \<times> MediaBlobStore \<Rightarrow> holdings \<times> MediaBlobStore" where
  "run_tasks E io now [] (h, s) = (h, s)"
| "run_tasks E io now (i # is) (h, s) =
     (case process_blob_deletion_task (delete_if_matches E io) now h s i of
        None \<Rightarrow> run_tasks E io now is (h, s)
      | Some (h', s', _) \<Rightarrow> run_tasks E io now is (h', s'))"

definition io_works :: "DeleteIo \<Rightarrow> bool" where
  "io_works io \<longleftrightarrow> dio_exists io \<and> dio_read io \<and> dio_remove io \<and> dio_recheck io"

lemma delete_succeeds:
  assumes "io_works io" "deletable E store b"
  shows "\<exists>store'. delete_if_matches E io store b = (store', Ok ()) \<and> (\<forall>c. deletable E store c \<longrightarrow> deletable E store' c)"
  using assms
  by (cases "ms_objects store (hex_encode (sb_hash b))")
     (simp_all add: delete_if_matches_def deletable_def io_works_def Let_def)

lemma complete_task_tasks [simp]:
  "h_tasks (complete_task h now i op) = update_where (\<lambda>t. bt_id t = i)
     (\<lambda>t. t\<lparr>bt_state := TaskComplete, bt_attempts := bt_attempts t + 1, bt_failure := None,
            bt_completed_at := Some now\<rparr>) (h_tasks h)"
  by (simp add: complete_task_def Let_def split: option.split)

text \<open>What a run may do to the operations: keep the row, or move it between pending and complete.\<close>

definition operation_moves :: "DeletionOperationRow \<Rightarrow> DeletionOperationRow \<Rightarrow> bool" where
  "operation_moves d d' \<longleftrightarrow> del_id d' = del_id d \<and>
     (del_state d' = del_state d \<or> del_state d' \<in> {PendingBlobDeletion, DeletionComplete})"

lemma operation_moves_update:
  "(\<And>d. operation_moves d (f d)) \<Longrightarrow> list_all2 operation_moves ds (update_where P f ds)"
  by (induction ds) (auto simp: operation_moves_def)

lemma operation_moves_refl: "list_all2 operation_moves ds ds"
  by (induction ds) (auto simp: operation_moves_def)

lemma process_moves:
  assumes "process_blob_deletion_task delete now h s i = Some (h', s', out)"
  shows "list_all2 operation_moves (deletions (h_archive h)) (deletions (h_archive h'))"
proof -
  have "list_all2 operation_moves (deletions (h_archive h)) (deletions (h_archive (record_blob_failure h i op f)))" for op f
    by (cases op) (simp_all add: record_blob_failure_def Let_def operation_moves_refl operation_moves_update operation_moves_def)
  moreover have "list_all2 operation_moves (deletions (h_archive h)) (deletions (h_archive (complete_task h now i op)))" for op
    by (cases op) (simp_all add: complete_task_def Let_def operation_moves_refl operation_moves_update operation_moves_def)
  ultimately show ?thesis
    using assms by (auto simp: process_blob_deletion_task_def operation_moves_refl
      split: option.splits if_splits prod.splits result.splits)
qed

lemma operation_moves_trans:
  "list_all2 operation_moves a b \<Longrightarrow> list_all2 operation_moves b c \<Longrightarrow> list_all2 operation_moves a c"
  by (erule (1) list_all2_trans [rotated]) (auto simp: operation_moves_def)

lemma complete_task_ids:
  assumes "t \<in> set (h_tasks h)"
  shows "insert (bt_id t) (complete_ids h) \<subseteq> complete_ids (complete_task h now (bt_id t) op)"
proof
  fix j
  assume "j \<in> insert (bt_id t) (complete_ids h)"
  with assms obtain t' where t': "t' \<in> set (h_tasks h)" "bt_id t' = j" "j = bt_id t \<or> bt_state t' = TaskComplete"
    by (auto simp: complete_ids_def)
  let ?f = "\<lambda>t. t\<lparr>bt_state := TaskComplete, bt_attempts := bt_attempts t + 1, bt_failure := None, bt_completed_at := Some now\<rparr>"
  let ?u = "if bt_id t' = bt_id t then ?f t' else t'"
  have "?u \<in> set (h_tasks (complete_task h now (bt_id t) op))"
    unfolding complete_task_tasks set_update_where by (rule imageI [OF t'(1)])
  moreover have "bt_id ?u = j" "bt_state ?u = TaskComplete" using t' by auto
  ultimately show "j \<in> complete_ids (complete_task h now (bt_id t) op)" unfolding complete_ids_def by blast
qed

lemma ready_task_completes:
  assumes "io_works io" "tasks_ready E h s" "tasks_consistent h" "i \<in> bt_id ` set (h_tasks h)"
  obtains h' s' where "process_blob_deletion_task (delete_if_matches E io) now h s i = Some (h', s', TaskFinished)"
    "tasks_ready E h' s'" "map bt_id (h_tasks h') = map bt_id (h_tasks h)" "insert i (complete_ids h) \<subseteq> complete_ids h'"
proof -
  obtain t where t: "find (\<lambda>t. bt_id t = i) (h_tasks h) = Some t" "t \<in> set (h_tasks h)" "bt_id t = i"
    using assms(4) by (cases "find (\<lambda>t. bt_id t = i) (h_tasks h)") (auto simp: find_None_iff find_Some_iff)
  show ?thesis
  proof (cases "bt_state t")
    case TaskComplete
    with t assms(2) that [of h s] show ?thesis
      by (auto simp: process_blob_deletion_task_def complete_ids_def)
  next
    case TaskPending
    with assms(2) t have ready: "live_references h (bt_blob t) = 0" "deletable E s (bt_blob t)" by (auto simp: tasks_ready_def)
    obtain s' where s': "delete_if_matches E io s (bt_blob t) = (s', Ok ())"
      "\<forall>c. deletable E s c \<longrightarrow> deletable E s' c"
      using delete_succeeds [OF assms(1) ready(2)] by blast
    let ?h' = "complete_task h now i (bt_operation t)"
    have p: "process_blob_deletion_task (delete_if_matches E io) now h s i = Some (?h', s', TaskFinished)"
      using t TaskPending ready s' by (simp add: process_blob_deletion_task_def)
    have "tasks_ready E ?h' s'"
      using assms(2) s'(2) process_live_references [OF p] by (auto simp: tasks_ready_def set_update_where)
    moreover have "insert i (complete_ids h) \<subseteq> complete_ids ?h'"
      using complete_task_ids [OF t(2), of now "bt_operation t"] t(3) by simp
    ultimately show ?thesis using that p by (simp add: map_update_where_same)
  qed
qed

lemma run_tasks_complete:
  assumes "io_works io" "tasks_ready E h s" "tasks_consistent h" "set is \<subseteq> bt_id ` set (h_tasks h)"
    and "run_tasks E io now is (h, s) = (h', s')"
  shows "set is \<union> complete_ids h \<subseteq> complete_ids h' \<and> map bt_id (h_tasks h') = map bt_id (h_tasks h) \<and> tasks_consistent h'
    \<and> list_all2 operation_moves (deletions (h_archive h)) (deletions (h_archive h'))"
  using assms(2-)
proof (induction "is" arbitrary: h s)
  case Nil
  then show ?case by (simp add: operation_moves_refl)
next
  case (Cons i "is")
  obtain h1 s1 where p: "process_blob_deletion_task (delete_if_matches E io) now h s i = Some (h1, s1, TaskFinished)"
    "tasks_ready E h1 s1" "map bt_id (h_tasks h1) = map bt_id (h_tasks h)" "insert i (complete_ids h) \<subseteq> complete_ids h1"
    using ready_task_completes [OF assms(1) Cons.prems(1,2), of i now] Cons.prems(3) by auto
  have "set (map bt_id (h_tasks h1)) = set (map bt_id (h_tasks h))" using p(3) by simp
  then have sub: "set is \<subseteq> bt_id ` set (h_tasks h1)" using Cons.prems(3) by simp
  have run: "run_tasks E io now is (h1, s1) = (h', s')" using Cons.prems(4) p(1) by simp
  note IH = Cons.IH [OF p(2) process_consistent [OF Cons.prems(2) p(1)] sub run]
  show ?case
    using IH p(3,4) operation_moves_trans [OF process_moves [OF p(1)]] by auto
qed

text \<open>
  C16. Deletion operations of media objects finish: when storage works, every pending task names an object in the
  media store's form that nothing refers to any more and that the store holds as described or no longer
  holds, and every waiting operation has a pending task, one run over the tasks completes every task and
  every operation that waited for blob deletion.
\<close>
theorem deletion_operations_finish:
  assumes "tasks_consistent h" "tasks_ready E h s" "io_works io"
    and "run_tasks E io now (map bt_id (h_tasks h)) (h, s) = (h', s')"
  shows "(\<forall>t \<in> set (h_tasks h'). bt_state t = TaskComplete) \<and>
    list_all2 (\<lambda>d d'. del_id d' = del_id d \<and> (del_state d = PendingBlobDeletion \<longrightarrow> del_state d' = DeletionComplete))
      (deletions (h_archive h)) (deletions (h_archive h'))"
proof -
  have run: "set (map bt_id (h_tasks h)) \<union> complete_ids h \<subseteq> complete_ids h'"
    "map bt_id (h_tasks h') = map bt_id (h_tasks h)" "tasks_consistent h'"
    "list_all2 operation_moves (deletions (h_archive h)) (deletions (h_archive h'))"
    using run_tasks_complete [OF assms(3,2,1) _ assms(4)] by simp_all
  have all: "bt_state t = TaskComplete" if t: "t \<in> set (h_tasks h')" for t
  proof -
    have "bt_id t \<in> set (map bt_id (h_tasks h))" unfolding run(2) [symmetric] using t by simp
    with run(1) have "bt_id t \<in> complete_ids h'" by blast
    then obtain t' where "t' \<in> set (h_tasks h')" "bt_id t' = bt_id t" "bt_state t' = TaskComplete"
      by (auto simp: complete_ids_def)
    moreover have "inj_on bt_id (set (h_tasks h'))" using run(3) by (simp add: tasks_consistent_def distinct_map)
    ultimately show ?thesis using t by (metis inj_onD)
  qed
  then have "\<not> operation_pending h' i" for i by (auto simp: operation_pending_def list_ex_iff)
  with run(3) have none: "del_state d \<noteq> PendingBlobDeletion" if "d \<in> set (deletions (h_archive h'))" for d
    using that by (auto simp: tasks_consistent_def)
  have "list_all2 (\<lambda>d d'. del_id d' = del_id d \<and> (del_state d = PendingBlobDeletion \<longrightarrow> del_state d' = DeletionComplete))
      (deletions (h_archive h)) (deletions (h_archive h'))"
    unfolding list_all2_conv_all_nth
  proof (intro conjI allI impI)
    show "length (deletions (h_archive h)) = length (deletions (h_archive h'))" using run(4) by (rule list_all2_lengthD)
    fix n
    assume n: "n < length (deletions (h_archive h))"
    then have m: "operation_moves (deletions (h_archive h) ! n) (deletions (h_archive h') ! n)"
      "deletions (h_archive h') ! n \<in> set (deletions (h_archive h'))"
      using list_all2_nthD [OF run(4) n] list_all2_lengthD [OF run(4)] by simp_all
    then show "del_id (deletions (h_archive h') ! n) = del_id (deletions (h_archive h) ! n)" by (simp add: operation_moves_def)
    show "del_state (deletions (h_archive h') ! n) = DeletionComplete"
      if "del_state (deletions (h_archive h) ! n) = PendingBlobDeletion"
      using m none [OF m(2)] that by (auto simp: operation_moves_def)
  qed
  with all show ?thesis by blast
qed

theorem deletion_operations_finish_witness:
  "tasks_consistent sample_holdings \<and>
   map del_state (deletions (h_archive (fst (run_tasks retention_env delete_io 5 [Uuid 1 1, Uuid 1 2]
     (sample_holdings, media_store_sample))))) = [DeletionComplete]"
proof -
  have c: "tasks_consistent sample_holdings" by code_simp
  have r: "tasks_ready retention_env sample_holdings media_store_sample" by code_simp
  have io: "io_works delete_io" by code_simp
  have ids: "map bt_id (h_tasks sample_holdings) = [Uuid 1 1, Uuid 1 2]" by code_simp
  obtain h' s' where run: "run_tasks retention_env delete_io 5 (map bt_id (h_tasks sample_holdings)) (sample_holdings, media_store_sample)
      = (h', s')"
    by fastforce
  have "map del_state (deletions (h_archive sample_holdings)) = [PendingBlobDeletion]" by code_simp
  then obtain d where "deletions (h_archive sample_holdings) = [d]" "del_state d = PendingBlobDeletion" by auto
  then have "map del_state (deletions (h_archive h')) = [DeletionComplete]"
    using deletion_operations_finish [OF c r io run] by (auto simp: list_all2_Cons1)
  with c run ids show ?thesis by simp
qed

end
