(* ===== verification/Deletion_Inventory.thy ===== *)
theory Deletion_Inventory
  imports Publishing
begin

text \<open>
  Model of the closed inventory of \<^verbatim>\<open>privacy_deletion.rs\<close> and \<^verbatim>\<open>privacy_deletion/inventory.rs\<close>: the
  owned data classes, what a deletion of each target does to each of them, the plan a request gets
  and the decoding of the plan stored with an operation. An inventory key is the enum's name with
  \<^verbatim>\<open>Class\<close> appended, since several names are tables of the model already.
\<close>

section \<open>Classes and actions\<close>

datatype OwnedDataClass =
  AccountsClass | AccountCapabilitiesClass | AccountCredentialAuditClass |
  AccountPermissionObservationsClass | CredentialsClass | OAuthFlowsClass | ProviderApiUsageClass |
  ProfilesClass | MediaClass | MediaRelationsClass | MediaRevisionsClass | OwnMediaSyncStateClass |
  OwnMediaSyncRunsClass | OwnMediaSyncItemsClass | OwnMediaAuthorityClass | CapturesClass |
  CaptureOperationsClass | CaptureAnalysisLinksClass | CaptureNotesClass | ExportSnapshotsClass |
  ImportRunsClass | ImportRunTransitionsClass | ExportRecordsClass | ExportCompletenessReportsClass |
  RawRecordsClass | AvailabilityObservationsClass | OutboxEventsClass | InboxEventsClass |
  DeletionOperationsClass | DeletionEffectsClass | LocalSourceRemovalsClass | BlobDeletionTasksClass |
  ReresolutionRunsClass | ReresolutionItemsClass | ExportReprocessingRunsClass |
  ExportReprocessingItemsClass | DataExportArchiveBlobClass | ProviderMediaBlobClass |
  RawResponseBlobClass | UserUploadBlobClass

fun class_key :: "OwnedDataClass \<Rightarrow> string" where
  "class_key AccountsClass = ''table:accounts''"
| "class_key AccountCapabilitiesClass = ''table:account_capabilities''"
| "class_key AccountCredentialAuditClass = ''table:account_credential_audit''"
| "class_key AccountPermissionObservationsClass = ''table:account_permission_observations''"
| "class_key CredentialsClass = ''table:credentials''"
| "class_key OAuthFlowsClass = ''table:oauth_flows''"
| "class_key ProviderApiUsageClass = ''table:provider_api_usage''"
| "class_key ProfilesClass = ''table:profiles''"
| "class_key MediaClass = ''table:media''"
| "class_key MediaRelationsClass = ''table:media_relations''"
| "class_key MediaRevisionsClass = ''table:media_revisions''"
| "class_key OwnMediaSyncStateClass = ''table:own_media_sync_state''"
| "class_key OwnMediaSyncRunsClass = ''table:own_media_sync_runs''"
| "class_key OwnMediaSyncItemsClass = ''table:own_media_sync_items''"
| "class_key OwnMediaAuthorityClass = ''table:own_media_authority''"
| "class_key CapturesClass = ''table:captures''"
| "class_key CaptureOperationsClass = ''table:capture_operations''"
| "class_key CaptureAnalysisLinksClass = ''table:capture_analysis_links''"
| "class_key CaptureNotesClass = ''table:capture_notes''"
| "class_key ExportSnapshotsClass = ''table:export_snapshots''"
| "class_key ImportRunsClass = ''table:import_runs''"
| "class_key ImportRunTransitionsClass = ''table:import_run_transitions''"
| "class_key ExportRecordsClass = ''table:export_records''"
| "class_key ExportCompletenessReportsClass = ''table:export_completeness_reports''"
| "class_key RawRecordsClass = ''table:raw_records''"
| "class_key AvailabilityObservationsClass = ''table:availability_observations''"
| "class_key OutboxEventsClass = ''table:outbox_events''"
| "class_key InboxEventsClass = ''table:inbox_events''"
| "class_key DeletionOperationsClass = ''table:deletion_operations''"
| "class_key DeletionEffectsClass = ''table:deletion_effects''"
| "class_key LocalSourceRemovalsClass = ''table:local_source_removals''"
| "class_key BlobDeletionTasksClass = ''table:blob_deletion_tasks''"
| "class_key ReresolutionRunsClass = ''table:reresolution_runs''"
| "class_key ReresolutionItemsClass = ''table:reresolution_items''"
| "class_key ExportReprocessingRunsClass = ''table:export_reprocessing_runs''"
| "class_key ExportReprocessingItemsClass = ''table:export_reprocessing_items''"
| "class_key DataExportArchiveBlobClass = ''blob:data_export_archive''"
| "class_key ProviderMediaBlobClass = ''blob:provider_media''"
| "class_key RawResponseBlobClass = ''blob:raw_response''"
| "class_key UserUploadBlobClass = ''blob:user_upload''"

definition OWNED_DATA_CLASSES :: "OwnedDataClass list" where
  "OWNED_DATA_CLASSES =
    [AccountsClass, AccountCapabilitiesClass, AccountCredentialAuditClass,
     AccountPermissionObservationsClass, CredentialsClass, OAuthFlowsClass, ProviderApiUsageClass,
     ProfilesClass, MediaClass, MediaRelationsClass, MediaRevisionsClass, OwnMediaSyncStateClass,
     OwnMediaSyncRunsClass, OwnMediaSyncItemsClass, OwnMediaAuthorityClass, CapturesClass,
     CaptureOperationsClass, CaptureAnalysisLinksClass, CaptureNotesClass, ExportSnapshotsClass,
     ImportRunsClass, ImportRunTransitionsClass, ExportRecordsClass, ExportCompletenessReportsClass,
     RawRecordsClass, AvailabilityObservationsClass, OutboxEventsClass, InboxEventsClass,
     DeletionOperationsClass, DeletionEffectsClass, LocalSourceRemovalsClass, BlobDeletionTasksClass,
     ReresolutionRunsClass, ReresolutionItemsClass, ExportReprocessingRunsClass,
     ExportReprocessingItemsClass, DataExportArchiveBlobClass, ProviderMediaBlobClass, RawResponseBlobClass,
     UserUploadBlobClass]"

datatype DeletionAction = Delete | Detach | RetainAudit | RetainSharedAction | NotApplicable

fun action_str :: "DeletionAction \<Rightarrow> string" where
  "action_str Delete = ''delete''"
| "action_str Detach = ''detach''"
| "action_str RetainAudit = ''retain_audit''"
| "action_str RetainSharedAction = ''retain_shared''"
| "action_str NotApplicable = ''not_applicable''"

definition action_from_str :: "string \<Rightarrow> DeletionAction option" where
  "action_from_str s =
     (if s = ''delete'' then Some Delete
      else if s = ''detach'' then Some Detach
      else if s = ''retain_audit'' then Some RetainAudit
      else if s = ''retain_shared'' then Some RetainSharedAction
      else if s = ''not_applicable'' then Some NotApplicable
      else None)"

text \<open>A disposition is a class and the effect of the deletion on it.\<close>

record DataClassDisposition =
  dd_class :: OwnedDataClass
  dd_action :: DeletionAction

definition disposition :: "OwnedDataClass \<Rightarrow> DeletionAction \<Rightarrow> DataClassDisposition" where
  "disposition c a = \<lparr>dd_class = c, dd_action = a\<rparr>"

definition CAPTURE_DELETION_CLASSIFICATIONS :: "DataClassDisposition list" where
  "CAPTURE_DELETION_CLASSIFICATIONS =
    [disposition AccountsClass NotApplicable, disposition AccountCapabilitiesClass NotApplicable,
     disposition AccountCredentialAuditClass NotApplicable,
     disposition AccountPermissionObservationsClass NotApplicable,
     disposition CredentialsClass NotApplicable, disposition OAuthFlowsClass NotApplicable,
     disposition ProviderApiUsageClass NotApplicable, disposition ProfilesClass NotApplicable,
     disposition MediaClass Detach, disposition MediaRelationsClass Detach,
     disposition MediaRevisionsClass Detach, disposition OwnMediaSyncStateClass NotApplicable,
     disposition OwnMediaSyncRunsClass NotApplicable, disposition OwnMediaSyncItemsClass NotApplicable,
     disposition OwnMediaAuthorityClass NotApplicable, disposition CapturesClass Delete,
     disposition CaptureOperationsClass Delete, disposition CaptureAnalysisLinksClass Delete,
     disposition CaptureNotesClass Delete, disposition ExportSnapshotsClass NotApplicable,
     disposition ImportRunsClass NotApplicable, disposition ImportRunTransitionsClass NotApplicable,
     disposition ExportRecordsClass NotApplicable, disposition ExportCompletenessReportsClass NotApplicable,
     disposition RawRecordsClass Detach, disposition AvailabilityObservationsClass Delete,
     disposition OutboxEventsClass RetainAudit, disposition InboxEventsClass RetainAudit,
     disposition DeletionOperationsClass RetainAudit, disposition DeletionEffectsClass RetainAudit,
     disposition LocalSourceRemovalsClass RetainAudit, disposition BlobDeletionTasksClass RetainAudit,
     disposition ReresolutionRunsClass RetainAudit, disposition ReresolutionItemsClass Delete,
     disposition ExportReprocessingRunsClass NotApplicable,
     disposition ExportReprocessingItemsClass NotApplicable,
     disposition DataExportArchiveBlobClass NotApplicable, disposition ProviderMediaBlobClass Detach,
     disposition RawResponseBlobClass Detach, disposition UserUploadBlobClass Delete]"

definition CONNECTION_DELETION_CLASSIFICATIONS :: "DataClassDisposition list" where
  "CONNECTION_DELETION_CLASSIFICATIONS =
    [disposition AccountsClass Delete, disposition AccountCapabilitiesClass Delete,
     disposition AccountCredentialAuditClass Delete, disposition AccountPermissionObservationsClass Delete,
     disposition CredentialsClass Delete, disposition OAuthFlowsClass Delete,
     disposition ProviderApiUsageClass Delete, disposition ProfilesClass Delete,
     disposition MediaClass Detach, disposition MediaRelationsClass Detach,
     disposition MediaRevisionsClass Detach, disposition OwnMediaSyncStateClass Delete,
     disposition OwnMediaSyncRunsClass Delete, disposition OwnMediaSyncItemsClass Delete,
     disposition OwnMediaAuthorityClass Delete, disposition CapturesClass NotApplicable,
     disposition CaptureOperationsClass NotApplicable, disposition CaptureAnalysisLinksClass NotApplicable,
     disposition CaptureNotesClass NotApplicable, disposition ExportSnapshotsClass NotApplicable,
     disposition ImportRunsClass NotApplicable, disposition ImportRunTransitionsClass NotApplicable,
     disposition ExportRecordsClass NotApplicable, disposition ExportCompletenessReportsClass NotApplicable,
     disposition RawRecordsClass Detach, disposition AvailabilityObservationsClass Detach,
     disposition OutboxEventsClass Delete, disposition InboxEventsClass RetainAudit,
     disposition DeletionOperationsClass RetainAudit, disposition DeletionEffectsClass RetainAudit,
     disposition LocalSourceRemovalsClass RetainAudit, disposition BlobDeletionTasksClass RetainAudit,
     disposition ReresolutionRunsClass NotApplicable, disposition ReresolutionItemsClass NotApplicable,
     disposition ExportReprocessingRunsClass NotApplicable,
     disposition ExportReprocessingItemsClass NotApplicable,
     disposition DataExportArchiveBlobClass NotApplicable, disposition ProviderMediaBlobClass Detach,
     disposition RawResponseBlobClass Detach, disposition UserUploadBlobClass NotApplicable]"

section \<open>Keys\<close>

text \<open>The table key without its prefix, and a fixed key for each blob class.\<close>

definition audit_key :: "OwnedDataClass \<Rightarrow> string" where
  "audit_key c =
     (case c of
        DataExportArchiveBlobClass \<Rightarrow> ''data_export_archive_blob''
      | ProviderMediaBlobClass \<Rightarrow> ''provider_media_blob''
      | RawResponseBlobClass \<Rightarrow> ''raw_response_blob''
      | UserUploadBlobClass \<Rightarrow> ''user_upload_blob''
      | _ \<Rightarrow> if take 6 (class_key c) = ''table:'' then drop 6 (class_key c) else ''invalid_class'')"

definition from_audit_key :: "string \<Rightarrow> OwnedDataClass option" where
  "from_audit_key v = find (\<lambda>c. audit_key c = v) OWNED_DATA_CLASSES"

text \<open>The derived order of the enum: its declaration order, which is the order of the inventory.\<close>

definition class_rank :: "OwnedDataClass \<Rightarrow> nat" where
  "class_rank c = length (takeWhile (\<lambda>d. d \<noteq> c) OWNED_DATA_CLASSES)"

section \<open>Requests and plans\<close>

datatype DeletionTarget = TargetCapture uuid | TargetConnection uuid

record DeletionRequest =
  dr_operation :: uuid
  dr_user :: uuid
  dr_target :: DeletionTarget

record DeletionEffectCount =
  ef_class :: OwnedDataClass
  ef_action :: DeletionAction
  ef_count :: int

fun target_parts :: "DeletionTarget \<Rightarrow> DeletionKind \<times> uuid" where
  "target_parts (TargetCapture i) = (CaptureTarget, i)"
| "target_parts (TargetConnection i) = (ConnectionTarget, i)"

fun update_first :: "('a \<Rightarrow> bool) \<Rightarrow> ('a \<Rightarrow> 'a) \<Rightarrow> 'a list \<Rightarrow> 'a list" where
  "update_first P f [] = []"
| "update_first P f (x # xs) = (if P x then f x # xs else x # update_first P f xs)"

definition build_plan :: "DeletionRequest \<Rightarrow> DeletionEffectCount list" where
  "build_plan request =
     (let classifications = (case dr_target request of
            TargetCapture _ \<Rightarrow> CAPTURE_DELETION_CLASSIFICATIONS
          | TargetConnection _ \<Rightarrow> CONNECTION_DELETION_CLASSIFICATIONS);
          effects = map (\<lambda>d. \<lparr>ef_class = dd_class d, ef_action = dd_action d, ef_count = 0\<rparr>) classifications;
          target_class = (case dr_target request of
            TargetCapture _ \<Rightarrow> CapturesClass | TargetConnection _ \<Rightarrow> AccountsClass)
      in update_first (\<lambda>e. ef_class e = target_class) (\<lambda>e. e\<lparr>ef_count := 1\<rparr>) effects)"

text \<open>The rows of \<^verbatim>\<open>deletion_effects\<close> an operation stores, and their decoding on replay.\<close>

type_synonym effect_row = "string \<times> string \<times> int"

definition effect_row :: "DeletionEffectCount \<Rightarrow> effect_row" where
  "effect_row e = (audit_key (ef_class e), action_str (ef_action e), ef_count e)"

fun decode_effects :: "effect_row list \<Rightarrow> DeletionEffectCount list option" where
  "decode_effects [] = Some []"
| "decode_effects ((c, a, n) # rows) =
     (case from_audit_key c of
        None \<Rightarrow> None
      | Some cls \<Rightarrow> (case action_from_str a of
          None \<Rightarrow> None
        | Some action \<Rightarrow>
            map_option (Cons \<lparr>ef_class = cls, ef_action = action, ef_count = n\<rparr>) (decode_effects rows)))"

definition load_effects :: "effect_row list \<Rightarrow> DeletionEffectCount list option" where
  "load_effects rows = map_option (sort_key (\<lambda>e. class_rank (ef_class e))) (decode_effects rows)"

section \<open>Every class is classified once\<close>

lemma OWNED_DATA_CLASSES_all: "c \<in> set OWNED_DATA_CLASSES"
  by (cases c) (simp_all add: OWNED_DATA_CLASSES_def)

lemma from_audit_key_audit_key: "from_audit_key (audit_key c) = Some c"
proof -
  have "list_all (\<lambda>c. from_audit_key (audit_key c) = Some c) OWNED_DATA_CLASSES" by code_simp
  then show ?thesis using OWNED_DATA_CLASSES_all by (simp add: list_all_iff)
qed

lemma action_from_str_action_str: "action_from_str (action_str a) = Some a"
  by (cases a) (simp_all add: action_from_str_def)

interpretation action_codec: wire_codec action_str action_from_str
proof
  show "action_from_str (action_str a) = Some a" for a by (rule action_from_str_action_str)
  show "action_str a = s" if "action_from_str s = Some a" for s a
    using that by (auto simp: action_from_str_def split: if_splits)
qed

lemma classifications_classes:
  "map dd_class CAPTURE_DELETION_CLASSIFICATIONS = OWNED_DATA_CLASSES"
  "map dd_class CONNECTION_DELETION_CLASSIFICATIONS = OWNED_DATA_CLASSES"
  by code_simp+

lemma distinct_classes: "distinct OWNED_DATA_CLASSES"
  by code_simp

lemma map_update_first: "(\<And>x. g (f x) = g x) \<Longrightarrow> map g (update_first P f xs) = map g xs"
  by (induction xs) auto

lemma build_plan_classes: "map ef_class (build_plan request) = OWNED_DATA_CLASSES"
  using classifications_classes
  by (cases "dr_target request") (simp_all add: build_plan_def map_update_first comp_def)

lemma decode_effect_rows: "decode_effects (map effect_row es) = Some es"
  by (induction es) (simp_all add: effect_row_def from_audit_key_audit_key action_from_str_action_str)

lemma effect_row_inj: "inj effect_row"
  by (rule injI) (use decode_effect_rows [of "[_]"] in \<open>metis list.map(1,2) option.inject list.inject\<close>)

lemma class_ranks: "map class_rank OWNED_DATA_CLASSES = [0 ..< 40]"
  by code_simp

lemma sort_effects:
  assumes "mset es = mset (build_plan request)"
  shows "sort_key (\<lambda>e. class_rank (ef_class e)) es = build_plan request"
proof (rule sort_key_inj_key_eq)
  have "map class_rank (map ef_class (build_plan request)) = [0 ..< 40]"
    by (simp only: build_plan_classes class_ranks)
  then have ranks: "map (\<lambda>e. class_rank (ef_class e)) (build_plan request) = [0 ..< 40]" by (simp add: comp_def)
  then show "sorted (map (\<lambda>e. class_rank (ef_class e)) (build_plan request))" by simp
  have "distinct (map (\<lambda>e. class_rank (ef_class e)) (build_plan request))" unfolding ranks by simp
  moreover have "set es = set (build_plan request)" using assms by (rule mset_eq_setD)
  ultimately show "inj_on (\<lambda>e. class_rank (ef_class e)) (set es)" by (simp add: distinct_map)
qed (rule assms)

text \<open>
  The deletion plan is complete and unambiguous, and its stored form can be read back: a plan lists
  every owned data class exactly once, in inventory order, counts the one target row, and is what
  loading its \<^verbatim>\<open>deletion_effects\<close> rows gives, in whatever order the database returns them.
\<close>
theorem deletion_plan_is_complete:
  assumes "mset rows = mset (map effect_row (build_plan request))"
  shows "map ef_class (build_plan request) = OWNED_DATA_CLASSES \<and> distinct OWNED_DATA_CLASSES
    \<and> (\<forall>c. c \<in> set OWNED_DATA_CLASSES) \<and> load_effects rows = Some (build_plan request)"
proof -
  have inj: "inv effect_row (effect_row e) = e" for e by (rule inv_f_f [OF effect_row_inj])
  have "set rows \<subseteq> range effect_row" using mset_eq_setD [OF assms] by auto
  then have rows: "map effect_row (map (inv effect_row) rows) = rows"
    by (simp add: comp_def f_inv_into_f subsetD map_idI)
  define es where "es = map (inv effect_row) rows"
  have "mset es = image_mset (inv effect_row) (mset rows)" by (simp add: es_def)
  also have "\<dots> = mset (build_plan request)" by (simp add: assms image_mset.compositionality comp_def inj)
  finally have es: "rows = map effect_row es" "mset es = mset (build_plan request)" using rows by (simp_all add: es_def)
  show ?thesis using build_plan_classes distinct_classes OWNED_DATA_CLASSES_all es sort_effects
    by (simp add: load_effects_def decode_effect_rows)
qed

definition plan_request :: DeletionRequest where
  "plan_request = \<lparr>dr_operation = Uuid 0 1, dr_user = Uuid 0 2, dr_target = TargetCapture (Uuid 0 3)\<rparr>"

theorem deletion_plan_is_complete_witness:
  "load_effects (rev (map effect_row (build_plan plan_request))) = Some (build_plan plan_request)
    \<and> length (build_plan plan_request) = 40"
proof -
  have "length (build_plan plan_request) = 40" by code_simp
  then show ?thesis
    using deletion_plan_is_complete [of "rev (map effect_row (build_plan plan_request))" plan_request] by simp
qed

end
