(* ===== verification/Privacy_Deletion.thy ===== *)
theory Privacy_Deletion
  imports Media_Retention Deletion_Inventory
begin

text \<open>
  Model of \<^verbatim>\<open>privacy_deletion.rs\<close> and \<^verbatim>\<open>privacy_deletion/apply.rs\<close>: the owner-authorized erasure of one
  capture or one account connection as one transaction. Of a table whose rows are only erased here the
  model keeps the columns the erasure selects by. The foreign keys of \<^verbatim>\<open>schema.sql\<close> are not deferrable, so
  every statement ends with their check: \<open>exec\<close> refuses a statement after which one is broken. \<open>now\<close>
  stands for both \<^verbatim>\<open>now()\<close> and \<^verbatim>\<open>OffsetDateTime::now_utc\<close>.
\<close>

section \<open>Tables\<close>

record privacy = holdings +
  p_accounts :: "(uuid \<times> uuid) list"
  p_links :: "uuid list"
  p_notes :: "uuid list"
  p_reresolution :: "uuid list"
  p_relations :: "(uuid \<times> uuid) list"
  p_authority :: "(uuid \<times> uuid) list"
  p_sync_state :: "(uuid \<times> uuid option) list"
  p_sync_runs :: "(uuid \<times> uuid) list"
  p_sync_items :: "(uuid \<times> uuid) list"
  p_capabilities :: "uuid list"
  p_permissions :: "(uuid \<times> uuid) list"
  p_profiles :: "(uuid option \<times> uuid option) list"
  p_usage :: "uuid option list"
  p_flows :: "uuid option list"
  p_credentials :: "uuid list"
  p_audit :: "uuid list"
  p_effects :: "(uuid \<times> effect_row) list"

datatype PrivacyDeletionError =
  TargetNotFound | OperationConflict | DeletionPublication PublishError | DeletionPersistence

definition refers :: "'k list \<Rightarrow> 'k option \<Rightarrow> bool" where
  "refers keys k = (case k of None \<Rightarrow> True | Some i \<Rightarrow> i \<in> set keys)"

definition fk_ok :: "privacy \<Rightarrow> bool" where
  "fk_ok p =
     (let db = h_archive p; caps = map cap_id (captures db); meds = map med_id (media db);
          rws = map raw_id (raws db); revs = map rev_id (revisions db); accts = map fst (p_accounts p);
          runs = map fst (p_sync_runs p)
      in list_all (\<lambda>c. refers meds (cap_media c)) (captures db)
       \<and> list_all (\<lambda>x. op_capture x \<in> set caps) (operations db)
       \<and> list_all (\<lambda>x. refers caps (obs_capture x) \<and> refers meds (obs_media x)) (observations db)
       \<and> list_all (\<lambda>v. rev_media v \<in> set meds \<and> rev_raw v \<in> set rws) (revisions db)
       \<and> list_all (\<lambda>m. refers revs (med_revision m) \<and> refers accts (med_account m)) (media db)
       \<and> list_all (\<lambda>i. i \<in> set caps) (p_links p) \<and> list_all (\<lambda>i. i \<in> set caps) (p_notes p)
       \<and> list_all (\<lambda>(a, b). a \<in> set meds \<and> b \<in> set meds) (p_relations p)
       \<and> list_all (\<lambda>(a, r). a \<in> set accts \<and> r \<in> set runs) (p_authority p)
       \<and> list_all (\<lambda>(a, r). a \<in> set accts \<and> refers runs r) (p_sync_state p)
       \<and> list_all (\<lambda>(_, a). a \<in> set accts) (p_sync_runs p)
       \<and> list_all (\<lambda>(r, w). r \<in> set runs \<and> w \<in> set rws) (p_sync_items p)
       \<and> list_all (\<lambda>a. a \<in> set accts) (p_capabilities p)
       \<and> list_all (\<lambda>(a, w). a \<in> set accts \<and> w \<in> set rws) (p_permissions p)
       \<and> list_all (\<lambda>(a, w). refers accts a \<and> refers rws w) (p_profiles p)
       \<and> list_all (refers accts) (p_usage p) \<and> list_all (refers accts) (p_flows p)
       \<and> list_all (\<lambda>a. a \<in> set accts) (p_credentials p) \<and> list_all (\<lambda>a. a \<in> set accts) (p_audit p))"

definition exec :: "(privacy \<Rightarrow> privacy) \<Rightarrow> privacy \<Rightarrow> (privacy, PrivacyDeletionError) result" where
  "exec statement p = (if fk_ok (statement p) then Ok (statement p) else Err DeletionPersistence)"

fun exec_all :: "(privacy \<Rightarrow> privacy) list \<Rightarrow> privacy \<Rightarrow> (privacy, PrivacyDeletionError) result" where
  "exec_all [] p = Ok p"
| "exec_all (s # ss) p = bind_result (exec s p) (exec_all ss)"

definition on_archive :: "(archive \<Rightarrow> archive) \<Rightarrow> privacy \<Rightarrow> privacy" where
  "on_archive f p = p\<lparr>h_archive := f (h_archive p)\<rparr>"

section \<open>Blob tasks\<close>

text \<open>An insert that yields to an existing task for the same object; the identifier is drawn either way.\<close>

definition schedule_blob_task :: "env \<Rightarrow> privacy \<Rightarrow> uuid \<Rightarrow> StoredBlob \<Rightarrow> string \<Rightarrow> privacy" where
  "schedule_blob_task E p operation_id blob media_class =
     (let p1 = on_archive drawn p
      in if list_ex (\<lambda>t. sb_ref (bt_blob t) = sb_ref blob \<and> sb_hash (bt_blob t) = sb_hash blob) (h_tasks p)
         then p1
         else p1\<lparr>h_tasks := h_tasks p @
           [\<lparr>bt_id = now_v7 E (h_archive p), bt_operation = Some operation_id, bt_blob = blob, bt_class = media_class,
             bt_state = TaskPending, bt_attempts = 0, bt_failure = None, bt_completed_at = None\<rparr>]\<rparr>)"

definition delete_raw :: "uuid \<Rightarrow> privacy \<Rightarrow> privacy" where
  "delete_raw i = on_archive (\<lambda>db. db\<lparr>raws := filter (\<lambda>r. raw_id r \<noteq> i) (raws db)\<rparr>)"

text \<open>The raw records of an erased media row: erased with their objects unless another revision uses them.\<close>

fun erase_raws ::
  "env \<Rightarrow> uuid \<Rightarrow> RawRow list \<Rightarrow> privacy \<Rightarrow> (privacy \<times> nat, PrivacyDeletionError) result" where
  "erase_raws E operation_id [] p = Ok (p, 0)"
| "erase_raws E operation_id (r # rs) p =
     (if list_ex (\<lambda>v. rev_raw v = raw_id r) (revisions (h_archive p)) then erase_raws E operation_id rs p
      else bind_result (exec (delete_raw (raw_id r)) p) (\<lambda>p1.
             bind_result (erase_raws E operation_id rs (schedule_blob_task E p1 operation_id (raw_blob r) ''raw_response''))
               (\<lambda>(p2, n). Ok (p2, n + 1))))"

definition raws_of_media :: "archive \<Rightarrow> uuid \<Rightarrow> RawRow list" where
  "raws_of_media db media_id =
     sort_key raw_id (filter (\<lambda>r. list_ex (\<lambda>v. rev_media v = media_id \<and> rev_raw v = raw_id r) (revisions db)) (raws db))"

section \<open>Erasing one media row\<close>

definition delete_relations :: "uuid \<Rightarrow> privacy \<Rightarrow> privacy" where
  "delete_relations m p = p\<lparr>p_relations := filter (\<lambda>(a, b). a \<noteq> m \<and> b \<noteq> m) (p_relations p)\<rparr>"

definition delete_media_observations :: "uuid \<Rightarrow> privacy \<Rightarrow> privacy" where
  "delete_media_observations m =
     on_archive (\<lambda>db. db\<lparr>observations := filter (\<lambda>x. obs_media x \<noteq> Some m) (observations db)\<rparr>)"

definition clear_revision :: "uuid \<Rightarrow> privacy \<Rightarrow> privacy" where
  "clear_revision m =
     on_archive (\<lambda>db. db\<lparr>media := update_where (\<lambda>r. med_id r = m) (\<lambda>r. r\<lparr>med_revision := None\<rparr>) (media db)\<rparr>)"

definition delete_revisions :: "uuid \<Rightarrow> privacy \<Rightarrow> privacy" where
  "delete_revisions m = on_archive (\<lambda>db. db\<lparr>revisions := filter (\<lambda>v. rev_media v \<noteq> m) (revisions db)\<rparr>)"

definition delete_media :: "uuid \<Rightarrow> privacy \<Rightarrow> privacy" where
  "delete_media m = on_archive (\<lambda>db. db\<lparr>media := filter (\<lambda>r. med_id r \<noteq> m) (media db)\<rparr>)"

definition schedule_media_blob ::
  "env \<Rightarrow> uuid \<Rightarrow> StoredBlob option \<Rightarrow> privacy \<Rightarrow> privacy \<times> nat" where
  "schedule_media_blob E operation_id blob p =
     (case blob of None \<Rightarrow> (p, 0) | Some b \<Rightarrow> (schedule_blob_task E p operation_id b ''provider_media'', 1))"

text \<open>The statements \<open>before\<close> the common ones are those of the account's version only.\<close>

definition erase_media_rows ::
  "(privacy \<Rightarrow> privacy) list \<Rightarrow> env \<Rightarrow> privacy \<Rightarrow> uuid \<Rightarrow> uuid \<Rightarrow> (privacy \<times> nat, PrivacyDeletionError) result" where
  "erase_media_rows before E p operation_id media_id =
     (let media_blob = Option.bind (media_of (h_archive p) media_id) med_blob;
          raw_blobs = raws_of_media (h_archive p) media_id
      in bind_result (exec_all ([delete_relations media_id, delete_media_observations media_id] @ before @
             [clear_revision media_id, delete_revisions media_id, delete_media media_id]) p) (\<lambda>p1.
           let (p2, n) = schedule_media_blob E operation_id media_blob p1
           in bind_result (erase_raws E operation_id raw_blobs p2) (\<lambda>(p3, k). Ok (p3, n + k))))"

definition erase_exclusive_connection_media ::
  "env \<Rightarrow> privacy \<Rightarrow> uuid \<Rightarrow> uuid \<Rightarrow> (privacy \<times> nat, PrivacyDeletionError) result" where
  "erase_exclusive_connection_media E p operation_id media_id =
     erase_media_rows
       [\<lambda>q. q\<lparr>p_authority := filter (\<lambda>(a, _). Some a \<noteq> Option.bind (media_of (h_archive q) media_id) med_account)
            (p_authority q)\<rparr>]
       E p operation_id media_id"

section \<open>Erasing a capture\<close>

definition owner_holds_source :: "archive \<Rightarrow> CaptureRow \<Rightarrow> bool" where
  "owner_holds_source db c =
     list_ex (\<lambda>k. cap_user k = cap_user c \<and> cap_id k \<noteq> cap_id c \<and>
        (case cap_media c of Some m \<Rightarrow> cap_media k = Some m | None \<Rightarrow> cap_url k = cap_url c)) (captures db)"

definition drop_events :: "AggregateType \<Rightarrow> uuid \<Rightarrow> archive \<Rightarrow> archive" where
  "drop_events agg i db = db\<lparr>outbox := filter (\<lambda>r. \<not> (ob_agg_type r = agg \<and> ob_agg_id r = i
     \<and> \<not> (ob_type r = SourceRemoved \<and> ob_acknowledged_at r = None))) (outbox db)\<rparr>"

definition insert_removal :: "RemovalRow \<Rightarrow> archive \<Rightarrow> archive" where
  "insert_removal row db =
     (if list_ex (\<lambda>r. rem_user r = rem_user row \<and> rem_source r = rem_source row) (removals db) then db
      else db\<lparr>removals := removals db @ [row]\<rparr>)"

definition capture_removal ::
  "env \<Rightarrow> instant \<Rightarrow> privacy \<Rightarrow> uuid \<Rightarrow> CaptureRow \<Rightarrow> (privacy, PrivacyDeletionError) result" where
  "capture_removal E now p operation_id c =
     (if \<not> e_instant_ok E now then Err (DeletionPublication (ContractViolation (cap_id c)))
      else (case append_removal_fact E (h_archive p) (cap_id c) UserRequested now of
        Err e \<Rightarrow> Err (DeletionPublication e)
      | Ok db1 \<Rightarrow> Ok (p\<lparr>h_archive := insert_removal
            \<lparr>rem_user = cap_user c, rem_source = source_identity E (cap_user c) (cap_url c), rem_capture = Some (cap_id c),
             rem_media = None, rem_operation = operation_id, rem_reason = ''user_requested'', rem_at = now\<rparr>
            (drop_events AggCapture (cap_id c) db1)\<rparr>)))"

definition capture_statements :: "uuid \<Rightarrow> (privacy \<Rightarrow> privacy) list" where
  "capture_statements i =
     [\<lambda>p. p\<lparr>p_links := filter (\<lambda>c. c \<noteq> i) (p_links p)\<rparr>,
      \<lambda>p. p\<lparr>p_notes := filter (\<lambda>c. c \<noteq> i) (p_notes p)\<rparr>,
      on_archive (\<lambda>db. db\<lparr>operations := filter (\<lambda>x. op_capture x \<noteq> i) (operations db)\<rparr>),
      \<lambda>p. p\<lparr>p_reresolution := filter (\<lambda>c. c \<noteq> i) (p_reresolution p)\<rparr>,
      on_archive (\<lambda>db. db\<lparr>observations := filter (\<lambda>x. obs_capture x \<noteq> Some i) (observations db)\<rparr>),
      on_archive (\<lambda>db. db\<lparr>captures := filter (\<lambda>c. cap_id c \<noteq> i) (captures db)\<rparr>)]"

definition independent_holding :: "archive \<Rightarrow> uuid \<Rightarrow> bool" where
  "independent_holding db m \<longleftrightarrow>
     list_ex (\<lambda>c. cap_media c = Some m) (captures db)
     \<or> list_ex (\<lambda>r. med_id r = m \<and> (med_account r \<noteq> None \<or> med_acquisition r = ''data_export'')) (media db)"

definition apply_capture_rows ::
  "env \<Rightarrow> instant \<Rightarrow> privacy \<Rightarrow> uuid \<Rightarrow> uuid \<Rightarrow> (privacy \<times> nat, PrivacyDeletionError) result" where
  "apply_capture_rows E now p operation_id capture_id =
     (case capture_of (h_archive p) capture_id of
        None \<Rightarrow> Err DeletionPersistence
      | Some c \<Rightarrow>
          bind_result (if owner_holds_source (h_archive p) c then Ok p else capture_removal E now p operation_id c) (\<lambda>p1.
          bind_result (exec_all (capture_statements capture_id) p1) (\<lambda>p2.
            (case cap_media c of
               None \<Rightarrow> Ok (p2, 0)
             | Some m \<Rightarrow>
                 if independent_holding (h_archive p2) m then Ok (p2, 0)
                 else erase_media_rows [] E p2 operation_id m))))"

section \<open>Erasing a connection\<close>

definition connection_raw_ids :: "privacy \<Rightarrow> uuid \<Rightarrow> uuid list" where
  "connection_raw_ids p account =
     sort (remdups
       (map snd (filter (\<lambda>(a, _). a = account) (p_permissions p))
        @ List.map_filter (\<lambda>(a, w). if a = Some account then w else None) (p_profiles p)
        @ map snd (filter (\<lambda>(r, _). (r, account) \<in> set (p_sync_runs p)) (p_sync_items p))))"

definition media_removal :: "env \<Rightarrow> instant \<Rightarrow> uuid \<Rightarrow> uuid \<Rightarrow> MediaRow \<Rightarrow> archive \<Rightarrow> archive" where
  "media_removal E now operation_id user m db =
     (let source_id = (case med_provider m of
            None \<Rightarrow> source_identity E user (med_permalink m)
          | Some provider_id \<Rightarrow> own_media_source_identity E user provider_id)
      in insert_removal
           \<lparr>rem_user = user, rem_source = source_id, rem_capture = None, rem_media = Some (med_id m),
            rem_operation = operation_id, rem_reason = ''user_requested'', rem_at = now\<rparr>
           (drop_events AggMedia (med_id m)
             (append_source_removal_fact E db user source_id AggMedia (med_id m) UserRequested now)))"

fun detach_media ::
  "env \<Rightarrow> instant \<Rightarrow> uuid \<Rightarrow> uuid \<Rightarrow> MediaRow list \<Rightarrow> privacy \<Rightarrow> (privacy \<times> nat, PrivacyDeletionError) result" where
  "detach_media E now operation_id user [] p = Ok (p, 0)"
| "detach_media E now operation_id user (m # ms) p =
     (if list_ex (\<lambda>c. cap_media c = Some (med_id m)) (captures (h_archive p))
      then bind_result (exec (on_archive (\<lambda>db. db\<lparr>media := update_where (\<lambda>r. med_id r = med_id m)
                (\<lambda>r. r\<lparr>med_account := None, med_updated_at := now\<rparr>) (media db)\<rparr>)) p)
             (detach_media E now operation_id user ms)
      else if \<not> e_instant_ok E now then Err (DeletionPublication (ContractViolation (med_id m)))
      else bind_result (erase_exclusive_connection_media E (on_archive (media_removal E now operation_id user m) p)
               operation_id (med_id m)) (\<lambda>(p2, n).
             bind_result (detach_media E now operation_id user ms p2) (\<lambda>(p3, k). Ok (p3, n + k))))"

definition connection_statements :: "uuid \<Rightarrow> (privacy \<Rightarrow> privacy) list" where
  "connection_statements account =
     [\<lambda>p. p\<lparr>p_authority := filter (\<lambda>(a, _). a \<noteq> account) (p_authority p)\<rparr>,
      \<lambda>p. p\<lparr>p_sync_state := filter (\<lambda>(a, _). a \<noteq> account) (p_sync_state p)\<rparr>,
      \<lambda>p. p\<lparr>p_sync_items := filter (\<lambda>(r, _). (r, account) \<notin> set (p_sync_runs p)) (p_sync_items p)\<rparr>,
      \<lambda>p. p\<lparr>p_sync_runs := filter (\<lambda>(_, a). a \<noteq> account) (p_sync_runs p)\<rparr>,
      \<lambda>p. p\<lparr>p_capabilities := filter (\<lambda>a. a \<noteq> account) (p_capabilities p)\<rparr>,
      \<lambda>p. p\<lparr>p_permissions := filter (\<lambda>(a, _). a \<noteq> account) (p_permissions p)\<rparr>,
      \<lambda>p. p\<lparr>p_profiles := filter (\<lambda>(a, _). a \<noteq> Some account) (p_profiles p)\<rparr>,
      \<lambda>p. p\<lparr>p_usage := filter (\<lambda>a. a \<noteq> Some account) (p_usage p)\<rparr>,
      \<lambda>p. p\<lparr>p_flows := filter (\<lambda>a. a \<noteq> Some account) (p_flows p)\<rparr>,
      \<lambda>p. p\<lparr>p_credentials := filter (\<lambda>a. a \<noteq> account) (p_credentials p)\<rparr>,
      \<lambda>p. p\<lparr>p_audit := filter (\<lambda>a. a \<noteq> account) (p_audit p)\<rparr>]"

fun erase_raw_ids ::
  "env \<Rightarrow> uuid \<Rightarrow> uuid list \<Rightarrow> privacy \<Rightarrow> (privacy \<times> nat, PrivacyDeletionError) result" where
  "erase_raw_ids E operation_id [] p = Ok (p, 0)"
| "erase_raw_ids E operation_id (i # is) p =
     (case raw_of (h_archive p) i of
        None \<Rightarrow> erase_raw_ids E operation_id is p
      | Some r \<Rightarrow>
          if list_ex (\<lambda>v. rev_raw v = i) (revisions (h_archive p)) then erase_raw_ids E operation_id is p
          else bind_result (exec (delete_raw i) p) (\<lambda>p1.
                 bind_result (erase_raw_ids E operation_id is (schedule_blob_task E p1 operation_id (raw_blob r) ''raw_response''))
                   (\<lambda>(p2, n). Ok (p2, n + 1))))"

definition apply_connection_rows ::
  "env \<Rightarrow> instant \<Rightarrow> privacy \<Rightarrow> uuid \<Rightarrow> uuid \<Rightarrow> uuid \<Rightarrow> (privacy \<times> nat, PrivacyDeletionError) result" where
  "apply_connection_rows E now p operation_id user account =
     (let raw_ids = connection_raw_ids p account;
          media_rows = sort_key med_id (filter (\<lambda>m. med_account m = Some account) (media (h_archive p)))
      in bind_result (detach_media E now operation_id user media_rows p) (\<lambda>(p1, n).
         bind_result (exec_all (connection_statements account) p1) (\<lambda>p2.
         bind_result (erase_raw_ids E operation_id raw_ids p2) (\<lambda>(p3, k).
         bind_result (exec (\<lambda>q. q\<lparr>p_accounts := filter (\<lambda>(a, _). a \<noteq> account) (p_accounts q)\<rparr>) p3) (\<lambda>p4.
           Ok (p4, n + k))))))"

section \<open>Requests\<close>

definition apply_target_rows ::
  "env \<Rightarrow> instant \<Rightarrow> privacy \<Rightarrow> DeletionRequest \<Rightarrow> (privacy \<times> nat, PrivacyDeletionError) result" where
  "apply_target_rows E now p request =
     (case dr_target request of
        TargetCapture i \<Rightarrow> apply_capture_rows E now p (dr_operation request) i
      | TargetConnection i \<Rightarrow> apply_connection_rows E now p (dr_operation request) (dr_user request) i)"

definition require_owned :: "privacy \<Rightarrow> DeletionRequest \<Rightarrow> bool" where
  "require_owned p request =
     ((case dr_target request of
         TargetCapture i \<Rightarrow> map_option cap_user (capture_of (h_archive p) i)
       | TargetConnection i \<Rightarrow> map_option snd (find (\<lambda>(a, _). a = i) (p_accounts p))) = Some (dr_user request))"

record DeletionResult =
  re_operation :: uuid
  re_effects :: "DeletionEffectCount list"

definition preview :: "privacy \<Rightarrow> DeletionRequest \<Rightarrow> (DeletionResult, PrivacyDeletionError) result" where
  "preview p request =
     (if require_owned p request
      then Ok \<lparr>re_operation = dr_operation request, re_effects = build_plan request\<rparr>
      else Err TargetNotFound)"

definition load_existing ::
  "privacy \<Rightarrow> DeletionRequest \<Rightarrow> (DeletionResult option, PrivacyDeletionError) result" where
  "load_existing p request =
     (case find (\<lambda>d. del_id d = dr_operation request) (deletions (h_archive p)) of
        None \<Rightarrow> Ok None
      | Some d \<Rightarrow>
          if del_user d \<noteq> dr_user request \<or> (del_kind d, del_target d) \<noteq> target_parts (dr_target request)
            then Err OperationConflict
          else if del_state d \<noteq> DeletionComplete \<and> del_state d \<noteq> PendingBlobDeletion then Err OperationConflict
          else (case load_effects (map snd (filter (\<lambda>(i, _). i = dr_operation request) (p_effects p))) of
              None \<Rightarrow> Err OperationConflict
            | Some es \<Rightarrow> Ok (Some \<lparr>re_operation = dr_operation request, re_effects = es\<rparr>)))"

definition apply_deletion ::
  "env \<Rightarrow> instant \<Rightarrow> privacy \<Rightarrow> DeletionRequest \<Rightarrow> (privacy \<times> DeletionResult, PrivacyDeletionError) result" where
  "apply_deletion E now p request =
     bind_result (load_existing p request) (\<lambda>existing.
       (case existing of
          Some result \<Rightarrow> Ok (p, result)
        | None \<Rightarrow>
            if \<not> require_owned p request then Err TargetNotFound
            else
              let effects = build_plan request;
                  (kind, target) = target_parts (dr_target request);
                  p1 = on_archive (\<lambda>db. db\<lparr>deletions := deletions db @
                         [\<lparr>del_id = dr_operation request, del_user = dr_user request, del_kind = kind, del_target = target,
                           del_reason = ''user_requested'', del_state = Planned, del_at = now, del_finished_at = None\<rparr>]\<rparr>) p;
                  p2 = p1\<lparr>p_effects := p_effects p1 @ map (\<lambda>e. (dr_operation request, effect_row e)) effects\<rparr>
              in bind_result (apply_target_rows E now p2 request) (\<lambda>(p3, pending).
                   Ok (set_operation_state (\<lambda>d. del_id d = dr_operation request)
                         (\<lambda>d. d\<lparr>del_state := (if 0 < pending then PendingBlobDeletion else DeletionComplete),
                                del_finished_at := (if 0 < pending then None else Some now)\<rparr>) p3,
                       \<lparr>re_operation = dr_operation request, re_effects = effects\<rparr>))))"

section \<open>Frames\<close>

lemma exec_Ok_iff [simp]: "exec s p = Ok p' \<longleftrightarrow> fk_ok (s p) \<and> p' = s p"
  by (auto simp: exec_def)

lemma exec_all_Ok: "exec_all ss p = Ok p' \<Longrightarrow> p' = fold (\<lambda>s q. s q) ss p"
  by (induction ss arbitrary: p) auto

lemma on_archive_simps [simp]:
  "h_archive (on_archive f p) = f (h_archive p)" "h_exports (on_archive f p) = h_exports p"
  "h_tasks (on_archive f p) = h_tasks p" "p_links (on_archive f p) = p_links p" "p_notes (on_archive f p) = p_notes p"
  "p_reresolution (on_archive f p) = p_reresolution p" "p_effects (on_archive f p) = p_effects p"
  "p_sync_items (on_archive f p) = p_sync_items p" "p_accounts (on_archive f p) = p_accounts p"
  by (simp_all add: on_archive_def)

text \<open>What every statement about stored objects leaves alone: all but raw records, tasks and the identifier counter.\<close>

definition same_rows :: "privacy \<Rightarrow> privacy \<Rightarrow> bool" where
  "same_rows p q \<longleftrightarrow>
     captures (h_archive q) = captures (h_archive p) \<and> operations (h_archive q) = operations (h_archive p)
     \<and> observations (h_archive q) = observations (h_archive p) \<and> media (h_archive q) = media (h_archive p)
     \<and> revisions (h_archive q) = revisions (h_archive p) \<and> removals (h_archive q) = removals (h_archive p)
     \<and> deletions (h_archive q) = deletions (h_archive p) \<and> outbox (h_archive q) = outbox (h_archive p)
     \<and> p_links q = p_links p \<and> p_notes q = p_notes p \<and> p_reresolution q = p_reresolution p \<and> p_effects q = p_effects p"

lemma same_rows_refl [simp]: "same_rows p p"
  by (simp add: same_rows_def)

lemma same_rows_trans: "same_rows p q \<Longrightarrow> same_rows q r \<Longrightarrow> same_rows p r"
  by (simp add: same_rows_def)

lemma schedule_same_rows: "same_rows p (schedule_blob_task E p i b c)"
  by (simp add: same_rows_def schedule_blob_task_def Let_def)

lemma delete_raw_same_rows: "same_rows p (delete_raw i p)"
  by (simp add: same_rows_def delete_raw_def)

lemma erase_raws_same_rows: "erase_raws E i rs p = Ok (p', n) \<Longrightarrow> same_rows p p'"
proof (induction rs arbitrary: p n)
  case (Cons r rs)
  show ?case
  proof (cases "list_ex (\<lambda>v. rev_raw v = raw_id r) (revisions (h_archive p))")
    case False
    let ?q = "schedule_blob_task E (delete_raw (raw_id r) p) i (raw_blob r) ''raw_response''"
    from Cons.prems False obtain k where "erase_raws E i rs ?q = Ok (p', k)" by auto
    from Cons.IH [OF this] show ?thesis
      using same_rows_trans [OF delete_raw_same_rows [of p "raw_id r"] schedule_same_rows] same_rows_trans by blast
  qed (use Cons in simp)
qed simp

definition erased_media :: "uuid \<Rightarrow> privacy \<Rightarrow> privacy" where
  "erased_media m p = delete_media m (delete_revisions m (clear_revision m (delete_media_observations m (delete_relations m p))))"

lemma erase_media_rows_same_rows:
  assumes "erase_media_rows [] E p i m = Ok (p', n)"
  shows "same_rows (erased_media m p) p'"
proof -
  let ?b = "Option.bind (media_of (h_archive p) m) med_blob"
  let ?q = "schedule_media_blob E i ?b (erased_media m p)"
  from assms obtain p1 k where "exec_all [delete_relations m, delete_media_observations m, clear_revision m,
      delete_revisions m, delete_media m] p = Ok p1"
    and rest: "erase_raws E i (raws_of_media (h_archive p) m) (fst (schedule_media_blob E i ?b p1)) = Ok (p', k)"
    by (auto simp: erase_media_rows_def Let_def split: prod.splits)
  then have p1: "p1 = erased_media m p" by (auto dest!: exec_all_Ok simp: erased_media_def)
  have "same_rows (erased_media m p) (fst ?q)" by (simp add: schedule_media_blob_def schedule_same_rows split: option.split)
  then show ?thesis using erase_raws_same_rows [OF rest] same_rows_trans unfolding p1 by blast
qed

lemma erased_media_simps [simp]:
  "captures (h_archive (erased_media m p)) = captures (h_archive p)"
  "operations (h_archive (erased_media m p)) = operations (h_archive p)"
  "observations (h_archive (erased_media m p)) = filter (\<lambda>x. obs_media x \<noteq> Some m) (observations (h_archive p))"
  "revisions (h_archive (erased_media m p)) = filter (\<lambda>v. rev_media v \<noteq> m) (revisions (h_archive p))"
  "removals (h_archive (erased_media m p)) = removals (h_archive p)"
  "deletions (h_archive (erased_media m p)) = deletions (h_archive p)"
  "outbox (h_archive (erased_media m p)) = outbox (h_archive p)"
  "p_links (erased_media m p) = p_links p" "p_notes (erased_media m p) = p_notes p"
  "p_reresolution (erased_media m p) = p_reresolution p" "p_effects (erased_media m p) = p_effects p"
  by (simp_all add: erased_media_def delete_media_def delete_revisions_def clear_revision_def
      delete_media_observations_def delete_relations_def)

lemma filter_update_where_key:
  "(\<And>r. P r \<Longrightarrow> \<not> Q r) \<Longrightarrow> (\<And>r. P r \<Longrightarrow> \<not> Q (f r)) \<Longrightarrow> filter Q (update_where P f t) = filter Q t"
  by (induction t) auto

lemma media_erased_media [simp]:
  "media (h_archive (erased_media m p)) = filter (\<lambda>r. med_id r \<noteq> m) (media (h_archive p))"
  by (simp add: erased_media_def delete_media_def delete_revisions_def clear_revision_def
      delete_media_observations_def delete_relations_def filter_update_where_key)

definition erased_capture :: "uuid \<Rightarrow> privacy \<Rightarrow> privacy" where
  "erased_capture i p = fold (\<lambda>s q. s q) (capture_statements i) p"

lemma erased_capture_simps [simp]:
  "captures (h_archive (erased_capture i p)) = filter (\<lambda>c. cap_id c \<noteq> i) (captures (h_archive p))"
  "operations (h_archive (erased_capture i p)) = filter (\<lambda>x. op_capture x \<noteq> i) (operations (h_archive p))"
  "observations (h_archive (erased_capture i p)) = filter (\<lambda>x. obs_capture x \<noteq> Some i) (observations (h_archive p))"
  "media (h_archive (erased_capture i p)) = media (h_archive p)"
  "revisions (h_archive (erased_capture i p)) = revisions (h_archive p)"
  "removals (h_archive (erased_capture i p)) = removals (h_archive p)"
  "deletions (h_archive (erased_capture i p)) = deletions (h_archive p)"
  "outbox (h_archive (erased_capture i p)) = outbox (h_archive p)"
  "p_links (erased_capture i p) = filter (\<lambda>c. c \<noteq> i) (p_links p)"
  "p_notes (erased_capture i p) = filter (\<lambda>c. c \<noteq> i) (p_notes p)"
  "p_reresolution (erased_capture i p) = filter (\<lambda>c. c \<noteq> i) (p_reresolution p)"
  "p_effects (erased_capture i p) = p_effects p"
  by (simp_all add: erased_capture_def capture_statements_def)

section \<open>Erasing a capture\<close>

lemma insert_removal_simps [simp]:
  "captures (insert_removal r db) = captures db" "operations (insert_removal r db) = operations db"
  "observations (insert_removal r db) = observations db" "media (insert_removal r db) = media db"
  "revisions (insert_removal r db) = revisions db" "deletions (insert_removal r db) = deletions db"
  "outbox (insert_removal r db) = outbox db"
  by (simp_all add: insert_removal_def)

lemma insert_removal_present:
  "\<exists>x \<in> set (removals (insert_removal r db)). rem_user x = rem_user r \<and> rem_source x = rem_source r"
  by (auto simp: insert_removal_def list_ex_iff)

lemma insert_removal_keeps: "set (removals db) \<subseteq> set (removals (insert_removal r db))"
  by (auto simp: insert_removal_def)

definition removal_pending :: "privacy \<Rightarrow> uuid \<Rightarrow> bool" where
  "removal_pending p i \<longleftrightarrow> (\<exists>r \<in> set (outbox (h_archive p)). ob_agg_type r = AggCapture \<and> ob_agg_id r = i
     \<and> ob_type r = SourceRemoved \<and> ob_acknowledged_at r = None)"

text \<open>The events of a capture that survive its removal fact, and the fact itself.\<close>

definition about_capture :: "uuid \<Rightarrow> OutboxRow \<Rightarrow> bool" where
  "about_capture i r \<longleftrightarrow> ob_agg_type r = AggCapture \<and> ob_agg_id r = i"

definition waiting_removal :: "OutboxRow \<Rightarrow> bool" where
  "waiting_removal r \<longleftrightarrow> ob_type r = SourceRemoved \<and> ob_acknowledged_at r = None"

definition removal_event :: "env \<Rightarrow> instant \<Rightarrow> CaptureRow \<Rightarrow> OutboxRow \<Rightarrow> bool" where
  "removal_event E now c r \<longleftrightarrow> about_capture (cap_id c) r \<and> waiting_removal r \<and> ob_published_at r = None \<and> ob_tenant r = cap_user c
     \<and> (\<exists>link. canonicalize (cap_url c) = Ok link
          \<and> ob_payload r = RemovalPayload (source_identity E (cap_user c) (url link)) UserRequested now)"

lemma capture_removal_outbox:
  assumes "capture_removal E now p operation_id c = Ok p1" "capture_of (h_archive p) (cap_id c) = Some c"
  shows "\<exists>r. removal_event E now c r \<and> outbox (h_archive p1) =
    filter (\<lambda>r. about_capture (cap_id c) r \<longrightarrow> waiting_removal r) (outbox (h_archive p)) @ [r]"
proof -
  from assms obtain link where link: "canonicalize (cap_url c) = Ok link"
    and db1: "append_removal_fact E (h_archive p) (cap_id c) UserRequested now =
      Ok (append_source_removal_fact E (h_archive p) (cap_user c) (source_identity E (cap_user c) (url link))
            AggCapture (cap_id c) UserRequested now)"
    by (auto simp: capture_removal_def append_removal_fact_def split: if_splits result.splits option.splits)
  let ?event = "outbox_row (now_v7 E (h_archive p)) SourceRemoved AggCapture (cap_id c) (cap_user c)
    (RemovalPayload (source_identity E (cap_user c) (url link)) UserRequested now) (now_v7 E (h_archive p)) None now"
  have "removal_event E now c ?event"
    using link by (simp add: removal_event_def about_capture_def waiting_removal_def outbox_row_def)
  moreover have "outbox (h_archive p1) =
    filter (\<lambda>r. about_capture (cap_id c) r \<longrightarrow> waiting_removal r) (outbox (h_archive p)) @ [?event]"
    using assms(1) db1
    by (auto simp: capture_removal_def drop_events_def append_source_removal_fact_def about_capture_def
        waiting_removal_def outbox_row_def split: if_splits intro!: filter_cong)
  ultimately show ?thesis by blast
qed

lemma capture_removal_Ok:
  assumes "capture_removal E now p operation_id c = Ok p1"
  shows "captures (h_archive p1) = captures (h_archive p) \<and> operations (h_archive p1) = operations (h_archive p)
    \<and> observations (h_archive p1) = observations (h_archive p) \<and> media (h_archive p1) = media (h_archive p)
    \<and> deletions (h_archive p1) = deletions (h_archive p) \<and> p_links p1 = p_links p \<and> p_notes p1 = p_notes p
    \<and> p_reresolution p1 = p_reresolution p \<and> p_effects p1 = p_effects p \<and> removal_pending p1 (cap_id c)
    \<and> (\<forall>r \<in> set (outbox (h_archive p1)). ob_agg_type r = AggCapture \<and> ob_agg_id r = cap_id c \<longrightarrow> ob_type r = SourceRemoved)
    \<and> (\<exists>r \<in> set (removals (h_archive p1)). rem_user r = cap_user c
         \<and> rem_source r = source_identity E (cap_user c) (cap_url c))"
proof -
  let ?row = "\<lparr>rem_user = cap_user c, rem_source = source_identity E (cap_user c) (cap_url c), rem_capture = Some (cap_id c),
    rem_media = None, rem_operation = operation_id, rem_reason = ''user_requested'', rem_at = now\<rparr>"
  from assms obtain db1 where db1: "append_removal_fact E (h_archive p) (cap_id c) UserRequested now = Ok db1"
    and p1: "p1 = p\<lparr>h_archive := insert_removal ?row (drop_events AggCapture (cap_id c) db1)\<rparr>"
    by (auto simp: capture_removal_def split: if_splits result.splits)
  from db1 obtain u src where fact: "db1 = append_source_removal_fact E (h_archive p) u src AggCapture (cap_id c) UserRequested now"
    unfolding append_removal_fact_def by (auto split: option.splits result.splits)
  let ?event = "outbox_row (now_v7 E (h_archive p)) SourceRemoved AggCapture (cap_id c) u
    (RemovalPayload src UserRequested now) (now_v7 E (h_archive p)) None now"
  have "?event \<in> set (outbox (h_archive p1))"
    by (simp add: p1 fact drop_events_def append_source_removal_fact_def outbox_row_def)
  then have "removal_pending p1 (cap_id c)"
    unfolding removal_pending_def by (rule bexI [rotated]) (simp add: outbox_row_def)
  moreover have "\<exists>r \<in> set (removals (h_archive p1)). rem_user r = cap_user c
         \<and> rem_source r = source_identity E (cap_user c) (cap_url c)"
    using insert_removal_present [of ?row] by (simp add: p1)
  ultimately show ?thesis
    by (simp add: p1 fact drop_events_def append_source_removal_fact_def)
qed

lemma apply_capture_rows_Ok:
  assumes "apply_capture_rows E now p operation_id i = Ok (p', n)"
  obtains c p1 where "capture_of (h_archive p) i = Some c"
    "if owner_holds_source (h_archive p) c then p1 = p else capture_removal E now p operation_id c = Ok p1"
    "same_rows (erased_capture i p1) p' \<and> (cap_media c = None \<or> independent_holding (h_archive (erased_capture i p1)) (the (cap_media c)))
     \<or> (\<exists>m. cap_media c = Some m \<and> \<not> independent_holding (h_archive (erased_capture i p1)) m
            \<and> same_rows (erased_media m (erased_capture i p1)) p')"
proof -
  from assms obtain c where c: "capture_of (h_archive p) i = Some c"
    by (auto simp: apply_capture_rows_def split: option.splits)
  with assms obtain p1 p2 where p1: "(if owner_holds_source (h_archive p) c then Ok p else capture_removal E now p operation_id c) = Ok p1"
    and p2: "exec_all (capture_statements i) p1 = Ok p2"
    and rest: "(case cap_media c of None \<Rightarrow> Ok (p2, 0) | Some m \<Rightarrow> if independent_holding (h_archive p2) m then Ok (p2, 0)
                 else erase_media_rows [] E p2 operation_id m) = Ok (p', n)"
    by (auto simp: apply_capture_rows_def)
  have "p2 = erased_capture i p1" using exec_all_Ok [OF p2] by (simp add: erased_capture_def)
  with rest have "same_rows (erased_capture i p1) p' \<and> (cap_media c = None \<or> independent_holding (h_archive (erased_capture i p1)) (the (cap_media c)))
     \<or> (\<exists>m. cap_media c = Some m \<and> \<not> independent_holding (h_archive (erased_capture i p1)) m
            \<and> same_rows (erased_media m (erased_capture i p1)) p')"
    by (auto dest: erase_media_rows_same_rows split: option.splits if_splits)
  with c p1 that show ?thesis by (auto split: if_splits)
qed

lemma apply_deletion_Ok:
  assumes "apply_deletion E now p request = Ok (p', res)" "load_existing p request = Ok None"
  obtains p2 p3 pending where "require_owned p request" "res = \<lparr>re_operation = dr_operation request, re_effects = build_plan request\<rparr>"
    "p2 = (on_archive (\<lambda>db. db\<lparr>deletions := deletions db @
         [\<lparr>del_id = dr_operation request, del_user = dr_user request, del_kind = fst (target_parts (dr_target request)),
           del_target = snd (target_parts (dr_target request)), del_reason = ''user_requested'', del_state = Planned,
           del_at = now, del_finished_at = None\<rparr>]\<rparr>) p)
       \<lparr>p_effects := p_effects p @ map (\<lambda>e. (dr_operation request, effect_row e)) (build_plan request)\<rparr>"
    "apply_target_rows E now p2 request = Ok (p3, pending)"
    "p' = set_operation_state (\<lambda>d. del_id d = dr_operation request)
       (\<lambda>d. d\<lparr>del_state := (if 0 < pending then PendingBlobDeletion else DeletionComplete),
              del_finished_at := (if 0 < pending then None else Some now)\<rparr>) p3"
  using assms by (auto simp: apply_deletion_def Let_def split: if_splits prod.splits)

lemma set_operation_state_privacy [simp]:
  "captures (h_archive (set_operation_state P f p)) = captures (h_archive p)"
  "operations (h_archive (set_operation_state P f p)) = operations (h_archive p)"
  "observations (h_archive (set_operation_state P f p)) = observations (h_archive p)"
  "media (h_archive (set_operation_state P f p)) = media (h_archive p)"
  "removals (h_archive (set_operation_state P f p)) = removals (h_archive p)"
  "outbox (h_archive (set_operation_state P f p)) = outbox (h_archive p)"
  "p_links (set_operation_state P f p) = p_links p" "p_notes (set_operation_state P f p) = p_notes p"
  "p_reresolution (set_operation_state P f p) = p_reresolution p" "p_effects (set_operation_state P f p) = p_effects p"
  by (simp_all add: set_operation_state_def)

definition free_of_capture :: "privacy \<Rightarrow> uuid \<Rightarrow> bool" where
  "free_of_capture p i \<longleftrightarrow>
     (\<forall>c \<in> set (captures (h_archive p)). cap_id c \<noteq> i) \<and> (\<forall>x \<in> set (operations (h_archive p)). op_capture x \<noteq> i)
     \<and> (\<forall>x \<in> set (observations (h_archive p)). obs_capture x \<noteq> Some i)
     \<and> i \<notin> set (p_links p) \<and> i \<notin> set (p_notes p) \<and> i \<notin> set (p_reresolution p)"

text \<open>The stages of a successful capture deletion: before, after the removal fact and after the erasure.\<close>

lemma capture_deletion_stages:
  assumes "apply_deletion E now p request = Ok (p', res)" "load_existing p request = Ok None"
    and "dr_target request = TargetCapture i" "capture_of (h_archive p) i = Some c"
  obtains p1 p3 where "captures (h_archive p1) = captures (h_archive p)" "media (h_archive p1) = media (h_archive p)"
    "\<not> owner_holds_source (h_archive p) c \<longrightarrow> removal_pending p1 i \<and>
      (\<forall>r \<in> set (outbox (h_archive p1)). ob_agg_type r = AggCapture \<and> ob_agg_id r = i \<longrightarrow> ob_type r = SourceRemoved) \<and>
      (\<exists>r \<in> set (removals (h_archive p1)). rem_user r = cap_user c \<and> rem_source r = source_identity E (cap_user c) (cap_url c))"
    "\<not> owner_holds_source (h_archive p) c \<longrightarrow> (\<exists>r. removal_event E now c r \<and>
      outbox (h_archive p1) = filter (\<lambda>r. about_capture i r \<longrightarrow> waiting_removal r) (outbox (h_archive p)) @ [r])"
    "owner_holds_source (h_archive p) c \<longrightarrow>
      outbox (h_archive p1) = outbox (h_archive p) \<and> removals (h_archive p1) = removals (h_archive p)"
    "same_rows (erased_capture i p1) p3
     \<or> (\<exists>m. cap_media c = Some m \<and> \<not> independent_holding (h_archive (erased_capture i p1)) m
            \<and> same_rows (erased_media m (erased_capture i p1)) p3)"
    "\<exists>P f. p' = set_operation_state P f p3"
proof -
  obtain p2 p3 pending where p2: "p2 = (on_archive (\<lambda>db. db\<lparr>deletions := deletions db @
         [\<lparr>del_id = dr_operation request, del_user = dr_user request, del_kind = fst (target_parts (dr_target request)),
           del_target = snd (target_parts (dr_target request)), del_reason = ''user_requested'', del_state = Planned,
           del_at = now, del_finished_at = None\<rparr>]\<rparr>) p)
       \<lparr>p_effects := p_effects p @ map (\<lambda>e. (dr_operation request, effect_row e)) (build_plan request)\<rparr>"
    and target: "apply_target_rows E now p2 request = Ok (p3, pending)"
    and p': "p' = set_operation_state (\<lambda>d. del_id d = dr_operation request)
       (\<lambda>d. d\<lparr>del_state := (if 0 < pending then PendingBlobDeletion else DeletionComplete),
              del_finished_at := (if 0 < pending then None else Some now)\<rparr>) p3"
    by (rule apply_deletion_Ok [OF assms(1,2)])
  have rows: "apply_capture_rows E now p2 (dr_operation request) i = Ok (p3, pending)"
    using target assms(3) by (simp add: apply_target_rows_def)
  have p2_simps: "captures (h_archive p2) = captures (h_archive p)" "media (h_archive p2) = media (h_archive p)"
    by (simp_all add: p2)
  then have same: "capture_of (h_archive p2) = capture_of (h_archive p)"
    "owner_holds_source (h_archive p2) = owner_holds_source (h_archive p)"
    by (simp_all add: fun_eq_iff capture_of_def owner_holds_source_def)
  obtain c' p1 where c': "capture_of (h_archive p2) i = Some c'"
    and p1: "if owner_holds_source (h_archive p2) c' then p1 = p2 else capture_removal E now p2 (dr_operation request) c' = Ok p1"
    and erased: "same_rows (erased_capture i p1) p3 \<and> (cap_media c' = None \<or> independent_holding (h_archive (erased_capture i p1)) (the (cap_media c')))
     \<or> (\<exists>m. cap_media c' = Some m \<and> \<not> independent_holding (h_archive (erased_capture i p1)) m
            \<and> same_rows (erased_media m (erased_capture i p1)) p3)"
    by (rule apply_capture_rows_Ok [OF rows])
  have cc: "c' = c" using c' assms(4) same by simp
  have "cap_id c = i" using assms(4) by (auto simp: capture_of_def find_Some_iff)
  have keeps: "captures (h_archive p1) = captures (h_archive p)" "media (h_archive p1) = media (h_archive p)"
    using p1 capture_removal_Ok p2_simps by metis+
  have outbox: "outbox (h_archive p2) = outbox (h_archive p)" "removals (h_archive p2) = removals (h_archive p)"
    by (simp_all add: p2)
  have removed: "\<not> owner_holds_source (h_archive p) c \<longrightarrow> (\<exists>r. removal_event E now c r \<and>
      outbox (h_archive p1) = filter (\<lambda>r. about_capture i r \<longrightarrow> waiting_removal r) (outbox (h_archive p)) @ [r])"
    using capture_removal_outbox [of E now p2 "dr_operation request" c p1] p1 c' cc same outbox \<open>cap_id c = i\<close> by auto
  have held: "owner_holds_source (h_archive p) c \<longrightarrow>
      outbox (h_archive p1) = outbox (h_archive p) \<and> removals (h_archive p1) = removals (h_archive p)"
    using p1 cc same outbox by simp
  show ?thesis
    by (rule that [OF keeps _ removed held])
       (use p1 capture_removal_Ok [of E now p2 "dr_operation request" c p1] cc same \<open>cap_id c = i\<close> erased p' in auto)
qed


section \<open>Replays\<close>

definition same_audit :: "privacy \<Rightarrow> privacy \<Rightarrow> bool" where
  "same_audit p q \<longleftrightarrow> deletions (h_archive q) = deletions (h_archive p) \<and> p_effects q = p_effects p"

lemma same_audit_trans: "same_audit p q \<Longrightarrow> same_audit q r \<Longrightarrow> same_audit p r"
  by (simp add: same_audit_def)

lemma same_rows_audit: "same_rows p q \<Longrightarrow> same_audit p q"
  by (simp add: same_rows_def same_audit_def)

lemma exec_all_audit:
  "exec_all ss p = Ok p' \<Longrightarrow> (\<And>s q. s \<in> set ss \<Longrightarrow> same_audit q (s q)) \<Longrightarrow> same_audit p p'"
proof (induction ss arbitrary: p)
  case (Cons s ss)
  then have "exec_all ss (s p) = Ok p'" by simp
  with Cons have "same_audit (s p) p'" "same_audit p (s p)" by simp_all
  then show ?case by (rule same_audit_trans [rotated])
qed (simp add: same_audit_def)

lemma erase_media_rows_audit:
  assumes "erase_media_rows before E p i m = Ok (p', n)" "\<And>s q. s \<in> set before \<Longrightarrow> same_audit q (s q)"
  shows "same_audit p p'"
proof -
  let ?b = "Option.bind (media_of (h_archive p) m) med_blob"
  from assms(1) obtain p1 k where p1: "exec_all ([delete_relations m, delete_media_observations m] @ before @
      [clear_revision m, delete_revisions m, delete_media m]) p = Ok p1"
    and rest: "erase_raws E i (raws_of_media (h_archive p) m) (fst (schedule_media_blob E i ?b p1)) = Ok (p', k)"
    by (auto simp: erase_media_rows_def Let_def case_prod_unfold simp del: exec_all.simps append.simps)
  have "same_audit p p1"
    by (rule exec_all_audit [OF p1])
       (use assms(2) in \<open>auto simp: same_audit_def delete_relations_def delete_media_observations_def clear_revision_def
          delete_revisions_def delete_media_def\<close>)
  moreover have "same_audit p1 (fst (schedule_media_blob E i ?b p1))"
    by (auto simp: schedule_media_blob_def intro: same_rows_audit schedule_same_rows split: option.split)
  moreover have "same_audit (fst (schedule_media_blob E i ?b p1)) p'"
    by (rule same_rows_audit [OF erase_raws_same_rows [OF rest]])
  ultimately show ?thesis by (meson same_audit_trans)
qed

lemma detach_media_audit: "detach_media E now i user ms p = Ok (p', n) \<Longrightarrow> same_audit p p'"
proof (induction ms arbitrary: p n)
  case (Cons m ms)
  show ?case
  proof (cases "list_ex (\<lambda>c. cap_media c = Some (med_id m)) (captures (h_archive p))")
    case True
    let ?q = "on_archive (\<lambda>db. db\<lparr>media := update_where (\<lambda>r. med_id r = med_id m)
                (\<lambda>r. r\<lparr>med_account := None, med_updated_at := now\<rparr>) (media db)\<rparr>) p"
    from Cons.prems True have "detach_media E now i user ms ?q = Ok (p', n)" by simp
    from Cons.IH [OF this] show ?thesis by (simp add: same_audit_def)
  next
    case False
    let ?q = "on_archive (media_removal E now i user m) p"
    from Cons.prems False obtain p2 k k' where
      "erase_exclusive_connection_media E ?q i (med_id m) = Ok (p2, k)" "detach_media E now i user ms p2 = Ok (p', k')"
      by (auto split: if_splits)
    moreover from this(1) have "same_audit ?q p2"
      unfolding erase_exclusive_connection_media_def by (rule erase_media_rows_audit) (auto simp: same_audit_def)
    moreover have "same_audit p ?q"
      by (simp add: same_audit_def media_removal_def Let_def drop_events_def append_source_removal_fact_def)
    ultimately show ?thesis using Cons.IH [of p2 k'] by (simp add: same_audit_def)
  qed
qed (simp add: same_audit_def)

lemma erase_raw_ids_audit: "erase_raw_ids E i is p = Ok (p', n) \<Longrightarrow> same_audit p p'"
proof (induction "is" arbitrary: p n)
  case (Cons j js)
  show ?case
  proof (cases "raw_of (h_archive p) j")
    case None
    with Cons show ?thesis by simp
  next
    case (Some r)
    show ?thesis
    proof (cases "list_ex (\<lambda>v. rev_raw v = j) (revisions (h_archive p))")
      case True
      with Cons Some show ?thesis by simp
    next
      case False
      let ?q = "schedule_blob_task E (delete_raw j p) i (raw_blob r) ''raw_response''"
      from Cons.prems Some False obtain k where "erase_raw_ids E i js ?q = Ok (p', k)" by auto
      from Cons.IH [OF this] show ?thesis
        using same_rows_audit [OF same_rows_trans [OF delete_raw_same_rows [of p j] schedule_same_rows]] same_audit_trans by blast
    qed
  qed
qed (simp add: same_audit_def)

lemma apply_connection_rows_audit:
  assumes "apply_connection_rows E now p i user a = Ok (p', n)"
  shows "same_audit p p'"
proof -
  let ?ms = "sort_key med_id (filter (\<lambda>m. med_account m = Some a) (media (h_archive p)))"
  from assms obtain p1 k p2 p3 k' where s: "detach_media E now i user ?ms p = Ok (p1, k)"
    "exec_all (connection_statements a) p1 = Ok p2" "erase_raw_ids E i (connection_raw_ids p a) p2 = Ok (p3, k')"
    "p' = p3\<lparr>p_accounts := filter (\<lambda>(b, _). b \<noteq> a) (p_accounts p3)\<rparr>"
    by (auto simp: apply_connection_rows_def Let_def)
  have "same_audit p1 p2" by (rule exec_all_audit [OF s(2)]) (auto simp: connection_statements_def same_audit_def)
  with detach_media_audit [OF s(1)] erase_raw_ids_audit [OF s(3)] s(4) show ?thesis by (simp add: same_audit_def)
qed

lemma apply_target_rows_audit:
  assumes "apply_target_rows E now p request = Ok (p', n)"
  shows "same_audit p p'"
proof (cases "dr_target request")
  case (TargetConnection a)
  with assms show ?thesis by (auto simp: apply_target_rows_def intro: apply_connection_rows_audit)
next
  case (TargetCapture i)
  with assms have "apply_capture_rows E now p (dr_operation request) i = Ok (p', n)" by (simp add: apply_target_rows_def)
  then obtain c p1 where c: "if owner_holds_source (h_archive p) c then p1 = p else capture_removal E now p (dr_operation request) c = Ok p1"
    and "same_rows (erased_capture i p1) p' \<and> (cap_media c = None \<or> independent_holding (h_archive (erased_capture i p1)) (the (cap_media c)))
     \<or> (\<exists>m. cap_media c = Some m \<and> \<not> independent_holding (h_archive (erased_capture i p1)) m
            \<and> same_rows (erased_media m (erased_capture i p1)) p')"
    by (rule apply_capture_rows_Ok)
  then have "same_audit p1 p'" by (auto simp: same_rows_def same_audit_def)
  moreover have "same_audit p p1" using c capture_removal_Ok by (simp add: same_audit_def split: if_splits)
  ultimately show ?thesis by (rule same_audit_trans [rotated])
qed

lemma find_append_key: "find P (xs @ [y]) = (case find P xs of None \<Rightarrow> if P y then Some y else None | Some x \<Rightarrow> Some x)"
  by (induction xs) auto

text \<open>The stored operation answers the request with these effects.\<close>

definition answers :: "privacy \<Rightarrow> DeletionRequest \<Rightarrow> DeletionEffectCount list \<Rightarrow> bool" where
  "answers p request es \<longleftrightarrow> (\<exists>d. find (\<lambda>d. del_id d = dr_operation request) (deletions (h_archive p)) = Some d
     \<and> del_user d = dr_user request \<and> (del_kind d, del_target d) = target_parts (dr_target request)
     \<and> del_state d \<in> {DeletionComplete, PendingBlobDeletion})
     \<and> load_effects (map snd (filter (\<lambda>(i, _). i = dr_operation request) (p_effects p))) = Some es"

lemma target_parts_inject: "target_parts a = target_parts b \<longleftrightarrow> a = b"
  by (cases a; cases b) auto

lemma load_existing_Some_iff:
  "load_existing p request = Ok (Some res) \<longleftrightarrow>
     res = \<lparr>re_operation = dr_operation request, re_effects = re_effects res\<rparr> \<and> answers p request (re_effects res)"
  by (cases res) (auto simp: load_existing_def answers_def split: option.splits if_splits)

lemma answers_conflict:
  assumes "answers p request es" "dr_operation other = dr_operation request"
    and "dr_user other \<noteq> dr_user request \<or> dr_target other \<noteq> dr_target request"
  shows "load_existing p other = Err OperationConflict"
proof -
  have "target_parts (dr_target request) \<noteq> target_parts (dr_target other)" if "dr_user other = dr_user request"
    using assms(3) that by (auto simp: target_parts_inject)
  with assms(1,2) show ?thesis by (auto simp: answers_def load_existing_def)
qed

lemma find_update_where_key:
  "(\<And>d. del_id (f d) = del_id d) \<Longrightarrow>
   find (\<lambda>d. del_id d = i) (update_where (\<lambda>d. del_id d = i) f ds) = map_option f (find (\<lambda>d. del_id d = i) ds)"
  by (induction ds) auto

lemma fresh_deletion_answers:
  assumes "apply_deletion E now p request = Ok (p', res)" "load_existing p request = Ok None"
    and "\<forall>(i, _) \<in> set (p_effects p). i \<in> del_id ` set (deletions (h_archive p))"
  shows "res = \<lparr>re_operation = dr_operation request, re_effects = build_plan request\<rparr> \<and> answers p' request (build_plan request)"
proof -
  let ?row = "\<lparr>del_id = dr_operation request, del_user = dr_user request, del_kind = fst (target_parts (dr_target request)),
           del_target = snd (target_parts (dr_target request)), del_reason = ''user_requested'', del_state = Planned,
           del_at = now, del_finished_at = None\<rparr>"
  obtain p2 p3 n where res: "res = \<lparr>re_operation = dr_operation request, re_effects = build_plan request\<rparr>"
    and p2: "p2 = (on_archive (\<lambda>db. db\<lparr>deletions := deletions db @ [?row]\<rparr>) p)
       \<lparr>p_effects := p_effects p @ map (\<lambda>e. (dr_operation request, effect_row e)) (build_plan request)\<rparr>"
    and rows: "apply_target_rows E now p2 request = Ok (p3, n)"
    and p': "p' = set_operation_state (\<lambda>d. del_id d = dr_operation request)
       (\<lambda>d. d\<lparr>del_state := (if 0 < n then PendingBlobDeletion else DeletionComplete),
              del_finished_at := (if 0 < n then None else Some now)\<rparr>) p3"
    by (rule apply_deletion_Ok [OF assms(1,2)])
  from assms(2) have none: "find (\<lambda>d. del_id d = dr_operation request) (deletions (h_archive p)) = None"
    by (auto simp: load_existing_def split: option.splits if_splits)
  have audit: "deletions (h_archive p3) = deletions (h_archive p) @ [?row]"
    "p_effects p3 = p_effects p @ map (\<lambda>e. (dr_operation request, effect_row e)) (build_plan request)"
    using apply_target_rows_audit [OF rows] by (simp_all add: same_audit_def p2)
  have "dr_operation request \<notin> del_id ` set (deletions (h_archive p))" using none by (auto simp: find_None_iff)
  with assms(3) have "filter (\<lambda>(i, _). i = dr_operation request) (p_effects p) = []"
    by (auto simp: filter_empty_conv)
  then have "map snd (filter (\<lambda>(i, _). i = dr_operation request) (p_effects p')) = map effect_row (build_plan request)"
    by (simp add: p' audit filter_map comp_def)
  then have "load_effects (map snd (filter (\<lambda>(i, _). i = dr_operation request) (p_effects p'))) = Some (build_plan request)"
    by (simp add: load_effects_def decode_effect_rows sort_effects)
  moreover have "find (\<lambda>d. del_id d = dr_operation request) (deletions (h_archive p3)) = Some ?row"
    by (simp add: audit find_append_key none)
  ultimately show ?thesis using res by (simp add: answers_def p' find_update_where_key)
qed

text \<open>
  A deletion request is idempotent and binds its identity: once it has succeeded, the same request
  changes nothing and returns the same effects for ever, and a request under the same operation
  identity for another owner or another target is refused.
\<close>
theorem deletion_replay_is_idempotent:
  assumes "apply_deletion E now p request = Ok (p', res)"
    and "\<forall>(i, _) \<in> set (p_effects p). i \<in> del_id ` set (deletions (h_archive p))"
  shows "apply_deletion E later p' request = Ok (p', res) \<and>
    (dr_operation other = dr_operation request \<and> (dr_user other \<noteq> dr_user request \<or> dr_target other \<noteq> dr_target request)
       \<longrightarrow> apply_deletion E later p' other = Err OperationConflict)"
proof -
  obtain existing where existing: "load_existing p request = Ok existing"
    using assms(1) by (auto simp: apply_deletion_def)
  have "answers p' request (re_effects res) \<and> res = \<lparr>re_operation = dr_operation request, re_effects = re_effects res\<rparr>"
  proof (cases existing)
    case None
    with existing fresh_deletion_answers [OF assms(1) _ assms(2)] show ?thesis by simp
  next
    case (Some r)
    with assms(1) existing have "p' = p" "r = res" by (simp_all add: apply_deletion_def)
    with existing Some show ?thesis using load_existing_Some_iff by blast
  qed
  then show ?thesis
    using load_existing_Some_iff [of p' request res] answers_conflict [of p' request "re_effects res" other]
    by (simp add: apply_deletion_def)
qed

section \<open>Samples\<close>

definition held_link :: "u64 \<Rightarrow> CanonicalPermalink" where
  "held_link n = permalink_of Reel (ascii (if n = 1 then ''AAAAA'' else ''BBBBB''))"

lemma held_link_canonical: "canonicalize (url (held_link 1)) = Ok (held_link 1)" "canonicalize (url (held_link 2)) = Ok (held_link 2)"
proof -
  have v: "valid_shortcode (ascii ''AAAAA'')" "valid_shortcode (ascii ''BBBBB'')" by code_simp+
  have "canonicalize (url (permalink_of Reel code)) = Ok (permalink_of Reel code)" if "valid_shortcode code" for code
    using canonicalize_grammar [of "canonical_url Reel code" Reel code] canonical_url_grammar [OF that, of Reel]
    by (simp add: permalink_of_def)
  with v show "canonicalize (url (held_link 1)) = Ok (held_link 1)" "canonicalize (url (held_link 2)) = Ok (held_link 2)"
    by (simp_all add: held_link_def)
qed

definition held_capture :: "u64 \<Rightarrow> CaptureRow" where
  "held_capture n =
     \<lparr>cap_id = Uuid 4 n, cap_user = Uuid 3 1, cap_media = Some (Uuid 5 n), cap_url = url (held_link n),
      cap_acquisition = ''share_extension'', cap_authority = EXPLICIT_AUTHORITY, cap_client = IosShareExtension,
      cap_status = Resolved, cap_note = None, cap_key = None, cap_captured_at = 0, cap_next = None, cap_attempts = 1\<rparr>"

definition held_media :: "u64 \<Rightarrow> uuid option \<Rightarrow> MediaRow" where
  "held_media n account =
     \<lparr>med_id = Uuid 5 n, med_permalink = url (held_link n), med_type = ''image'',
      med_caption = None, med_acquisition = ''public_resolution'', med_authority = ''explicit_user_capture'',
      med_upstream = UpAvailable, med_revision = Some (Uuid 7 n), med_updated_at = 0, med_account = account,
      med_provider = None, med_blob = None\<rparr>"

definition held_raw :: "u64 \<Rightarrow> RawRow" where
  "held_raw n = \<lparr>raw_id = Uuid 6 n, raw_kind = ''oembed_response'', raw_blob_ref = (if n = 1 then ''0101'' else ''0102''),
     raw_hash = [1, if n = 1 then 1 else 2], raw_size = 3, raw_body = [1, if n = 1 then 1 else 2, 5], raw_at = 0\<rparr>"

definition held_revision :: "u64 \<Rightarrow> RevisionRow" where
  "held_revision n = \<lparr>rev_id = Uuid 7 n, rev_media = Uuid 5 n, rev_raw = Uuid 6 n, rev_parser = ''instagram.oembed.v1'', rev_at = 0\<rparr>"

text \<open>Two captures, each with its own media row and raw response.\<close>

definition held_privacy :: privacy where
  "held_privacy =
     \<lparr>h_archive = empty_archive\<lparr>captures := [held_capture 1, held_capture 2], media := [held_media 1 None, held_media 2 None],
        raws := [held_raw 1, held_raw 2], revisions := [held_revision 1, held_revision 2]\<rparr>,
      h_exports = [], h_tasks = [], p_accounts = [], p_links = [Uuid 4 1], p_notes = [Uuid 4 2], p_reresolution = [],
      p_relations = [], p_authority = [], p_sync_state = [], p_sync_runs = [], p_sync_items = [], p_capabilities = [],
      p_permissions = [], p_profiles = [], p_usage = [], p_flows = [], p_credentials = [], p_audit = [], p_effects = []\<rparr>"

definition capture_request :: "u64 \<Rightarrow> DeletionRequest" where
  "capture_request n = \<lparr>dr_operation = Uuid 8 n, dr_user = Uuid 3 1, dr_target = TargetCapture (Uuid 4 n)\<rparr>"

lemmas held_defs = held_privacy_def held_capture_def held_media_def held_raw_def held_revision_def capture_request_def
  empty_archive_def

lemma retention_env_simps [simp]:
  "e_now_v7 retention_env n = Uuid 0 (word_of_nat n)" "e_instant_ok retention_env t"
  "source_identity retention_env u l = IDENTITY_NAMESPACE"
  by (simp_all add: retention_env_def source_identity_def)

lemmas erasure_defs = apply_deletion_def load_existing_def require_owned_def apply_target_rows_def apply_capture_rows_def
  capture_of_def owner_holds_source_def capture_removal_def append_removal_fact_def append_source_removal_fact_def
  drop_events_def insert_removal_def capture_statements_def independent_holding_def erase_media_rows_def media_of_def
  raws_of_media_def delete_relations_def delete_media_observations_def clear_revision_def delete_revisions_def delete_media_def
  schedule_media_blob_def delete_raw_def schedule_blob_task_def fk_ok_def refers_def exec_def on_archive_def
  set_operation_state_def append_outbox_def drawn_def now_v7_def raw_blob_def

definition deleted_once :: privacy where
  "deleted_once = fst (case apply_deletion retention_env 9 held_privacy (capture_request 1) of Ok r \<Rightarrow> r)"

lemma capture_deletes:
  "apply_deletion retention_env 9 held_privacy (capture_request 1) =
     Ok (deleted_once, \<lparr>re_operation = Uuid 8 1, re_effects = build_plan (capture_request 1)\<rparr>)"
  "load_existing held_privacy (capture_request 1) = Ok None"
  by (simp_all add: deleted_once_def erasure_defs held_defs held_link_canonical Let_def)

lemma deleted_once_eq:
  "deleted_once = held_privacy
     \<lparr>h_archive := empty_archive\<lparr>captures := [held_capture 2], raws := [held_raw 2], media := [held_media 2 None],
        revisions := [held_revision 2],
        removals := [\<lparr>rem_user = Uuid 3 1, rem_source = IDENTITY_NAMESPACE, rem_capture = Some (Uuid 4 1), rem_media = None,
          rem_operation = Uuid 8 1, rem_reason = ''user_requested'', rem_at = 9\<rparr>],
        deletions := [\<lparr>del_id = Uuid 8 1, del_user = Uuid 3 1, del_kind = CaptureTarget, del_target = Uuid 4 1,
          del_reason = ''user_requested'', del_state = PendingBlobDeletion, del_at = 9, del_finished_at = None\<rparr>],
        outbox := [outbox_row (Uuid 0 0) SourceRemoved AggCapture (Uuid 4 1) (Uuid 3 1)
          (RemovalPayload IDENTITY_NAMESPACE UserRequested 9) (Uuid 0 0) None 9],
        minted := 2\<rparr>,
      h_tasks := [\<lparr>bt_id = Uuid 0 1, bt_operation = Some (Uuid 8 1), bt_blob = raw_blob (held_raw 1), bt_class = ''raw_response'',
        bt_state = TaskPending, bt_attempts = 0, bt_failure = None, bt_completed_at = None\<rparr>],
      p_links := [], p_effects := map (\<lambda>e. (Uuid 8 1, effect_row e)) (build_plan (capture_request 1))\<rparr>"
  by (simp add: deleted_once_def erasure_defs held_defs held_link_canonical Let_def outbox_row_def)

lemma held_captures: "capture_of (h_archive held_privacy) (Uuid 4 1) = Some (held_capture 1)"
  "captures (h_archive held_privacy) = [held_capture 1, held_capture 2]" "dr_target (capture_request 1) = TargetCapture (Uuid 4 1)"
  "\<not> owner_holds_source (h_archive held_privacy) (held_capture 1)"
  by (simp_all add: capture_of_def owner_holds_source_def held_defs)


theorem deletion_replay_is_idempotent_witness:
  "apply_deletion retention_env 50 deleted_once (capture_request 1) =
     Ok (deleted_once, \<lparr>re_operation = Uuid 8 1, re_effects = build_plan (capture_request 1)\<rparr>)
   \<and> apply_deletion retention_env 50 deleted_once (capture_request 1\<lparr>dr_user := Uuid 3 2\<rparr>) = Err OperationConflict"
proof -
  have "\<forall>(i, _) \<in> set (p_effects held_privacy). i \<in> del_id ` set (deletions (h_archive held_privacy))"
    by (simp add: held_defs)
  from deletion_replay_is_idempotent [OF capture_deletes(1) this, of 50 "capture_request 1\<lparr>dr_user := Uuid 3 2\<rparr>"]
  show ?thesis by (simp add: capture_request_def)
qed

end
