(* ===== verification/Deletion_Outcomes.thy ===== *)
theory Deletion_Outcomes
  imports Privacy_Deletion
begin

text \<open>
  Two outcomes of the privacy deletion that the code does not mean to have: the operation of a deleted
  capture whose raw response was stored never completes, because the media store refuses the reference
  form of raw responses, and the connection of an account with synchronized media cannot be deleted,
  because a synchronization item still refers to the raw record being erased.
\<close>

section \<open>Operations that wait for ever\<close>

text \<open>The reference under which every writer stores a raw response: the bare digest.\<close>

definition bare_reference :: "StoredBlob \<Rightarrow> bool" where
  "bare_reference b \<longleftrightarrow> sb_ref b = hex_encode (sb_hash b)"

definition stranded_task :: "uuid \<Rightarrow> BlobDeletionTask \<Rightarrow> bool" where
  "stranded_task i t \<longleftrightarrow> bt_operation t = Some i \<longrightarrow> bt_state t = TaskPending \<and> bare_reference (bt_blob t)"

definition waits :: "DeletionOperationRow list \<Rightarrow> uuid \<Rightarrow> bool" where
  "waits ds i \<longleftrightarrow> i \<in> set (map del_id ds) \<and> (\<forall>d \<in> set ds. del_id d = i \<longrightarrow> del_state d = PendingBlobDeletion)"

definition stranded :: "holdings \<Rightarrow> uuid \<Rightarrow> bool" where
  "stranded h i \<longleftrightarrow> distinct (map bt_id (h_tasks h)) \<and> (\<forall>t \<in> set (h_tasks h). stranded_task i t)
     \<and> waits (deletions (h_archive h)) i"

lemma bare_reference_refused:
  assumes "bare_reference b"
  shows "delete_if_matches E io store b = (store, Err DigestMismatch)"
proof -
  have "length (media_ref x) \<noteq> length x" for x by (simp add: media_ref_def)
  with assms have "sb_ref b \<noteq> media_ref (hex_encode (sb_hash b))" by (metis bare_reference_def)
  then show ?thesis by (rule foreign_reference_refused)
qed

lemma map_bt_id_update: "(\<And>t. bt_id (f t) = bt_id t) \<Longrightarrow> map bt_id (update_where P f ts) = map bt_id ts"
  by (induction ts) auto

lemma waits_update:
  assumes "waits ds i" "\<And>d. del_id (f d) = del_id d" "\<And>d. P d \<Longrightarrow> del_id d = i \<Longrightarrow> del_state (f d) = PendingBlobDeletion"
  shows "waits (update_where P f ds) i"
proof -
  have "map del_id (update_where P f ds) = map del_id ds" using assms(2) by (rule map_update_where_same)
  then have "set (map del_id (update_where P f ds)) = set (map del_id ds)" by (rule arg_cong)
  with assms show ?thesis unfolding waits_def by (auto simp: set_update_where)
qed

lemma stranded_update:
  assumes "stranded h i" "\<And>t. bt_id (f t) = bt_id t" "\<And>t. t \<in> set (h_tasks h) \<Longrightarrow> P t \<Longrightarrow> stranded_task i (f t)"
    and "waits (deletions db) i"
  shows "stranded (h\<lparr>h_tasks := update_where P f (h_tasks h), h_archive := db\<rparr>) i"
  using assms by (auto simp: stranded_def map_bt_id_update set_update_where)

lemma stranded_failure:
  assumes "stranded h i"
  shows "stranded (record_blob_failure h j op failure) i"
proof -
  let ?f = "\<lambda>t. t\<lparr>bt_attempts := bt_attempts t + 1, bt_failure := Some failure\<rparr>"
  let ?P = "\<lambda>t. bt_id t = j \<and> bt_state t = TaskPending"
  have tasks: "stranded_task i (?f t)" if "t \<in> set (h_tasks h)" for t
    using assms that by (auto simp: stranded_def stranded_task_def)
  have ds: "waits (deletions (h_archive h)) i" using assms by (simp add: stranded_def)
  show ?thesis
  proof (cases op)
    case None
    have "stranded (h\<lparr>h_tasks := update_where ?P ?f (h_tasks h), h_archive := h_archive h\<rparr>) i"
      by (rule stranded_update) (use assms tasks ds in auto)
    then show ?thesis by (simp add: record_blob_failure_def None)
  next
    case (Some k)
    have "waits (update_where (\<lambda>d. del_id d = k) (\<lambda>d. d\<lparr>del_state := PendingBlobDeletion\<rparr>) (deletions (h_archive h))) i"
      by (rule waits_update [OF ds]) simp_all
    then have "stranded (h\<lparr>h_tasks := update_where ?P ?f (h_tasks h), h_archive := (h_archive h)\<lparr>deletions :=
        update_where (\<lambda>d. del_id d = k) (\<lambda>d. d\<lparr>del_state := PendingBlobDeletion\<rparr>) (deletions (h_archive h))\<rparr>\<rparr>) i"
      by (intro stranded_update) (use assms tasks in auto)
    then show ?thesis by (simp add: record_blob_failure_def set_operation_state_def Some)
  qed
qed

lemma stranded_completion:
  assumes "stranded h i" "find (\<lambda>t. bt_id t = j) (h_tasks h) = Some t" "bt_operation t \<noteq> Some i"
  shows "stranded (complete_task h now j (bt_operation t)) i"
proof -
  let ?f = "\<lambda>t. t\<lparr>bt_state := TaskComplete, bt_attempts := bt_attempts t + 1, bt_failure := None, bt_completed_at := Some now\<rparr>"
  let ?h = "h\<lparr>h_tasks := update_where (\<lambda>t. bt_id t = j) ?f (h_tasks h)\<rparr>"
  have t: "t \<in> set (h_tasks h)" "bt_id t = j" using assms(2) by (auto simp: find_Some_iff)
  have "bt_operation u \<noteq> Some i" if "u \<in> set (h_tasks h)" "bt_id u = j" for u
    using assms(1,3) t that by (metis stranded_def inj_onD distinct_map)
  then have tasks: "stranded_task i (?f u)" if "u \<in> set (h_tasks h)" "bt_id u = j" for u
    using that by (simp add: stranded_task_def)
  have ds: "waits (deletions (h_archive h)) i" using assms by (simp add: stranded_def)
  show ?thesis
  proof (cases "bt_operation t")
    case None
    have "stranded (?h\<lparr>h_archive := h_archive h\<rparr>) i"
      using stranded_update [of h i ?f "\<lambda>t. bt_id t = j" "h_archive h"] assms(1) tasks ds by simp
    then show ?thesis by (simp add: complete_task_def None)
  next
    case (Some k)
    let ?ds = "update_where (\<lambda>d. del_id d = k \<and> \<not> operation_pending ?h k)
      (\<lambda>d. d\<lparr>del_state := DeletionComplete, del_finished_at := Some now\<rparr>) (deletions (h_archive h))"
    have "waits ?ds i" by (rule waits_update [OF ds]) (use assms(3) Some in auto)
    then have "stranded (?h\<lparr>h_archive := (h_archive h)\<lparr>deletions := ?ds\<rparr>\<rparr>) i"
      using stranded_update [of h i ?f "\<lambda>t. bt_id t = j" "(h_archive h)\<lparr>deletions := ?ds\<rparr>"] assms(1) tasks by simp
    then show ?thesis by (simp add: complete_task_def set_operation_state_def Some Let_def)
  qed
qed

lemma process_stranded:
  assumes "stranded h i" "process_blob_deletion_task (delete_if_matches E io) now h s j = Some (h', s', out)"
  shows "stranded h' i"
proof -
  from assms(2) obtain t where t: "find (\<lambda>t. bt_id t = j) (h_tasks h) = Some t"
    by (auto simp: process_blob_deletion_task_def split: option.splits)
  show ?thesis
  proof (cases "bt_operation t = Some i")
    case True
    with t assms(1) have "bt_state t = TaskPending" "bare_reference (bt_blob t)"
      by (auto simp: stranded_def stranded_task_def find_Some_iff)
    with t assms show ?thesis
      by (auto simp: process_blob_deletion_task_def bare_reference_refused stranded_failure split: if_splits)
  next
    case False
    with t assms show ?thesis
      by (auto simp: process_blob_deletion_task_def stranded_failure stranded_completion
          split: if_splits prod.splits result.splits)
  qed
qed

lemma stranded_for_ever: "task_runs E h s h' s' \<Longrightarrow> stranded h i \<Longrightarrow> stranded h' i"
  by (induction rule: task_runs.induct) (auto intro: process_stranded)

section \<open>What the erasure of a capture schedules\<close>

definition only_stranded :: "uuid \<Rightarrow> privacy \<Rightarrow> bool" where
  "only_stranded i p \<longleftrightarrow> (\<forall>t \<in> set (h_tasks p). stranded_task i t)"

lemma only_stranded_schedule:
  "only_stranded i p \<Longrightarrow> bare_reference b \<Longrightarrow> only_stranded i (schedule_blob_task E p i b c)"
  by (auto simp: only_stranded_def schedule_blob_task_def stranded_task_def Let_def)

lemma erase_raws_stranded:
  "erase_raws E i rs p = Ok (p', n) \<Longrightarrow> only_stranded i p \<Longrightarrow> (\<And>r. r \<in> set rs \<Longrightarrow> bare_reference (raw_blob r)) \<Longrightarrow>
   only_stranded i p' \<and> n = length (filter (\<lambda>r. \<not> list_ex (\<lambda>v. rev_raw v = raw_id r) (revisions (h_archive p))) rs)"
proof (induction rs arbitrary: p n)
  case (Cons r rs)
  show ?case
  proof (cases "list_ex (\<lambda>v. rev_raw v = raw_id r) (revisions (h_archive p))")
    case True
    with Cons show ?thesis by simp
  next
    case False
    let ?q = "schedule_blob_task E (delete_raw (raw_id r) p) i (raw_blob r) ''raw_response''"
    from Cons.prems False obtain k where k: "erase_raws E i rs ?q = Ok (p', k)" "n = k + 1" by auto
    have "only_stranded i (delete_raw (raw_id r) p)" using Cons.prems by (simp add: only_stranded_def delete_raw_def)
    then have "only_stranded i ?q" using Cons.prems by (simp add: only_stranded_schedule)
    moreover have "revisions (h_archive ?q) = revisions (h_archive p)"
      by (simp add: schedule_blob_task_def delete_raw_def Let_def)
    ultimately show ?thesis using Cons.IH [OF k(1)] Cons.prems False k(2) by simp
  qed
qed simp

lemma tasks_kept:
  "h_tasks (erased_media m p) = h_tasks p" "h_tasks (erased_capture i p) = h_tasks p"
  "raws (h_archive (erased_capture i p)) = raws (h_archive p)"
  by (simp_all add: erased_media_def erased_capture_def capture_statements_def delete_media_def delete_revisions_def
      clear_revision_def delete_media_observations_def delete_relations_def)

lemma erase_media_stranded:
  assumes "erase_media_rows [] E p i m = Ok (p', n)" "only_stranded i p"
    and "\<forall>r \<in> set (media (h_archive p)). med_id r = m \<longrightarrow> med_blob r = None"
    and "\<forall>r \<in> set (raws (h_archive p)). bare_reference (raw_blob r)"
    and "r \<in> set (raws (h_archive p))" "v \<in> set (revisions (h_archive p))" "rev_media v = m" "rev_raw v = raw_id r"
    and "\<forall>w \<in> set (revisions (h_archive p)). rev_raw w = raw_id r \<longrightarrow> rev_media w = m"
  shows "only_stranded i p' \<and> 0 < n"
proof -
  let ?q = "erased_media m p" and ?rs = "raws_of_media (h_archive p) m"
  have none: "Option.bind (media_of (h_archive p) m) med_blob = None"
  proof (cases "media_of (h_archive p) m")
    case (Some x)
    then have "x \<in> set (media (h_archive p))" "med_id x = m" by (auto simp: media_of_def find_Some_iff)
    with assms(3) Some show ?thesis by simp
  qed simp
  from assms(1) obtain p1 k where p1: "exec_all [delete_relations m, delete_media_observations m, clear_revision m,
      delete_revisions m, delete_media m] p = Ok p1" and rest: "erase_raws E i ?rs p1 = Ok (p', n)"
    by (auto simp: erase_media_rows_def Let_def none schedule_media_blob_def)
  have p1: "p1 = ?q" using exec_all_Ok [OF p1] by (simp add: erased_media_def)
  have rs: "set ?rs \<subseteq> set (raws (h_archive p))" by (auto simp: raws_of_media_def)
  have "only_stranded i ?q" using assms(2) by (simp add: only_stranded_def tasks_kept)
  from erase_raws_stranded [OF rest [unfolded p1] this] assms(4) rs
  have "only_stranded i p'" and n: "n = length (filter (\<lambda>r. \<not> list_ex (\<lambda>v. rev_raw v = raw_id r) (revisions (h_archive ?q))) ?rs)"
    by auto
  moreover have "r \<in> set (filter (\<lambda>r. \<not> list_ex (\<lambda>v. rev_raw v = raw_id r) (revisions (h_archive ?q))) ?rs)"
    using assms(5-9) by (auto simp: raws_of_media_def list_ex_iff)
  ultimately show ?thesis by (metis length_pos_if_in_set)
qed

lemma capture_removal_tables:
  assumes "capture_removal E now p i c = Ok p1"
  shows "h_tasks p1 = h_tasks p" "raws (h_archive p1) = raws (h_archive p)" "revisions (h_archive p1) = revisions (h_archive p)"
  using assms
  by (auto simp: capture_removal_def append_removal_fact_def append_source_removal_fact_def insert_removal_def drop_events_def
      split: if_splits option.splits result.splits)

lemma capture_rows_stranded:
  assumes "apply_capture_rows E now p i cid = Ok (p', n)" "only_stranded i p"
    and "capture_of (h_archive p) cid = Some c" "cap_media c = Some m"
    and "\<forall>k \<in> set (captures (h_archive p)). cap_media k = Some m \<longrightarrow> cap_id k = cid"
    and "\<forall>r \<in> set (media (h_archive p)). med_id r = m \<longrightarrow> med_account r = None \<and> med_acquisition r \<noteq> ''data_export'' \<and> med_blob r = None"
    and "\<forall>r \<in> set (raws (h_archive p)). bare_reference (raw_blob r)"
    and "r \<in> set (raws (h_archive p))" "v \<in> set (revisions (h_archive p))" "rev_media v = m" "rev_raw v = raw_id r"
    and "\<forall>w \<in> set (revisions (h_archive p)). rev_raw w = raw_id r \<longrightarrow> rev_media w = m"
  shows "only_stranded i p' \<and> 0 < n"
proof -
  from assms(1,3) obtain p1 p2 where p1: "(if owner_holds_source (h_archive p) c then Ok p else capture_removal E now p i c) = Ok p1"
    and p2: "exec_all (capture_statements cid) p1 = Ok p2"
    and rest: "(if independent_holding (h_archive p2) m then Ok (p2, 0) else erase_media_rows [] E p2 i m) = Ok (p', n)"
    by (auto simp: apply_capture_rows_def assms(4) simp del: exec_all.simps)
  have p2: "p2 = erased_capture cid p1" using exec_all_Ok [OF p2] by (simp add: erased_capture_def)
  have keeps: "captures (h_archive p1) = captures (h_archive p)" "media (h_archive p1) = media (h_archive p)"
    "h_tasks p1 = h_tasks p" "raws (h_archive p1) = raws (h_archive p)" "revisions (h_archive p1) = revisions (h_archive p)"
    using p1 capture_removal_Ok [of E now p i c p1] capture_removal_tables [of E now p i c p1] by (auto split: if_splits)
  have "\<not> independent_holding (h_archive p2) m"
    using assms(5,6) by (auto simp: independent_holding_def list_ex_iff p2 keeps)
  with rest have "erase_media_rows [] E p2 i m = Ok (p', n)" by simp
  then show ?thesis
    by (rule erase_media_stranded [where r = r and v = v])
      (use assms in \<open>simp_all add: p2 keeps tasks_kept only_stranded_def\<close>)
qed

section \<open>Properties\<close>

text \<open>
  C37. The deletion of a capture whose raw response was stored never completes. For a capture that alone
  holds its media row, a row without a stored object of its own as public resolution writes it, with raw
  records referenced by their bare digests as every writer stores them and at least one of them used by no
  other media row: once the erasure has been committed, under an operation identity no task carried before
  and with task identifiers unique as their primary key makes them, the deletion operation stays in the
  state that waits for its objects through any number of task runs and whatever the file system answers.
\<close>
theorem raw_response_strands_deletion:
  assumes "apply_deletion E now p request = Ok (p', res)" "load_existing p request = Ok None"
    and "dr_target request = TargetCapture cid" "capture_of (h_archive p) cid = Some c" "cap_media c = Some m"
    and "\<forall>k \<in> set (captures (h_archive p)). cap_media k = Some m \<longrightarrow> cap_id k = cid"
    and "\<forall>r \<in> set (media (h_archive p)). med_id r = m \<longrightarrow> med_account r = None \<and> med_acquisition r \<noteq> ''data_export'' \<and> med_blob r = None"
    and "\<forall>r \<in> set (raws (h_archive p)). bare_reference (raw_blob r)"
    and "r \<in> set (raws (h_archive p))" "v \<in> set (revisions (h_archive p))" "rev_media v = m" "rev_raw v = raw_id r"
    and "\<forall>w \<in> set (revisions (h_archive p)). rev_raw w = raw_id r \<longrightarrow> rev_media w = m"
    and "\<forall>t \<in> set (h_tasks p). bt_operation t \<noteq> Some (dr_operation request)" "distinct (map bt_id (h_tasks p'))"
    and "task_runs E (holdings.truncate p') s h' s'"
  shows "(\<exists>d \<in> set (deletions (h_archive h')). del_id d = dr_operation request)
    \<and> (\<forall>d \<in> set (deletions (h_archive h')). del_id d = dr_operation request \<longrightarrow> del_state d = PendingBlobDeletion)"
proof -
  let ?i = "dr_operation request"
  let ?row = "\<lparr>del_id = ?i, del_user = dr_user request, del_kind = fst (target_parts (dr_target request)),
           del_target = snd (target_parts (dr_target request)), del_reason = ''user_requested'', del_state = Planned,
           del_at = now, del_finished_at = None\<rparr>"
  obtain p2 p3 pending where p2: "p2 = (on_archive (\<lambda>db. db\<lparr>deletions := deletions db @ [?row]\<rparr>) p)
       \<lparr>p_effects := p_effects p @ map (\<lambda>e. (?i, effect_row e)) (build_plan request)\<rparr>"
    and rows: "apply_target_rows E now p2 request = Ok (p3, pending)"
    and p': "p' = set_operation_state (\<lambda>d. del_id d = ?i)
       (\<lambda>d. d\<lparr>del_state := (if 0 < pending then PendingBlobDeletion else DeletionComplete),
              del_finished_at := (if 0 < pending then None else Some now)\<rparr>) p3"
    by (rule apply_deletion_Ok [OF assms(1,2)])
  have "apply_capture_rows E now p2 ?i cid = Ok (p3, pending)"
    using rows assms(3) by (simp add: apply_target_rows_def)
  then have all: "only_stranded ?i p3 \<and> 0 < pending"
    by (rule capture_rows_stranded [where c = c and m = m and r = r and v = v])
      (use assms in \<open>simp_all add: p2 only_stranded_def stranded_task_def capture_of_def\<close>)
  have "?i \<notin> del_id ` set (deletions (h_archive p))"
    using assms(2) by (auto simp: load_existing_def find_None_iff split: option.splits if_splits)
  moreover have "deletions (h_archive p3) = deletions (h_archive p) @ [?row]"
    using apply_target_rows_audit [OF rows] by (simp add: same_audit_def p2)
  ultimately have "stranded (holdings.truncate p') ?i"
    using all assms(15) by (auto simp: stranded_def p' only_stranded_def set_operation_state_def holdings.truncate_def waits_def set_update_where)
  from stranded_for_ever [OF assms(16) this] show ?thesis by (auto simp: stranded_def waits_def)
qed

definition tried_once :: holdings where
  "tried_once = (case process_blob_deletion_task (delete_if_matches retention_env delete_io) 12 (holdings.truncate deleted_once)
     empty_store (Uuid 0 1) of Some (h, _) \<Rightarrow> h)"

lemma tried_once_run: "task_runs retention_env (holdings.truncate deleted_once) empty_store tried_once empty_store"
proof (rule task_runs_more [OF task_runs_none])
  show "process_blob_deletion_task (delete_if_matches retention_env delete_io) 12 (holdings.truncate deleted_once)
      empty_store (Uuid 0 1) = Some (tried_once, empty_store, TaskStays DigestMismatch)"
    by (simp add: tried_once_def deleted_once_eq holdings.truncate_def process_blob_deletion_task_def live_references_def
        held_defs raw_blob_def delete_if_matches_def media_ref_def)
qed

lemma held_raw_bare: "bare_reference (raw_blob (held_raw n))"
proof -
  have "hex_encode [1, 1] = ''0101''" "hex_encode [1, 2] = ''0102''" by code_simp+
  then show ?thesis by (simp add: bare_reference_def raw_blob_def held_raw_def)
qed

theorem raw_response_strands_deletion_witness:
  "\<exists>d \<in> set (deletions (h_archive tried_once)). del_id d = Uuid 8 1 \<and> del_state d = PendingBlobDeletion"
proof -
  have tables: "\<forall>k \<in> set (captures (h_archive held_privacy)). cap_media k = Some (Uuid 5 1) \<longrightarrow> cap_id k = Uuid 4 1"
    "\<forall>r \<in> set (media (h_archive held_privacy)). med_id r = Uuid 5 1 \<longrightarrow>
       med_account r = None \<and> med_acquisition r \<noteq> ''data_export'' \<and> med_blob r = None"
    "\<forall>r \<in> set (raws (h_archive held_privacy)). bare_reference (raw_blob r)"
    "held_raw 1 \<in> set (raws (h_archive held_privacy))" "held_revision 1 \<in> set (revisions (h_archive held_privacy))"
    "rev_media (held_revision 1) = Uuid 5 1" "rev_raw (held_revision 1) = raw_id (held_raw 1)"
    "\<forall>w \<in> set (revisions (h_archive held_privacy)). rev_raw w = raw_id (held_raw 1) \<longrightarrow> rev_media w = Uuid 5 1"
    "\<forall>t \<in> set (h_tasks held_privacy). bt_operation t \<noteq> Some (dr_operation (capture_request 1))"
    using held_raw_bare by (simp_all add: held_privacy_def empty_archive_def held_capture_def held_media_def held_revision_def)
      (simp_all add: held_raw_def)
  have more: "cap_media (held_capture 1) = Some (Uuid 5 1)" "distinct (map bt_id (h_tasks deleted_once))"
    by (simp_all add: held_capture_def deleted_once_eq)
  from raw_response_strands_deletion [OF capture_deletes held_captures(3,1) more(1) tables more(2) tried_once_run]
  show ?thesis by (auto simp: capture_request_def)
qed

section \<open>Connections with synchronized media\<close>

text \<open>A raw record a synchronization item refers to cannot be erased.\<close>

lemma delete_referred_raw:
  assumes "(x, w) \<in> set (p_sync_items p)"
  shows "\<not> fk_ok (delete_raw w p)"
proof
  assume "fk_ok (delete_raw w p)"
  then have "list_all (\<lambda>(r, w'). w' \<in> set (map raw_id (raws (h_archive (delete_raw w p))))) (p_sync_items p)"
    by (auto simp: fk_ok_def Let_def delete_raw_def list_all_iff)
  with assms have "w \<in> set (map raw_id (raws (h_archive (delete_raw w p))))" by (auto simp: list_all_iff)
  then show False by (auto simp: delete_raw_def)
qed

lemma erase_raws_frame:
  "erase_raws E i rs p = Ok (p', n) \<Longrightarrow> (x, w) \<in> set (p_sync_items p) \<Longrightarrow> w \<in> raw_id ` set (raws (h_archive p)) \<Longrightarrow>
   p_sync_items p' = p_sync_items p \<and> w \<in> raw_id ` set (raws (h_archive p'))"
proof (induction rs arbitrary: p n)
  case (Cons r rs)
  show ?case
  proof (cases "list_ex (\<lambda>v. rev_raw v = raw_id r) (revisions (h_archive p))")
    case True
    with Cons show ?thesis by simp
  next
    case False
    let ?q = "schedule_blob_task E (delete_raw (raw_id r) p) i (raw_blob r) ''raw_response''"
    from Cons.prems False obtain k where k: "erase_raws E i rs ?q = Ok (p', k)" "fk_ok (delete_raw (raw_id r) p)" by auto
    have "raw_id r \<noteq> w" using k(2) delete_referred_raw [OF Cons.prems(2)] by blast
    then have "w \<in> raw_id ` set (raws (h_archive (delete_raw (raw_id r) p)))"
      using Cons.prems(3) by (auto simp: delete_raw_def)
    moreover have "p_sync_items ?q = p_sync_items p" "raws (h_archive ?q) = raws (h_archive (delete_raw (raw_id r) p))"
      by (simp_all add: schedule_blob_task_def delete_raw_def Let_def)
    ultimately show ?thesis using Cons.IH [OF k(1)] Cons.prems(2) by simp
  qed
qed simp

lemma erase_raws_blocked:
  assumes "(x, w) \<in> set (p_sync_items p)" "w \<in> raw_id ` set rs" "\<forall>v \<in> set (revisions (h_archive p)). rev_raw v \<noteq> w"
  shows "erase_raws E i rs p \<noteq> Ok y"
  using assms
proof (induction rs arbitrary: p y)
  case (Cons r rs)
  let ?q = "schedule_blob_task E (delete_raw (raw_id r) p) i (raw_blob r) ''raw_response''"
  show ?case
  proof (cases "raw_id r = w")
    case True
    with Cons.prems delete_referred_raw [OF Cons.prems(1)] show ?thesis by (simp add: list_ex_iff exec_def)
  next
    case False
    have "p_sync_items ?q = p_sync_items p" "revisions (h_archive ?q) = revisions (h_archive p)"
      by (simp_all add: schedule_blob_task_def delete_raw_def Let_def)
    with False Cons have "erase_raws E i rs p \<noteq> Ok y" "erase_raws E i rs ?q \<noteq> Ok z" for z by auto
    then show ?thesis by (auto simp: exec_def)
  qed
qed simp

lemma erase_media_blocked:
  assumes "(x, w) \<in> set (p_sync_items p)" "w \<in> raw_id ` set (raws (h_archive p))"
    and "v \<in> set (revisions (h_archive p))" "rev_media v = m" "rev_raw v = w"
    and "\<forall>u \<in> set (revisions (h_archive p)). rev_raw u = w \<longrightarrow> rev_media u = m"
  shows "erase_exclusive_connection_media E p i m \<noteq> Ok y"
proof
  let ?b = "Option.bind (media_of (h_archive p) m) med_blob"
  assume "erase_exclusive_connection_media E p i m = Ok y"
  then obtain p1 z where p1: "exec_all ([delete_relations m, delete_media_observations m,
       \<lambda>q. q\<lparr>p_authority := filter (\<lambda>(a, _). Some a \<noteq> Option.bind (media_of (h_archive q) m) med_account) (p_authority q)\<rparr>,
       clear_revision m, delete_revisions m, delete_media m]) p = Ok p1"
    and rest: "erase_raws E i (raws_of_media (h_archive p) m) (fst (schedule_media_blob E i ?b p1)) = Ok z"
    by (auto simp: erase_exclusive_connection_media_def erase_media_rows_def Let_def case_prod_unfold simp del: exec_all.simps)
  let ?q = "fst (schedule_media_blob E i ?b p1)"
  have "p_sync_items p1 = p_sync_items p" "revisions (h_archive p1) = filter (\<lambda>v. rev_media v \<noteq> m) (revisions (h_archive p))"
    using exec_all_Ok [OF p1]
    by (simp_all add: delete_relations_def delete_media_observations_def clear_revision_def delete_revisions_def delete_media_def)
  then have "p_sync_items ?q = p_sync_items p" "revisions (h_archive ?q) = filter (\<lambda>v. rev_media v \<noteq> m) (revisions (h_archive p))"
    by (simp_all add: schedule_media_blob_def schedule_blob_task_def Let_def split: option.split)
  moreover have "w \<in> raw_id ` set (raws_of_media (h_archive p) m)"
    using assms(2-5) by (force simp: raws_of_media_def list_ex_iff)
  ultimately have "erase_raws E i (raws_of_media (h_archive p) m) ?q \<noteq> Ok z"
    using assms(1,6) by (intro erase_raws_blocked [of x w]) auto
  with rest show False by blast
qed

lemma erase_media_frame:
  assumes "erase_exclusive_connection_media E p i m = Ok (p', n)" "(x, w) \<in> set (p_sync_items p)"
    and "w \<in> raw_id ` set (raws (h_archive p))"
  shows "p_sync_items p' = p_sync_items p" "w \<in> raw_id ` set (raws (h_archive p'))"
    "captures (h_archive p') = captures (h_archive p)"
    "revisions (h_archive p') = filter (\<lambda>v. rev_media v \<noteq> m) (revisions (h_archive p))"
proof -
  let ?b = "Option.bind (media_of (h_archive p) m) med_blob"
  from assms(1) obtain p1 k where p1: "exec_all ([delete_relations m, delete_media_observations m,
       \<lambda>q. q\<lparr>p_authority := filter (\<lambda>(a, _). Some a \<noteq> Option.bind (media_of (h_archive q) m) med_account) (p_authority q)\<rparr>,
       clear_revision m, delete_revisions m, delete_media m]) p = Ok p1"
    and rest: "erase_raws E i (raws_of_media (h_archive p) m) (fst (schedule_media_blob E i ?b p1)) = Ok (p', k)"
    by (auto simp: erase_exclusive_connection_media_def erase_media_rows_def Let_def case_prod_unfold simp del: exec_all.simps)
  let ?q = "fst (schedule_media_blob E i ?b p1)"
  have "p_sync_items p1 = p_sync_items p" "revisions (h_archive p1) = filter (\<lambda>v. rev_media v \<noteq> m) (revisions (h_archive p))"
    "captures (h_archive p1) = captures (h_archive p)" "raws (h_archive p1) = raws (h_archive p)"
    using exec_all_Ok [OF p1]
    by (simp_all add: delete_relations_def delete_media_observations_def clear_revision_def delete_revisions_def delete_media_def)
  then have q: "p_sync_items ?q = p_sync_items p" "raws (h_archive ?q) = raws (h_archive p)"
    "revisions (h_archive ?q) = filter (\<lambda>v. rev_media v \<noteq> m) (revisions (h_archive p))" "captures (h_archive ?q) = captures (h_archive p)"
    by (simp_all add: schedule_media_blob_def schedule_blob_task_def Let_def split: option.split)
  show "captures (h_archive p') = captures (h_archive p)"
    "revisions (h_archive p') = filter (\<lambda>v. rev_media v \<noteq> m) (revisions (h_archive p))"
    using erase_raws_same_rows [OF rest] q by (simp_all add: same_rows_def)
  show "p_sync_items p' = p_sync_items p" "w \<in> raw_id ` set (raws (h_archive p'))"
    using erase_raws_frame [OF rest, of x w] q assms(2,3) by simp_all
qed

lemma detach_media_blocked:
  assumes "(x, w) \<in> set (p_sync_items p)" "w \<in> raw_id ` set (raws (h_archive p))"
    and "v \<in> set (revisions (h_archive p))" "rev_media v = m" "rev_raw v = w"
    and "\<forall>u \<in> set (revisions (h_archive p)). rev_raw u = w \<longrightarrow> rev_media u = m"
    and "\<forall>k \<in> set (captures (h_archive p)). cap_media k \<noteq> Some m" "m \<in> med_id ` set ms"
  shows "detach_media E now i user ms p \<noteq> Ok y"
  using assms
proof (induction ms arbitrary: p y)
  case (Cons r ms)
  let ?q = "on_archive (media_removal E now i user r) p"
  have q: "p_sync_items ?q = p_sync_items p" "raws (h_archive ?q) = raws (h_archive p)"
    "revisions (h_archive ?q) = revisions (h_archive p)" "captures (h_archive ?q) = captures (h_archive p)"
    by (simp_all add: media_removal_def Let_def drop_events_def append_source_removal_fact_def insert_removal_def)
  show ?case
  proof (cases "list_ex (\<lambda>c. cap_media c = Some (med_id r)) (captures (h_archive p))")
    case True
    then have "med_id r \<noteq> m" using Cons.prems(7) by (auto simp: list_ex_iff)
    with Cons.prems(8) have "m \<in> med_id ` set ms" by auto
    with Cons True show ?thesis by (auto simp: exec_def)
  next
    case captured: False
    show ?thesis
    proof (cases "med_id r = m")
      case True
      have "erase_exclusive_connection_media E ?q i m \<noteq> Ok z" for z
        by (rule erase_media_blocked [of x w _ v]) (use Cons.prems q in simp_all)
      then show ?thesis using captured True by (auto split: if_splits)
    next
      case False
      with Cons.prems(8) have ms: "m \<in> med_id ` set ms" by auto
      have "detach_media E now i user ms p2 \<noteq> Ok z"
        if "erase_exclusive_connection_media E ?q i (med_id r) = Ok (p2, n)" for p2 n z
        by (rule Cons.IH)
          (use erase_media_frame [OF that, of x w] Cons.prems ms q False in auto)
      then show ?thesis using captured by (auto split: if_splits)
    qed
  qed
qed simp

lemma bind_result_Err_iff: "bind_result r f = Err e \<longleftrightarrow> r = Err e \<or> (\<exists>a. r = Ok a \<and> f a = Err e)"
  by (cases r) auto

lemma exec_errors: "exec s p = Err e \<Longrightarrow> e = DeletionPersistence"
  by (simp add: exec_def split: if_splits)

lemma persistence_errors:
  "exec_all ss p = Err e \<Longrightarrow> e = DeletionPersistence"
  "erase_raws E i rs p = Err e \<Longrightarrow> e = DeletionPersistence"
  "erase_media_rows before E p i m = Err e \<Longrightarrow> e = DeletionPersistence"
proof -
  show all: "exec_all ss p = Err e \<Longrightarrow> e = DeletionPersistence" for ss p
    by (induction ss arbitrary: p) (auto simp: bind_result_Err_iff dest: exec_errors)
  show raws: "erase_raws E i rs p = Err e \<Longrightarrow> e = DeletionPersistence" for rs p
    by (induction rs arbitrary: p) (auto simp: bind_result_Err_iff split: if_splits dest: exec_errors)
  show "erase_media_rows before E p i m = Err e \<Longrightarrow> e = DeletionPersistence"
    by (auto simp: erase_media_rows_def Let_def case_prod_unfold bind_result_Err_iff simp del: exec_all.simps append.simps
        dest: all raws)
qed

lemma detach_media_errors:
  "detach_media E now i user ms p = Err e \<Longrightarrow> e_instant_ok E now \<Longrightarrow> e = DeletionPersistence"
proof (induction ms arbitrary: p)
  case (Cons r ms)
  then show ?case
    by (auto simp: erase_exclusive_connection_media_def bind_result_Err_iff split: if_splits
        dest: persistence_errors exec_errors)
qed simp

text \<open>
  C38. A connection with synchronized media cannot be deleted: if a media row of the account that no
  capture holds has a revision whose raw record a synchronization item refers to and no other media row
  uses, as the finalization of a traversal leaves it, the owner's request to delete the connection is
  refused by the database, whatever else the state holds: the raw record is erased while the item still
  refers to it.
\<close>
theorem synced_connection_cannot_be_deleted:
  assumes "load_existing p request = Ok None" "require_owned p request" "dr_target request = TargetConnection a"
    and "e_instant_ok E now"
    and "x \<in> set (media (h_archive p))" "med_account x = Some a"
    and "\<forall>k \<in> set (captures (h_archive p)). cap_media k \<noteq> Some (med_id x)"
    and "v \<in> set (revisions (h_archive p))" "rev_media v = med_id x" "rev_raw v \<in> raw_id ` set (raws (h_archive p))"
    and "(run, rev_raw v) \<in> set (p_sync_items p)"
    and "\<forall>u \<in> set (revisions (h_archive p)). rev_raw u = rev_raw v \<longrightarrow> rev_media u = med_id x"
  shows "apply_deletion E now p request = Err DeletionPersistence"
proof -
  have "apply_connection_rows E now q (dr_operation request) (dr_user request) a = Err DeletionPersistence"
    if "media (h_archive q) = media (h_archive p)" "captures (h_archive q) = captures (h_archive p)"
      "revisions (h_archive q) = revisions (h_archive p)" "raws (h_archive q) = raws (h_archive p)"
      "p_sync_items q = p_sync_items p" for q
  proof -
    let ?ms = "sort_key med_id (filter (\<lambda>m. med_account m = Some a) (media (h_archive q)))"
    have "detach_media E now (dr_operation request) (dr_user request) ?ms q \<noteq> Ok y" for y
      by (rule detach_media_blocked [of run "rev_raw v" _ v "med_id x"]) (use assms that in auto)
    then have "detach_media E now (dr_operation request) (dr_user request) ?ms q = Err DeletionPersistence"
      using detach_media_errors assms(4) by (metis result.exhaust)
    then show ?thesis by (simp add: apply_connection_rows_def)
  qed
  then show ?thesis using assms(1-3) by (simp add: apply_deletion_def apply_target_rows_def case_prod_unfold Let_def)
qed

text \<open>A consistent database after one completed traversal with one item.\<close>

definition synced_media :: MediaRow where
  "synced_media = (held_media 1 (Some (Uuid 2 1)))\<lparr>med_acquisition := ''official_api'',
     med_authority := ''authoritative_platform_state'', med_provider := Some (ascii ''178'')\<rparr>"

definition synced_privacy :: privacy where
  "synced_privacy =
     \<lparr>h_archive = empty_archive\<lparr>media := [synced_media], raws := [held_raw 1], revisions := [held_revision 1]\<rparr>,
      h_exports = [], h_tasks = [], p_accounts = [(Uuid 2 1, Uuid 3 1)], p_links = [], p_notes = [], p_reresolution = [],
      p_relations = [], p_authority = [(Uuid 2 1, Uuid 9 1)], p_sync_state = [(Uuid 2 1, Some (Uuid 9 1))],
      p_sync_runs = [(Uuid 9 1, Uuid 2 1)], p_sync_items = [(Uuid 9 1, Uuid 6 1)], p_capabilities = [Uuid 2 1],
      p_permissions = [], p_profiles = [], p_usage = [], p_flows = [], p_credentials = [Uuid 2 1], p_audit = [], p_effects = []\<rparr>"

theorem synced_connection_cannot_be_deleted_witness:
  "fk_ok synced_privacy \<and>
   apply_deletion retention_env 10 synced_privacy
     \<lparr>dr_operation = Uuid 8 3, dr_user = Uuid 3 1, dr_target = TargetConnection (Uuid 2 1)\<rparr> = Err DeletionPersistence"
proof -
  have "fk_ok synced_privacy"
    by (simp add: synced_privacy_def synced_media_def fk_ok_def refers_def held_defs Let_def)
  then show ?thesis
    using synced_connection_cannot_be_deleted [of synced_privacy
        "\<lparr>dr_operation = Uuid 8 3, dr_user = Uuid 3 1, dr_target = TargetConnection (Uuid 2 1)\<rparr>" "Uuid 2 1"
        retention_env 10 synced_media "held_revision 1" "Uuid 9 1"]
    by (simp add: synced_privacy_def synced_media_def held_defs load_existing_def require_owned_def)
qed

end
