(* ===== verification/Export_Archive.thy ===== *)
theory Export_Archive
  imports Publishing "HOL-Library.List_Lexorder"
begin

text \<open>
  Model of \<^verbatim>\<open>data_export/archive.rs\<close>: the metadata-first validation of a hostile ZIP and the bounded
  read of one entry. The archive is the list of its bytes and a reader position into it, as for
  \<^verbatim>\<open>Cursor\<close>: seeking past the end succeeds, reading there fails. What the \<^verbatim>\<open>zip\<close> crate makes of the
  bytes is the argument \<open>zip_open\<close> (\<open>None\<close>: the structure is refused; an entry \<open>None\<close>: its header is
  refused), and what its decompressor emits is the argument \<open>reads\<close> (the \<open>k\<close>-th call; \<open>None\<close>: an error,
  the empty list: the end of the entry), which may go on for ever.
\<close>

section \<open>Limits and failures\<close>

record ArchiveLimits =
  max_entries :: nat
  max_entry_path_bytes :: nat
  max_path_depth :: nat
  max_total_compressed_bytes :: u64
  max_total_decompressed_bytes :: u64
  max_entry_decompressed_bytes :: u64
  max_compression_ratio :: u64

definition default_limits :: ArchiveLimits where
  "default_limits =
     \<lparr>max_entries = 20000, max_entry_path_bytes = 1024, max_path_depth = 12,
      max_total_compressed_bytes = 5 * 1024 * 1024 * 1024,
      max_total_decompressed_bytes = 20 * 1024 * 1024 * 1024,
      max_entry_decompressed_bytes = 64 * 1024 * 1024, max_compression_ratio = 200\<rparr>"

record InspectedEntry =
  ie_path :: rstr
  ie_compressed_size :: u64
  ie_decompressed_size :: u64

record ArchiveInventory =
  inv_entries :: "InspectedEntry list"
  inv_total_compressed :: u64
  inv_total_decompressed :: u64

datatype ArchiveFailureClass =
  Malformed | UnsafePath | DuplicateEntry | UnsupportedEntryType | UnsupportedEncoding | ResourceLimit

fun failure_class_str :: "ArchiveFailureClass \<Rightarrow> string" where
  "failure_class_str Malformed = ''archive_malformed''"
| "failure_class_str UnsafePath = ''archive_unsafe_path''"
| "failure_class_str DuplicateEntry = ''archive_duplicate_entry''"
| "failure_class_str UnsupportedEntryType = ''archive_unsupported_entry_type''"
| "failure_class_str UnsupportedEncoding = ''archive_unsupported_encoding''"
| "failure_class_str ResourceLimit = ''archive_resource_limit''"

datatype ArchiveError = ArchiveError (error_class: ArchiveFailureClass) (error_rule: string)

definition malformed :: "string \<Rightarrow> ArchiveError" where
  "malformed rule = ArchiveError Malformed rule"

definition unsafe_path :: "string \<Rightarrow> ArchiveError" where
  "unsafe_path rule = ArchiveError UnsafePath rule"

definition resource :: "string \<Rightarrow> ArchiveError" where
  "resource rule = ArchiveError ResourceLimit rule"

section \<open>Little-endian fields\<close>

text \<open>\<^verbatim>\<open>slice.get(a..b)\<close>.\<close>

definition get_range :: "'a list \<Rightarrow> nat \<Rightarrow> nat \<Rightarrow> 'a list option" where
  "get_range xs a b = (if a \<le> b \<and> b \<le> length xs then Some (take (b - a) (drop a xs)) else None)"

fun le_u16 :: "u8 list \<Rightarrow> u16 option" where
  "le_u16 [a, b] = Some (ucast a + 256 * ucast b)"
| "le_u16 _ = None"

fun le_u32 :: "u8 list \<Rightarrow> u32 option" where
  "le_u32 [a, b, c, d] = Some (ucast a + 256 * ucast b + 65536 * ucast c + 16777216 * ucast d)"
| "le_u32 _ = None"

definition field_u16 :: "u8 list \<Rightarrow> nat \<Rightarrow> string \<Rightarrow> (u16, ArchiveError) result" where
  "field_u16 bytes offset rule =
     (case get_range bytes offset (offset + 2) of
        None \<Rightarrow> Err (malformed rule) | Some f \<Rightarrow> ok_or (malformed rule) (le_u16 f))"

definition field_u32 :: "u8 list \<Rightarrow> nat \<Rightarrow> string \<Rightarrow> (u32, ArchiveError) result" where
  "field_u32 bytes offset rule =
     (case get_range bytes offset (offset + 4) of
        None \<Rightarrow> Err (malformed rule) | Some f \<Rightarrow> ok_or (malformed rule) (le_u32 f))"

text \<open>\<^verbatim>\<open>read_exact\<close> of \<open>n\<close> bytes at a position.\<close>

definition read_exact :: "u8 list \<Rightarrow> nat \<Rightarrow> nat \<Rightarrow> u8 list option" where
  "read_exact bytes pos n = get_range bytes pos (pos + n)"

section \<open>The end of the central directory\<close>

record EndOfCentralDirectory =
  eocd_count :: nat
  eocd_offset :: u64
  eocd_size :: u64

definition EOCD_MINIMUM :: nat where
  "EOCD_MINIMUM = 22"

definition EOCD_SEARCH :: nat where
  "EOCD_SEARCH = EOCD_MINIMUM + 65535"

definition EOCD_SIGNATURE :: "u8 list" where
  "EOCD_SIGNATURE = [0x50, 0x4b, 0x05, 0x06]"

definition eocd_at :: "u8 list \<Rightarrow> nat \<Rightarrow> bool" where
  "eocd_at tail position \<longleftrightarrow>
     get_range tail position (position + 4) = Some EOCD_SIGNATURE
     \<and> (case Option.bind (get_range tail (position + 20) (position + 22)) le_u16 of
          None \<Rightarrow> False
        | Some comment_length \<Rightarrow> position + 22 + unat comment_length = length tail)"

text \<open>The last window that is a signature whose comment ends the file.\<close>

definition eocd_position :: "u8 list \<Rightarrow> nat option" where
  "eocd_position tail = find (eocd_at tail) (rev [0 ..< Suc (length tail) - 4])"

definition eocd_fields :: "u8 list \<Rightarrow> nat \<Rightarrow> nat \<Rightarrow> (EndOfCentralDirectory, ArchiveError) result" where
  "eocd_fields tail start maximum =
     bind_result (ok_or (malformed ''eocd_missing'') (eocd_position tail)) (\<lambda>position.
     bind_result (field_u16 tail (position + 4) ''eocd_disk'') (\<lambda>disk.
     bind_result (field_u16 tail (position + 6) ''eocd_disk'') (\<lambda>directory_disk.
     bind_result (field_u16 tail (position + 8) ''eocd_count'') (\<lambda>disk_entries.
     bind_result (field_u16 tail (position + 10) ''eocd_count'') (\<lambda>total_entries.
       if disk \<noteq> 0 \<or> directory_disk \<noteq> 0 \<or> disk_entries \<noteq> total_entries then Err (malformed ''multi_disk'')
       else if total_entries = 0xffff then Err (resource ''zip64_entry_count'')
       else if maximum < unat total_entries then Err (resource ''entry_count'')
       else
         bind_result (field_u32 tail (position + 12) ''eocd_directory_size'') (\<lambda>size.
         bind_result (field_u32 tail (position + 16) ''eocd_directory_offset'') (\<lambda>off.
           if size = 0xffffffff \<or> off = 0xffffffff then Err (resource ''zip64_directory'')
           else if (case checked_add (ucast off :: u64) (ucast size) of
                      None \<Rightarrow> True | Some e \<Rightarrow> unat e \<noteq> start + position)
             then Err (malformed ''central_directory_bounds'')
           else Ok \<lparr>eocd_count = unat total_entries, eocd_offset = ucast off, eocd_size = ucast size\<rparr>)))))))"

text \<open>Only the last \<open>EOCD_SEARCH\<close> bytes are searched.\<close>

definition end_of_central_directory :: "u8 list \<Rightarrow> nat \<Rightarrow> (EndOfCentralDirectory, ArchiveError) result" where
  "end_of_central_directory bytes maximum =
     (if length bytes < EOCD_MINIMUM then Err (malformed ''eocd_missing'')
      else
        let tail_length = min (length bytes) EOCD_SEARCH
        in eocd_fields (drop (length bytes - tail_length) bytes) (length bytes - tail_length) maximum)"

section \<open>Header preflight\<close>

definition CENTRAL_SIGNATURE :: "u8 list" where
  "CENTRAL_SIGNATURE = [0x50, 0x4b, 0x01, 0x02]"

definition LOCAL_SIGNATURE :: "u8 list" where
  "LOCAL_SIGNATURE = [0x50, 0x4b, 0x03, 0x04]"

definition u16_bit0 :: "u16 \<Rightarrow> bool" where
  "u16_bit0 w \<longleftrightarrow> unat w mod 2 = 1"

text \<open>The local header a central header points at: it must agree with it and end before the directory.\<close>

definition check_local ::
  "u8 list \<Rightarrow> u64 \<Rightarrow> u16 \<Rightarrow> u16 \<Rightarrow> u8 list \<Rightarrow> nat \<Rightarrow> (unit, ArchiveError) result" where
  "check_local bytes directory_offset central_flags central_method central_name local_offset =
     bind_result (ok_or (malformed ''local_header_read'') (read_exact bytes local_offset 30)) (\<lambda>local.
       if take 4 local \<noteq> LOCAL_SIGNATURE then Err (malformed ''local_header_signature'')
       else
         bind_result (field_u16 local 6 ''local_flags'') (\<lambda>local_flags.
         bind_result (field_u16 local 8 ''local_method'') (\<lambda>local_method.
           if u16_bit0 central_flags \<or> u16_bit0 local_flags
             then Err (ArchiveError UnsupportedEncoding ''encrypted_entry'')
           else if central_flags \<noteq> local_flags then Err (malformed ''header_flags_mismatch'')
           else if central_method \<noteq> local_method then Err (malformed ''header_method_mismatch'')
           else if central_method \<noteq> 0 \<and> central_method \<noteq> 8
             then Err (ArchiveError UnsupportedEncoding ''compression_method'')
           else
             bind_result (field_u16 local 26 ''local_name_length'') (\<lambda>local_name_length.
             bind_result (field_u16 local 28 ''local_extra_length'') (\<lambda>local_extra_length.
               if unat local_name_length \<noteq> length central_name then Err (malformed ''header_name_length_mismatch'')
               else
                 bind_result (ok_or (malformed ''local_name_read'')
                     (read_exact bytes (local_offset + 30) (unat local_name_length))) (\<lambda>local_name.
                   if local_name \<noteq> central_name then Err (malformed ''header_name_mismatch'')
                   else if unat directory_offset
                        < local_offset + 30 + unat local_name_length + unat local_extra_length
                     then Err (malformed ''local_data_bounds'')
                   else Ok ()))))))"

text \<open>
  The loop over the central directory: \<open>n\<close> headers are left, \<open>pos\<close> is the position of the next one and
  \<open>names\<close> the raw names seen.
\<close>

fun preflight_loop ::
  "u8 list \<Rightarrow> ArchiveLimits \<Rightarrow> u64 \<Rightarrow> nat \<Rightarrow> nat \<Rightarrow> nat \<Rightarrow> u8 list list \<Rightarrow> (nat \<times> u8 list list, ArchiveError) result" where
  "preflight_loop bytes limits directory_offset directory_end 0 pos names = Ok (pos, names)"
| "preflight_loop bytes limits directory_offset directory_end (Suc n) pos names =
     bind_result (ok_or (malformed ''central_header_read'') (read_exact bytes pos 46)) (\<lambda>central.
       if take 4 central \<noteq> CENTRAL_SIGNATURE then Err (malformed ''central_header_signature'')
       else
         bind_result (field_u16 central 8 ''central_flags'') (\<lambda>central_flags.
         bind_result (field_u16 central 10 ''central_method'') (\<lambda>central_method.
         bind_result (field_u16 central 28 ''central_name_length'') (\<lambda>name_length.
         bind_result (field_u16 central 30 ''central_extra_length'') (\<lambda>extra_length.
         bind_result (field_u16 central 32 ''central_comment_length'') (\<lambda>comment_length.
           if unat name_length = 0 \<or> max_entry_path_bytes limits < unat name_length
             then Err (resource ''entry_path_bytes'')
           else
             bind_result (field_u32 central 42 ''local_header_offset'') (\<lambda>local_offset.
             bind_result (ok_or (malformed ''central_name_read'')
                 (read_exact bytes (pos + 46) (unat name_length))) (\<lambda>central_name.
               if central_name \<in> set names then Err (ArchiveError DuplicateEntry ''central_directory_duplicate'')
               else
                 let next_central = pos + 46 + unat name_length + unat extra_length + unat comment_length
                 in if directory_end < next_central then Err (malformed ''central_directory_bounds'')
                    else
                      bind_result (check_local bytes directory_offset central_flags central_method central_name
                          (unat local_offset)) (\<lambda>_.
                        preflight_loop bytes limits directory_offset directory_end n next_central
                          (names @ [central_name]))))))))))"

definition preflight_headers :: "u8 list \<Rightarrow> ArchiveLimits \<Rightarrow> (nat, ArchiveError) result" where
  "preflight_headers bytes limits =
     bind_result (end_of_central_directory bytes (max_entries limits)) (\<lambda>directory.
     bind_result (ok_or (malformed ''central_directory_overflow'')
         (checked_add (eocd_offset directory) (eocd_size directory))) (\<lambda>directory_end.
     bind_result (preflight_loop bytes limits (eocd_offset directory) (unat directory_end)
         (eocd_count directory) (unat (eocd_offset directory)) []) (\<lambda>(observed_end, _).
       if observed_end \<noteq> unat directory_end then Err (malformed ''central_directory_size'')
       else Ok (eocd_count directory))))"

section \<open>Paths\<close>

text \<open>\<^verbatim>\<open>std::str::from_utf8\<close>: the strict decoder, without overlong forms, surrogates or values past U+10FFFF.\<close>

definition continuation :: "u8 \<Rightarrow> bool" where
  "continuation b \<longleftrightarrow> 128 \<le> unat b \<and> unat b < 192"

fun from_utf8 :: "u8 list \<Rightarrow> rstr option" where
  "from_utf8 [] = Some []"
| "from_utf8 (a # bs) =
     (if unat a < 128 then map_option (Cons (unat a)) (from_utf8 bs)
      else (case bs of
        b # bs1 \<Rightarrow>
          if \<not> continuation b then None
          else if 194 \<le> unat a \<and> unat a < 224
            then map_option (Cons ((unat a - 192) * 64 + (unat b - 128))) (from_utf8 bs1)
          else (case bs1 of
            c # bs2 \<Rightarrow>
              if \<not> continuation c then None
              else if 224 \<le> unat a \<and> unat a < 240 \<and> (unat a = 224 \<longrightarrow> 160 \<le> unat b) \<and> (unat a = 237 \<longrightarrow> unat b < 160)
                then map_option (Cons ((unat a - 224) * 4096 + (unat b - 128) * 64 + (unat c - 128))) (from_utf8 bs2)
              else (case bs2 of
                d # bs3 \<Rightarrow>
                  if continuation d \<and> 240 \<le> unat a \<and> unat a < 245 \<and> (unat a = 240 \<longrightarrow> 144 \<le> unat b)
                    \<and> (unat a = 244 \<longrightarrow> unat b < 144)
                  then map_option (Cons ((unat a - 240) * 262144 + (unat b - 128) * 4096 + (unat c - 128) * 64
                         + (unat d - 128))) (from_utf8 bs3)
                  else None
              | [] \<Rightarrow> None)
          | [] \<Rightarrow> None)
      | [] \<Rightarrow> None))"

definition windows_drive_prefix :: "u8 list \<Rightarrow> bool" where
  "windows_drive_prefix raw =
     (case raw of
        a # b # c # _ \<Rightarrow> is_ascii_alphabetic (unat a) \<and> b = 58 \<and> c = 47
      | _ \<Rightarrow> False)"

definition dot :: rstr where "dot = [46]"

definition dot_dot :: rstr where "dot_dot = [46, 46]"

text \<open>
  \<^verbatim>\<open>Path::components\<close> on Unix: a leading slash is the root, empty components vanish, a dot is kept only
  in front, everything but a dot and two dots is \<^verbatim>\<open>Normal\<close>.
\<close>

definition only_normal_components :: "rstr \<Rightarrow> bool" where
  "only_normal_components path \<longleftrightarrow>
     take 1 path \<noteq> [47] \<and> hd (split_on 47 path) \<noteq> dot \<and> dot_dot \<notin> set (split_on 47 path)"

definition validate_path :: "u8 list \<Rightarrow> ArchiveLimits \<Rightarrow> (rstr, ArchiveError) result" where
  "validate_path raw limits =
     (if raw = [] \<or> max_entry_path_bytes limits < length raw \<or> 0 \<in> set raw \<or> 92 \<in> set raw
      then Err (unsafe_path ''path_bytes'')
      else (case from_utf8 raw of
        None \<Rightarrow> Err (unsafe_path ''path_utf8'')
      | Some path \<Rightarrow>
          if hd (split_on 47 path) = [] \<or> take 1 path = [47] \<or> windows_drive_prefix raw
            \<or> list_ex (\<lambda>component. component = [] \<or> component = dot \<or> component = dot_dot) (split_on 47 path)
            \<or> \<not> only_normal_components path
          then Err (unsafe_path ''path_components'')
          else if max_path_depth limits < length (split_on 47 path) then Err (resource ''path_depth'')
          else Ok path))"

section \<open>Inspection\<close>

datatype CompressionMethod = Stored | Deflated | OtherCompression

record ZipEntry =
  ze_encrypted :: bool
  ze_compression :: CompressionMethod
  ze_is_file :: bool
  ze_unix_mode :: "u32 option"
  ze_name_raw :: "u8 list"
  ze_size :: u64
  ze_compressed_size :: u64

type_synonym zip_open = "u8 list \<Rightarrow> ZipEntry option list option"

text \<open>The file-type nibble of a Unix mode, \<^verbatim>\<open>mode & 0o170000\<close>.\<close>

definition special_unix_type :: "u32 option \<Rightarrow> bool" where
  "special_unix_type mode =
     (case mode of
        None \<Rightarrow> False
      | Some m \<Rightarrow> let file_type = unat m mod 65536 div 4096 in file_type \<noteq> 0 \<and> file_type \<noteq> 8)"

definition exceeds_ratio :: "u64 \<Rightarrow> u64 \<Rightarrow> u64 \<Rightarrow> bool" where
  "exceeds_ratio decompressed compressed maximum \<longleftrightarrow>
     0 < decompressed \<and> (compressed = 0 \<or> saturating_mul compressed maximum < decompressed)"

definition checked_total :: "u64 \<Rightarrow> u64 \<Rightarrow> string \<Rightarrow> (u64, ArchiveError) result" where
  "checked_total so_far value rule = ok_or (resource rule) (checked_add so_far value)"

fun inspect_loop ::
  "ArchiveLimits \<Rightarrow> ZipEntry option list \<Rightarrow> ArchiveInventory \<Rightarrow> (ArchiveInventory, ArchiveError) result" where
  "inspect_loop limits [] acc = Ok acc"
| "inspect_loop limits (None # fs) acc = Err (malformed ''entry_header'')"
| "inspect_loop limits (Some f # fs) acc =
     (if ze_encrypted f then Err (ArchiveError UnsupportedEncoding ''encrypted_entry'')
      else if ze_compression f \<noteq> Stored \<and> ze_compression f \<noteq> Deflated
        then Err (ArchiveError UnsupportedEncoding ''compression_method'')
      else if \<not> ze_is_file f \<or> special_unix_type (ze_unix_mode f)
        then Err (ArchiveError UnsupportedEntryType ''regular_files_only'')
      else
        bind_result (validate_path (ze_name_raw f) limits) (\<lambda>path.
          if path \<in> ie_path ` set (inv_entries acc) then Err (ArchiveError DuplicateEntry ''duplicate_path'')
          else if max_entry_decompressed_bytes limits < ze_size f then Err (resource ''entry_decompressed_bytes'')
          else if exceeds_ratio (ze_size f) (ze_compressed_size f) (max_compression_ratio limits)
            then Err (resource ''compression_ratio'')
          else
            bind_result (checked_total (inv_total_compressed acc) (ze_compressed_size f) ''total_compressed_bytes'') (\<lambda>tc.
            bind_result (checked_total (inv_total_decompressed acc) (ze_size f) ''total_decompressed_bytes'') (\<lambda>td.
              if max_total_compressed_bytes limits < tc then Err (resource ''total_compressed_bytes'')
              else if max_total_decompressed_bytes limits < td then Err (resource ''total_decompressed_bytes'')
              else inspect_loop limits fs
                \<lparr>inv_entries = inv_entries acc @
                   [\<lparr>ie_path = path, ie_compressed_size = ze_compressed_size f, ie_decompressed_size = ze_size f\<rparr>],
                 inv_total_compressed = tc, inv_total_decompressed = td\<rparr>))))"

definition inspect_archive :: "zip_open \<Rightarrow> u8 list \<Rightarrow> ArchiveLimits \<Rightarrow> (ArchiveInventory, ArchiveError) result" where
  "inspect_archive zip_open bytes limits =
     bind_result (preflight_headers bytes limits) (\<lambda>declared_entries.
       (case zip_open bytes of
          None \<Rightarrow> Err (malformed ''zip_structure'')
        | Some files \<Rightarrow>
            if length files \<noteq> declared_entries
              then Err (ArchiveError DuplicateEntry ''central_directory_duplicate'')
            else if max_entries limits < length files then Err (resource ''entry_count'')
            else
              bind_result (inspect_loop limits files
                  \<lparr>inv_entries = [], inv_total_compressed = 0, inv_total_decompressed = 0\<rparr>) (\<lambda>inventory.
                Ok (inventory\<lparr>inv_entries := sort_key ie_path (inv_entries inventory)\<rparr>))))"

section \<open>Reading one entry\<close>

text \<open>
  One buffer read per step; \<open>None\<close> means the fuel ran out. The buffer holds 16384 bytes, so a length
  always fits \<^verbatim>\<open>u64\<close>.
\<close>

fun read_loop ::
  "nat \<Rightarrow> (nat \<Rightarrow> u8 list option) \<Rightarrow> ArchiveLimits \<Rightarrow> u64 \<Rightarrow> nat \<Rightarrow> u64 \<Rightarrow> u8 list
     \<Rightarrow> (u64 \<times> u8 list, ArchiveError) result option" where
  "read_loop 0 reads limits compressed k actual output = None"
| "read_loop (Suc fuel) reads limits compressed k actual output =
     (case reads k of
        None \<Rightarrow> Some (Err (malformed ''entry_read''))
      | Some [] \<Rightarrow> Some (Ok (actual, output))
      | Some chunk \<Rightarrow>
          (case checked_add actual (word_of_nat (length chunk)) of
             None \<Rightarrow> Some (Err (resource ''actual_entry_bytes''))
           | Some actual' \<Rightarrow>
               if max_entry_decompressed_bytes limits < actual'
                 then Some (Err (resource ''actual_entry_decompressed_bytes''))
               else if max_total_decompressed_bytes limits < actual'
                 then Some (Err (resource ''actual_total_decompressed_bytes''))
               else if exceeds_ratio actual' compressed (max_compression_ratio limits)
                 then Some (Err (resource ''actual_compression_ratio''))
               else read_loop fuel reads limits compressed (Suc k) actual' (output @ chunk)))"

definition read_inspected_entry ::
  "nat \<Rightarrow> (rstr \<Rightarrow> (nat \<Rightarrow> u8 list option) option) \<Rightarrow> ArchiveInventory \<Rightarrow> rstr \<Rightarrow> ArchiveLimits
     \<Rightarrow> (u8 list, ArchiveError) result option" where
  "read_inspected_entry fuel open_entry inventory entry_path limits =
     (case find (\<lambda>e. ie_path e = entry_path) (inv_entries inventory) of
        None \<Rightarrow> Some (Err (malformed ''entry_missing''))
      | Some inspected \<Rightarrow> (case open_entry entry_path of
          None \<Rightarrow> Some (Err (malformed ''entry_open''))
        | Some reads \<Rightarrow> (case read_loop fuel reads limits (ie_compressed_size inspected) 0 0 [] of
            None \<Rightarrow> None
          | Some (Err e) \<Rightarrow> Some (Err e)
          | Some (Ok (actual, output)) \<Rightarrow>
              if actual \<noteq> ie_decompressed_size inspected
              then Some (Err (malformed ''declared_actual_size_mismatch'')) else Some (Ok output))))"

definition read_archive_entry ::
  "nat \<Rightarrow> zip_open \<Rightarrow> (rstr \<Rightarrow> (nat \<Rightarrow> u8 list option) option) \<Rightarrow> u8 list \<Rightarrow> rstr \<Rightarrow> ArchiveLimits
     \<Rightarrow> (u8 list, ArchiveError) result option" where
  "read_archive_entry fuel zip_open open_entry bytes entry_path limits =
     (case inspect_archive zip_open bytes limits of
        Err e \<Rightarrow> Some (Err e)
      | Ok inventory \<Rightarrow>
          if zip_open bytes = None then Some (Err (malformed ''zip_structure''))
          else read_inspected_entry fuel open_entry inventory entry_path limits)"


section \<open>Decoding\<close>

lemma map_option_Cons_Some: "map_option (Cons x) r = Some p \<longleftrightarrow> (\<exists>q. r = Some q \<and> p = x # q)"
  by (cases r) auto

text \<open>Every ASCII character of a decoded string is a byte of its encoding.\<close>

lemma from_utf8_multibyte:
  assumes "from_utf8 (a # bs) = Some p" "\<not> unat a < 128"
  obtains k c q where "p = c # q" "128 \<le> c" "from_utf8 (drop k bs) = Some q"
proof (cases bs)
  case Nil
  with assms show ?thesis by simp
next
  case b: (Cons b bs1)
  show ?thesis
  proof (cases "194 \<le> unat a \<and> unat a < 224")
    case True
    with assms b obtain q where "p = ((unat a - 192) * 64 + (unat b - 128)) # q" "from_utf8 bs1 = Some q"
      by (auto simp: map_option_Cons_Some split: if_splits)
    moreover have "128 \<le> (unat a - 192) * 64" using True by linarith
    ultimately show ?thesis using b that [of _ q 1] by simp
  next
    case two: False
    from assms b two obtain c bs2 where c: "bs1 = c # bs2" by (cases bs1) (auto split: if_splits)
    show ?thesis
    proof (cases "224 \<le> unat a \<and> unat a < 240 \<and> (unat a = 224 \<longrightarrow> 160 \<le> unat b) \<and> (unat a = 237 \<longrightarrow> unat b < 160)")
      case True
      with assms b c two obtain q where q: "from_utf8 bs2 = Some q"
        "p = ((unat a - 224) * 4096 + (unat b - 128) * 64 + (unat c - 128)) # q"
        by (auto simp: map_option_Cons_Some split: if_splits)
      have "128 \<le> (unat a - 224) * 4096 + (unat b - 128) * 64"
        using True by (cases "unat a = 224") auto
      with q b c that [of _ q 2] show ?thesis by simp
    next
      case False
      from assms b c two False obtain d bs3 q where q: "bs2 = d # bs3" "from_utf8 bs3 = Some q" "240 \<le> unat a"
        "unat a = 240 \<longrightarrow> 144 \<le> unat b"
        "p = ((unat a - 240) * 262144 + (unat b - 128) * 4096 + (unat c - 128) * 64 + (unat d - 128)) # q"
        by (cases bs2) (auto simp: from_utf8.simps(2) [of a] map_option_Cons_Some simp del: from_utf8.simps split: if_splits)
      have "128 \<le> (unat a - 240) * 262144 + (unat b - 128) * 4096"
        using q(3,4) by (cases "unat a = 240") auto
      with q b c that [of _ q 3] show ?thesis by simp
    qed
  qed
qed

lemma from_utf8_ascii:
  "from_utf8 raw = Some p \<Longrightarrow> c \<in> set p \<Longrightarrow> c < 128 \<Longrightarrow> word_of_nat c \<in> set raw"
proof (induction raw arbitrary: p rule: length_induct)
  case (1 raw)
  show ?case
  proof (cases raw)
    case Nil
    with 1 show ?thesis by simp
  next
    case (Cons a bs)
    show ?thesis
    proof (cases "unat a < 128")
      case True
      with 1 Cons show ?thesis by (auto simp: map_option_Cons_Some)
    next
      case False
      obtain k d q where "p = d # q" "128 \<le> d" "from_utf8 (drop k bs) = Some q"
        by (rule from_utf8_multibyte [OF "1.prems"(1) [unfolded Cons] False])
      moreover have "length (drop k bs) < length raw" using Cons by simp
      ultimately have "word_of_nat c \<in> set (drop k bs)" using 1 by auto
      then show ?thesis using Cons set_drop_subset [of k bs] by auto
    qed
  qed
qed

definition scalar_value :: "nat \<Rightarrow> bool" where
  "scalar_value c \<longleftrightarrow> c < 55296 \<or> 57344 \<le> c \<and> c < 1114112"

lemma from_utf8_char:
  assumes "scalar_value c"
  shows "from_utf8 (utf8_char c @ bs) = map_option (Cons c) (from_utf8 bs)"
proof -
  have c: "c < 1114112" "\<not> (55296 \<le> c \<and> c < 57344)" using assms by (auto simp: scalar_value_def)
  consider (one) "c < 128" | (two) "128 \<le> c" "c < 2048" | (three) "2048 \<le> c" "c < 65536" | (four) "65536 \<le> c"
    by linarith
  then show ?thesis
  proof cases
    case one
    then show ?thesis by (simp add: utf8_char_def unat_byte)
  next
    case two
    then have d: "2 \<le> c div 64" "c div 64 < 32" by simp_all
    then have "unat (byte (192 + c div 64)) = 192 + c div 64" "unat (byte (128 + c mod 64)) = 128 + c mod 64"
      by (simp_all add: unat_byte)
    with two d show ?thesis by (simp add: utf8_char_def continuation_def)
  next
    case three
    then have d: "c div 4096 < 16" "c div 64 mod 64 < 64" by simp_all
    have u: "unat (byte (224 + c div 4096)) = 224 + c div 4096"
      "unat (byte (128 + c div 64 mod 64)) = 128 + c div 64 mod 64" "unat (byte (128 + c mod 64)) = 128 + c mod 64"
      using d by (simp_all add: unat_byte)
    have q: "c div 4096 = c div 64 div 64" by (simp flip: div_mult2_eq)
    have "32 \<le> c div 64" "\<not> (864 \<le> c div 64 \<and> c div 64 < 896)" using three c by linarith+
    then have "c div 4096 = 0 \<Longrightarrow> 32 \<le> c div 64 mod 64" "c div 4096 = 13 \<Longrightarrow> c div 64 mod 64 < 32"
      using div_mult_mod_eq [of "c div 64" 64] mod_less_divisor [of 64 "c div 64"] unfolding q by linarith+
    moreover have "c div 4096 * 4096 + c div 64 mod 64 * 64 + c mod 64 = c"
      using div_mult_mod_eq [of "c div 64" 64] div_mult_mod_eq [of c 64] unfolding q by linarith
    ultimately show ?thesis using three u d by (simp add: utf8_char_def continuation_def)
  next
    case four
    have d: "c div 262144 < 5" "c div 4096 mod 64 < 64" "c div 64 mod 64 < 64" using c by simp_all
    have u: "unat (byte (240 + c div 262144)) = 240 + c div 262144"
      "unat (byte (128 + c div 4096 mod 64)) = 128 + c div 4096 mod 64"
      "unat (byte (128 + c div 64 mod 64)) = 128 + c div 64 mod 64" "unat (byte (128 + c mod 64)) = 128 + c mod 64"
      using d by (simp_all add: unat_byte)
    have q: "c div 4096 = c div 64 div 64" "c div 262144 = c div 64 div 64 div 64" by (simp_all flip: div_mult2_eq)
    have "16 \<le> c div 64 div 64" "c div 64 div 64 < 272" using four c by linarith+
    then have "c div 262144 = 0 \<Longrightarrow> 16 \<le> c div 4096 mod 64" "c div 262144 = 4 \<Longrightarrow> c div 4096 mod 64 < 16"
      using div_mult_mod_eq [of "c div 64 div 64" 64] mod_less_divisor [of 64 "c div 64 div 64"] unfolding q by linarith+
    moreover have "c div 262144 * 262144 + c div 4096 mod 64 * 4096 + c div 64 mod 64 * 64 + c mod 64 = c"
      using div_mult_mod_eq [of "c div 64 div 64" 64] div_mult_mod_eq [of "c div 64" 64] div_mult_mod_eq [of c 64]
      unfolding q by linarith
    ultimately show ?thesis using four u d by (simp add: utf8_char_def continuation_def)
  qed
qed

text \<open>
  Decoding inverts encoding: the strict decoder that judges entry names returns exactly the text
  whose UTF-8 form it is given, for every text of Unicode scalar values.
\<close>
theorem from_utf8_inverts_utf8:
  assumes "list_all scalar_value s"
  shows "from_utf8 (utf8 s) = Some s"
  using assms by (induction s) (simp_all add: utf8_def from_utf8_char)

theorem from_utf8_inverts_utf8_witness:
  "from_utf8 (utf8 [97, 233, 8364, 128512]) = Some [97, 233, 8364, 128512]"
  by (rule from_utf8_inverts_utf8) (simp add: scalar_value_def)

section \<open>Paths\<close>

definition safe_path :: "ArchiveLimits \<Rightarrow> rstr \<Rightarrow> bool" where
  "safe_path limits p \<longleftrightarrow>
     (\<forall>component \<in> set (split_on 47 p). component \<noteq> [] \<and> component \<noteq> dot \<and> component \<noteq> dot_dot)
     \<and> 0 \<notin> set p \<and> 92 \<notin> set p \<and> length (split_on 47 p) \<le> max_path_depth limits"

lemma validate_path_safe:
  assumes "validate_path raw limits = Ok p"
  shows "safe_path limits p"
proof -
  from assms have raw: "0 \<notin> set raw" "92 \<notin> set raw" and dec: "from_utf8 raw = Some p"
    and comp: "\<not> list_ex (\<lambda>component. component = [] \<or> component = dot \<or> component = dot_dot) (split_on 47 p)"
    and depth: "length (split_on 47 p) \<le> max_path_depth limits"
    by (auto simp: validate_path_def split: if_splits option.splits)
  have "0 \<notin> set p" "92 \<notin> set p"
    using from_utf8_ascii [OF dec, of 0] from_utf8_ascii [OF dec, of 92] raw by auto
  with comp depth show ?thesis by (auto simp: safe_path_def list_ex_iff)
qed

section \<open>Inspection\<close>

text \<open>The ratio check in plain arithmetic: saturation never hides an excess.\<close>

lemma exceeds_ratio_exact: "exceeds_ratio d c m \<longleftrightarrow> unat c * unat m < unat d"
proof -
  have "unat d < 2 ^ LENGTH(64)" by (rule unsigned_less)
  then have "unat d \<le> 2 ^ 64 - 1" by simp
  then have "saturating_mul c m < d \<longleftrightarrow> unat c * unat m < unat d"
    by (auto simp: word_less_nat_alt unat_saturating_mul min_def)
  then show ?thesis by (auto simp: exceeds_ratio_def unat_gt_0 [symmetric] word_neq_0_conv [symmetric])
qed

definition entry_within :: "ArchiveLimits \<Rightarrow> InspectedEntry \<Rightarrow> bool" where
  "entry_within limits e \<longleftrightarrow> safe_path limits (ie_path e)
     \<and> ie_decompressed_size e \<le> max_entry_decompressed_bytes limits
     \<and> unat (ie_decompressed_size e) \<le> unat (ie_compressed_size e) * unat (max_compression_ratio limits)"

definition inventory_ok :: "ArchiveLimits \<Rightarrow> ArchiveInventory \<Rightarrow> bool" where
  "inventory_ok limits i \<longleftrightarrow>
     distinct (map ie_path (inv_entries i)) \<and> list_all (entry_within limits) (inv_entries i)
     \<and> unat (inv_total_compressed i) = sum_list (map (\<lambda>e. unat (ie_compressed_size e)) (inv_entries i))
     \<and> unat (inv_total_decompressed i) = sum_list (map (\<lambda>e. unat (ie_decompressed_size e)) (inv_entries i))
     \<and> inv_total_compressed i \<le> max_total_compressed_bytes limits
     \<and> inv_total_decompressed i \<le> max_total_decompressed_bytes limits"

lemma inspect_loop_ok:
  "inspect_loop limits fs acc = Ok i \<Longrightarrow> inventory_ok limits acc \<Longrightarrow>
   inventory_ok limits i \<and> length (inv_entries i) = length (inv_entries acc) + length fs"
proof (induction limits fs acc rule: inspect_loop.induct)
  case (3 limits f fs acc)
  from "3.prems"(1) obtain path tc td where
    path: "validate_path (ze_name_raw f) limits = Ok path" "path \<notin> ie_path ` set (inv_entries acc)"
    and size: "ze_size f \<le> max_entry_decompressed_bytes limits"
      "\<not> exceeds_ratio (ze_size f) (ze_compressed_size f) (max_compression_ratio limits)"
    and tot: "checked_add (inv_total_compressed acc) (ze_compressed_size f) = Some tc"
      "checked_add (inv_total_decompressed acc) (ze_size f) = Some td"
      "tc \<le> max_total_compressed_bytes limits" "td \<le> max_total_decompressed_bytes limits"
    and guards: "\<not> ze_encrypted f" "\<not> (ze_compression f \<noteq> Stored \<and> ze_compression f \<noteq> Deflated)"
      "\<not> (\<not> ze_is_file f \<or> special_unix_type (ze_unix_mode f))"
    and rest: "inspect_loop limits fs \<lparr>inv_entries = inv_entries acc @
        [\<lparr>ie_path = path, ie_compressed_size = ze_compressed_size f, ie_decompressed_size = ze_size f\<rparr>],
        inv_total_compressed = tc, inv_total_decompressed = td\<rparr> = Ok i"
    by (auto simp: checked_total_def not_less split: if_splits)
  let ?acc = "\<lparr>inv_entries = inv_entries acc @
        [\<lparr>ie_path = path, ie_compressed_size = ze_compressed_size f, ie_decompressed_size = ze_size f\<rparr>],
        inv_total_compressed = tc, inv_total_decompressed = td\<rparr>"
  have acc: "inventory_ok limits ?acc"
    using "3.prems"(2) path size tot validate_path_safe [OF path(1)]
    by (auto simp: inventory_ok_def entry_within_def exceeds_ratio_exact checked_add_eq_Some_iff not_less)
  have "inventory_ok limits i \<and> length (inv_entries i) = length (inv_entries ?acc) + length fs"
    by (rule "3.IH" [OF guards path(2)]) (use size tot rest acc in \<open>simp_all add: not_less\<close>)
  then show ?case by simp
qed auto

lemma inventory_ok_sort: "inventory_ok limits i \<Longrightarrow> inventory_ok limits (i\<lparr>inv_entries := sort_key ie_path (inv_entries i)\<rparr>)"
proof -
  have m: "mset (map f (sort_key ie_path xs)) = mset (map f xs)" for f :: "InspectedEntry \<Rightarrow> 'b" and xs by simp
  have "sum_list (map g (sort_key ie_path xs)) = sum_list (map g xs)" for g :: "InspectedEntry \<Rightarrow> nat" and xs
    by (metis m sum_mset_sum_list)
  moreover have "distinct (map ie_path (sort_key ie_path xs)) = distinct (map ie_path xs)" for xs :: "InspectedEntry list"
    by (simp add: distinct_map)
  ultimately show "inventory_ok limits i \<Longrightarrow>  inventory_ok limits (i\<lparr>inv_entries := sort_key ie_path (inv_entries i)\<rparr>)"
    by (simp add: inventory_ok_def list_all_iff)
qed

lemma eocd_count_bound: "end_of_central_directory bytes n = Ok d \<Longrightarrow> eocd_count d \<le> n"
  by (auto simp: end_of_central_directory_def eocd_fields_def Let_def split: if_splits)

text \<open>
  C8. An accepted archive is within every limit: its inventory lists at most the allowed number of
  entries, sorted and without a repeated path; no path is absolute, climbs out of its directory, is
  too deep or hides a NUL or backslash; every entry's size and compression ratio are within bounds;
  and the totals are the true sums, without wrap-around, and within bounds.
\<close>
theorem accepted_archive_is_within_limits:
  assumes "inspect_archive zip_open bytes limits = Ok i"
  shows "length (inv_entries i) \<le> max_entries limits \<and> sorted (map ie_path (inv_entries i)) \<and> inventory_ok limits i"
proof -
  let ?e = "\<lparr>inv_entries = [], inv_total_compressed = 0, inv_total_decompressed = 0\<rparr>"
  from assms obtain files j where files: "length files \<le> max_entries limits"
    and loop: "inspect_loop limits files ?e = Ok j" and i: "i = j\<lparr>inv_entries := sort_key ie_path (inv_entries j)\<rparr>"
    by (auto simp: inspect_archive_def not_less split: option.splits if_splits)
  have "inventory_ok limits ?e" by (simp add: inventory_ok_def)
  from inspect_loop_ok [OF loop this] files show ?thesis by (simp add: i inventory_ok_sort)
qed


definition sample_limits :: ArchiveLimits where
  "sample_limits = \<lparr>max_entries = 2, max_entry_path_bytes = 16, max_path_depth = 2, max_total_compressed_bytes = 64,
     max_total_decompressed_bytes = 64, max_entry_decompressed_bytes = 32, max_compression_ratio = 4\<rparr>"

text \<open>One stored, empty entry named \<open>a\<close>.\<close>

definition sample_local :: "u8 list" where
  "sample_local = LOCAL_SIGNATURE @ replicate 22 0 @ [1, 0, 0, 0, 97]"

definition sample_central :: "u8 list" where
  "sample_central = CENTRAL_SIGNATURE @ replicate 24 0 @ [1, 0] @ replicate 16 0 @ [97]"

definition sample_eocd :: "u8 list" where
  "sample_eocd = EOCD_SIGNATURE @ [0, 0, 0, 0, 1, 0, 1, 0, 47, 0, 0, 0, 31, 0, 0, 0, 0, 0]"

definition sample_zip :: "u8 list" where
  "sample_zip = sample_local @ sample_central @ sample_eocd"

definition sample_open :: zip_open where
  "sample_open bytes =
     Some [Some \<lparr>ze_encrypted = False, ze_compression = Stored, ze_is_file = True, ze_unix_mode = None,
       ze_name_raw = [97], ze_size = 0, ze_compressed_size = 0\<rparr>]"

lemma sample_zip_accepted:
  "inspect_archive sample_open sample_zip sample_limits =
     Ok \<lparr>inv_entries = [\<lparr>ie_path = [97], ie_compressed_size = 0, ie_decompressed_size = 0\<rparr>],
       inv_total_compressed = 0, inv_total_decompressed = 0\<rparr>"
proof -
  have "length sample_zip = 100" by code_simp
  moreover have "eocd_fields sample_zip 0 2 = Ok \<lparr>eocd_count = 1, eocd_offset = 31, eocd_size = 47\<rparr>" by code_simp
  ultimately have eocd: "end_of_central_directory sample_zip 2 = Ok \<lparr>eocd_count = 1, eocd_offset = 31, eocd_size = 47\<rparr>"
    by (simp add: end_of_central_directory_def EOCD_MINIMUM_def EOCD_SEARCH_def)
  have loop: "preflight_loop sample_zip sample_limits 31 78 1 31 [] = Ok (78, [[97]])" by code_simp
  have "max_entries sample_limits = 2" by (simp add: sample_limits_def)
  with eocd loop have pre: "preflight_headers sample_zip sample_limits = Ok 1"
    by (simp add: preflight_headers_def checked_add_def bind_result_def)
  have ent: "inspect_loop sample_limits (the (sample_open sample_zip))
      \<lparr>inv_entries = [], inv_total_compressed = 0, inv_total_decompressed = 0\<rparr> =
    Ok \<lparr>inv_entries = [\<lparr>ie_path = [97], ie_compressed_size = 0, ie_decompressed_size = 0\<rparr>],
        inv_total_compressed = 0, inv_total_decompressed = 0\<rparr>"
    by code_simp
  obtain files where "sample_open sample_zip = Some files" "length files = 1" by (simp add: sample_open_def)
  with pre ent show ?thesis
    by (simp add: inspect_archive_def bind_result_def \<open>max_entries sample_limits = 2\<close>)
qed

theorem accepted_archive_is_within_limits_witness:
  "\<exists>i. inspect_archive sample_open sample_zip sample_limits = Ok i \<and> length (inv_entries i) = 1
     \<and> length (inv_entries i) \<le> max_entries sample_limits \<and> inventory_ok sample_limits i"
  using accepted_archive_is_within_limits [OF sample_zip_accepted] sample_zip_accepted by simp

section \<open>The bounded read\<close>

lemma read_loop_bounded:
  assumes "\<And>k chunk. reads k = Some chunk \<Longrightarrow> length chunk \<le> 16384"
    and "unat actual = length out" "actual \<le> max_entry_decompressed_bytes limits"
    and "actual \<le> max_total_decompressed_bytes limits"
    and "unat (max_entry_decompressed_bytes limits) < fuel + unat actual"
    and "out = concat (map (\<lambda>k. the (reads k)) [0 ..< k])"
  shows "\<exists>r. read_loop fuel reads limits compressed k actual out = Some r \<and>
    (\<forall>actual' out'. r = Ok (actual', out') \<longrightarrow>
       unat actual' = length out' \<and> actual' \<le> max_entry_decompressed_bytes limits
       \<and> actual' \<le> max_total_decompressed_bytes limits
       \<and> (\<exists>n. reads n = Some [] \<and> out' = concat (map (\<lambda>k. the (reads k)) [0 ..< n])))"
  using assms
proof (induction fuel reads limits compressed k actual out rule: read_loop.induct)
  case (1 reads limits compressed k actual out)
  then show ?case by (simp add: word_le_nat_alt)
next
  case (2 fuel reads limits compressed k actual out)
  show ?case
  proof (cases "reads k")
    case None
    then show ?thesis by simp
  next
    case (Some chunk)
    show ?thesis
    proof (cases chunk)
      case Nil
      with Some 2 show ?thesis by auto
    next
      case (Cons x xs)
      have "length chunk \<le> 16384" using 2 Some by blast
      then have len: "unat (word_of_nat (length chunk) :: u64) = length chunk"
        by (simp add: unsigned_of_nat take_bit_nat_eq_self)
      show ?thesis
      proof (cases "\<exists>actual'. checked_add actual (word_of_nat (length chunk)) = Some actual'
          \<and> actual' \<le> max_entry_decompressed_bytes limits \<and> actual' \<le> max_total_decompressed_bytes limits
          \<and> \<not> exceeds_ratio actual' compressed (max_compression_ratio limits)")
        case True
        then obtain actual' where a: "checked_add actual (word_of_nat (length chunk)) = Some actual'"
          "\<not> max_entry_decompressed_bytes limits < actual'" "\<not> max_total_decompressed_bytes limits < actual'"
          "\<not> exceeds_ratio actual' compressed (max_compression_ratio limits)" by (auto simp: not_less)
        then have "unat actual' = unat actual + length chunk" by (simp add: checked_add_eq_Some_iff len)
        with a 2 Some Cons show ?thesis
          by (auto simp: not_less)
      next
        case False
        with Some Cons show ?thesis by (auto simp: not_less split: option.split)
      qed
    qed
  qed
qed

text \<open>
  C31. Reading one entry always ends within the decompression limit, whatever the decompressor emits: with a
  16384-byte buffer, one more step than the largest accepted entry has bytes is enough fuel. Accepted
  content is everything the decompressor emitted, has exactly the size the inventory declares, and is
  within both decompression limits.
\<close>
theorem entry_read_is_bounded:
  assumes "\<And>reads k chunk. open_entry entry_path = Some reads \<Longrightarrow> reads k = Some chunk \<Longrightarrow> length chunk \<le> 16384"
    and "unat (max_entry_decompressed_bytes limits) < fuel"
  shows "\<exists>r. read_inspected_entry fuel open_entry inventory entry_path limits = Some r \<and>
    (\<forall>out. r = Ok out \<longrightarrow>
       length out \<le> unat (max_entry_decompressed_bytes limits)
       \<and> length out \<le> unat (max_total_decompressed_bytes limits)
       \<and> (\<exists>e \<in> set (inv_entries inventory). ie_path e = entry_path \<and> length out = unat (ie_decompressed_size e))
       \<and> (\<exists>reads n. open_entry entry_path = Some reads \<and> reads n = Some []
            \<and> out = concat (map (\<lambda>k. the (reads k)) [0 ..< n])))"
proof (cases "find (\<lambda>e. ie_path e = entry_path) (inv_entries inventory)")
  case None
  then show ?thesis by (simp add: read_inspected_entry_def)
next
  case (Some e)
  then have e: "e \<in> set (inv_entries inventory)" "ie_path e = entry_path" by (auto simp: find_Some_iff)
  show ?thesis
  proof (cases "open_entry entry_path")
    case None
    with Some show ?thesis by (simp add: read_inspected_entry_def)
  next
    case reads: (Some reads)
    obtain r where r: "read_loop fuel reads limits (ie_compressed_size e) 0 0 [] = Some r"
      and ok: "\<And>actual out. r = Ok (actual, out) \<Longrightarrow> unat actual = length out
        \<and> actual \<le> max_entry_decompressed_bytes limits \<and> actual \<le> max_total_decompressed_bytes limits
        \<and> (\<exists>n. reads n = Some [] \<and> out = concat (map (\<lambda>k. the (reads k)) [0 ..< n]))"
      using read_loop_bounded [of reads 0 "[]" limits fuel 0 "ie_compressed_size e"] assms reads by auto
    show ?thesis
    proof (cases r)
      case (Err x)
      with Some reads r show ?thesis by (simp add: read_inspected_entry_def)
    next
      case (Ok p)
      obtain actual out where p: "p = (actual, out)" by (cases p)
      from ok [of actual out] Ok p have "unat actual = length out"
        "length out \<le> unat (max_entry_decompressed_bytes limits)"
        "length out \<le> unat (max_total_decompressed_bytes limits)"
        and n: "\<exists>n. reads n = Some [] \<and> out = concat (map (\<lambda>k. the (reads k)) [0 ..< n])"
        by (auto simp: word_le_nat_alt)
      with Some reads r Ok p e show ?thesis by (auto simp: read_inspected_entry_def)
    qed
  qed
qed

definition sample_reads :: "nat \<Rightarrow> u8 list option" where
  "sample_reads k = Some (if k = 0 then [1, 2] else if k = 1 then [3] else [])"

theorem entry_read_is_bounded_witness:
  "\<exists>r. read_inspected_entry 33 (\<lambda>_. Some sample_reads)
      \<lparr>inv_entries = [\<lparr>ie_path = [97], ie_compressed_size = 3, ie_decompressed_size = 3\<rparr>],
       inv_total_compressed = 3, inv_total_decompressed = 3\<rparr> [97] sample_limits = Some r \<and> r = Ok [1, 2, 3]
    \<and> (\<forall>out. r = Ok out \<longrightarrow> length out \<le> 32)"
proof -
  have "read_inspected_entry 33 (\<lambda>_. Some sample_reads)
      \<lparr>inv_entries = [\<lparr>ie_path = [97], ie_compressed_size = 3, ie_decompressed_size = 3\<rparr>],
       inv_total_compressed = 3, inv_total_decompressed = 3\<rparr> [97] sample_limits = Some (Ok [1, 2, 3])"
    by code_simp
  moreover have "length chunk \<le> 16384" if "Some sample_reads = Some reads" "reads k = Some chunk" for reads k chunk
    using that by (auto simp: sample_reads_def split: if_splits)
  ultimately show ?thesis
    using entry_read_is_bounded [of "\<lambda>_. Some sample_reads" "[97]" sample_limits 33
      "\<lparr>inv_entries = [\<lparr>ie_path = [97], ie_compressed_size = 3, ie_decompressed_size = 3\<rparr>],
       inv_total_compressed = 3, inv_total_decompressed = 3\<rparr>"]
    by (auto simp: sample_limits_def)
qed

end
