(* ===== verification/Export_Parser.thy ===== *)
theory Export_Parser
  imports Export_Archive "HOL-Library.Product_Lexorder"
begin

text \<open>
  Model of \<^verbatim>\<open>data_export/parser.rs\<close>: the versioned parser of one export layout. \<^verbatim>\<open>serde_json\<close> reading
  and writing are the arguments collected in \<open>json_env\<close>; a JSON object is the list of its fields in the
  order of the map, without repeated names. Deserializing a struct from a value, which is derived
  code, accepts an object with exactly the struct's fields or an array with exactly its values.
\<close>

section \<open>JSON values\<close>

datatype json = JNull | JBool bool | JInt int | JFloat string | JStr rstr | JArr "json list" | JObj "(rstr \<times> json) list"

definition struct_fields :: "rstr list \<Rightarrow> json \<Rightarrow> json list option" where
  "struct_fields names v =
     (case v of
        JObj fs \<Rightarrow>
          if list_all (\<lambda>f. fst f \<in> set names) fs \<and> list_all (\<lambda>n. n \<in> fst ` set fs) names
          then Some (map (\<lambda>n. the (map_of fs n)) names) else None
      | JArr vs \<Rightarrow> if length vs = length names then Some vs else None
      | _ \<Rightarrow> None)"

definition as_string :: "json \<Rightarrow> rstr option" where
  "as_string v = (case v of JStr s \<Rightarrow> Some s | _ \<Rightarrow> None)"

definition as_i64 :: "json \<Rightarrow> int option" where
  "as_i64 v = (case v of JInt n \<Rightarrow> if - (2 ^ 63) \<le> n \<and> n < 2 ^ 63 then Some n else None | _ \<Rightarrow> None)"

section \<open>Output\<close>

definition SAVED_POSTS_PATH :: rstr where
  "SAVED_POSTS_PATH = ascii ''your_instagram_activity/saved/saved_posts.json''"

definition SAVED_SECTION :: rstr where
  "SAVED_SECTION = ascii ''saved_saved_media''"

definition DETECTED_LAYOUT :: string where
  "DETECTED_LAYOUT = ''instagram-json-saved-posts''"

definition DATA_EXPORT_PARSER_ID :: string where
  "DATA_EXPORT_PARSER_ID = ''instagram-saved-posts-json-v1''"

record SemanticRecord =
  sr_shortcode :: rstr
  sr_canonical_url :: rstr
  sr_display_author :: "rstr option"
  sr_observed_at_unix :: int
  sr_acquisition :: string
  sr_authority :: string

record ParsedExportRecord =
  per_content :: SemanticRecord
  per_digest :: string

record UnknownExportEntry =
  uee_path :: rstr
  uee_compressed_size :: u64
  uee_decompressed_size :: u64
  uee_media_reference :: bool
  uee_byte_status :: string

record UnknownExportRecord =
  uer_evidence_key :: rstr
  uer_digest :: string
  uer_raw :: json

record ParserWarning =
  pw_code :: string
  pw_evidence_key :: rstr

record ParsedExport =
  pe_parser_id :: string
  pe_detected_layout :: string
  pe_records :: "ParsedExportRecord list"
  pe_categories :: "string list"
  pe_unknown_entries :: "UnknownExportEntry list"
  pe_unknown_records :: "UnknownExportRecord list"
  pe_warnings :: "ParserWarning list"
  pe_known_entry_digest :: string

datatype ParserError = ParserArchive ArchiveError | UnsupportedLayout | InvalidJson

fun parser_error_class :: "ParserError \<Rightarrow> string" where
  "parser_error_class (ParserArchive _) = ''parser_archive_refused''"
| "parser_error_class UnsupportedLayout = ''parser_unsupported_layout''"
| "parser_error_class InvalidJson = ''parser_invalid_json''"

record json_env =
  j_parse :: "u8 list \<Rightarrow> json option"
  j_value_bytes :: "json \<Rightarrow> u8 list"
  j_record_bytes :: "SemanticRecord \<Rightarrow> u8 list"
  j_known_bytes :: "ParsedExportRecord list \<Rightarrow> UnknownExportRecord list \<Rightarrow> u8 list"
  j_unix_ok :: "int \<Rightarrow> bool"
  j_sha256 :: "u8 list \<Rightarrow> u8 list"

definition digest_json :: "json_env \<Rightarrow> u8 list \<Rightarrow> string" where
  "digest_json J bytes = hex_encode (j_sha256 J bytes)"

section \<open>Records\<close>

record SavedMedia =
  sm_title :: rstr
  sm_href :: rstr
  sm_timestamp :: int

definition saved_on_of :: "json \<Rightarrow> (rstr \<times> int) option" where
  "saved_on_of v =
     (case struct_fields [ascii ''href'', ascii ''timestamp''] v of
        Some [h, t] \<Rightarrow> (case (as_string h, as_i64 t) of (Some href, Some timestamp) \<Rightarrow> Some (href, timestamp) | _ \<Rightarrow> None)
      | _ \<Rightarrow> None)"

definition saved_media_of :: "json \<Rightarrow> SavedMedia option" where
  "saved_media_of v =
     (case struct_fields [ascii ''title'', ascii ''string_map_data''] v of
        Some [t, m] \<Rightarrow>
          (case (as_string t, struct_fields [ascii ''Saved on''] m) of
             (Some title, Some [s]) \<Rightarrow>
               map_option (\<lambda>(href, timestamp). \<lparr>sm_title = title, sm_href = href, sm_timestamp = timestamp\<rparr>) (saved_on_of s)
           | _ \<Rightarrow> None)
      | _ \<Rightarrow> None)"

definition bounded_display_author :: "rstr \<Rightarrow> rstr option" where
  "bounded_display_author value =
     (let trimmed = trim value
      in if trimmed \<noteq> [] \<and> str_len trimmed \<le> 256 \<and> \<not> list_ex is_control trimmed then Some trimmed else None)"

text \<open>One element of the saved array: a normalized record, or the code it is kept unknown under.\<close>

definition parse_saved :: "json_env \<Rightarrow> json \<Rightarrow> (ParsedExportRecord, string) result" where
  "parse_saved J value =
     (case saved_media_of value of
        None \<Rightarrow> Err ''unknown_saved_record''
      | Some wire \<Rightarrow> (case canonicalize (sm_href wire) of
          Err _ \<Rightarrow> Err ''invalid_saved_permalink''
        | Ok canonical \<Rightarrow>
            if \<not> j_unix_ok J (sm_timestamp wire) then Err ''invalid_observation_timestamp''
            else
              let content = \<lparr>sr_shortcode = shortcode canonical, sr_canonical_url = url canonical,
                             sr_display_author = bounded_display_author (sm_title wire),
                             sr_observed_at_unix = sm_timestamp wire, sr_acquisition = ''data_export'',
                             sr_authority = ''export_observation''\<rparr>
              in Ok \<lparr>per_content = content, per_digest = digest_json J (j_record_bytes J content)\<rparr>))"

section \<open>Unknown evidence\<close>

fun decimal :: "nat \<Rightarrow> rstr" where
  "decimal n = (if n < 10 then [48 + n] else decimal (n div 10) @ [48 + n mod 10])"

declare decimal.simps [simp del]

definition unknown_key :: "string \<Rightarrow> nat \<Rightarrow> rstr" where
  "unknown_key digest ordinal = ascii ''unknown_record:'' @ ascii digest @ [58] @ decimal ordinal"

fun rsplit_once :: "nat \<Rightarrow> rstr \<Rightarrow> rstr option" where
  "rsplit_once c [] = None"
| "rsplit_once c (x # xs) = (case rsplit_once c xs of Some r \<Rightarrow> Some r | None \<Rightarrow> if x = c then Some xs else None)"

definition MEDIA_EXTENSIONS :: "rstr list" where
  "MEDIA_EXTENSIONS = map ascii [''jpg'', ''jpeg'', ''png'', ''webp'', ''gif'', ''mp4'', ''mov'']"

definition media_reference_path :: "rstr \<Rightarrow> bool" where
  "media_reference_path path \<longleftrightarrow>
     take 6 path = ascii ''media/'' \<and>
     (case rsplit_once 46 path of
        None \<Rightarrow> False | Some extension \<Rightarrow> map to_ascii_lowercase extension \<in> set MEDIA_EXTENSIONS)"

definition unknown_entry :: "InspectedEntry \<Rightarrow> UnknownExportEntry" where
  "unknown_entry e =
     \<lparr>uee_path = ie_path e, uee_compressed_size = ie_compressed_size e, uee_decompressed_size = ie_decompressed_size e,
      uee_media_reference = media_reference_path (ie_path e),
      uee_byte_status = (if media_reference_path (ie_path e) then ''not_archived_separately'' else ''not_applicable'')\<rparr>"

section \<open>The parser\<close>

text \<open>Every element of the array and every other field of the section, with its unknown code and digest.\<close>

definition pending_unknown :: "json_env \<Rightarrow> json list \<Rightarrow> (rstr \<times> json) list \<Rightarrow> (string \<times> string \<times> json) list" where
  "pending_unknown J saved rest =
     map (\<lambda>(code, raw). (code, digest_json J (j_value_bytes J raw), raw))
       (List.map_filter (\<lambda>v. case parse_saved J v of Err code \<Rightarrow> Some (code, v) | Ok _ \<Rightarrow> None) saved
        @ map (\<lambda>f. (''unknown_saved_section_field'', JObj [f])) rest)"

definition parse_saved_posts :: "json_env \<Rightarrow> u8 list \<Rightarrow> ArchiveInventory \<Rightarrow> (ParsedExport, ParserError) result" where
  "parse_saved_posts J bytes inventory =
     (case j_parse J bytes of
        Some (JObj root) \<Rightarrow>
          (case map_of root SAVED_SECTION of
             None \<Rightarrow> Err UnsupportedLayout
           | Some (JArr saved) \<Rightarrow>
               let records = sort_key (\<lambda>r. (sr_shortcode (per_content r), ascii (per_digest r)))
                     (List.map_filter (\<lambda>v. case parse_saved J v of Ok r \<Rightarrow> Some r | Err _ \<Rightarrow> None) saved);
                   pending = sort_key (\<lambda>(_, digest, _). ascii digest)
                     (pending_unknown J saved (filter (\<lambda>f. fst f \<noteq> SAVED_SECTION) root));
                   numbered = zip [0 ..< length pending] pending;
                   unknown_records = map (\<lambda>(n, (_, digest, raw)).
                     \<lparr>uer_evidence_key = unknown_key digest n, uer_digest = digest, uer_raw = raw\<rparr>) numbered;
                   unknown_entries = sort_key uee_path
                     (map unknown_entry (filter (\<lambda>e. ie_path e \<noteq> SAVED_POSTS_PATH) (inv_entries inventory)));
                   warnings =
                     map (\<lambda>(n, (code, digest, _)). \<lparr>pw_code = code, pw_evidence_key = unknown_key digest n\<rparr>) numbered
                     @ map (\<lambda>e. \<lparr>pw_code = ''unknown_archive_section'', pw_evidence_key = ascii ''entry:'' @ uee_path e\<rparr>)
                         unknown_entries
                     @ map (\<lambda>e. \<lparr>pw_code = ''media_bytes_reference_only'', pw_evidence_key = ascii ''entry:'' @ uee_path e\<rparr>)
                         (filter uee_media_reference unknown_entries)
               in Ok \<lparr>pe_parser_id = DATA_EXPORT_PARSER_ID, pe_detected_layout = DETECTED_LAYOUT, pe_records = records,
                      pe_categories = [''saved_posts''], pe_unknown_entries = unknown_entries,
                      pe_unknown_records = unknown_records,
                      pe_warnings = sort_key (\<lambda>w. (ascii (pw_code w), pw_evidence_key w)) warnings,
                      pe_known_entry_digest = digest_json J (j_known_bytes J records unknown_records)\<rparr>
           | Some _ \<Rightarrow> Err InvalidJson)
      | _ \<Rightarrow> Err InvalidJson)"

definition missing_or_archive :: "ArchiveInventory \<Rightarrow> ArchiveError \<Rightarrow> ParserError" where
  "missing_or_archive inventory e =
     (if list_ex (\<lambda>i. ie_path i = SAVED_POSTS_PATH) (inv_entries inventory) then ParserArchive e else UnsupportedLayout)"

text \<open>\<open>None\<close> is a bounded read that ran out of fuel.\<close>

definition parse_export ::
  "nat \<Rightarrow> json_env \<Rightarrow> zip_open \<Rightarrow> (rstr \<Rightarrow> (nat \<Rightarrow> u8 list option) option) \<Rightarrow> u8 list \<Rightarrow> ArchiveLimits
     \<Rightarrow> (ParsedExport, ParserError) result option" where
  "parse_export fuel J zip_open open_entry bytes limits =
     (case inspect_archive zip_open bytes limits of
        Err e \<Rightarrow> Some (Err (ParserArchive e))
      | Ok inventory \<Rightarrow>
          map_option (\<lambda>r. bind_result (map_err (missing_or_archive inventory) r) (\<lambda>json. parse_saved_posts J json inventory))
            (read_archive_entry fuel zip_open open_entry bytes SAVED_POSTS_PATH limits))"

section \<open>Evidence keys\<close>

lemma decimal_digits: "c \<in> set (decimal n) \<Longrightarrow> 48 \<le> c \<and> c \<le> 57"
proof (induction n rule: decimal.induct)
  case (1 n)
  then show ?case by (subst (asm) decimal.simps) (auto split: if_splits)
qed

lemma decimal_not_Nil: "decimal n \<noteq> []" "[] \<noteq> decimal n"
  by (subst decimal.simps, simp)+

lemma decimal_inject: "decimal m = decimal n \<Longrightarrow> m = n"
proof (induction m arbitrary: n rule: decimal.induct)
  case (1 m)
  have eq: "(if m < 10 then [48 + m] else decimal (m div 10) @ [48 + m mod 10]) =
      (if n < 10 then [48 + n] else decimal (n div 10) @ [48 + n mod 10])"
    using "1.prems" by (simp only: decimal.simps [symmetric])
  show ?case
  proof (cases "m < 10")
    case True
    with eq show ?thesis by (auto simp: decimal_not_Nil split: if_splits)
  next
    case False
    with eq have "\<not> n < 10" "decimal (m div 10) = decimal (n div 10)" "m mod 10 = n mod 10"
      by (auto simp: decimal_not_Nil split: if_splits)
    with "1.IH" False have "m div 10 = n div 10" by blast
    with \<open>m mod 10 = n mod 10\<close> show ?thesis by (metis div_mult_mod_eq)
  qed
qed

lemma split_last_sep:
  assumes "a @ [c] @ x = b @ [c] @ y" "c \<notin> set x" "c \<notin> set y"
  shows "x = y"
proof -
  have "rev x @ c # rev a = rev y @ c # rev b"
    using arg_cong [OF assms(1), of rev] by simp
  then have "takeWhile (\<lambda>z. z \<noteq> c) (rev x @ c # rev a) = takeWhile (\<lambda>z. z \<noteq> c) (rev y @ c # rev b)" by simp
  moreover have "takeWhile (\<lambda>z. z \<noteq> c) (rev w @ c # v) = rev w" if "c \<notin> set w" for v w
    using that by (subst takeWhile_append2) auto
  ultimately show ?thesis using assms(2,3) by simp
qed

lemma unknown_key_inject: "unknown_key d m = unknown_key e n \<Longrightarrow> m = n"
proof -
  assume "unknown_key d m = unknown_key e n"
  then have "(ascii ''unknown_record:'' @ ascii d) @ [58] @ decimal m = (ascii ''unknown_record:'' @ ascii e) @ [58] @ decimal n"
    by (simp add: unknown_key_def)
  then have "decimal m = decimal n"
    by (rule split_last_sep) (use decimal_digits in \<open>force\<close>)+
  then show "m = n" by (rule decimal_inject)
qed

section \<open>Nothing is dropped\<close>

lemma parse_saved_Ok:
  assumes "parse_saved J v = Ok x"
  shows "sr_authority (per_content x) = ''export_observation''
    \<and> (\<exists>href p. canonicalize href = Ok p \<and> sr_canonical_url (per_content x) = url (p :: CanonicalPermalink)
         \<and> sr_shortcode (per_content x) = shortcode p)"
proof -
  obtain wire where w: "saved_media_of v = Some wire" using assms by (auto simp: parse_saved_def split: option.splits)
  obtain p :: CanonicalPermalink where p: "canonicalize (sm_href wire) = Ok p"
    using assms w by (auto simp: parse_saved_def split: result.splits)
  have "sr_authority (per_content x) = ''export_observation''" "sr_canonical_url (per_content x) = url p"
    "sr_shortcode (per_content x) = shortcode p"
    using assms w p by (auto simp: parse_saved_def Let_def split: if_splits)
  with p show ?thesis by blast
qed

lemma set_map_filter_option: "y \<in> set (List.map_filter f xs) \<longleftrightarrow> (\<exists>x \<in> set xs. f x = Some y)"
  by (induction xs) (auto simp: List.map_filter_simps split: option.splits)

definition others :: "(rstr \<times> json) list \<Rightarrow> (rstr \<times> json) list" where
  "others root = filter (\<lambda>f. fst f \<noteq> SAVED_SECTION) root"

definition numbered :: "json_env \<Rightarrow> json list \<Rightarrow> (rstr \<times> json) list \<Rightarrow> (nat \<times> string \<times> string \<times> json) list" where
  "numbered J saved rest =
     (let pending = sort_key (\<lambda>(_, digest, _). ascii digest) (pending_unknown J saved rest)
      in zip [0 ..< length pending] pending)"

text \<open>What is kept unknown and why: the refused elements of the array and the other fields of the section.\<close>

definition kept_unknown :: "json_env \<Rightarrow> json list \<Rightarrow> (rstr \<times> json) list \<Rightarrow> (string \<times> json) list" where
  "kept_unknown J saved rest =
     List.map_filter (\<lambda>v. case parse_saved J v of Err code \<Rightarrow> Some (code, v) | Ok _ \<Rightarrow> None) saved
     @ map (\<lambda>f. (''unknown_saved_section_field'', JObj [f])) rest"

definition entry_key :: "UnknownExportEntry \<Rightarrow> rstr" where
  "entry_key x = ascii ''entry:'' @ uee_path x"

lemma parse_saved_posts_Ok:
  assumes "parse_saved_posts J bytes inventory = Ok e"
  obtains root saved where "j_parse J bytes = Some (JObj root)" "map_of root SAVED_SECTION = Some (JArr saved)"
    "mset (pe_records e) = mset (List.map_filter (\<lambda>v. case parse_saved J v of Ok r \<Rightarrow> Some r | Err _ \<Rightarrow> None) saved)"
    "pe_unknown_records e = map (\<lambda>(n, (_, digest, raw)).
       \<lparr>uer_evidence_key = unknown_key digest n, uer_digest = digest, uer_raw = raw\<rparr>) (numbered J saved (others root))"
    "mset (pe_unknown_entries e) = mset (map unknown_entry (filter (\<lambda>e. ie_path e \<noteq> SAVED_POSTS_PATH) (inv_entries inventory)))"
    "mset (pe_warnings e) =
       mset (map (\<lambda>(n, (code, digest, _)). \<lparr>pw_code = code, pw_evidence_key = unknown_key digest n\<rparr>) (numbered J saved (others root)))
       + mset (map (\<lambda>x. \<lparr>pw_code = ''unknown_archive_section'', pw_evidence_key = entry_key x\<rparr>) (pe_unknown_entries e))
       + mset (map (\<lambda>x. \<lparr>pw_code = ''media_bytes_reference_only'', pw_evidence_key = entry_key x\<rparr>)
           (filter uee_media_reference (pe_unknown_entries e)))"
proof -
  obtain root where r: "j_parse J bytes = Some (JObj root)"
    using assms by (auto simp: parse_saved_posts_def split: option.splits json.splits)
  obtain saved where s: "map_of root SAVED_SECTION = Some (JArr saved)"
    using assms r by (auto simp: parse_saved_posts_def split: option.splits json.splits)
  have e: "e = (case parse_saved_posts J bytes inventory of Ok x \<Rightarrow> x)" using assms by simp
  show ?thesis
    by (rule that [OF r s]) (simp_all add: e parse_saved_posts_def r s Let_def numbered_def others_def entry_key_def)
qed

lemma map_zip_indices: "map (\<lambda>(n, x). f x) (zip [0 ..< length xs] xs) = map f xs"
  by (rule nth_equalityI) simp_all

lemma kept_unknown_raws:
  "map snd (kept_unknown J saved rest) = filter (\<lambda>v. \<not> is_ok (parse_saved J v)) saved @ map (\<lambda>f. JObj [f]) rest"
proof -
  have "map snd (List.map_filter (\<lambda>v. case parse_saved J v of Err code \<Rightarrow> Some (code, v) | Ok _ \<Rightarrow> None) vs) =
      filter (\<lambda>v. \<not> is_ok (parse_saved J v)) vs" for vs
    by (induction vs) (auto simp: List.map_filter_simps split: result.splits)
  then show ?thesis by (simp add: kept_unknown_def)
qed

lemma numbered_kept:
  "mset (map (\<lambda>(n, (code, digest, raw)). (code, raw)) (numbered J saved rest)) = mset (kept_unknown J saved rest)"
proof -
  have "map (\<lambda>(n, (code, digest, raw)). (code, raw)) (numbered J saved rest) =
      map (\<lambda>(code, digest, raw). (code, raw)) (sort_key (\<lambda>(_, digest, _). ascii digest) (pending_unknown J saved rest))"
    unfolding numbered_def Let_def by (rule map_zip_indices)
  then have "mset (map (\<lambda>(n, (code, digest, raw)). (code, raw)) (numbered J saved rest)) =
      mset (map (\<lambda>(code, digest, raw). (code, raw)) (pending_unknown J saved rest))"
    by (simp only: mset_map mset_sort)
  moreover have "map (\<lambda>(code, digest, raw). (code, raw)) (pending_unknown J saved rest) = kept_unknown J saved rest"
    by (simp add: pending_unknown_def kept_unknown_def comp_def case_prod_unfold)
  ultimately show ?thesis by (simp only:)
qed

lemma distinct_entry_keys: "distinct (map entry_key xs) \<longleftrightarrow> distinct (map uee_path xs)"
proof -
  have "inj (\<lambda>p. ascii ''entry:'' @ p)" by (simp add: inj_def)
  moreover have "map entry_key xs = map (\<lambda>p. ascii ''entry:'' @ p) (map uee_path xs)" by (simp add: entry_key_def)
  ultimately show ?thesis by (metis distinct_map inj_on_subset subset_UNIV)
qed

lemma record_key_no_entry_key: "unknown_key d n \<noteq> entry_key x"
  by (simp add: unknown_key_def entry_key_def ascii_def)

lemma distinct_unknown_keys:
  "distinct (map (\<lambda>(n, (c, digest, raw)). unknown_key digest n) (numbered J saved rest))"
proof -
  have "inj_on (\<lambda>(n, (c :: string), digest, (raw :: json)). unknown_key digest n) (set (zip [0 ..< length xs] xs))" for xs
    by (rule inj_onI) (auto dest!: unknown_key_inject simp: set_zip, (metis prod.inject)+)
  moreover have "distinct (zip [0 ..< length xs] xs)" for xs :: "(string \<times> string \<times> json) list" by (simp add: distinct_zipI1)
  ultimately show ?thesis unfolding numbered_def Let_def distinct_map by blast
qed

lemma map2_same: "map2 h (map f xs) (map g xs) = map (\<lambda>x. h (f x) (g x)) xs"
  by (induction xs) auto

lemma normalized_records:
  assumes "mset rs = mset (List.map_filter (\<lambda>v. case parse_saved J v of Ok r \<Rightarrow> Some r | Err _ \<Rightarrow> None) saved)"
  shows "mset (map Ok rs) = mset (map (parse_saved J) (filter (\<lambda>v. is_ok (parse_saved J v)) saved))"
    and "x \<in> set rs \<Longrightarrow> sr_authority (per_content x) = ''export_observation''"
    and "x \<in> set rs \<Longrightarrow> \<exists>href p. canonicalize href = Ok p \<and> sr_canonical_url (per_content x) = url (p :: CanonicalPermalink)
              \<and> sr_shortcode (per_content x) = shortcode p"
proof -
  have "map Ok (List.map_filter (\<lambda>v. case parse_saved J v of Ok r \<Rightarrow> Some r | Err _ \<Rightarrow> None) vs) =
      map (parse_saved J) (filter (\<lambda>v. is_ok (parse_saved J v)) vs)" for vs
    by (induction vs) (auto simp: List.map_filter_simps split: result.splits)
  then show "mset (map Ok rs) = mset (map (parse_saved J) (filter (\<lambda>v. is_ok (parse_saved J v)) saved))"
    by (metis mset_map assms)
  have parsed: "\<exists>v. parse_saved J v = Ok x" if x: "x \<in> set rs"
  proof -
    obtain v where "(case parse_saved J v of Ok r \<Rightarrow> Some r | Err _ \<Rightarrow> None) = Some x"
      using x unfolding mset_eq_setD [OF assms] set_map_filter_option by blast
    then show ?thesis by (cases "parse_saved J v") auto
  qed
  then show "x \<in> set rs \<Longrightarrow> sr_authority (per_content x) = ''export_observation''" using parse_saved_Ok by blast
  show "x \<in> set rs \<Longrightarrow> \<exists>href p. canonicalize href = Ok p \<and> sr_canonical_url (per_content x) = url (p :: CanonicalPermalink)
              \<and> sr_shortcode (per_content x) = shortcode p"
    using parsed parse_saved_Ok by blast
qed

text \<open>
  C24. The export parser drops nothing: every element of the saved array becomes a normalized record or
  is kept verbatim as an unknown record, every other field of the section and every other archive
  entry is kept. The warnings are exactly these: one per unknown record with the reason it was kept for
  and that record's evidence key, one per kept entry under the entry's key, and one more for each entry
  that refers to media bytes. The keys of unknown records are distinct, and where the archive's paths
  are distinct no two kept pieces of evidence share a key. A normalized record is the canonical
  permalink of its link with the authority of an export observation.
\<close>
theorem export_parser_drops_nothing:
  assumes "parse_saved_posts J bytes inventory = Ok e"
  shows "\<exists>root saved kept. j_parse J bytes = Some (JObj root) \<and> map_of root SAVED_SECTION = Some (JArr saved)
    \<and> mset (map Ok (pe_records e)) = mset (map (parse_saved J) (filter (\<lambda>v. is_ok (parse_saved J v)) saved))
    \<and> mset (map uer_raw (pe_unknown_records e)) =
        mset (filter (\<lambda>v. \<not> is_ok (parse_saved J v)) saved) + mset (map (\<lambda>f. JObj [f]) (others root))
    \<and> mset (map uee_path (pe_unknown_entries e)) = mset (filter (\<lambda>p. p \<noteq> SAVED_POSTS_PATH) (map ie_path (inv_entries inventory)))
    \<and> mset kept = mset (kept_unknown J saved (others root)) \<and> map uer_raw (pe_unknown_records e) = map snd kept
    \<and> mset (pe_warnings e) =
        mset (map2 (\<lambda>k r. \<lparr>pw_code = fst k, pw_evidence_key = uer_evidence_key r\<rparr>) kept (pe_unknown_records e))
        + mset (map (\<lambda>x. \<lparr>pw_code = ''unknown_archive_section'', pw_evidence_key = entry_key x\<rparr>) (pe_unknown_entries e))
        + mset (map (\<lambda>x. \<lparr>pw_code = ''media_bytes_reference_only'', pw_evidence_key = entry_key x\<rparr>)
            (filter uee_media_reference (pe_unknown_entries e)))
    \<and> distinct (map uer_evidence_key (pe_unknown_records e))
    \<and> (distinct (map ie_path (inv_entries inventory)) \<longrightarrow>
         distinct (map uer_evidence_key (pe_unknown_records e) @ map entry_key (pe_unknown_entries e)))
    \<and> (\<forall>r \<in> set (pe_records e). sr_authority (per_content r) = ''export_observation''
         \<and> (\<exists>href p. canonicalize href = Ok p \<and> sr_canonical_url (per_content r) = url (p :: CanonicalPermalink)
              \<and> sr_shortcode (per_content r) = shortcode p))"
proof -
  obtain root saved where r: "j_parse J bytes = Some (JObj root)" "map_of root SAVED_SECTION = Some (JArr saved)"
    and recs: "mset (pe_records e) = mset (List.map_filter (\<lambda>v. case parse_saved J v of Ok r \<Rightarrow> Some r | Err _ \<Rightarrow> None) saved)"
    and unk: "pe_unknown_records e = map (\<lambda>(n, (_, digest, raw)).
       \<lparr>uer_evidence_key = unknown_key digest n, uer_digest = digest, uer_raw = raw\<rparr>) (numbered J saved (others root))"
    and ents: "mset (pe_unknown_entries e) = mset (map unknown_entry (filter (\<lambda>e. ie_path e \<noteq> SAVED_POSTS_PATH) (inv_entries inventory)))"
    and warn: "mset (pe_warnings e) =
       mset (map (\<lambda>(n, (code, digest, _)). \<lparr>pw_code = code, pw_evidence_key = unknown_key digest n\<rparr>) (numbered J saved (others root)))
       + mset (map (\<lambda>x. \<lparr>pw_code = ''unknown_archive_section'', pw_evidence_key = entry_key x\<rparr>) (pe_unknown_entries e))
       + mset (map (\<lambda>x. \<lparr>pw_code = ''media_bytes_reference_only'', pw_evidence_key = entry_key x\<rparr>)
           (filter uee_media_reference (pe_unknown_entries e)))"
    by (rule parse_saved_posts_Ok [OF assms])
  define kept where "kept = map (\<lambda>(n, (code, digest, raw)). (code, raw)) (numbered J saved (others root))"
  have kept: "mset kept = mset (kept_unknown J saved (others root))" unfolding kept_def by (rule numbered_kept)
  then have kept_raws: "mset (map snd kept) = mset (map snd (kept_unknown J saved (others root)))" by (simp only: mset_map)
  have raws: "map uer_raw (pe_unknown_records e) = map snd kept" by (auto simp: unk kept_def)
  have zipped: "map2 (\<lambda>k r. \<lparr>pw_code = fst k, pw_evidence_key = uer_evidence_key r\<rparr>) kept (pe_unknown_records e) =
      map (\<lambda>(n, (code, digest, _)). \<lparr>pw_code = code, pw_evidence_key = unknown_key digest n\<rparr>) (numbered J saved (others root))"
    by (simp only: unk kept_def map2_same) (simp add: case_prod_unfold)
  have paths: "mset (map uee_path (pe_unknown_entries e)) = mset (filter (\<lambda>p. p \<noteq> SAVED_POSTS_PATH) (map ie_path (inv_entries inventory)))"
    unfolding mset_map ents by (simp add: image_mset.compositionality comp_def unknown_entry_def filter_map)
  have keys: "map uer_evidence_key (pe_unknown_records e) =
      map (\<lambda>(n, (c, digest, raw)). unknown_key digest n) (numbered J saved (others root))" by (auto simp: unk)
  have "distinct (map uee_path (pe_unknown_entries e))" if "distinct (map ie_path (inv_entries inventory))"
    using that mset_eq_imp_distinct_iff [OF paths] by simp
  then have all_keys: "distinct (map uer_evidence_key (pe_unknown_records e) @ map entry_key (pe_unknown_entries e))"
    if "distinct (map ie_path (inv_entries inventory))"
    using that distinct_unknown_keys [of J saved "others root"] record_key_no_entry_key
    by (auto simp: keys distinct_entry_keys simp del: distinct_map)
  show ?thesis
    by (intro exI [of _ root] exI [of _ saved] exI [of _ kept] conjI impI ballI normalized_records [OF recs])
      (use r recs kept kept_raws raws zipped paths keys all_keys warn distinct_unknown_keys [of J saved "others root"] in
        \<open>simp_all only: mset_map [symmetric] map_append [symmetric] kept_unknown_raws [symmetric] mset_append [symmetric]\<close>)
qed


definition sample_link :: CanonicalPermalink where
  "sample_link = permalink_of Reel (ascii ''AAAAA'')"

definition sample_item :: json where
  "sample_item =
     JObj [(ascii ''title'', JStr (ascii ''someone'')),
           (ascii ''string_map_data'',
             JObj [(ascii ''Saved on'', JObj [(ascii ''href'', JStr (url sample_link)), (ascii ''timestamp'', JInt 7)])])]"

definition sample_json_env :: json_env where
  "sample_json_env =
     \<lparr>j_parse = \<lambda>_. Some (JObj [(SAVED_SECTION, JArr [sample_item, JNull]), (ascii ''extra'', JBool True)]),
      j_value_bytes = \<lambda>_. [], j_record_bytes = \<lambda>_. [], j_known_bytes = \<lambda>_ _. [],
      j_unix_ok = \<lambda>t. 0 \<le> t, j_sha256 = \<lambda>bytes. take 2 bytes\<rparr>"

definition sample_inventory :: ArchiveInventory where
  "sample_inventory = \<lparr>inv_entries = [], inv_total_compressed = 0, inv_total_decompressed = 0\<rparr>"

lemma sample_item_parses: "is_ok (parse_saved sample_json_env sample_item)" "\<not> is_ok (parse_saved sample_json_env JNull)"
proof -
  have "valid_shortcode (ascii ''AAAAA'')" by code_simp
  then have link: "canonicalize (url sample_link) = Ok sample_link"
    using canonicalize_grammar [of "canonical_url Reel (ascii ''AAAAA'')" Reel "ascii ''AAAAA''"]
      canonical_url_grammar [of "ascii ''AAAAA''" Reel]
    by (simp add: permalink_of_def sample_link_def)
  have "saved_media_of sample_item = Some \<lparr>sm_title = ascii ''someone'', sm_href = url sample_link, sm_timestamp = 7\<rparr>"
    by code_simp
  then show "is_ok (parse_saved sample_json_env sample_item)"
    by (simp add: parse_saved_def link sample_json_env_def Let_def)
  have "saved_media_of JNull = None" by code_simp
  then show "\<not> is_ok (parse_saved sample_json_env JNull)" by (simp add: parse_saved_def)
qed

theorem export_parser_drops_nothing_witness:
  "\<exists>e. parse_saved_posts sample_json_env [] sample_inventory = Ok e
     \<and> mset (map uer_raw (pe_unknown_records e)) = {#JNull, JObj [(ascii ''extra'', JBool True)]#}
     \<and> length (pe_records e) = 1"
proof -
  have root: "j_parse sample_json_env [] = Some (JObj [(SAVED_SECTION, JArr [sample_item, JNull]), (ascii ''extra'', JBool True)])"
    by (simp add: sample_json_env_def)
  then have "\<exists>e. parse_saved_posts sample_json_env [] sample_inventory = Ok e"
    by (simp add: parse_saved_posts_def Let_def)
  then obtain e where e: "parse_saved_posts sample_json_env [] sample_inventory = Ok e" by blast
  have "ascii ''extra'' \<noteq> SAVED_SECTION" by code_simp
  then have rest: "others [(SAVED_SECTION, JArr [sample_item, JNull]), (ascii ''extra'', JBool True)] = [(ascii ''extra'', JBool True)]"
    by (simp only: others_def filter.simps fst_conv) simp
  have kept: "mset (map uer_raw (pe_unknown_records e)) = {#JNull, JObj [(ascii ''extra'', JBool True)]#}"
    and recs: "mset (map Ok (pe_records e)) = mset [parse_saved sample_json_env sample_item]"
    using export_parser_drops_nothing [OF e] sample_item_parses rest unfolding root by auto
  from mset_eq_length [OF recs] have "length (pe_records e) = 1" by simp
  with e kept show ?thesis by blast
qed

end
