(* ===== verification/Export_Store.thy ===== *)
theory Export_Store
  imports Media_Retention
begin

text \<open>
  Model of \<^verbatim>\<open>data_export/blob.rs\<close>: the bounded copy of a request body into a staging file, its
  no-overwrite publication under its digest, and the verification of a stored archive before it is
  read. The body is the list of its chunks (\<open>None\<close>: the stream fails there); which file-system calls
  succeed is the argument \<open>ArchiveIo\<close>.
\<close>

section \<open>Receipt errors and references\<close>

datatype ReceiptError = BodyStream | BodyLimit | RawStorage | ImmutableConflict | ReceiptPersistence | CorruptEvidence | BlobContract

fun receipt_error_class :: "ReceiptError \<Rightarrow> string" where
  "receipt_error_class BodyStream = ''body_stream''"
| "receipt_error_class BodyLimit = ''body_limit''"
| "receipt_error_class RawStorage = ''raw_storage''"
| "receipt_error_class ImmutableConflict = ''immutable_conflict''"
| "receipt_error_class ReceiptPersistence = ''persistence''"
| "receipt_error_class CorruptEvidence = ''corrupt_evidence''"
| "receipt_error_class BlobContract = ''blob_contract''"

text \<open>A \<^verbatim>\<open>BlobRef\<close>; its digest algorithm is a closed vocabulary of which \<open>br_sha256\<close> tells SHA-256.\<close>

record BlobRef =
  br_owner :: string
  br_sha256 :: bool
  br_digest_hex :: string
  br_media_type :: string
  br_length :: u64

definition blob_ref :: "string \<Rightarrow> u64 \<Rightarrow> BlobRef" where
  "blob_ref digest_hex length_bytes =
     \<lparr>br_owner = ''ratatoskr-instagram'', br_sha256 = True, br_digest_hex = digest_hex,
      br_media_type = ''application/zip'', br_length = length_bytes\<rparr>"

record StoredArchive =
  sa_ref :: BlobRef
  sa_digest :: "u8 list"
  sa_size :: int

section \<open>Files\<close>

record ArchiveFile =
  af_bytes :: "u8 list"
  af_private :: bool

record ArchiveStore =
  as_objects :: "string \<Rightarrow> ArchiveFile option"
  as_staging :: "(uuid \<times> u8 list) list"
  as_max_body :: u64

record ArchiveIo =
  aio_staging_dir :: bool
  aio_open :: bool
  aio_write :: bool
  aio_sync :: bool
  aio_blob_dirs :: bool
  aio_link :: bool
  aio_dir_sync :: bool
  aio_remove :: bool
  aio_read :: bool

text \<open>The bytes written so far and their count; every chunk is counted before it is written.\<close>

fun copy_and_hash ::
  "ArchiveIo \<Rightarrow> u64 \<Rightarrow> u8 list option list \<Rightarrow> u64 \<Rightarrow> u8 list \<Rightarrow> u8 list \<times> (u64, ReceiptError) result" where
  "copy_and_hash io max_body [] byte_size written = (written, Ok byte_size)"
| "copy_and_hash io max_body (None # chunks) byte_size written = (written, Err BodyStream)"
| "copy_and_hash io max_body (Some chunk # chunks) byte_size written =
     (case checked_add byte_size (word_of_nat (length chunk)) of
        None \<Rightarrow> (written, Err BodyLimit)
      | Some byte_size' \<Rightarrow>
          if max_body < byte_size' \<or> uint byte_size' \<ge> 2 ^ 63 then (written, Err BodyLimit)
          else if \<not> aio_write io then (written, Err RawStorage)
          else copy_and_hash io max_body chunks byte_size' (written @ chunk))"

definition verify_existing ::
  "env \<Rightarrow> ArchiveIo \<Rightarrow> ArchiveStore \<Rightarrow> string \<Rightarrow> u8 list \<Rightarrow> int \<Rightarrow> (unit, ReceiptError) result" where
  "verify_existing E io store path expected_digest expected_size =
     (case as_objects store path of
        None \<Rightarrow> Err ImmutableConflict
      | Some f \<Rightarrow>
          if \<not> af_private f \<or> \<not> aio_read io then Err ImmutableConflict
          else if int (length (af_bytes f)) = expected_size \<and> e_sha256 E (af_bytes f) = expected_digest then Ok ()
          else Err ImmutableConflict)"

definition remove_staged :: "uuid \<Rightarrow> ArchiveStore \<Rightarrow> ArchiveStore" where
  "remove_staged name store = store\<lparr>as_staging := filter (\<lambda>t. fst t \<noteq> name) (as_staging store)\<rparr>"

text \<open>A removal that fails leaves the file and fails the call.\<close>

definition remove_or_fail ::
  "ArchiveIo \<Rightarrow> uuid \<Rightarrow> ArchiveStore \<Rightarrow> (unit, ReceiptError) result \<Rightarrow> ArchiveStore \<times> (unit, ReceiptError) result" where
  "remove_or_fail io name store r =
     (if aio_remove io then (remove_staged name store, r) else (store, Err RawStorage))"

definition publish_or_verify ::
  "env \<Rightarrow> ArchiveIo \<Rightarrow> uuid \<Rightarrow> ArchiveStore \<Rightarrow> u8 list \<Rightarrow> u8 list \<Rightarrow> int \<Rightarrow> ArchiveStore \<times> (unit, ReceiptError) result" where
  "publish_or_verify E io name store body digest byte_size =
     (let path = hex_encode digest
      in if \<not> aio_blob_dirs io then (store, Err RawStorage)
         else if \<not> aio_link io then (store, Err RawStorage)
         else (case as_objects store path of
             None \<Rightarrow>
               let linked = store\<lparr>as_objects := (as_objects store)(path \<mapsto> \<lparr>af_bytes = body, af_private = True\<rparr>)\<rparr>
               in if \<not> aio_dir_sync io then (linked, Err RawStorage) else remove_or_fail io name linked (Ok ())
           | Some _ \<Rightarrow>
               (case verify_existing E io store path digest byte_size of
                  Err e \<Rightarrow> (store, Err e)
                | Ok _ \<Rightarrow> remove_or_fail io name store (Ok ()))))"

definition store_archive ::
  "env \<Rightarrow> ArchiveIo \<Rightarrow> uuid \<Rightarrow> ArchiveStore \<Rightarrow> u8 list option list \<Rightarrow> ArchiveStore \<times> (StoredArchive, ReceiptError) result" where
  "store_archive E io name store chunks =
     (if \<not> aio_staging_dir io \<or> \<not> aio_open io \<or> name \<in> fst ` set (as_staging store) then (store, Err RawStorage)
      else
        let (written, copied) = copy_and_hash io (as_max_body store) chunks 0 [];
            staged = store\<lparr>as_staging := as_staging store @ [(name, written)]\<rparr>
        in (case copied of
              Err e \<Rightarrow> apsnd (\<lambda>r. bind_result r (\<lambda>_. Err e)) (remove_or_fail io name staged (Ok ()))
            | Ok n \<Rightarrow>
                if \<not> aio_sync io then apsnd (\<lambda>_. Err RawStorage) (remove_or_fail io name staged (Ok ()))
                else
                  let digest = e_sha256 E written;
                      (published, r) = publish_or_verify E io name staged written digest (uint n)
                  in (case r of
                        Err e \<Rightarrow>
                          if name \<in> fst ` set (as_staging published)
                          then apsnd (\<lambda>r. bind_result r (\<lambda>_. Err e)) (remove_or_fail io name published (Ok ()))
                          else (published, Err e)
                      | Ok _ \<Rightarrow>
                          (published, Ok \<lparr>sa_ref = blob_ref (hex_encode digest) n, sa_digest = digest, sa_size = uint n\<rparr>))))"

text \<open>The path of an archive whose stored evidence and bytes agree, with the bytes that are read from it.\<close>

definition verified_path ::
  "env \<Rightarrow> ArchiveIo \<Rightarrow> ArchiveStore \<Rightarrow> BlobRef \<Rightarrow> u8 list \<Rightarrow> int \<Rightarrow> (u8 list, ReceiptError) result" where
  "verified_path E io store ref expected_digest expected_size =
     (let digest_hex = hex_encode expected_digest
      in if br_owner ref \<noteq> ''ratatoskr-instagram'' \<or> \<not> br_sha256 ref \<or> br_digest_hex ref \<noteq> digest_hex
           \<or> br_media_type ref \<noteq> ''application/zip''
           \<or> \<not> (uint (br_length ref) < 2 ^ 63 \<and> uint (br_length ref) = expected_size)
         then Err CorruptEvidence
         else bind_result (verify_existing E io store digest_hex expected_digest expected_size) (\<lambda>_.
                case as_objects store digest_hex of None \<Rightarrow> Err ImmutableConflict | Some f \<Rightarrow> Ok (af_bytes f)))"

section \<open>Receipts are faithful\<close>

definition faithful_store :: "env \<Rightarrow> ArchiveStore \<Rightarrow> bool" where
  "faithful_store E store \<longleftrightarrow>
     (\<forall>name f. as_objects store name = Some f \<longrightarrow> name = hex_encode (e_sha256 E (af_bytes f)))"

lemma remove_or_fail_objects [simp]: "as_objects (fst (remove_or_fail io name store r)) = as_objects store"
  by (simp add: remove_or_fail_def remove_staged_def)

lemma copy_and_hash_Ok:
  assumes "copy_and_hash io max_body chunks sz written = (w, Ok n)" "unat sz = length written" "uint sz < 2 ^ 63"
    and "\<And>chunk. Some chunk \<in> set chunks \<Longrightarrow> int (length chunk) < 2 ^ 63"
  shows "w = written @ concat (map the chunks) \<and> None \<notin> set chunks \<and> unat n = length w \<and> uint n < 2 ^ 63 \<and> (chunks \<noteq> [] \<longrightarrow> n \<le> max_body)"
  using assms
proof (induction io max_body chunks sz written arbitrary: rule: copy_and_hash.induct)
  case (3 io max_body chunk chunks sz written)
  obtain sz' where s: "checked_add sz (word_of_nat (length chunk)) = Some sz'" "sz' \<le> max_body" "uint sz' < 2 ^ 63"
    and rest: "copy_and_hash io max_body chunks sz' (written @ chunk) = (w, Ok n)"
    using "3.prems"(1) by (auto simp: not_less not_le split: option.splits if_splits)
  have len: "length chunk < 2 ^ 63" using "3.prems"(4) [of chunk] by simp
  then have "unat (word_of_nat (length chunk) :: u64) = length chunk" by (simp add: unsigned_of_nat take_bit_nat_eq_self)
  with s(1) have sz': "unat sz' = length (written @ chunk)" using "3.prems"(2) by (simp add: checked_add_eq_Some_iff)
  have "w = (written @ chunk) @ concat (map the chunks) \<and> None \<notin> set chunks \<and> unat n = length w \<and> uint n < 2 ^ 63 \<and> (chunks \<noteq> [] \<longrightarrow> n \<le> max_body)"
    by (rule "3.IH" [OF s(1) _ _ rest sz' s(3)]) (use s "3.prems" in \<open>auto split: if_splits\<close>)
  moreover have "chunks = [] \<Longrightarrow> n = sz'" using rest by simp
  ultimately show ?case using s(2) by auto
qed auto


lemma verify_existing_Ok:
  "verify_existing E io store path digest n = Ok () \<longleftrightarrow>
     (\<exists>f. as_objects store path = Some f \<and> af_private f \<and> aio_read io
        \<and> int (length (af_bytes f)) = n \<and> e_sha256 E (af_bytes f) = digest)"
  by (auto simp: verify_existing_def split: option.splits)

text \<open>Publication either adds the object under its digest or leaves the objects as they are.\<close>

lemma publish_or_verify_objects:
  assumes "publish_or_verify E io name store body digest n = (store', r)"
  shows "as_objects store' = as_objects store
    \<or> as_objects store (hex_encode digest) = None
      \<and> as_objects store' = (as_objects store)(hex_encode digest \<mapsto> \<lparr>af_bytes = body, af_private = True\<rparr>)"
  using assms
  by (auto simp: publish_or_verify_def remove_or_fail_def remove_staged_def Let_def split: if_splits option.splits result.splits)

lemma publish_or_verify_Ok:
  assumes "publish_or_verify E io name store body digest n = (store', Ok ())" "digest = e_sha256 E body" "n = int (length body)"
  shows "as_staging store' = filter (\<lambda>t. fst t \<noteq> name) (as_staging store)
    \<and> (\<exists>f. as_objects store' (hex_encode digest) = Some f \<and> af_private f
         \<and> int (length (af_bytes f)) = n \<and> e_sha256 E (af_bytes f) = digest)"
  using assms verify_existing_Ok [of E io store "hex_encode digest" digest n]
  by (auto simp: publish_or_verify_def remove_or_fail_def remove_staged_def Let_def split: if_splits option.splits result.splits)

lemma store_archive_objects:
  "as_objects (fst (store_archive E io name store chunks)) = as_objects store
   \<or> (\<exists>body. as_objects store (hex_encode (e_sha256 E body)) = None
        \<and> as_objects (fst (store_archive E io name store chunks)) =
            (as_objects store)(hex_encode (e_sha256 E body) \<mapsto> \<lparr>af_bytes = body, af_private = True\<rparr>))"
proof -
  obtain w c where cp: "copy_and_hash io (as_max_body store) chunks 0 [] = (w, c)" by fastforce
  define staged where "staged = store\<lparr>as_staging := as_staging store @ [(name, w)]\<rparr>"
  have objects: "as_objects staged = as_objects store" by (simp add: staged_def)
  show ?thesis
  proof (cases c)
    case (Ok n)
    obtain store' r where p: "publish_or_verify E io name staged w (e_sha256 E w) (uint n) = (store', r)" by fastforce
    from publish_or_verify_objects [OF p] show ?thesis
      using Ok p unfolding objects
      by (auto simp: store_archive_def cp Let_def objects simp flip: staged_def split: result.splits)
  qed (auto simp: store_archive_def cp Let_def)
qed

lemma store_archive_Ok:
  assumes "store_archive E io name store chunks = (store', Ok a)"
  obtains w n where "copy_and_hash io (as_max_body store) chunks 0 [] = (w, Ok n)" "name \<notin> fst ` set (as_staging store)"
    "publish_or_verify E io name (store\<lparr>as_staging := as_staging store @ [(name, w)]\<rparr>) w (e_sha256 E w) (uint n) = (store', Ok ())"
    "a = \<lparr>sa_ref = blob_ref (hex_encode (e_sha256 E w)) n, sa_digest = e_sha256 E w, sa_size = uint n\<rparr>"
proof -
  have guard: "aio_staging_dir io" "aio_open io" "name \<notin> fst ` set (as_staging store)"
    using assms by (auto simp: store_archive_def split: if_splits)
  obtain w c where cp: "copy_and_hash io (as_max_body store) chunks 0 [] = (w, c)" by fastforce
  obtain n where c: "c = Ok n"
    using assms guard by (cases c) (auto simp: store_archive_def cp Let_def remove_or_fail_def split: if_splits)
  obtain s' r where p: "publish_or_verify E io name (store\<lparr>as_staging := as_staging store @ [(name, w)]\<rparr>) w (e_sha256 E w) (uint n) = (s', r)"
    by fastforce
  have "r = Ok ()" "s' = store'" "a = \<lparr>sa_ref = blob_ref (hex_encode (e_sha256 E w)) n, sa_digest = e_sha256 E w, sa_size = uint n\<rparr>"
    using assms guard c p
    by (auto simp: store_archive_def cp Let_def remove_or_fail_def split: if_splits result.splits)
  with that cp c p guard show ?thesis by blast
qed

text \<open>
  C27. Receipt of an archive is faithful and never overwrites: whatever fails on the way, every object
  keeps its bytes and every object is stored under the digest of its bytes; and a receipt that
  succeeds is of the whole body, within the limit, with its SHA-256 and length, leaves no staging file
  behind and can be verified and read back under the reference it returns.
\<close>
theorem stored_archive_is_the_body:
  assumes "faithful_store E store" "\<forall>chunk. Some chunk \<in> set chunks \<longrightarrow> int (length chunk) < 2 ^ 63"
  shows "faithful_store E (fst (store_archive E io name store chunks))
    \<and> (\<forall>path f. as_objects store path = Some f \<longrightarrow> as_objects (fst (store_archive E io name store chunks)) path = Some f)
    \<and> (\<forall>store' a. store_archive E io name store chunks = (store', Ok a) \<longrightarrow>
         None \<notin> set chunks
         \<and> sa_digest a = e_sha256 E (concat (map the chunks)) \<and> sa_size a = int (length (concat (map the chunks)))
         \<and> sa_size a \<le> uint (as_max_body store) \<and> as_staging store' = as_staging store
         \<and> (\<forall>io'. aio_read io' \<longrightarrow>
              (\<exists>bytes. verified_path E io' store' (sa_ref a) (sa_digest a) (sa_size a) = Ok bytes
                 \<and> e_sha256 E bytes = sa_digest a \<and> int (length bytes) = sa_size a)))"
proof (intro conjI allI impI)
  show "faithful_store E (fst (store_archive E io name store chunks))"
    using assms(1) store_archive_objects [of E io name store chunks] unfolding faithful_store_def by (metis ArchiveFile.select_convs(1) fun_upd_apply option.inject)
  fix path f assume "as_objects store path = Some f"
  then show "as_objects (fst (store_archive E io name store chunks)) path = Some f"
    using store_archive_objects [of E io name store chunks] by auto
next
  fix store' a assume "store_archive E io name store chunks = (store', Ok a)"
  then obtain w n where cp: "copy_and_hash io (as_max_body store) chunks 0 [] = (w, Ok n)" "name \<notin> fst ` set (as_staging store)"
    and p: "publish_or_verify E io name (store\<lparr>as_staging := as_staging store @ [(name, w)]\<rparr>) w (e_sha256 E w) (uint n) = (store', Ok ())"
    and a: "a = \<lparr>sa_ref = blob_ref (hex_encode (e_sha256 E w)) n, sa_digest = e_sha256 E w, sa_size = uint n\<rparr>"
    by (rule store_archive_Ok)
  have body: "w = concat (map the chunks)" "None \<notin> set chunks" "unat n = length w" "uint n < 2 ^ 63" "chunks \<noteq> [] \<longrightarrow> n \<le> as_max_body store"
    using copy_and_hash_Ok [OF cp(1)] assms(2) by auto
  have size: "uint n = int (length w)" using body(3) by (metis uint_nat)
  show "None \<notin> set chunks" "sa_digest a = e_sha256 E (concat (map the chunks))" "sa_size a = int (length (concat (map the chunks)))"
    using body size by (simp_all add: a)
  show "sa_size a \<le> uint (as_max_body store)"
    using body cp(1) by (cases chunks) (simp_all add: a word_le_def)
  have published: "as_staging store' = filter (\<lambda>t. fst t \<noteq> name) (as_staging store @ [(name, w)])"
    and object: "\<exists>f. as_objects store' (hex_encode (e_sha256 E w)) = Some f \<and> af_private f
         \<and> int (length (af_bytes f)) = uint n \<and> e_sha256 E (af_bytes f) = e_sha256 E w"
    using publish_or_verify_Ok [OF p refl size] by simp_all
  show "as_staging store' = as_staging store"
    using cp(2) unfolding published by (auto simp: filter_id_conv image_iff) 
  fix io' :: ArchiveIo assume "aio_read io'"
  with object obtain f where f: "as_objects store' (hex_encode (e_sha256 E w)) = Some f" "int (length (af_bytes f)) = uint n" "e_sha256 E (af_bytes f) = e_sha256 E w"
    and v: "verify_existing E io' store' (hex_encode (e_sha256 E w)) (e_sha256 E w) (uint n) = Ok ()"
    unfolding verify_existing_Ok by blast
  then show "\<exists>bytes. verified_path E io' store' (sa_ref a) (sa_digest a) (sa_size a) = Ok bytes
      \<and> e_sha256 E bytes = sa_digest a \<and> int (length bytes) = sa_size a"
    using body(4) by (simp add: verified_path_def a blob_ref_def Let_def)
qed

definition archive_io :: ArchiveIo where
  "archive_io = \<lparr>aio_staging_dir = True, aio_open = True, aio_write = True, aio_sync = True, aio_blob_dirs = True,
     aio_link = True, aio_dir_sync = True, aio_remove = True, aio_read = True\<rparr>"

definition empty_archives :: ArchiveStore where
  "empty_archives = \<lparr>as_objects = \<lambda>_. None, as_staging = [], as_max_body = 5\<rparr>"

theorem stored_archive_is_the_body_witness:
  "\<exists>store' a bytes. store_archive retention_env archive_io (Uuid 0 1) empty_archives [Some [1, 2], Some [3]] = (store', Ok a)
     \<and> sa_size a = 3 \<and> as_staging store' = []
     \<and> verified_path retention_env archive_io store' (sa_ref a) (sa_digest a) (sa_size a) = Ok bytes \<and> length bytes = 3"
proof -
  let ?r = "store_archive retention_env archive_io (Uuid 0 1) empty_archives [Some [1, 2], Some [3]]"
  have "is_ok (snd ?r)" by code_simp
  then obtain store' a where r: "?r = (store', Ok a)" by (cases "snd ?r") (auto simp: prod_eq_iff)
  have "faithful_store retention_env empty_archives" by (simp add: faithful_store_def empty_archives_def)
  then have "faithful_store retention_env (fst ?r)"
    and ok: "sa_size a = int (length (concat (map the [Some [1, 2 :: u8], Some [3]])))" "as_staging store' = as_staging empty_archives"
      "\<forall>io'. aio_read io' \<longrightarrow>
         (\<exists>bytes. verified_path retention_env io' store' (sa_ref a) (sa_digest a) (sa_size a) = Ok bytes
            \<and> e_sha256 retention_env bytes = sa_digest a \<and> int (length bytes) = sa_size a)"
    using stored_archive_is_the_body [of retention_env empty_archives "[Some [1, 2], Some [3]]" archive_io "Uuid 0 1"] r by auto
  have "aio_read archive_io" by (simp add: archive_io_def)
  with ok(3) obtain bytes where "verified_path retention_env archive_io store' (sa_ref a) (sa_digest a) (sa_size a) = Ok bytes"
      "int (length bytes) = sa_size a"
    by blast
  with r ok(1,2) show ?thesis by (auto simp: empty_archives_def)
qed

end
