(* ===== verification/Export_Import.thy ===== *)
theory Export_Import
  imports Export_Parser Export_Store
begin

text \<open>
  Model of \<^verbatim>\<open>data_export.rs\<close>: the tables of an import run, the receipt of an archive, and the
  inspection and parse stages with their compare-and-swap transitions. The archive reference column
  is text holding JSON; it is the decoded reference, \<open>None\<close> where it does not decode. Payload
  columns hold the value that was serialized. Fresh identifiers are drawn as in \<open>Archive\<close>.
\<close>

section \<open>Tables\<close>

datatype ImportState = Received | Inspected | Parsed | Reconciled | ImportFailed

definition import_state_parse :: "string \<Rightarrow> (ImportState, ReceiptError) result" where
  "import_state_parse value =
     (if value = ''received'' then Ok Received
      else if value = ''inspected'' then Ok Inspected
      else if value = ''parsed'' then Ok Parsed
      else if value = ''reconciled'' then Ok Reconciled
      else if value = ''failed'' then Ok ImportFailed
      else Err CorruptEvidence)"

fun import_state_wire :: "ImportState \<Rightarrow> string" where
  "import_state_wire Received = ''received''"
| "import_state_wire Inspected = ''inspected''"
| "import_state_wire Parsed = ''parsed''"
| "import_state_wire Reconciled = ''reconciled''"
| "import_state_wire ImportFailed = ''failed''"

record ExportSnapshotRow =
  es_id :: uuid
  es_user :: uuid
  es_hash :: "u8 list"
  es_ref :: "BlobRef option"
  es_size :: int
  es_received_at :: instant

record ImportRunRow =
  ir_id :: uuid
  ir_snapshot :: uuid
  ir_user :: uuid
  ir_state :: ImportState
  ir_layout :: "string option"
  ir_parser :: "string option"
  ir_records :: int
  ir_warnings :: int
  ir_failure :: "string option"
  ir_received_at :: instant
  ir_updated_at :: instant
  ir_finished_at :: "instant option"

record TransitionRow =
  tr_id :: uuid
  tr_run :: uuid
  tr_ordinal :: nat
  tr_from :: "ImportState option"
  tr_to :: ImportState
  tr_failure :: "string option"
  tr_at :: instant

datatype StagedPayload =
  NormalizedPayload ParsedExportRecord
| EntryPayload UnknownExportEntry
| RawPayload json
| WarningPayload ParserWarning
| ConflictPayload rstr rstr StagedPayload

record ExportRecordRow =
  xr_id :: uuid
  xr_run :: uuid
  xr_key :: rstr
  xr_kind :: string
  xr_category :: string
  xr_path :: rstr
  xr_digest :: "u8 list option"
  xr_size :: int
  xr_provider :: "rstr option"
  xr_url :: "rstr option"
  xr_payload :: StagedPayload
  xr_at :: instant

record CompletenessReport =
  cr_matched :: "rstr list"
  cr_export_only :: "rstr list"
  cr_capture_only :: "rstr list"
  cr_non_comparable :: "uuid list"
  cr_categories :: "string list"
  cr_warnings :: "string list"
  cr_disclaimer :: string

record import_tables =
  im_archive :: archive
  im_snapshots :: "ExportSnapshotRow list"
  im_runs :: "ImportRunRow list"
  im_transitions :: "TransitionRow list"
  im_records :: "ExportRecordRow list"
  im_reports :: "(uuid \<times> CompletenessReport) list"

datatype ImportError =
  ImArchive ArchiveError | ImParser ParserError | ImPublish PublishError | ImReconciliation
| ImReceipt ReceiptError | ImStateConflict

text \<open>
  What the stages take from outside: the shared environment, JSON, the ZIP library, the database's
  collation (the key a text column is ordered by) and the configured limits.
\<close>

record import_env =
  ie_env :: env
  ie_json :: json_env
  ie_payload_bytes :: "StagedPayload \<Rightarrow> u8 list"
  ie_zip :: zip_open
  ie_open_entry :: "u8 list \<Rightarrow> rstr \<Rightarrow> (nat \<Rightarrow> u8 list option) option"
  ie_collate :: "rstr \<Rightarrow> nat list"
  ie_limits :: ArchiveLimits

definition draw_id :: "import_env \<Rightarrow> import_tables \<Rightarrow> uuid" where
  "draw_id I im = now_v7 (ie_env I) (im_archive im)"

definition drawn_import :: "import_tables \<Rightarrow> import_tables" where
  "drawn_import im = im\<lparr>im_archive := drawn (im_archive im)\<rparr>"

text \<open>The unique key of a run's transitions is its ordinal.\<close>

definition insert_transition ::
  "import_env \<Rightarrow> uuid \<Rightarrow> nat \<Rightarrow> ImportState option \<Rightarrow> ImportState \<Rightarrow> string option \<Rightarrow> instant \<Rightarrow> import_tables
     \<Rightarrow> (import_tables, ReceiptError) result" where
  "insert_transition I run_id ordinal from_state to_state failure occurred_at im =
     (if list_ex (\<lambda>t. tr_run t = run_id \<and> tr_ordinal t = ordinal) (im_transitions im) then Err ReceiptPersistence
      else Ok ((drawn_import im)\<lparr>im_transitions := im_transitions im @
        [\<lparr>tr_id = draw_id I im, tr_run = run_id, tr_ordinal = ordinal, tr_from = from_state, tr_to = to_state,
          tr_failure = failure, tr_at = occurred_at\<rparr>]\<rparr>))"

text \<open>\<^verbatim>\<open>update import_runs set ... where run_id = $1 and state = $2\<close>, refused unless it hit one row.\<close>

definition cas_run ::
  "uuid \<Rightarrow> ImportState \<Rightarrow> (ImportRunRow \<Rightarrow> ImportRunRow) \<Rightarrow> import_tables \<Rightarrow> (import_tables, ImportError) result" where
  "cas_run run_id from_state f im =
     (if rows_affected (\<lambda>r. ir_id r = run_id \<and> ir_state r = from_state) (im_runs im) \<noteq> 1 then Err ImStateConflict
      else Ok (im\<lparr>im_runs := update_where (\<lambda>r. ir_id r = run_id \<and> ir_state r = from_state) f (im_runs im)\<rparr>))"

definition run_of :: "import_tables \<Rightarrow> uuid \<Rightarrow> ImportRunRow option" where
  "run_of im run_id = find (\<lambda>r. ir_id r = run_id) (im_runs im)"

definition snapshot_of :: "import_tables \<Rightarrow> uuid \<Rightarrow> ExportSnapshotRow option" where
  "snapshot_of im i = find (\<lambda>s. es_id s = i) (im_snapshots im)"

text \<open>\<^verbatim>\<open>import_runs join export_snapshots\<close> at one run.\<close>

definition archived_run :: "import_tables \<Rightarrow> uuid \<Rightarrow> (ImportRunRow \<times> ExportSnapshotRow) option" where
  "archived_run im run_id =
     Option.bind (run_of im run_id) (\<lambda>r. map_option (\<lambda>s. (r, s)) (snapshot_of im (ir_snapshot r)))"

section \<open>Receipt\<close>

record ExportReceipt =
  rc_run :: uuid
  rc_state :: ImportState
  rc_archive :: BlobRef

datatype ReceiptOutcome = ReceiptCreated ExportReceipt | ReceiptReplayed ExportReceipt

fun receipt :: "ReceiptOutcome \<Rightarrow> ExportReceipt" where
  "receipt (ReceiptCreated r) = r"
| "receipt (ReceiptReplayed r) = r"

definition persist_receipt ::
  "import_env \<Rightarrow> instant \<Rightarrow> uuid \<Rightarrow> StoredArchive \<Rightarrow> import_tables \<Rightarrow> (import_tables \<times> ReceiptOutcome, ReceiptError) result" where
  "persist_receipt I now user stored im =
     (let snapshot_id = draw_id I im;
          im0 = drawn_import im
      in case find (\<lambda>s. es_user s = user \<and> es_hash s = sa_digest stored) (im_snapshots im) of
           None \<Rightarrow>
             let im1 = im0\<lparr>im_snapshots := im_snapshots im0 @
                   [\<lparr>es_id = snapshot_id, es_user = user, es_hash = sa_digest stored, es_ref = Some (sa_ref stored),
                     es_size = sa_size stored, es_received_at = now\<rparr>]\<rparr>;
                 run_id = draw_id I im1;
                 im2 = (drawn_import im1)\<lparr>im_runs := im_runs im1 @
                   [\<lparr>ir_id = run_id, ir_snapshot = snapshot_id, ir_user = user, ir_state = Received, ir_layout = None,
                     ir_parser = None, ir_records = 0, ir_warnings = 0, ir_failure = None, ir_received_at = now,
                     ir_updated_at = now, ir_finished_at = None\<rparr>]\<rparr>
             in bind_result (insert_transition I run_id 1 None Received None now im2) (\<lambda>im3.
                  Ok (im3, ReceiptCreated \<lparr>rc_run = run_id, rc_state = Received, rc_archive = sa_ref stored\<rparr>))
         | Some s \<Rightarrow>
             (case find (\<lambda>r. ir_snapshot r = es_id s) (im_runs im) of
                None \<Rightarrow> Err CorruptEvidence
              | Some r \<Rightarrow>
                  (case es_ref s of
                     None \<Rightarrow> Err CorruptEvidence
                   | Some existing \<Rightarrow>
                       if existing \<noteq> sa_ref stored then Err CorruptEvidence
                       else Ok (im0, ReceiptReplayed \<lparr>rc_run = ir_id r, rc_state = ir_state r, rc_archive = existing\<rparr>))))"

text \<open>The archive is stored first; no transaction is open while its bytes are copied.\<close>

definition receive ::
  "import_env \<Rightarrow> ArchiveIo \<Rightarrow> uuid \<Rightarrow> instant \<Rightarrow> uuid \<Rightarrow> u8 list option list \<Rightarrow> ArchiveStore \<Rightarrow> import_tables
     \<Rightarrow> ArchiveStore \<times> import_tables \<times> (ReceiptOutcome, ReceiptError) result" where
  "receive I io name now user chunks store im =
     (case store_archive (ie_env I) io name store chunks of
        (store', Err e) \<Rightarrow> (store', im, Err e)
      | (store', Ok stored) \<Rightarrow>
          (case persist_receipt I now user stored im of
             Err e \<Rightarrow> (store', im, Err e)
           | Ok (im', outcome) \<Rightarrow> (store', im', Ok outcome)))"

section \<open>Status\<close>

record ImportStatus =
  st_run :: uuid
  st_state :: ImportState
  st_archive :: BlobRef
  st_layout :: "string option"
  st_parser :: "string option"
  st_records :: int
  st_warnings :: int
  st_failure :: "string option"
  st_report :: "CompletenessReport option"

definition import_status :: "import_tables \<Rightarrow> uuid \<Rightarrow> uuid \<Rightarrow> (ImportStatus option, ReceiptError) result" where
  "import_status im user run_id =
     (case archived_run im run_id of
        None \<Rightarrow> Ok None
      | Some (r, s) \<Rightarrow>
          if ir_user r \<noteq> user then Ok None
          else (case es_ref s of
              None \<Rightarrow> Err CorruptEvidence
            | Some ref \<Rightarrow>
                Ok (Some \<lparr>st_run = run_id, st_state = ir_state r, st_archive = ref, st_layout = ir_layout r,
                  st_parser = ir_parser r, st_records = ir_records r, st_warnings = ir_warnings r,
                  st_failure = ir_failure r, st_report = map_of (im_reports im) run_id\<rparr>)))"

section \<open>Inspection\<close>

text \<open>The bytes of a run that is in the expected state, verified against its stored evidence.\<close>

definition open_run ::
  "import_env \<Rightarrow> ArchiveIo \<Rightarrow> ArchiveStore \<Rightarrow> ImportState \<Rightarrow> uuid \<Rightarrow> import_tables \<Rightarrow> (u8 list, ImportError) result" where
  "open_run I io store expected run_id im =
     (case archived_run im run_id of
        None \<Rightarrow> Err ImStateConflict
      | Some (r, s) \<Rightarrow>
          if ir_state r \<noteq> expected then Err ImStateConflict
          else (case es_ref s of
              None \<Rightarrow> Err (ImReceipt CorruptEvidence)
            | Some ref \<Rightarrow> map_err ImReceipt (verified_path (ie_env I) io store ref (es_hash s) (es_size s))))"

definition finish_inspection ::
  "import_env \<Rightarrow> instant \<Rightarrow> uuid \<Rightarrow> ArchiveFailureClass option \<Rightarrow> import_tables \<Rightarrow> (import_tables, ImportError) result" where
  "finish_inspection I now run_id failure im =
     (let to_state = (case failure of Some _ \<Rightarrow> ImportFailed | None \<Rightarrow> Inspected);
          failure_class = map_option failure_class_str failure;
          finished_at = (case failure of Some _ \<Rightarrow> Some now | None \<Rightarrow> None)
      in bind_result (cas_run run_id Received (\<lambda>r. r\<lparr>ir_state := to_state, ir_failure := failure_class,
             ir_updated_at := now, ir_finished_at := finished_at\<rparr>) im) (\<lambda>im1.
           map_err ImReceipt (insert_transition I run_id 2 (Some Received) to_state failure_class now im1)))"

definition inspect_run ::
  "import_env \<Rightarrow> ArchiveIo \<Rightarrow> ArchiveStore \<Rightarrow> instant \<Rightarrow> uuid \<Rightarrow> import_tables \<Rightarrow> import_tables \<times> (ArchiveInventory, ImportError) result" where
  "inspect_run I io store now run_id im =
     (case open_run I io store Received run_id im of
        Err e \<Rightarrow> (im, Err e)
      | Ok bytes \<Rightarrow>
          (case inspect_archive (ie_zip I) bytes (ie_limits I) of
             Ok inventory \<Rightarrow>
               (case finish_inspection I now run_id None im of
                  Err e \<Rightarrow> (im, Err e) | Ok im' \<Rightarrow> (im', Ok inventory))
           | Err refusal \<Rightarrow>
               (case finish_inspection I now run_id (Some (error_class refusal)) im of
                  Err e \<Rightarrow> (im, Err e) | Ok im' \<Rightarrow> (im', Err (ImArchive refusal)))))"

section \<open>Parsing\<close>

definition hex_value :: "char \<Rightarrow> nat option" where
  "hex_value c =
     (let n = of_char c in
      if 48 \<le> n \<and> n \<le> 57 then Some (n - 48)
      else if 97 \<le> n \<and> n \<le> 102 then Some (n - 87)
      else if 65 \<le> n \<and> n \<le> 70 then Some (n - 55) else None)"

text \<open>\<^verbatim>\<open>u8::from_str_radix(pair, 16)\<close>, which accepts a leading plus sign.\<close>

definition hex_pair :: "char \<Rightarrow> char \<Rightarrow> u8 option" where
  "hex_pair a b =
     (if a = CHR ''+'' then map_option byte (hex_value b)
      else (case (hex_value a, hex_value b) of (Some m, Some n) \<Rightarrow> Some (byte (16 * m + n)) | _ \<Rightarrow> None))"

fun hex_pairs :: "string \<Rightarrow> u8 list option" where
  "hex_pairs (a # b # s) = (case hex_pair a b of None \<Rightarrow> None | Some n \<Rightarrow> map_option (\<lambda>ns. n # ns) (hex_pairs s))"
| "hex_pairs [a] = None"
| "hex_pairs [] = Some []"

definition decode_sha256 :: "string \<Rightarrow> (u8 list, ParserError) result" where
  "decode_sha256 value = (if length value \<noteq> 64 then Err InvalidJson else ok_or InvalidJson (hex_pairs value))"

definition json_byte_size :: "import_env \<Rightarrow> StagedPayload \<Rightarrow> (int, ParserError) result" where
  "json_byte_size I payload =
     (let n = int (length (ie_payload_bytes I payload)) in if n < 2 ^ 63 then Ok n else Err InvalidJson)"

definition staged_row ::
  "import_env \<Rightarrow> uuid \<Rightarrow> instant \<Rightarrow> rstr \<Rightarrow> string \<Rightarrow> string \<Rightarrow> rstr \<Rightarrow> u8 list option \<Rightarrow> int \<Rightarrow> rstr option
     \<Rightarrow> rstr option \<Rightarrow> StagedPayload \<Rightarrow> ExportRecordRow" where
  "staged_row I run_id now key record_kind category path digest byte_size provider canonical payload =
     \<lparr>xr_id = e_uuid_v5 (ie_env I) run_id (utf8 key), xr_run = run_id, xr_key = key, xr_kind = record_kind,
      xr_category = category, xr_path = path, xr_digest = digest, xr_size = byte_size, xr_provider = provider,
      xr_url = canonical, xr_payload = payload, xr_at = now\<rparr>"

definition normalized_key :: "ParsedExportRecord \<Rightarrow> rstr" where
  "normalized_key r = ascii ''normalized:'' @ sr_shortcode (per_content r) @ [58] @ ascii (per_digest r)"

definition normalized_row :: "import_env \<Rightarrow> uuid \<Rightarrow> instant \<Rightarrow> ParsedExportRecord \<Rightarrow> (ExportRecordRow, ParserError) result" where
  "normalized_row I run_id now r =
     bind_result (decode_sha256 (per_digest r)) (\<lambda>digest.
     bind_result (json_byte_size I (NormalizedPayload r)) (\<lambda>n.
       Ok (staged_row I run_id now (normalized_key r) ''normalized'' ''saved_posts'' SAVED_POSTS_PATH (Some digest) n
         (Some (sr_shortcode (per_content r))) (Some (sr_canonical_url (per_content r))) (NormalizedPayload r))))"

definition entry_row :: "import_env \<Rightarrow> uuid \<Rightarrow> instant \<Rightarrow> UnknownExportEntry \<Rightarrow> (ExportRecordRow, ParserError) result" where
  "entry_row I run_id now e =
     (if uint (uee_decompressed_size e) < 2 ^ 63
      then Ok (staged_row I run_id now (ascii ''unknown_section:'' @ uee_path e) ''unknown_section'' ''unknown'' (uee_path e)
        None (uint (uee_decompressed_size e)) None None (EntryPayload e))
      else Err InvalidJson)"

definition unknown_row :: "import_env \<Rightarrow> uuid \<Rightarrow> instant \<Rightarrow> UnknownExportRecord \<Rightarrow> (ExportRecordRow, ParserError) result" where
  "unknown_row I run_id now u =
     bind_result (decode_sha256 (uer_digest u)) (\<lambda>digest.
     bind_result (json_byte_size I (RawPayload (uer_raw u))) (\<lambda>n.
       Ok (staged_row I run_id now (uer_evidence_key u) ''unknown_record'' ''saved_posts'' SAVED_POSTS_PATH (Some digest) n
         None None (RawPayload (uer_raw u)))))"

definition warning_row :: "import_env \<Rightarrow> uuid \<Rightarrow> instant \<Rightarrow> ParserWarning \<Rightarrow> (ExportRecordRow, ParserError) result" where
  "warning_row I run_id now w =
     bind_result (json_byte_size I (WarningPayload w)) (\<lambda>n.
       Ok (staged_row I run_id now (ascii ''warning:'' @ ascii (pw_code w) @ [58] @ pw_evidence_key w) ''warning'' ''warning''
         SAVED_POSTS_PATH None n None None (WarningPayload w)))"

text \<open>The primary key and the unique key of \<^verbatim>\<open>export_records\<close>.\<close>

definition insert_staged_record :: "ExportRecordRow \<Rightarrow> import_tables \<Rightarrow> (import_tables, ReceiptError) result" where
  "insert_staged_record row im =
     (if list_ex (\<lambda>x. xr_id x = xr_id row \<or> xr_run x = xr_run row \<and> xr_key x = xr_key row) (im_records im)
      then Err ReceiptPersistence
      else Ok (im\<lparr>im_records := im_records im @ [row]\<rparr>))"

fun insert_staged :: "(ExportRecordRow, ParserError) result list \<Rightarrow> import_tables \<Rightarrow> (import_tables, ImportError) result" where
  "insert_staged [] im = Ok im"
| "insert_staged (row # rows) im =
     bind_result (map_err ImParser row) (\<lambda>r.
     bind_result (map_err ImReceipt (insert_staged_record r im)) (insert_staged rows))"

definition staged_rows :: "import_env \<Rightarrow> uuid \<Rightarrow> instant \<Rightarrow> ParsedExport \<Rightarrow> (ExportRecordRow, ParserError) result list" where
  "staged_rows I run_id now parsed =
     map (normalized_row I run_id now) (pe_records parsed)
     @ map (entry_row I run_id now) (pe_unknown_entries parsed)
     @ map (unknown_row I run_id now) (pe_unknown_records parsed)
     @ map (warning_row I run_id now) (pe_warnings parsed)"

text \<open>The lengths of vectors in memory add up within \<^verbatim>\<open>usize\<close> and \<^verbatim>\<open>i64\<close>; the checked sum is the sum.\<close>

definition persist_parsed :: "import_env \<Rightarrow> instant \<Rightarrow> uuid \<Rightarrow> ParsedExport \<Rightarrow> import_tables \<Rightarrow> (import_tables, ImportError) result" where
  "persist_parsed I now run_id parsed im =
     (if map_option ir_state (run_of im run_id) \<noteq> Some Inspected then Err ImStateConflict
      else
        bind_result (insert_staged (staged_rows I run_id now parsed) im) (\<lambda>im1.
        bind_result (cas_run run_id Inspected (\<lambda>r. r\<lparr>ir_state := Parsed, ir_layout := Some (pe_detected_layout parsed),
             ir_parser := Some (pe_parser_id parsed),
             ir_records := int (length (pe_records parsed) + length (pe_unknown_entries parsed)
               + length (pe_unknown_records parsed) + length (pe_warnings parsed)),
             ir_warnings := int (length (pe_warnings parsed)), ir_updated_at := now\<rparr>) im1) (\<lambda>im2.
          map_err ImReceipt (insert_transition I run_id 3 (Some Inspected) Parsed None now im2))))"

definition fail_parse :: "import_env \<Rightarrow> instant \<Rightarrow> uuid \<Rightarrow> string \<Rightarrow> import_tables \<Rightarrow> (import_tables, ImportError) result" where
  "fail_parse I now run_id failure_class im =
     bind_result (cas_run run_id Inspected (\<lambda>r. r\<lparr>ir_state := ImportFailed, ir_failure := Some failure_class,
         ir_updated_at := now, ir_finished_at := Some now\<rparr>) im) (\<lambda>im1.
       map_err ImReceipt (insert_transition I run_id 3 (Some Inspected) ImportFailed (Some failure_class) now im1))"

text \<open>
  The parser on the stored file. One more step than the largest accepted entry has bytes is enough
  fuel for its bounded read (lemma \<open>parse_file_ends\<close>), so the last case does not arise.
\<close>

definition parse_file :: "import_env \<Rightarrow> u8 list \<Rightarrow> (ParsedExport, ParserError) result" where
  "parse_file I bytes =
     (case parse_export (Suc (unat (max_entry_decompressed_bytes (ie_limits I)))) (ie_json I) (ie_zip I)
             (ie_open_entry I bytes) bytes (ie_limits I) of
        Some r \<Rightarrow> r | None \<Rightarrow> Err (ParserArchive (resource ''entry_decompressed_bytes'')))"

definition parse_run ::
  "import_env \<Rightarrow> ArchiveIo \<Rightarrow> ArchiveStore \<Rightarrow> instant \<Rightarrow> uuid \<Rightarrow> import_tables \<Rightarrow> import_tables \<times> (ParsedExport, ImportError) result" where
  "parse_run I io store now run_id im =
     (case open_run I io store Inspected run_id im of
        Err e \<Rightarrow> (im, Err e)
      | Ok bytes \<Rightarrow>
          (case parse_file I bytes of
             Ok parsed \<Rightarrow>
               (case persist_parsed I now run_id parsed im of
                  Err e \<Rightarrow> (im, Err e) | Ok im' \<Rightarrow> (im', Ok parsed))
           | Err refusal \<Rightarrow>
               (case fail_parse I now run_id (parser_error_class refusal) im of
                  Err e \<Rightarrow> (im, Err e) | Ok im' \<Rightarrow> (im', Err (ImParser refusal)))))"

end
