(* ===== verification/Export_Reconcile.thy ===== *)
theory Export_Reconcile
  imports Export_Import
begin

text \<open>
  Model of \<^verbatim>\<open>data_export/reconcile.rs\<close> and \<^verbatim>\<open>publishing/data_export.rs\<close>: the one transaction that turns a
  parsed run's staged records into media projections, revisions and source facts and stores the
  completeness report.
\<close>

section \<open>Source facts\<close>

definition media_facts :: "archive \<Rightarrow> uuid \<Rightarrow> OutboxRow list" where
  "media_facts db source_id =
     filter (\<lambda>r. ob_agg_type r = AggMedia \<and> ob_agg_id r = source_id \<and> (ob_type r = SourceCaptured \<or> ob_type r = SourceUpdated))
       (outbox db)"

definition append_data_export_fact ::
  "env \<Rightarrow> archive \<Rightarrow> uuid \<Rightarrow> uuid \<Rightarrow> rstr \<Rightarrow> rstr \<Rightarrow> string \<Rightarrow> BlobRef \<Rightarrow> instant \<Rightarrow> (archive \<times> bool, PublishError) result" where
  "append_data_export_fact E db media_id owner provider_media_id permalink semantic_digest ref observed_at =
     (let source_id = own_media_source_identity E owner provider_media_id;
          prior = map (\<lambda>r. payload_digest (ob_payload r)) (media_facts db source_id)
      in if Some semantic_digest \<in> set prior then Ok (db, False)
         else
           let fact_kind = (if prior = [] then Captured else Updated);
               snapshot = \<lparr>snap_source_id = source_id, snap_external_post_id = provider_media_id, snap_permalink = permalink,
                 snap_owner = owner, snap_published_at = None, snap_captured_at = observed_at, snap_text = None, snap_content_digest = semantic_digest,
                 snap_raw_blob = \<lparr>blob_digest_hex = br_digest_hex ref, blob_length_bytes = uint (br_length ref)\<rparr>,
                 snap_acquisition = DataExportMethod, snap_authority = ExportObservation, snap_upstream = AvailableUpstream,
                 snap_checkpoint = None\<rparr>
           in if \<not> e_instant_ok E observed_at \<or> \<not> e_snapshot_ok E snapshot then Err (ContractViolation media_id)
              else if list_ex (\<lambda>r. ob_event_id r = now_v7 E db) (outbox db) then Ok (drawn db, False)
              else Ok (append_outbox (drawn db)
                (outbox_row (now_v7 E db) (fact_event_type fact_kind) AggMedia source_id owner (SnapshotPayload snapshot)
                  (now_v7 E db) None observed_at), True))"

section \<open>One staged record\<close>

definition insert_raw_once :: "RawRow \<Rightarrow> archive \<Rightarrow> archive" where
  "insert_raw_once row db =
     (if list_ex (\<lambda>r. raw_id r = raw_id row) (raws db) then db else db\<lparr>raws := raws db @ [row]\<rparr>)"

definition insert_revision_once :: "RevisionRow \<Rightarrow> archive \<Rightarrow> archive" where
  "insert_revision_once row db =
     (if list_ex (\<lambda>r. rev_id r = rev_id row) (revisions db) then db else db\<lparr>revisions := revisions db @ [row]\<rparr>)"

definition persist_conflict ::
  "import_env \<Rightarrow> uuid \<Rightarrow> ExportRecordRow \<Rightarrow> rstr \<Rightarrow> rstr \<Rightarrow> u8 list \<Rightarrow> instant \<Rightarrow> import_tables \<Rightarrow> (import_tables, ImportError) result" where
  "persist_conflict I run_id row provider_id canonical digest observed_at im =
     (let conflict_id = e_uuid_v5 (ie_env I) (xr_id row) (utf8 (ascii ''identity-conflict''));
          evidence_key = ascii ''conflict:'' @ provider_id @ [58] @ ascii (hex_encode digest)
      in if list_ex (\<lambda>x. xr_run x = run_id \<and> xr_key x = evidence_key) (im_records im) then Ok im
         else map_err ImReceipt (insert_staged_record
           \<lparr>xr_id = conflict_id, xr_run = run_id, xr_key = evidence_key, xr_kind = ''conflict'', xr_category = ''saved_posts'',
            xr_path = SAVED_POSTS_PATH, xr_digest = Some digest, xr_size = xr_size row, xr_provider = Some provider_id,
            xr_url = Some canonical, xr_payload = ConflictPayload provider_id canonical (xr_payload row), xr_at = observed_at\<rparr> im))"

definition stronger :: "MediaRow \<Rightarrow> bool" where
  "stronger m \<longleftrightarrow>
     med_acquisition m \<notin> {''data_export'', ''legacy_import''} \<or> med_authority m \<notin> {''export_observation'', ''legacy_observation''}"

definition export_media :: "uuid \<Rightarrow> rstr \<Rightarrow> rstr \<Rightarrow> instant \<Rightarrow> MediaRow" where
  "export_media media_id provider_id canonical observed_at =
     \<lparr>med_id = media_id, med_permalink = canonical, med_type = ''unknown'', med_caption = None, med_acquisition = ''data_export'',
      med_authority = ''export_observation'', med_upstream = UpUnknown, med_revision = None, med_updated_at = observed_at,
      med_account = None, med_provider = Some provider_id, med_blob = None\<rparr>"

definition project_export :: "rstr \<Rightarrow> rstr \<Rightarrow> uuid \<Rightarrow> instant \<Rightarrow> MediaRow \<Rightarrow> MediaRow" where
  "project_export provider_id canonical revision_id observed_at m =
     m\<lparr>med_provider := Some provider_id, med_permalink := canonical, med_acquisition := ''data_export'',
       med_authority := ''export_observation'', med_revision := Some revision_id, med_updated_at := observed_at\<rparr>"

definition media_matches :: "archive \<Rightarrow> rstr \<Rightarrow> rstr \<Rightarrow> MediaRow list" where
  "media_matches db provider_id canonical =
     filter (\<lambda>m. med_provider m = Some provider_id \<or> med_permalink m = canonical) (media db)"

definition projected_media_id :: "env \<Rightarrow> uuid \<Rightarrow> rstr \<Rightarrow> MediaRow list \<Rightarrow> uuid" where
  "projected_media_id E owner canonical matches =
     (case matches of [] \<Rightarrow> source_identity E owner canonical | m # _ \<Rightarrow> med_id m)"

definition ensure_media ::
  "uuid \<Rightarrow> rstr \<Rightarrow> rstr \<Rightarrow> instant \<Rightarrow> MediaRow list \<Rightarrow> archive \<Rightarrow> (archive, ImportError) result" where
  "ensure_media media_id provider_id canonical observed_at matches db =
     (if matches \<noteq> [] then Ok db
      else if list_ex (\<lambda>m. med_id m = media_id) (media db) then Err (ImReceipt ReceiptPersistence)
      else Ok (db\<lparr>media := media db @ [export_media media_id provider_id canonical observed_at]\<rparr>))"

definition evidence_id :: "env \<Rightarrow> ExportRecordRow \<Rightarrow> string \<Rightarrow> uuid" where
  "evidence_id E row role = e_uuid_v5 E (xr_id row) (utf8 (ascii role))"

definition attach_evidence ::
  "import_env \<Rightarrow> instant \<Rightarrow> ExportRecordRow \<Rightarrow> u8 list \<Rightarrow> uuid \<Rightarrow> archive \<Rightarrow> archive" where
  "attach_evidence I observed_at row digest media_id db =
     (let raw_record_id = evidence_id (ie_env I) row ''normalized-export-evidence'';
          revision_id = evidence_id (ie_env I) row ''media-revision''
      in insert_revision_once
           \<lparr>rev_id = revision_id, rev_media = media_id, rev_raw = raw_record_id, rev_parser = DATA_EXPORT_PARSER_ID,
            rev_at = observed_at\<rparr>
           (insert_raw_once
             \<lparr>raw_id = raw_record_id, raw_kind = ''export_section'', raw_blob_ref = hex_encode digest, raw_hash = digest,
              raw_size = xr_size row, raw_body = ie_payload_bytes I (xr_payload row), raw_at = observed_at\<rparr> db))"

definition project_media ::
  "uuid \<Rightarrow> rstr \<Rightarrow> rstr \<Rightarrow> uuid \<Rightarrow> instant \<Rightarrow> MediaRow list \<Rightarrow> archive \<Rightarrow> archive" where
  "project_media media_id provider_id canonical revision_id observed_at matches db =
     (if matches \<noteq> [] \<and> stronger (hd matches) then db
      else db\<lparr>media := update_where (\<lambda>m. med_id m = media_id)
        (project_export provider_id canonical revision_id observed_at) (media db)\<rparr>)"

text \<open>The media, raw, revision and event rows of one record with at most one matching media row.\<close>

definition project_record ::
  "import_env \<Rightarrow> uuid \<Rightarrow> instant \<Rightarrow> BlobRef \<Rightarrow> ExportRecordRow \<Rightarrow> rstr \<Rightarrow> rstr \<Rightarrow> u8 list \<Rightarrow> archive \<Rightarrow> (archive, ImportError) result" where
  "project_record I owner observed_at ref row provider_id canonical digest db =
     (let matches = media_matches db provider_id canonical;
          media_id = projected_media_id (ie_env I) owner canonical matches
      in bind_result (ensure_media media_id provider_id canonical observed_at matches db) (\<lambda>db1.
         bind_result (map_err ImPublish (append_data_export_fact (ie_env I)
             (project_media media_id provider_id canonical (evidence_id (ie_env I) row ''media-revision'') observed_at matches
               (attach_evidence I observed_at row digest media_id db1))
             media_id owner provider_id canonical (hex_encode digest) ref observed_at))
           (\<lambda>(db2, _). Ok db2)))"

definition reconcile_record ::
  "import_env \<Rightarrow> uuid \<Rightarrow> uuid \<Rightarrow> instant \<Rightarrow> BlobRef \<Rightarrow> ExportRecordRow \<Rightarrow> import_tables \<Rightarrow> (import_tables, ImportError) result" where
  "reconcile_record I run_id owner observed_at ref row im =
     (case (xr_provider row, xr_url row, xr_digest row) of
        (Some provider_id, Some canonical, Some digest) \<Rightarrow>
          if 1 < length (media_matches (im_archive im) provider_id canonical)
          then persist_conflict I run_id row provider_id canonical digest observed_at im
          else bind_result (project_record I owner observed_at ref row provider_id canonical digest (im_archive im))
                 (\<lambda>db. Ok (im\<lparr>im_archive := db\<rparr>))
      | _ \<Rightarrow> Err (ImReceipt ReceiptPersistence))"

fun reconcile_records ::
  "import_env \<Rightarrow> uuid \<Rightarrow> uuid \<Rightarrow> instant \<Rightarrow> BlobRef \<Rightarrow> ExportRecordRow list \<Rightarrow> import_tables \<Rightarrow> (import_tables, ImportError) result" where
  "reconcile_records I run_id owner observed_at ref [] im = Ok im"
| "reconcile_records I run_id owner observed_at ref (row # rows) im =
     bind_result (reconcile_record I run_id owner observed_at ref row im)
       (reconcile_records I run_id owner observed_at ref rows)"

section \<open>The completeness report\<close>

definition AUTHORITY_DISCLAIMER :: string where
  "AUTHORITY_DISCLAIMER = ''An export is one observation; it does not prove complete account history or Instagram native Saved membership, and absence does not prove unsave or deletion.''"

text \<open>A \<^verbatim>\<open>BTreeSet\<close> collected from a list, as the sorted list of its members.\<close>

definition btree :: "'a::linorder list \<Rightarrow> 'a list" where
  "btree xs = sort (remdups xs)"

definition distinct_ordered :: "import_env \<Rightarrow> string list \<Rightarrow> string list" where
  "distinct_ordered I xs = sort_key (\<lambda>x. ie_collate I (ascii x)) (remdups xs)"

definition warning_code :: "StagedPayload \<Rightarrow> string option" where
  "warning_code p = (case p of WarningPayload w \<Rightarrow> Some (pw_code w) | _ \<Rightarrow> None)"

definition owner_captures :: "archive \<Rightarrow> uuid \<Rightarrow> CaptureRow list" where
  "owner_captures db owner = filter (\<lambda>c. cap_user c = owner \<and> cap_status c \<noteq> Tombstoned) (captures db)"

definition comparable_identity :: "CaptureRow \<Rightarrow> rstr option" where
  "comparable_identity c = (case canonicalize (cap_url c) of Ok p \<Rightarrow> Some (shortcode p) | Err _ \<Rightarrow> None)"

definition build_report :: "import_env \<Rightarrow> uuid \<Rightarrow> uuid \<Rightarrow> ExportRecordRow list \<Rightarrow> import_tables \<Rightarrow> CompletenessReport" where
  "build_report I run_id owner records im =
     (let export = btree (List.map_filter xr_provider records);
          caps = owner_captures (im_archive im) owner;
          comparable = btree (List.map_filter comparable_identity caps);
          non_comparable = btree (map cap_id (filter (\<lambda>c. comparable_identity c = None) caps));
          rows = filter (\<lambda>x. xr_run x = run_id) (im_records im)
      in \<lparr>cr_matched = filter (\<lambda>x. x \<in> set comparable) export,
          cr_export_only = filter (\<lambda>x. x \<notin> set comparable) export,
          cr_capture_only = filter (\<lambda>x. x \<notin> set export) comparable,
          cr_non_comparable = non_comparable,
          cr_categories = distinct_ordered I (map xr_category (filter (\<lambda>x. xr_kind x \<noteq> ''warning'') rows)),
          cr_warnings = distinct_ordered I (List.map_filter (\<lambda>x. warning_code (xr_payload x)) (filter (\<lambda>x. xr_kind x = ''warning'') rows)),
          cr_disclaimer = AUTHORITY_DISCLAIMER\<rparr>)"

definition persist_report :: "uuid \<Rightarrow> CompletenessReport \<Rightarrow> import_tables \<Rightarrow> (import_tables, ImportError) result" where
  "persist_report run_id report im =
     (if list_ex (\<lambda>x. fst x = run_id) (im_reports im) then Err (ImReceipt ReceiptPersistence)
      else Ok (im\<lparr>im_reports := im_reports im @ [(run_id, report)]\<rparr>))"

definition load_report :: "import_tables \<Rightarrow> uuid \<Rightarrow> (CompletenessReport, ImportError) result" where
  "load_report im run_id = ok_or ImReconciliation (map_of (im_reports im) run_id)"

section \<open>The transaction\<close>

definition normalized_rows :: "import_env \<Rightarrow> import_tables \<Rightarrow> uuid \<Rightarrow> ExportRecordRow list" where
  "normalized_rows I im run_id =
     sort_key (\<lambda>x. (ie_collate I (the (xr_provider x)), ie_collate I (xr_key x)))
       (filter (\<lambda>x. xr_run x = run_id \<and> xr_kind x = ''normalized'' \<and> xr_provider x \<noteq> None \<and> xr_url x \<noteq> None) (im_records im))"

definition reconcile_run :: "import_env \<Rightarrow> uuid \<Rightarrow> import_tables \<Rightarrow> (import_tables \<times> CompletenessReport, ImportError) result" where
  "reconcile_run I run_id im =
     (case archived_run im run_id of
        None \<Rightarrow> Err ImStateConflict
      | Some (r, s) \<Rightarrow>
          if ir_state r = Reconciled then bind_result (load_report im run_id) (\<lambda>report. Ok (im, report))
          else if ir_state r \<noteq> Parsed then Err ImStateConflict
          else (case es_ref s of
              None \<Rightarrow> Err (ImReceipt CorruptEvidence)
            | Some ref \<Rightarrow>
                let owner = ir_user r; observed_at = ir_received_at r;
                    records = normalized_rows I im run_id
                in if list_ex (\<lambda>x. xr_digest x = None) records then Err (ImReceipt ReceiptPersistence)
                   else
                     bind_result (reconcile_records I run_id owner observed_at ref records im) (\<lambda>im1.
                     let report = build_report I run_id owner records im1 in
                     bind_result (persist_report run_id report im1) (\<lambda>im2.
                     bind_result (cas_run run_id Parsed (\<lambda>r. r\<lparr>ir_state := Reconciled, ir_updated_at := observed_at,
                       ir_finished_at := Some observed_at\<rparr>) im2) (\<lambda>im3.
                     bind_result (map_err ImReceipt
                       (insert_transition I run_id 4 (Some Parsed) Reconciled None observed_at im3)) (\<lambda>im4.
                       Ok (im4, report)))))))"

end
