(* ===== verification/Export_Worker.thy ===== *)
theory Export_Worker
  imports Export_Reconcile
begin

text \<open>
  Model of \<^verbatim>\<open>data_export/worker.rs\<close>, the bounded pass over open import runs, and the state machine of
  import runs: the step relation whose steps are the committed transactions, its invariant, and what
  a worker pass does to it. Recording metrics is left out.
\<close>

section \<open>The worker\<close>

record WorkerPass =
  wp_selected :: u32
  wp_reconciled :: u32
  wp_failed :: u32

datatype Advanced = AdvReconciled | AdvFailed | AdvIntermediate

definition handled_input_failure :: "ImportError \<Rightarrow> (Advanced, ImportError) result" where
  "handled_input_failure e = (case e of ImArchive _ \<Rightarrow> Ok AdvFailed | ImParser _ \<Rightarrow> Ok AdvFailed | other \<Rightarrow> Err other)"

fun initial_state :: "ImportState \<Rightarrow> Advanced" where
  "initial_state ImportFailed = AdvFailed"
| "initial_state Reconciled = AdvReconciled"
| "initial_state _ = AdvIntermediate"

definition advance_reconcile ::
  "import_env \<Rightarrow> uuid \<Rightarrow> import_tables \<Rightarrow> import_tables \<times> (Advanced, ImportError) result" where
  "advance_reconcile I run_id im =
     (case reconcile_run I run_id im of Err e \<Rightarrow> (im, Err e) | Ok (im', _) \<Rightarrow> (im', Ok AdvReconciled))"

definition advance_parse ::
  "import_env \<Rightarrow> ArchiveIo \<Rightarrow> ArchiveStore \<Rightarrow> instant \<Rightarrow> uuid \<Rightarrow> import_tables \<Rightarrow> import_tables \<times> (Advanced, ImportError) result" where
  "advance_parse I io store now run_id im =
     (case parse_run I io store now run_id im of
        (im', Err e) \<Rightarrow> (im', handled_input_failure e)
      | (im', Ok _) \<Rightarrow> advance_reconcile I run_id im')"

definition advance ::
  "import_env \<Rightarrow> ArchiveIo \<Rightarrow> ArchiveStore \<Rightarrow> instant \<Rightarrow> uuid \<Rightarrow> ImportState \<Rightarrow> import_tables
     \<Rightarrow> import_tables \<times> (Advanced, ImportError) result" where
  "advance I io store now run_id initial im =
     (case initial of
        Received \<Rightarrow>
          (case inspect_run I io store now run_id im of
             (im', Err e) \<Rightarrow> (im', handled_input_failure e)
           | (im', Ok _) \<Rightarrow> advance_parse I io store now run_id im')
      | Inspected \<Rightarrow> advance_parse I io store now run_id im
      | Parsed \<Rightarrow> advance_reconcile I run_id im
      | _ \<Rightarrow> (im, Ok (initial_state initial)))"

definition selected_runs :: "nat \<Rightarrow> import_tables \<Rightarrow> ImportRunRow list" where
  "selected_runs batch_size im =
     take batch_size (sort_key (\<lambda>r. (ir_updated_at r, ir_id r))
       (filter (\<lambda>r. ir_state r \<in> {Received, Inspected, Parsed}) (im_runs im)))"

definition count_advanced :: "Advanced \<Rightarrow> WorkerPass \<Rightarrow> WorkerPass" where
  "count_advanced a pass =
     (case a of AdvReconciled \<Rightarrow> pass\<lparr>wp_reconciled := saturating_add (wp_reconciled pass) 1\<rparr>
      | AdvFailed \<Rightarrow> pass\<lparr>wp_failed := saturating_add (wp_failed pass) 1\<rparr>
      | AdvIntermediate \<Rightarrow> pass)"

text \<open>A lost compare-and-swap is skipped; any other error ends the pass.\<close>

fun advance_all ::
  "import_env \<Rightarrow> ArchiveIo \<Rightarrow> ArchiveStore \<Rightarrow> instant \<Rightarrow> ImportRunRow list \<Rightarrow> WorkerPass \<Rightarrow> import_tables
     \<Rightarrow> import_tables \<times> (WorkerPass, ImportError) result" where
  "advance_all I io store now [] pass im = (im, Ok pass)"
| "advance_all I io store now (r # rs) pass im =
     (case advance I io store now (ir_id r) (ir_state r) im of
        (im', Ok a) \<Rightarrow> advance_all I io store now rs (count_advanced a pass) im'
      | (im', Err ImStateConflict) \<Rightarrow> advance_all I io store now rs pass im'
      | (im', Err e) \<Rightarrow> (im', Err e))"

definition import_run_once ::
  "import_env \<Rightarrow> ArchiveIo \<Rightarrow> ArchiveStore \<Rightarrow> instant \<Rightarrow> nat \<Rightarrow> import_tables \<Rightarrow> import_tables \<times> (WorkerPass, ImportError) result" where
  "import_run_once I io store now batch_size im =
     (let rows = selected_runs batch_size im
      in advance_all I io store now rows
           \<lparr>wp_selected = word_of_nat (min (length rows) (2 ^ 32 - 1)), wp_reconciled = 0, wp_failed = 0\<rparr> im)"

section \<open>The state machine\<close>

text \<open>
  Every committed transaction of an import, and any transaction of another component on the tables
  they share, which may draw identifiers but never takes one back.
\<close>

inductive import_step :: "import_env \<Rightarrow> import_tables \<Rightarrow> import_tables \<Rightarrow> bool" for I where
  step_receipt: "persist_receipt I now user stored im = Ok (im', out) \<Longrightarrow> import_step I im im'"
| step_inspected: "finish_inspection I now run_id failure im = Ok im' \<Longrightarrow> import_step I im im'"
| step_parsed: "persist_parsed I now run_id parsed im = Ok im' \<Longrightarrow> import_step I im im'"
| step_parse_failed: "fail_parse I now run_id cls im = Ok im' \<Longrightarrow> import_step I im im'"
| step_reconciled: "reconcile_run I run_id im = Ok (im', report) \<Longrightarrow> import_step I im im'"
| step_other: "minted (im_archive im) \<le> minted db \<Longrightarrow> import_step I im (im\<lparr>im_archive := db\<rparr>)"

text \<open>The transitions \<^verbatim>\<open>import_run_transitions_state_check\<close> allows and the code makes, with their ordinal.\<close>

inductive run_path :: "(nat \<times> ImportState option \<times> ImportState \<times> string option) list \<Rightarrow> ImportState \<Rightarrow> bool" where
  path_received: "run_path [(1, None, Received, None)] Received"
| path_inspected: "run_path h Received \<Longrightarrow> run_path (h @ [(2, Some Received, Inspected, None)]) Inspected"
| path_refused: "run_path h Received \<Longrightarrow> run_path (h @ [(2, Some Received, ImportFailed, Some c)]) ImportFailed"
| path_parsed: "run_path h Inspected \<Longrightarrow> run_path (h @ [(3, Some Inspected, Parsed, None)]) Parsed"
| path_unparsed: "run_path h Inspected \<Longrightarrow> run_path (h @ [(3, Some Inspected, ImportFailed, Some c)]) ImportFailed"
| path_reconciled: "run_path h Parsed \<Longrightarrow> run_path (h @ [(4, Some Parsed, Reconciled, None)]) Reconciled"

definition history :: "import_tables \<Rightarrow> uuid \<Rightarrow> (nat \<times> ImportState option \<times> ImportState \<times> string option) list" where
  "history im run_id =
     map (\<lambda>t. (tr_ordinal t, tr_from t, tr_to t, tr_failure t)) (filter (\<lambda>t. tr_run t = run_id) (im_transitions im))"

definition terminal :: "ImportState \<Rightarrow> bool" where
  "terminal s \<longleftrightarrow> s = Reconciled \<or> s = ImportFailed"

definition run_consistent :: "import_tables \<Rightarrow> ImportRunRow \<Rightarrow> bool" where
  "run_consistent im r \<longleftrightarrow>
     run_path (history im (ir_id r)) (ir_state r)
     \<and> (ir_failure r \<noteq> None \<longleftrightarrow> ir_state r = ImportFailed) \<and> (ir_finished_at r \<noteq> None \<longleftrightarrow> terminal (ir_state r))
     \<and> (ir_id r \<in> fst ` set (im_reports im) \<longleftrightarrow> ir_state r = Reconciled)
     \<and> (\<exists>s \<in> set (im_snapshots im). es_id s = ir_snapshot r \<and> es_user s = ir_user r)"

definition imports_consistent :: "import_tables \<Rightarrow> bool" where
  "imports_consistent im \<longleftrightarrow>
     list_all (run_consistent im) (im_runs im)
     \<and> distinct (map ir_id (im_runs im)) \<and> distinct (map ir_snapshot (im_runs im))
     \<and> distinct (map es_id (im_snapshots im)) \<and> distinct (map (\<lambda>s. (es_user s, es_hash s)) (im_snapshots im))
     \<and> distinct (map fst (im_reports im))
     \<and> set (map tr_run (im_transitions im)) \<subseteq> set (map ir_id (im_runs im))
     \<and> set (map fst (im_reports im)) \<subseteq> set (map ir_id (im_runs im))"

text \<open>Identifiers of stored rows were drawn before.\<close>

definition ids_drawn :: "import_env \<Rightarrow> import_tables \<Rightarrow> bool" where
  "ids_drawn I im \<longleftrightarrow>
     set (map ir_id (im_runs im)) \<union> set (map ir_snapshot (im_runs im)) \<union> set (map es_id (im_snapshots im))
       \<subseteq> e_now_v7 (ie_env I) ` {..< minted (im_archive im)}"

definition import_invariant :: "import_env \<Rightarrow> import_tables \<Rightarrow> bool" where
  "import_invariant I im \<longleftrightarrow> imports_consistent im \<and> ids_drawn I im"

definition empty_imports :: import_tables where
  "empty_imports = \<lparr>im_archive = empty_archive, im_snapshots = [], im_runs = [], im_transitions = [], im_records = [], im_reports = []\<rparr>"


section \<open>Transactions in terms of the state machine\<close>

lemma drawn_import_simps [simp]:
  "im_snapshots (drawn_import im) = im_snapshots im" "im_runs (drawn_import im) = im_runs im"
  "im_transitions (drawn_import im) = im_transitions im" "im_records (drawn_import im) = im_records im"
  "im_reports (drawn_import im) = im_reports im" "minted (im_archive (drawn_import im)) = Suc (minted (im_archive im))"
  by (simp_all add: drawn_import_def drawn_def)

text \<open>What every committed stage does to runs, transitions and snapshots.\<close>

definition moves ::
  "uuid \<Rightarrow> ImportState \<Rightarrow> (ImportRunRow \<Rightarrow> ImportRunRow) \<Rightarrow> nat \<times> ImportState \<times> string option \<Rightarrow> import_tables \<Rightarrow> import_tables \<Rightarrow> bool" where
  "moves run_id from_state f change im im' \<longleftrightarrow>
     rows_affected (\<lambda>r. ir_id r = run_id \<and> ir_state r = from_state) (im_runs im) = 1
     \<and> im_runs im' = update_where (\<lambda>r. ir_id r = run_id \<and> ir_state r = from_state) f (im_runs im)
     \<and> (case change of (ordinal, to_state, failure) \<Rightarrow>
          \<exists>i now. im_transitions im' = im_transitions im @
            [\<lparr>tr_id = i, tr_run = run_id, tr_ordinal = ordinal, tr_from = Some from_state, tr_to = to_state,
              tr_failure = failure, tr_at = now\<rparr>])
     \<and> im_snapshots im' = im_snapshots im \<and> minted (im_archive im) \<le> minted (im_archive im')"

lemma cas_then_transition:
  assumes "bind_result (cas_run run_id from_state f im) (\<lambda>im1.
      map_err ImReceipt (insert_transition I run_id n (Some from_state) to_state c now im1)) = Ok im'"
  shows "moves run_id from_state f (n, to_state, c) im im' \<and> im_reports im' = im_reports im"
  using assms by (auto simp: cas_run_def insert_transition_def moves_def split: if_splits)

lemma finish_inspection_moves:
  assumes "finish_inspection I now run_id failure im = Ok im'"
  shows "\<exists>f. moves run_id Received f (2, (case failure of Some _ \<Rightarrow> ImportFailed | None \<Rightarrow> Inspected), map_option failure_class_str failure) im im'
    \<and> im_reports im' = im_reports im
    \<and> f = (\<lambda>r. r\<lparr>ir_state := (case failure of Some _ \<Rightarrow> ImportFailed | None \<Rightarrow> Inspected),
        ir_failure := map_option failure_class_str failure, ir_updated_at := now,
        ir_finished_at := (case failure of Some _ \<Rightarrow> Some now | None \<Rightarrow> None)\<rparr>)"
  using cas_then_transition [OF assms [unfolded finish_inspection_def Let_def]] by simp

lemma insert_staged_frame:
  "insert_staged rows im = Ok im' \<Longrightarrow> \<exists>recs. im' = im\<lparr>im_records := recs\<rparr>"
proof (induction rows arbitrary: im)
  case (Cons row rows)
  then obtain r im1 where "insert_staged_record r im = Ok im1" "insert_staged rows im1 = Ok im'" by auto
  with Cons.IH [of im1] show ?case by (auto simp: insert_staged_record_def split: if_splits)
next
  case Nil
  then have "im' = im\<lparr>im_records := im_records im\<rparr>" by simp
  then show ?case by blast
qed

lemma persist_parsed_moves:
  assumes "persist_parsed I now run_id parsed im = Ok im'"
  shows "\<exists>f. moves run_id Inspected f (3, Parsed, None) im im' \<and> im_reports im' = im_reports im
    \<and> (\<forall>r. ir_id (f r) = ir_id r \<and> ir_snapshot (f r) = ir_snapshot r \<and> ir_user (f r) = ir_user r \<and> ir_state (f r) = Parsed
         \<and> ir_failure (f r) = ir_failure r \<and> ir_finished_at (f r) = ir_finished_at r)"
proof -
  obtain recs f where staged: "bind_result (cas_run run_id Inspected f (im\<lparr>im_records := recs\<rparr>)) (\<lambda>im2.
      map_err ImReceipt (insert_transition I run_id 3 (Some Inspected) Parsed None now im2)) = Ok im'"
    and f: "f = (\<lambda>r. r\<lparr>ir_state := Parsed, ir_layout := Some (pe_detected_layout parsed),
             ir_parser := Some (pe_parser_id parsed),
             ir_records := int (length (pe_records parsed) + length (pe_unknown_entries parsed)
               + length (pe_unknown_records parsed) + length (pe_warnings parsed)),
             ir_warnings := int (length (pe_warnings parsed)), ir_updated_at := now\<rparr>)"
    using assms by (auto simp: persist_parsed_def dest!: insert_staged_frame split: if_splits)
  from cas_then_transition [OF staged] f show ?thesis by (intro exI [of _ f]) (simp add: moves_def)
qed

lemma fail_parse_moves:
  assumes "fail_parse I now run_id cls im = Ok im'"
  shows "\<exists>f. moves run_id Inspected f (3, ImportFailed, Some cls) im im' \<and> im_reports im' = im_reports im
    \<and> f = (\<lambda>r. r\<lparr>ir_state := ImportFailed, ir_failure := Some cls, ir_updated_at := now, ir_finished_at := Some now\<rparr>)"
  using cas_then_transition [OF assms [unfolded fail_parse_def]] by simp

lemma append_data_export_fact_minted:
  "append_data_export_fact E db m owner provider link digest ref now = Ok (db', b) \<Longrightarrow> minted db \<le> minted db'"
  by (auto simp: append_data_export_fact_def Let_def drawn_def split: if_splits)

lemma project_record_minted: "project_record I owner now ref row provider link digest db = Ok db' \<Longrightarrow> minted db \<le> minted db'"
  by (auto simp: project_record_def ensure_media_def attach_evidence_def project_media_def Let_def insert_raw_once_def
      insert_revision_once_def dest!: append_data_export_fact_minted split: if_splits)

lemma reconcile_records_frame:
  "reconcile_records I run_id owner now ref rows im = Ok im' \<Longrightarrow>
     im_runs im' = im_runs im \<and> im_transitions im' = im_transitions im \<and> im_snapshots im' = im_snapshots im
     \<and> im_reports im' = im_reports im \<and> minted (im_archive im) \<le> minted (im_archive im')"
proof (induction rows arbitrary: im)
  case (Cons row rows)
  then obtain im1 where one: "reconcile_record I run_id owner now ref row im = Ok im1"
    and rest: "reconcile_records I run_id owner now ref rows im1 = Ok im'" by auto
  have "im_runs im1 = im_runs im \<and> im_transitions im1 = im_transitions im \<and> im_snapshots im1 = im_snapshots im
     \<and> im_reports im1 = im_reports im \<and> minted (im_archive im) \<le> minted (im_archive im1)"
    using one by (auto simp: reconcile_record_def persist_conflict_def insert_staged_record_def Let_def
        dest!: project_record_minted split: if_splits option.splits)
  with Cons.IH [OF rest] show ?case by auto
qed simp

text \<open>A run that was not reconciled before goes through every part of the transaction.\<close>

lemma reconcile_run_fresh:
  assumes "reconcile_run I run_id im = Ok (im', report)" "archived_run im run_id = Some (r, s)" "ir_state r \<noteq> Reconciled"
  shows "\<exists>ref im1 im2 im3. ir_state r = Parsed \<and> es_ref s = Some ref
    \<and> reconcile_records I run_id (ir_user r) (ir_received_at r) ref (normalized_rows I im run_id) im = Ok im1
    \<and> report = build_report I run_id (ir_user r) (normalized_rows I im run_id) im1
    \<and> persist_report run_id report im1 = Ok im2
    \<and> cas_run run_id Parsed (\<lambda>q. q\<lparr>ir_state := Reconciled, ir_updated_at := ir_received_at r,
          ir_finished_at := Some (ir_received_at r)\<rparr>) im2 = Ok im3
    \<and> insert_transition I run_id 4 (Some Parsed) Reconciled None (ir_received_at r) im3 = Ok im'"
  using assms by (auto simp: reconcile_run_def Let_def split: option.splits if_splits)

lemma reconcile_run_replayed:
  assumes "archived_run im run_id = Some (r, s)" "ir_state r = Reconciled"
  shows "reconcile_run I run_id im = bind_result (load_report im run_id) (\<lambda>report. Ok (im, report))"
  using assms by (simp add: reconcile_run_def)

lemma reconcile_run_moves:
  assumes "reconcile_run I run_id im = Ok (im', report)" "im' \<noteq> im"
  shows "\<exists>f now. moves run_id Parsed f (4, Reconciled, None) im im' \<and> im_reports im' = im_reports im @ [(run_id, report)]
    \<and> run_id \<notin> fst ` set (im_reports im)
    \<and> f = (\<lambda>r. r\<lparr>ir_state := Reconciled, ir_updated_at := now, ir_finished_at := Some now\<rparr>)"
proof -
  obtain r s where rs: "archived_run im run_id = Some (r, s)"
    using assms(1) by (auto simp: reconcile_run_def split: option.splits)
  with assms have "ir_state r \<noteq> Reconciled" by (auto simp: reconcile_run_replayed)
  from reconcile_run_fresh [OF assms(1) rs this] obtain ref im1 im2 im3 where
      recs: "reconcile_records I run_id (ir_user r) (ir_received_at r) ref (normalized_rows I im run_id) im = Ok im1"
    and rep: "persist_report run_id report im1 = Ok im2"
    and cas: "bind_result (cas_run run_id Parsed (\<lambda>q. q\<lparr>ir_state := Reconciled, ir_updated_at := ir_received_at r,
          ir_finished_at := Some (ir_received_at r)\<rparr>) im2) (\<lambda>im3.
        map_err ImReceipt (insert_transition I run_id 4 (Some Parsed) Reconciled None (ir_received_at r) im3)) = Ok im'"
    by auto
  have im2: "im_runs im2 = im_runs im" "im_transitions im2 = im_transitions im" "im_snapshots im2 = im_snapshots im"
    "im_reports im2 = im_reports im @ [(run_id, report)]" "run_id \<notin> fst ` set (im_reports im)"
    "minted (im_archive im) \<le> minted (im_archive im2)"
    using rep reconcile_records_frame [OF recs] by (auto simp: persist_report_def list_ex_iff split: if_splits)
  from cas_then_transition [OF cas] show ?thesis
    using im2(6) by (intro exI conjI) (auto simp: moves_def im2(1-5))
qed

section \<open>The invariant\<close>

lemma history_append:
  "im_transitions im' = im_transitions im @ [t] \<Longrightarrow>
     history im' i = history im i @ (if tr_run t = i then [(tr_ordinal t, tr_from t, tr_to t, tr_failure t)] else [])"
  by (simp add: history_def)

text \<open>The row a stage moves, and that it is the only row with its identifier.\<close>

lemma moves_hits:
  assumes "moves run_id from_state f change im im'"
  shows "\<exists>q \<in> set (im_runs im). ir_id q = run_id \<and> ir_state q = from_state"
proof -
  have "length (filter (\<lambda>r. ir_id r = run_id \<and> ir_state r = from_state) (im_runs im)) = 1"
    using assms by (simp add: moves_def rows_affected_def)
  then have "filter (\<lambda>r. ir_id r = run_id \<and> ir_state r = from_state) (im_runs im) \<noteq> []" by auto
  then show ?thesis unfolding filter_empty_conv by blast
qed

lemma moves_row:
  assumes "moves run_id from_state f change im im'" "distinct (map ir_id (im_runs im))" "r \<in> set (im_runs im)" "ir_id r = run_id"
  shows "ir_state r = from_state"
proof -
  obtain q where "q \<in> set (im_runs im)" "ir_id q = run_id" "ir_state q = from_state"
    using moves_hits [OF assms(1)] by blast
  with assms show ?thesis by (metis inj_onD distinct_map)
qed

lemma moves_consistent:
  assumes inv: "imports_consistent im" and m: "moves run_id from_state f (n, to_state, c) im im'"
    and path: "\<And>h. run_path h from_state \<Longrightarrow> run_path (h @ [(n, Some from_state, to_state, c)]) to_state"
    and row: "\<And>r. ir_id (f r) = ir_id r \<and> ir_snapshot (f r) = ir_snapshot r \<and> ir_user (f r) = ir_user r \<and> ir_state (f r) = to_state"
    and open_row: "\<not> terminal from_state"
    and ends: "\<And>r. ir_failure r = None \<Longrightarrow> ir_finished_at r = None \<Longrightarrow>
      (ir_failure (f r) \<noteq> None \<longleftrightarrow> to_state = ImportFailed) \<and> (ir_finished_at (f r) \<noteq> None \<longleftrightarrow> terminal to_state)"
    and reps: "im_reports im' = im_reports im @ (if to_state = Reconciled then [(run_id, report)] else [])"
      "to_state = Reconciled \<Longrightarrow> run_id \<notin> fst ` set (im_reports im)"
  shows "imports_consistent im'"
proof -
  let ?P = "\<lambda>r. ir_id r = run_id \<and> ir_state r = from_state"
  have runs: "im_runs im' = update_where ?P f (im_runs im)" and snaps: "im_snapshots im' = im_snapshots im"
    using m by (simp_all add: moves_def)
  obtain t where tr: "im_transitions im' = im_transitions im @ [t]" "tr_run t = run_id"
    "(tr_ordinal t, tr_from t, tr_to t, tr_failure t) = (n, Some from_state, to_state, c)"
    using m by (auto simp: moves_def)
  have hist: "history im' i = history im i @ (if run_id = i then [(n, Some from_state, to_state, c)] else [])" for i
    using history_append [OF tr(1), of i] tr(2,3) by simp
  have ids: "map ir_id (im_runs im') = map ir_id (im_runs im)" "map ir_snapshot (im_runs im') = map ir_snapshot (im_runs im)"
    using row unfolding runs by (simp_all add: map_update_where_same)
  have dist: "distinct (map ir_id (im_runs im))" using inv by (simp add: imports_consistent_def)
  have "run_consistent im' q" if q: "q \<in> set (im_runs im')" for q
  proof -
    obtain r where r: "r \<in> set (im_runs im)" "q = (if ?P r then f r else r)"
      using q unfolding runs set_update_where by blast
    have ok: "run_consistent im r" using inv r(1) by (simp add: imports_consistent_def list_all_iff)
    show ?thesis
    proof (cases "ir_id r = run_id")
      case True
      with moves_row [OF m dist r(1)] have st: "ir_state r = from_state" by blast
      with ok open_row have "ir_failure r = None" "ir_finished_at r = None" "from_state \<noteq> Reconciled"
        by (auto simp: run_consistent_def terminal_def)
      with True st r(2) ok ends [of r] row [of r] path show ?thesis
        by (auto simp: run_consistent_def hist snaps reps)
    next
      case False
      with r(2) ok show ?thesis by (auto simp: run_consistent_def hist snaps reps)
    qed
  qed
  moreover have "run_id \<in> set (map ir_id (im_runs im))"
    using moves_hits [OF m] by force
  ultimately show ?thesis
    using inv reps(2) unfolding imports_consistent_def ids snaps tr(1)
    by (auto simp: list_all_iff reps(1) tr(2))
qed

lemma map_disjoint_fresh:
  assumes "set xs \<subseteq> e_now_v7 E ` {..<n}" "inj_on (e_now_v7 E) {..<m}" "n \<le> k" "k < m"
  shows "e_now_v7 E k \<notin> set xs"
  using assms by (force simp: inj_on_def)

lemma persist_receipt_replayed:
  assumes "persist_receipt I now user stored im = Ok (im', ReceiptReplayed rc)"
  shows "im' = drawn_import im"
  using assms by (auto simp: persist_receipt_def Let_def split: option.splits if_splits)

lemma persist_receipt_created:
  assumes "persist_receipt I now user stored im = Ok (im', ReceiptCreated rc)"
  shows "\<exists>s r t. im_snapshots im' = im_snapshots im @ [s] \<and> im_runs im' = im_runs im @ [r] \<and> im_transitions im' = im_transitions im @ [t]
    \<and> im_reports im' = im_reports im \<and> im_records im' = im_records im
    \<and> minted (im_archive im') = minted (im_archive im) + 3
    \<and> (\<forall>q \<in> set (im_snapshots im). es_user q \<noteq> user \<or> es_hash q \<noteq> sa_digest stored)
    \<and> es_id s = e_now_v7 (ie_env I) (minted (im_archive im)) \<and> es_user s = user \<and> es_hash s = sa_digest stored
    \<and> es_ref s = Some (sa_ref stored) \<and> es_size s = sa_size stored
    \<and> ir_id r = e_now_v7 (ie_env I) (Suc (minted (im_archive im))) \<and> ir_snapshot r = es_id s \<and> ir_user r = user
    \<and> ir_state r = Received \<and> ir_failure r = None \<and> ir_finished_at r = None \<and> rc_run rc = ir_id r
    \<and> tr_run t = ir_id r \<and> (tr_ordinal t, tr_from t, tr_to t, tr_failure t) = (1, None, Received, None)"
  using assms
  by (auto simp: persist_receipt_def Let_def insert_transition_def draw_id_def now_v7_def find_None_iff
      split: option.splits if_splits)

lemma receipt_consistent:
  assumes inv: "import_invariant I im" and step: "persist_receipt I now user stored im = Ok (im', ReceiptCreated rc)"
    and fresh: "inj_on (e_now_v7 (ie_env I)) {..< minted (im_archive im')}"
  shows "import_invariant I im'"
proof -
  let ?v = "e_now_v7 (ie_env I)" and ?n = "minted (im_archive im)"
  obtain s r t where c: "im_snapshots im' = im_snapshots im @ [s]" "im_runs im' = im_runs im @ [r]"
      "im_transitions im' = im_transitions im @ [t]" "im_reports im' = im_reports im" "minted (im_archive im') = ?n + 3"
    and new: "\<forall>q \<in> set (im_snapshots im). es_user q \<noteq> user \<or> es_hash q \<noteq> sa_digest stored"
    and s: "es_id s = ?v ?n" "es_user s = user" "es_hash s = sa_digest stored"
    and r: "ir_id r = ?v (Suc ?n)" "ir_snapshot r = es_id s" "ir_user r = user" "ir_state r = Received" "ir_failure r = None"
      "ir_finished_at r = None"
    and t: "tr_run t = ir_id r" "(tr_ordinal t, tr_from t, tr_to t, tr_failure t) = (1, None, Received, None)"
    using persist_receipt_created [OF step] by (elim exE conjE) (erule (14) that, assumption+)
  have drawn: "set (map ir_id (im_runs im)) \<subseteq> ?v ` {..<?n}" "set (map ir_snapshot (im_runs im)) \<subseteq> ?v ` {..<?n}"
    "set (map es_id (im_snapshots im)) \<subseteq> ?v ` {..<?n}" and con: "imports_consistent im"
    using inv by (auto simp: import_invariant_def ids_drawn_def)
  have new_ids: "ir_id r \<notin> set (map ir_id (im_runs im))" "ir_snapshot r \<notin> set (map ir_snapshot (im_runs im))"
    "es_id s \<notin> set (map es_id (im_snapshots im))"
    using map_disjoint_fresh [OF drawn(1) fresh, of "Suc ?n"] map_disjoint_fresh [OF drawn(2) fresh, of ?n]
      map_disjoint_fresh [OF drawn(3) fresh, of ?n] c(5) r(1,2) s(1) by auto
  have none: "filter (\<lambda>t. tr_run t = ir_id r) (im_transitions im) = []" "ir_id r \<notin> fst ` set (im_reports im)"
  proof -
    have sub: "tr_run ` set (im_transitions im) \<subseteq> ir_id ` set (im_runs im)" "fst ` set (im_reports im) \<subseteq> ir_id ` set (im_runs im)"
      using con by (simp_all add: imports_consistent_def)
    from sub(1) new_ids(1) show "filter (\<lambda>t. tr_run t = ir_id r) (im_transitions im) = []"
      unfolding filter_empty_conv set_map by (metis image_eqI subsetD)
    from sub(2) new_ids(1) show "ir_id r \<notin> fst ` set (im_reports im)" by auto
  qed
  have hist: "history im' i = history im i @ (if ir_id r = i then [(1, None, Received, None)] else [])" for i
    using history_append [OF c(3), of i] t by simp
  have old: "run_consistent im' q" if "q \<in> set (im_runs im)" for q
  proof -
    have "ir_id q \<noteq> ir_id r" using that new_ids(1) by (metis image_eqI set_map)
    moreover have "run_consistent im q" using con that by (simp add: imports_consistent_def list_all_iff)
    ultimately show ?thesis by (auto simp: run_consistent_def hist c(1,4))
  qed
  have "run_consistent im' r"
    using none r s by (auto simp: run_consistent_def hist c(1,4) terminal_def intro: path_received) (simp_all add: history_def path_received [simplified])
  with old con new_ids new s have "imports_consistent im'"
    unfolding imports_consistent_def c(1-4) using t(1) by (auto simp: list_all_iff)
  moreover have "ids_drawn I im'"
    using drawn s(1) r(1,2) unfolding ids_drawn_def c by (auto simp: lessThan_Suc numeral_3_eq_3 image_iff)
  ultimately show ?thesis by (simp add: import_invariant_def)
qed

lemma ids_drawn_mono:
  assumes "ids_drawn I im" "minted (im_archive im) \<le> minted (im_archive im')"
    and "map ir_id (im_runs im') = map ir_id (im_runs im)" "map ir_snapshot (im_runs im') = map ir_snapshot (im_runs im)"
    and "im_snapshots im' = im_snapshots im"
  shows "ids_drawn I im'"
proof -
  have "e_now_v7 (ie_env I) ` {..< minted (im_archive im)} \<subseteq> e_now_v7 (ie_env I) ` {..< minted (im_archive im')}"
    using assms(2) by (intro image_mono) simp
  with assms(1) show ?thesis unfolding ids_drawn_def assms(3-5) by (rule order_trans)
qed

text \<open>A transaction that leaves the import tables alone keeps the invariant.\<close>

lemma import_invariant_frame:
  assumes "import_invariant I im" "minted (im_archive im) \<le> minted (im_archive im')"
    and "im_runs im' = im_runs im" "im_transitions im' = im_transitions im" "im_snapshots im' = im_snapshots im"
      "im_reports im' = im_reports im"
  shows "import_invariant I im'"
proof -
  have "history im' = history im" by (simp add: history_def [abs_def] assms)
  then have "run_consistent im' = run_consistent im" by (simp add: run_consistent_def [abs_def] assms)
  moreover have "ids_drawn I im'" using assms by (auto simp: import_invariant_def intro: ids_drawn_mono)
  ultimately show ?thesis using assms(1) by (simp add: import_invariant_def imports_consistent_def assms)
qed

lemma moves_ids_drawn:
  assumes "moves run_id from_state f change im im'" "ids_drawn I im"
    and "\<And>r. ir_id (f r) = ir_id r \<and> ir_snapshot (f r) = ir_snapshot r"
  shows "ids_drawn I im'"
proof -
  have "map ir_id (im_runs im') = map ir_id (im_runs im)" "map ir_snapshot (im_runs im') = map ir_snapshot (im_runs im)"
    "im_snapshots im' = im_snapshots im" "minted (im_archive im) \<le> minted (im_archive im')"
    using assms(1,3) by (simp_all add: moves_def map_update_where_same)
  with assms(2) show ?thesis by (simp add: ids_drawn_mono)
qed

lemma moves_invariant:
  assumes "import_invariant I im" "moves run_id from_state f (n, to_state, c) im im'"
    and "\<And>h. run_path h from_state \<Longrightarrow> run_path (h @ [(n, Some from_state, to_state, c)]) to_state"
    and "\<And>r. ir_id (f r) = ir_id r \<and> ir_snapshot (f r) = ir_snapshot r \<and> ir_user (f r) = ir_user r \<and> ir_state (f r) = to_state"
    and "\<not> terminal from_state"
    and "\<And>r. ir_failure r = None \<Longrightarrow> ir_finished_at r = None \<Longrightarrow>
      (ir_failure (f r) \<noteq> None \<longleftrightarrow> to_state = ImportFailed) \<and> (ir_finished_at (f r) \<noteq> None \<longleftrightarrow> terminal to_state)"
    and "im_reports im' = im_reports im @ (if to_state = Reconciled then [(run_id, report)] else [])"
      "to_state = Reconciled \<Longrightarrow> run_id \<notin> fst ` set (im_reports im)"
  shows "import_invariant I im'"
  using moves_consistent [OF _ assms(2,3,4,5,6,7,8)] moves_ids_drawn [OF assms(2)] assms(1,4)
  unfolding import_invariant_def by blast

lemma import_step_minted: "import_step I im im' \<Longrightarrow> minted (im_archive im) \<le> minted (im_archive im')"
proof (induction rule: import_step.induct)
  case (step_receipt now user stored im im' out)
  then show ?case
    by (cases out) (auto dest!: persist_receipt_replayed persist_receipt_created)
next
  case (step_inspected now run_id failure im im')
  from finish_inspection_moves [OF this] show ?case by (auto simp: moves_def)
next
  case (step_parsed now run_id parsed im im')
  from persist_parsed_moves [OF this] show ?case by (auto simp: moves_def)
next
  case (step_parse_failed now run_id cls im im')
  from fail_parse_moves [OF this] show ?case by (auto simp: moves_def)
next
  case (step_reconciled run_id im im' report)
  then show ?case using reconcile_run_moves [OF step_reconciled] by (cases "im' = im") (auto simp: moves_def)
qed auto

lemma import_step_invariant:
  assumes "import_step I im im'" "import_invariant I im" "inj_on (e_now_v7 (ie_env I)) {..< minted (im_archive im')}"
  shows "import_invariant I im'"
  using assms
proof (induction rule: import_step.induct)
  case (step_receipt now user stored im im' out)
  show ?case
  proof (cases out)
    case (ReceiptReplayed rc)
    with step_receipt persist_receipt_replayed have "im' = drawn_import im" by blast
    with import_invariant_frame [OF step_receipt(2)] show ?thesis by simp
  qed (use step_receipt receipt_consistent in blast)
next
  case (step_inspected now run_id failure im im')
  from finish_inspection_moves [OF step_inspected(1)] obtain f where
    "moves run_id Received f (2, (case failure of Some _ \<Rightarrow> ImportFailed | None \<Rightarrow> Inspected), map_option failure_class_str failure) im im'"
    "im_reports im' = im_reports im"
    "f = (\<lambda>r. r\<lparr>ir_state := (case failure of Some _ \<Rightarrow> ImportFailed | None \<Rightarrow> Inspected),
        ir_failure := map_option failure_class_str failure, ir_updated_at := now,
        ir_finished_at := (case failure of Some _ \<Rightarrow> Some now | None \<Rightarrow> None)\<rparr>)" by blast
  then show ?case
    by (intro moves_invariant [OF step_inspected(2)]) (auto simp: terminal_def intro: run_path.intros split: option.splits)
next
  case (step_parsed now run_id parsed im im')
  from persist_parsed_moves [OF step_parsed(1)] obtain f where
    "moves run_id Inspected f (3, Parsed, None) im im'" "im_reports im' = im_reports im"
    "\<forall>r. ir_id (f r) = ir_id r \<and> ir_snapshot (f r) = ir_snapshot r \<and> ir_user (f r) = ir_user r \<and> ir_state (f r) = Parsed
         \<and> ir_failure (f r) = ir_failure r \<and> ir_finished_at (f r) = ir_finished_at r" by blast
  then show ?case
    by (intro moves_invariant [OF step_parsed(2)]) (auto simp: terminal_def intro: run_path.intros)
next
  case (step_parse_failed now run_id cls im im')
  from fail_parse_moves [OF step_parse_failed(1)] obtain f where
    "moves run_id Inspected f (3, ImportFailed, Some cls) im im'" "im_reports im' = im_reports im"
    "f = (\<lambda>r. r\<lparr>ir_state := ImportFailed, ir_failure := Some cls, ir_updated_at := now, ir_finished_at := Some now\<rparr>)" by blast
  then show ?case
    by (intro moves_invariant [OF step_parse_failed(2)]) (auto simp: terminal_def intro: run_path.intros)
next
  case (step_reconciled run_id im im' report)
  show ?case
  proof (cases "im' = im")
    case False
    from reconcile_run_moves [OF step_reconciled(1) this] obtain f now where
      "moves run_id Parsed f (4, Reconciled, None) im im'" "im_reports im' = im_reports im @ [(run_id, report)]"
      "run_id \<notin> fst ` set (im_reports im)"
      "f = (\<lambda>r. r\<lparr>ir_state := Reconciled, ir_updated_at := now, ir_finished_at := Some now\<rparr>)" by blast
    then show ?thesis
      by (intro moves_invariant [OF step_reconciled(2)]) (auto simp: terminal_def intro: run_path.intros)
  qed (use step_reconciled in simp)
next
  case (step_other im db)
  with import_invariant_frame [OF step_other(2)] show ?case by simp
qed

lemma import_steps_minted: "(import_step I)\<^sup>*\<^sup>* im im' \<Longrightarrow> minted (im_archive im) \<le> minted (im_archive im')"
  by (induction rule: rtranclp_induct) (auto dest: import_step_minted)

lemma import_steps_invariant:
  assumes "(import_step I)\<^sup>*\<^sup>* im im'" "import_invariant I im" "inj_on (e_now_v7 (ie_env I)) {..< minted (im_archive im')}"
  shows "import_invariant I im'"
  using assms
proof (induction rule: rtranclp_induct)
  case (step y z)
  then have "inj_on (e_now_v7 (ie_env I)) {..< minted (im_archive y)}"
    by (meson import_step_minted inj_on_subset lessThan_subset_iff)
  with step show ?case using import_step_invariant by blast
qed

lemma empty_imports_invariant: "import_invariant I empty_imports"
  by (simp add: import_invariant_def imports_consistent_def ids_drawn_def empty_imports_def)

section \<open>Terminal runs are final\<close>

definition settled :: "import_tables \<Rightarrow> ImportRunRow \<Rightarrow> import_tables \<Rightarrow> bool" where
  "settled im r im' \<longleftrightarrow>
     r \<in> set (im_runs im') \<and> history im' (ir_id r) = history im (ir_id r)
     \<and> map_of (im_reports im') (ir_id r) = map_of (im_reports im) (ir_id r)"

lemma moves_settled:
  assumes m: "moves run_id from_state f change im im'" and inv: "imports_consistent im"
    and r: "r \<in> set (im_runs im)" "terminal (ir_state r)" and from_state: "\<not> terminal from_state"
    and reps: "\<exists>xs. im_reports im' = im_reports im @ xs \<and> fst ` set xs \<subseteq> {run_id}"
  shows "settled im r im'"
proof -
  have ne: "ir_id r \<noteq> run_id"
    using moves_row [OF m _ r(1)] inv r(2) from_state by (auto simp: imports_consistent_def)
  obtain t where t: "im_transitions im' = im_transitions im @ [t]" "tr_run t = run_id"
    using m by (cases change) (auto simp: moves_def)
  obtain xs where xs: "im_reports im' = im_reports im @ xs" "fst ` set xs \<subseteq> {run_id}" using reps by blast
  with ne have "map_of xs (ir_id r) = None" by (auto simp: map_of_eq_None_iff)
  then have "map_of (im_reports im') (ir_id r) = map_of (im_reports im) (ir_id r)" using xs by (simp add: map_add_def split: option.splits)
  moreover have "r \<in> set (im_runs im')"
    using m r(1) ne by (auto simp: moves_def set_update_where image_iff intro!: bexI [of _ r])
  ultimately show ?thesis using ne by (simp add: settled_def history_append [OF t(1)] t(2))
qed

lemma import_step_settled:
  assumes "import_step I im im'" "import_invariant I im" "inj_on (e_now_v7 (ie_env I)) {..< minted (im_archive im')}"
    and "r \<in> set (im_runs im)" "terminal (ir_state r)"
  shows "settled im r im'"
  using assms
proof (induction rule: import_step.induct)
  case (step_receipt now user stored im im' out)
  show ?case
  proof (cases out)
    case (ReceiptReplayed rc)
    with step_receipt persist_receipt_replayed have "im' = drawn_import im" by blast
    with step_receipt(4) show ?thesis by (simp add: settled_def history_def)
  next
    case (ReceiptCreated rc)
    with step_receipt(1) obtain q t where c: "im_runs im' = im_runs im @ [q]" "im_transitions im' = im_transitions im @ [t]"
        "im_reports im' = im_reports im" "minted (im_archive im') = minted (im_archive im) + 3"
        "tr_run t = e_now_v7 (ie_env I) (Suc (minted (im_archive im)))"
      using persist_receipt_created [of I now user stored im im' rc] by auto
    have "set (map ir_id (im_runs im)) \<subseteq> e_now_v7 (ie_env I) ` {..< minted (im_archive im)}"
      using step_receipt(2) by (simp add: import_invariant_def ids_drawn_def)
    from map_disjoint_fresh [OF this step_receipt(3), of "Suc (minted (im_archive im))"] c(4,5) step_receipt(4)
    have "tr_run t \<noteq> ir_id r" by auto
    with c step_receipt(4) show ?thesis by (simp add: settled_def history_append [OF c(2)])
  qed
next
  case (step_inspected now run_id failure im im')
  from finish_inspection_moves [OF step_inspected(1)] moves_settled [OF _ _ step_inspected(4,5)] step_inspected(2)
  show ?case by (auto simp: import_invariant_def terminal_def)
next
  case (step_parsed now run_id parsed im im')
  from persist_parsed_moves [OF step_parsed(1)] moves_settled [OF _ _ step_parsed(4,5)] step_parsed(2)
  show ?case by (auto simp: import_invariant_def terminal_def)
next
  case (step_parse_failed now run_id cls im im')
  from fail_parse_moves [OF step_parse_failed(1)] moves_settled [OF _ _ step_parse_failed(4,5)] step_parse_failed(2)
  show ?case by (auto simp: import_invariant_def terminal_def)
next
  case (step_reconciled run_id im im' report)
  show ?case
  proof (cases "im' = im")
    case True
    with step_reconciled(4) show ?thesis by (simp add: settled_def)
  next
    case False
    from reconcile_run_moves [OF step_reconciled(1) this] moves_settled [OF _ _ step_reconciled(4,5)] step_reconciled(2)
    show ?thesis by (fastforce simp: import_invariant_def terminal_def)
  qed
next
  case (step_other im db)
  then show ?case by (simp add: settled_def history_def)
qed

lemma import_steps_settled:
  assumes "(import_step I)\<^sup>*\<^sup>* im im'" "import_invariant I im" "inj_on (e_now_v7 (ie_env I)) {..< minted (im_archive im')}"
    and "r \<in> set (im_runs im)" "terminal (ir_state r)"
  shows "settled im r im'"
  using assms
proof (induction rule: rtranclp_induct)
  case base
  then show ?case by (simp add: settled_def)
next
  case (step y z)
  have fresh: "inj_on (e_now_v7 (ie_env I)) {..< minted (im_archive y)}"
    using step(2,5) by (meson import_step_minted inj_on_subset lessThan_subset_iff)
  with step have y: "settled im r y" by blast
  have "import_invariant I y" using import_steps_invariant [OF step(1,4) fresh] .
  then have "settled y r z" using import_step_settled [OF step(2) _ step(5)] y step(7) by (simp add: settled_def)
  with y show ?case by (simp add: settled_def)
qed

text \<open>
  C9. The durable history of an import run is its state: in every reachable state of the import
  pipeline, under any interleaving of its transactions with each other and with those of other
  components, the recorded transitions of a run are an unbroken path of the state machine that ends in
  the run's state, with a failure class exactly when it failed, a finishing time exactly when it is
  terminal and a completeness report exactly when it is reconciled; an owner has one run per archive;
  and a run that is reconciled or failed never changes again, nor its history, nor its report.
\<close>
theorem import_history_is_the_state:
  assumes "(import_step I)\<^sup>*\<^sup>* empty_imports im" "(import_step I)\<^sup>*\<^sup>* im im'"
    and "inj_on (e_now_v7 (ie_env I)) {..< minted (im_archive im')}"
  shows "imports_consistent im \<and> (\<forall>r \<in> set (im_runs im). terminal (ir_state r) \<longrightarrow> settled im r im')"
proof -
  have "inj_on (e_now_v7 (ie_env I)) {..< minted (im_archive im)}"
    using import_steps_minted [OF assms(2)] assms(3) by (meson inj_on_subset lessThan_subset_iff)
  then have inv: "import_invariant I im"
    using import_steps_invariant [OF assms(1) empty_imports_invariant] by blast
  then show ?thesis using import_steps_settled [OF assms(2) inv assms(3)] by (simp add: import_invariant_def)
qed

section \<open>A worker pass is a sequence of transactions\<close>

lemma inspect_run_steps: "(import_step I)\<^sup>*\<^sup>* im (fst (inspect_run I io store now run_id im))"
  by (auto simp: inspect_run_def split: result.splits intro: r_into_rtranclp step_inspected)

lemma parse_run_steps: "(import_step I)\<^sup>*\<^sup>* im (fst (parse_run I io store now run_id im))"
  by (auto simp: parse_run_def split: result.splits intro: r_into_rtranclp step_parsed step_parse_failed)

lemma advance_reconcile_steps: "(import_step I)\<^sup>*\<^sup>* im (fst (advance_reconcile I run_id im))"
  by (auto simp: advance_reconcile_def split: result.splits intro: r_into_rtranclp step_reconciled)

lemma advance_parse_steps: "(import_step I)\<^sup>*\<^sup>* im (fst (advance_parse I io store now run_id im))"
proof -
  obtain im1 r where p: "parse_run I io store now run_id im = (im1, r)" by fastforce
  have "(import_step I)\<^sup>*\<^sup>* im im1" using parse_run_steps [of I im io store now run_id] by (simp add: p)
  then show ?thesis
    using advance_reconcile_steps [of I im1 run_id] by (cases r) (auto simp: advance_parse_def p)
qed

lemma advance_steps: "(import_step I)\<^sup>*\<^sup>* im (fst (advance I io store now run_id s im))"
proof (cases s)
  case Received
  obtain im1 r where p: "inspect_run I io store now run_id im = (im1, r)" by fastforce
  have "(import_step I)\<^sup>*\<^sup>* im im1" using inspect_run_steps [of I im io store now run_id] by (simp add: p)
  then show ?thesis
    using advance_parse_steps [of I im1 io store now run_id] Received by (cases r) (auto simp: advance_def p)
qed (simp_all add: advance_def advance_parse_steps advance_reconcile_steps)

lemma advance_all_steps: "(import_step I)\<^sup>*\<^sup>* im (fst (advance_all I io store now rs pass im))"
proof (induction rs arbitrary: pass im)
  case (Cons r rs)
  obtain im1 a where p: "advance I io store now (ir_id r) (ir_state r) im = (im1, a)" by fastforce
  have "(import_step I)\<^sup>*\<^sup>* im im1" using advance_steps [of I im io store now "ir_id r" "ir_state r"] by (simp add: p)
  with Cons.IH show ?case
    by (auto simp: p split: result.splits ImportError.splits intro: rtranclp_trans)
qed simp

text \<open>The worker adds no transition of its own, so the invariants of the transactions hold of a pass.\<close>

lemma import_pass_is_transactions: "(import_step I)\<^sup>*\<^sup>* im (fst (import_run_once I io store now batch_size im))"
  by (simp add: import_run_once_def Let_def advance_all_steps)

section \<open>A run that was refused\<close>

definition sample_import_env :: import_env where
  "sample_import_env =
     \<lparr>ie_env = retention_env\<lparr>e_uuid_v5 := \<lambda>ns b. Uuid (uuid_lo ns) (word_of_nat (length b))\<rparr>,
      ie_json = sample_json_env, ie_payload_bytes = \<lambda>_. [1], ie_zip = sample_open, ie_open_entry = \<lambda>_ _. None,
      ie_collate = \<lambda>s. s, ie_limits = sample_limits\<rparr>"

definition sample_stored :: "u8 \<Rightarrow> StoredArchive" where
  "sample_stored n = \<lparr>sa_ref = blob_ref (hex_encode [n]) 1, sa_digest = [n], sa_size = 1\<rparr>"

definition received_import :: import_tables where
  "received_import = fst (case persist_receipt sample_import_env 10 (Uuid 3 1) (sample_stored 7) empty_imports of Ok p \<Rightarrow> p)"

definition refused_import :: import_tables where
  "refused_import = (case finish_inspection sample_import_env 20 (Uuid 0 1) (Some Malformed) received_import of Ok im \<Rightarrow> im)"

definition received_again :: import_tables where
  "received_again = fst (case persist_receipt sample_import_env 30 (Uuid 3 2) (sample_stored 7) refused_import of Ok p \<Rightarrow> p)"

lemma sample_import_committed:
  "is_ok (persist_receipt sample_import_env 10 (Uuid 3 1) (sample_stored 7) empty_imports)"
  "is_ok (finish_inspection sample_import_env 20 (Uuid 0 1) (Some Malformed) received_import)"
  "is_ok (persist_receipt sample_import_env 30 (Uuid 3 2) (sample_stored 7) refused_import)"
  by code_simp+

lemma receipt_commits:
  "is_ok (persist_receipt I now user stored im) \<Longrightarrow>
     import_step I im (fst (case persist_receipt I now user stored im of Ok p \<Rightarrow> p))"
  by (cases "persist_receipt I now user stored im") (auto intro: step_receipt)

lemma is_ok_value: "is_ok r \<Longrightarrow> r = Ok (case r of Ok a \<Rightarrow> a)"
  by (cases r) simp_all

lemma refused_import_reachable:
  "(import_step sample_import_env)\<^sup>*\<^sup>* empty_imports refused_import" "(import_step sample_import_env)\<^sup>*\<^sup>* refused_import received_again"
proof -
  have a: "import_step sample_import_env empty_imports received_import"
    unfolding received_import_def by (rule receipt_commits [OF sample_import_committed(1)])
  have b: "import_step sample_import_env received_import refused_import"
    using is_ok_value [OF sample_import_committed(2)] unfolding refused_import_def by (rule step_inspected)
  have c: "import_step sample_import_env refused_import received_again"
    unfolding received_again_def by (rule receipt_commits [OF sample_import_committed(3)])
  from a b show "(import_step sample_import_env)\<^sup>*\<^sup>* empty_imports refused_import" by simp
  from c show "(import_step sample_import_env)\<^sup>*\<^sup>* refused_import received_again" by simp
qed

theorem import_history_is_the_state_witness:
  "imports_consistent refused_import \<and> history refused_import (Uuid 0 1) =
     [(1, None, Received, None), (2, Some Received, ImportFailed, Some ''archive_malformed'')]
   \<and> settled refused_import (hd (im_runs refused_import)) received_again"
proof -
  have "inj_on (e_now_v7 (ie_env sample_import_env)) {..< 7}" by code_simp
  moreover have "minted (im_archive received_again) = 7" by code_simp
  ultimately have con: "imports_consistent refused_import"
    and set: "\<forall>r \<in> set (im_runs refused_import). terminal (ir_state r) \<longrightarrow> settled refused_import r received_again"
    using import_history_is_the_state [OF refused_import_reachable] by simp_all
  have "im_runs refused_import \<noteq> []" "terminal (ir_state (hd (im_runs refused_import)))" by code_simp+
  with set have "settled refused_import (hd (im_runs refused_import)) received_again" by simp
  moreover have "history refused_import (Uuid 0 1) =
     [(1, None, Received, None), (2, Some Received, ImportFailed, Some ''archive_malformed'')]" by code_simp
  ultimately show ?thesis using con by blast
qed

end
