(* ===== verification/Export_Outcomes.thy ===== *)
theory Export_Outcomes
  imports Export_Worker "HOL-Library.Sublist"
begin

text \<open>
  What reconciliation does to the archive and what its report says, and what a repeated saved post does
  to the import worker.
\<close>

section \<open>Reconciliation extends the archive\<close>

text \<open>
  A media row after reconciliation: the columns an export says nothing about are kept, a row with
  better evidence is kept whole.
\<close>

definition media_kept :: "MediaRow \<Rightarrow> MediaRow \<Rightarrow> bool" where
  "media_kept m m' \<longleftrightarrow>
     med_id m' = med_id m \<and> med_type m' = med_type m \<and> med_caption m' = med_caption m \<and> med_upstream m' = med_upstream m
     \<and> med_account m' = med_account m \<and> med_blob m' = med_blob m
     \<and> (if stronger m then m' = m else \<not> stronger m')"

definition media_extends :: "MediaRow list \<Rightarrow> MediaRow list \<Rightarrow> bool" where
  "media_extends ms ms' \<longleftrightarrow>
     (\<exists>kept new. ms' = kept @ new \<and> list_all2 media_kept ms kept \<and> (\<forall>m \<in> set new. \<not> stronger m))"

text \<open>An event about a media source that claims no more than an export observation.\<close>

definition export_fact :: "OutboxRow \<Rightarrow> bool" where
  "export_fact e \<longleftrightarrow> ob_agg_type e = AggMedia
     \<and> (\<exists>s. ob_payload e = SnapshotPayload s \<and> snap_authority s = ExportObservation \<and> snap_acquisition s = DataExportMethod)"

definition export_extends :: "archive \<Rightarrow> archive \<Rightarrow> bool" where
  "export_extends db db' \<longleftrightarrow>
     captures db' = captures db \<and> operations db' = operations db \<and> observations db' = observations db
     \<and> removals db' = removals db \<and> deletions db' = deletions db \<and> inbox db' = inbox db
     \<and> prefix (raws db) (raws db') \<and> prefix (revisions db) (revisions db')
     \<and> media_extends (media db) (media db')
     \<and> (\<exists>es. outbox db' = outbox db @ es \<and> (\<forall>e \<in> set es. export_fact e))"

lemma media_kept_refl: "media_kept m m"
  by (simp add: media_kept_def)

lemma media_kept_trans: "media_kept a b \<Longrightarrow> media_kept b c \<Longrightarrow> media_kept a c"
  by (auto simp: media_kept_def split: if_splits)

lemma media_extends_refl: "media_extends ms ms"
  unfolding media_extends_def by (intro exI [of _ ms] exI [of _ "[]"]) (simp add: list_all2_refl media_kept_refl)

lemma media_extends_trans:
  assumes "media_extends a b" "media_extends b c"
  shows "media_extends a c"
proof -
  obtain k n where b: "b = k @ n" "list_all2 media_kept a k" "\<forall>m \<in> set n. \<not> stronger m"
    using assms(1) by (auto simp: media_extends_def)
  obtain k' n' where c: "c = k' @ n'" "list_all2 media_kept b k'" "\<forall>m \<in> set n'. \<not> stronger m"
    using assms(2) by (auto simp: media_extends_def)
  obtain u v where k': "k' = u @ v" "list_all2 media_kept k u" "list_all2 media_kept n v"
    using c(2) unfolding b(1) list_all2_append1 by blast
  have "\<not> stronger m" if "m \<in> set v" for m
    using that k'(3) b(3) by (auto simp: in_set_conv_nth list_all2_conv_all_nth media_kept_def split: if_splits) (metis nth_mem)
  moreover have "list_all2 media_kept a u"
    using b(2) k'(2) by (rule list_all2_trans [rotated]) (rule media_kept_trans)
  ultimately show ?thesis
    unfolding media_extends_def using c(1,3) k'(1) by (intro exI [of _ u] exI [of _ "v @ n'"]) auto
qed

lemma export_extends_refl: "export_extends db db"
  by (simp add: export_extends_def media_extends_refl)

lemma export_extends_trans: "export_extends a b \<Longrightarrow> export_extends b c \<Longrightarrow> export_extends a c"
  unfolding export_extends_def by (auto intro: media_extends_trans prefix_order.trans)

lemma media_extends_update:
  assumes "\<And>m. m \<in> set ms \<Longrightarrow> P m \<Longrightarrow> media_kept m (f m)"
  shows "media_extends ms (update_where P f ms)"
proof -
  have "list_all2 media_kept ms (update_where P f ms)"
    using assms by (induction ms) (auto simp: media_kept_refl)
  then show ?thesis unfolding media_extends_def by (intro exI [of _ "update_where P f ms"] exI [of _ "[]"]) simp
qed

lemma media_extends_append: "\<not> stronger m \<Longrightarrow> media_extends ms (ms @ [m])"
  unfolding media_extends_def by (intro exI [of _ ms] exI [of _ "[m]"]) (simp add: list_all2_refl media_kept_refl)

lemma project_export_kept: "\<not> stronger m \<Longrightarrow> media_kept m (project_export provider link revision now m)"
  by (simp add: media_kept_def project_export_def stronger_def)

lemma append_data_export_fact_extends:
  assumes "append_data_export_fact E db m owner provider link digest ref now = Ok (db', b)"
  shows "export_extends db db' \<and> media db' = media db"
  using assms
  by (auto simp: append_data_export_fact_def Let_def export_extends_def media_extends_refl export_fact_def
      split: if_splits)


lemma attach_evidence_extends:
  "export_extends db (attach_evidence I now row digest mid db) \<and> media (attach_evidence I now row digest mid db) = media db"
  by (auto simp: export_extends_def attach_evidence_def insert_raw_once_def insert_revision_once_def media_extends_refl Let_def)

lemma media_extends_only:
  "media_extends (media db) ms \<Longrightarrow> export_extends db (db\<lparr>media := ms\<rparr>)"
  by (simp add: export_extends_def)

text \<open>The row the projection touches is the one match, or the row inserted because there was none.\<close>

lemma project_record_extends:
  assumes step: "project_record I owner now ref row provider link digest db = Ok db'"
    and dist: "distinct (map med_id (media db))"
  shows "export_extends db db' \<and> distinct (map med_id (media db'))"
proof -
  define matches where "matches = media_matches db provider link"
  define mid where "mid = projected_media_id (ie_env I) owner link matches"
  define rid where "rid = evidence_id (ie_env I) row ''media-revision''"
  obtain db1 b where ins: "ensure_media mid provider link now matches db = Ok db1"
    and fact: "append_data_export_fact (ie_env I) (project_media mid provider link rid now matches (attach_evidence I now row digest mid db1))
          mid owner provider link (hex_encode digest) ref now = Ok (db', b)"
    using step unfolding project_record_def matches_def mid_def rid_def by (auto simp: Let_def)
  define db3 where "db3 = attach_evidence I now row digest mid db1"
  have db3: "export_extends db1 db3" "media db3 = media db1"
    using attach_evidence_extends unfolding db3_def by blast+
  have one_of: "\<not> stronger m" if "m \<in> set (media db1)" "med_id m = mid" "\<not> (matches \<noteq> [] \<and> stronger (hd matches))" for m
  proof (cases matches)
    case Nil
    with ins have "media db1 = media db @ [export_media mid provider link now]" "\<forall>q \<in> set (media db). med_id q \<noteq> mid"
      by (auto simp: ensure_media_def list_ex_iff split: if_splits)
    with that(1,2) have "m = export_media mid provider link now" by auto
    then show ?thesis by (simp add: export_media_def stronger_def)
  next
    case (Cons q qs)
    have "q \<in> set matches" using Cons by simp
    then have "q \<in> set (media db)" by (simp add: matches_def media_matches_def)
    moreover have "db1 = db" "med_id m = med_id q"
      using ins Cons that(2) by (simp_all add: mid_def projected_media_id_def ensure_media_def)
    ultimately have "m = q" using that(1) dist by (metis distinct_map inj_onD)
    with that(3) Cons show ?thesis by simp
  qed
  have e1: "export_extends db db1 \<and> distinct (map med_id (media db1))"
    using ins dist by (auto simp: ensure_media_def export_extends_refl export_media_def stronger_def list_ex_iff
        intro!: media_extends_only media_extends_append split: if_splits)
  define db4 where "db4 = project_media mid provider link rid now matches db3"
  have "export_extends db3 db4"
    using one_of db3(2) by (auto simp: db4_def project_media_def export_extends_refl
        intro!: media_extends_only media_extends_update project_export_kept)
  moreover have "map med_id (media db4) = map med_id (media db1)"
    using db3(2) by (simp add: db4_def project_media_def map_update_where_same project_export_def)
  moreover have "export_extends db4 db'" "media db' = media db4"
    using append_data_export_fact_extends [OF fact] unfolding db4_def db3_def by blast+
  ultimately show ?thesis using e1 db3(1) export_extends_trans by metis
qed

lemma reconcile_records_extends:
  assumes "reconcile_records I run_id owner now ref rows im = Ok im'" "distinct (map med_id (media (im_archive im)))"
  shows "export_extends (im_archive im) (im_archive im') \<and> distinct (map med_id (media (im_archive im')))"
  using assms
proof (induction rows arbitrary: im)
  case Nil
  then show ?case by (simp add: export_extends_refl)
next
  case (Cons row rows)
  then obtain im1 where one: "reconcile_record I run_id owner now ref row im = Ok im1"
    and rest: "reconcile_records I run_id owner now ref rows im1 = Ok im'" by auto
  have "export_extends (im_archive im) (im_archive im1) \<and> distinct (map med_id (media (im_archive im1)))"
    using one Cons.prems(2) project_record_extends export_extends_refl
    by (auto simp: reconcile_record_def persist_conflict_def insert_staged_record_def Let_def not_less
        split: if_splits option.splits)
  with Cons.IH [OF rest] show ?case using export_extends_trans by blast
qed


text \<open>
  C13. Reconciling an export only adds evidence: captures, operations, observations, removals and
  deletions stay as they are, stored payloads, revisions and events are only appended to, every new
  event is about a media source and claims no more than an export observation, and a media row with
  evidence better than an export's is not touched, while the others keep their content, owner account
  and archived bytes.
\<close>
theorem reconciliation_only_adds_evidence:
  assumes "reconcile_run I run_id im = Ok (im', report)" "distinct (map med_id (media (im_archive im)))"
  shows "export_extends (im_archive im) (im_archive im') \<and> distinct (map med_id (media (im_archive im')))"
proof -
  obtain r s where rs: "archived_run im run_id = Some (r, s)"
    using assms(1) by (auto simp: reconcile_run_def split: option.splits)
  show ?thesis
  proof (cases "ir_state r = Reconciled")
    case True
    with assms rs have "im' = im" by (auto simp: reconcile_run_replayed)
    with assms(2) show ?thesis by (simp add: export_extends_refl)
  next
    case False
    from reconcile_run_fresh [OF assms(1) rs False] obtain ref im1 im2 im3 where
        recs: "reconcile_records I run_id (ir_user r) (ir_received_at r) ref (normalized_rows I im run_id) im = Ok im1"
      and "persist_report run_id report im1 = Ok im2"
      and "cas_run run_id Parsed (\<lambda>q. q\<lparr>ir_state := Reconciled, ir_updated_at := ir_received_at r,
          ir_finished_at := Some (ir_received_at r)\<rparr>) im2 = Ok im3"
      and "insert_transition I run_id 4 (Some Parsed) Reconciled None (ir_received_at r) im3 = Ok im'" by blast
    then have "im_archive im' = drawn (im_archive im1)"
      by (auto simp: persist_report_def cas_run_def insert_transition_def drawn_import_def split: if_splits)
    moreover have "export_extends db (drawn db)" for db by (simp add: export_extends_def media_extends_refl)
    ultimately show ?thesis
      using reconcile_records_extends [OF recs assms(2)] export_extends_trans by (metis drawn_simps)
  qed
qed

section \<open>The completeness report\<close>

lemma set_map_filter: "set (List.map_filter f xs) = {y. \<exists>x \<in> set xs. f x = Some y}"
  by (induction xs) (auto simp: List.map_filter_simps split: option.splits)

lemma btree_set [simp]: "set (btree xs) = set xs" "sorted (btree xs)" "distinct (btree xs)"
  by (simp_all add: btree_def)

definition exported :: "import_tables \<Rightarrow> uuid \<Rightarrow> rstr set" where
  "exported im run_id =
     {p. \<exists>x \<in> set (im_records im). xr_run x = run_id \<and> xr_kind x = ''normalized'' \<and> xr_provider x = Some p \<and> xr_url x \<noteq> None}"

definition captured_posts :: "archive \<Rightarrow> uuid \<Rightarrow> rstr set" where
  "captured_posts db owner = {p. \<exists>c \<in> set (owner_captures db owner). comparable_identity c = Some p}"

lemma build_report_sets:
  assumes "captures (im_archive im1) = captures (im_archive im)"
    and rep_def: "rep = build_report I run_id owner (normalized_rows I im run_id) im1"
  shows "set (cr_matched rep) = exported im run_id \<inter> captured_posts (im_archive im) owner
    \<and> set (cr_export_only rep) = exported im run_id - captured_posts (im_archive im) owner
    \<and> set (cr_capture_only rep) = captured_posts (im_archive im) owner - exported im run_id
    \<and> set (cr_non_comparable rep) = cap_id ` {c \<in> set (owner_captures (im_archive im) owner). comparable_identity c = None}
    \<and> list_all (\<lambda>xs. sorted xs \<and> distinct xs) [cr_matched rep, cr_export_only rep, cr_capture_only rep]
    \<and> sorted (cr_non_comparable rep) \<and> distinct (cr_non_comparable rep)"
proof -
  have "set (List.map_filter xr_provider (normalized_rows I im run_id)) = exported im run_id"
    by (auto simp: set_map_filter normalized_rows_def exported_def)
  moreover have "owner_captures (im_archive im1) owner = owner_captures (im_archive im) owner"
    by (simp add: owner_captures_def assms(1))
  ultimately show ?thesis
    unfolding rep_def build_report_def Let_def
    by (auto simp: captured_posts_def set_map_filter sorted_wrt_filter)
qed

text \<open>
  C12. The completeness report is exact and repeatable: its three lists partition the posts of the
  export and the posts of the owner's live captures into those in both and those in only one, in
  order and without repetition, the captures it cannot compare are exactly those without a canonical
  permalink, and asking again returns the same report and changes nothing.
\<close>
theorem completeness_report_is_exact:
  assumes "reconcile_run I run_id im = Ok (im', report)" "archived_run im run_id = Some (r, s)" "ir_state r = Parsed"
    and "distinct (map med_id (media (im_archive im)))"
  shows "set (cr_matched report) = exported im run_id \<inter> captured_posts (im_archive im) (ir_user r)
    \<and> set (cr_export_only report) = exported im run_id - captured_posts (im_archive im) (ir_user r)
    \<and> set (cr_capture_only report) = captured_posts (im_archive im) (ir_user r) - exported im run_id
    \<and> set (cr_non_comparable report) = cap_id ` {c \<in> set (owner_captures (im_archive im) (ir_user r)). comparable_identity c = None}
    \<and> list_all (\<lambda>xs. sorted xs \<and> distinct xs) [cr_matched report, cr_export_only report, cr_capture_only report]
    \<and> sorted (cr_non_comparable report) \<and> distinct (cr_non_comparable report)
    \<and> reconcile_run I run_id im' = Ok (im', report)"
proof -
  let ?f = "\<lambda>q. q\<lparr>ir_state := Reconciled, ir_updated_at := ir_received_at r, ir_finished_at := Some (ir_received_at r)\<rparr>"
  have nr: "ir_state r \<noteq> Reconciled" using assms(3) by simp
  obtain ref im1 im2 im3 where
      recs: "reconcile_records I run_id (ir_user r) (ir_received_at r) ref (normalized_rows I im run_id) im = Ok im1"
    and rep: "report = build_report I run_id (ir_user r) (normalized_rows I im run_id) im1"
    and p: "persist_report run_id report im1 = Ok im2" and c: "cas_run run_id Parsed ?f im2 = Ok im3"
    and t: "insert_transition I run_id 4 (Some Parsed) Reconciled None (ir_received_at r) im3 = Ok im'"
    using reconcile_run_fresh [OF assms(1,2) nr] by blast
  have "captures (im_archive im1) = captures (im_archive im)"
    using reconcile_records_extends [OF recs assms(4)] by (simp add: export_extends_def)
  note sets = build_report_sets [OF this rep]
  have tabs: "im_runs im' = update_where (\<lambda>q. ir_id q = run_id \<and> ir_state q = Parsed) ?f (im_runs im)"
    "im_snapshots im' = im_snapshots im" "im_reports im' = im_reports im @ [(run_id, report)]" "run_id \<notin> fst ` set (im_reports im)"
    using p c t reconcile_records_frame [OF recs]
    by (auto simp: persist_report_def cas_run_def insert_transition_def list_ex_iff split: if_splits)
  then have stored: "map_of (im_reports im') run_id = Some report"
    by (simp add: map_add_def map_of_eq_None_iff split: option.splits) (metis imageI fst_conv map_of_SomeD)
  have "run_of im run_id = Some r" "snapshot_of im (ir_snapshot r) = Some s"
    using assms(2) by (auto simp: archived_run_def split: Option.bind_splits)
  moreover from this have "ir_id r = run_id" by (auto simp: run_of_def dest: find_Some_memD)
  ultimately have "run_of im' run_id = Some (?f r)" "snapshot_of im' (ir_snapshot (?f r)) = Some s"
    using assms(3) by (simp_all add: run_of_def tabs(1) find_update_where snapshot_of_def tabs(2))
  then have "archived_run im' run_id = Some (?f r, s)" by (simp add: archived_run_def)
  then have "reconcile_run I run_id im' = Ok (im', report)"
    by (simp add: reconcile_run_replayed load_report_def stored)
  with sets show ?thesis by blast
qed

section \<open>Digests read back\<close>

lemma hex_value_digit: "n < 16 \<Longrightarrow> hex_value (hex_digit n) = Some n"
  by (auto simp: hex_value_def hex_digit_def Let_def of_char_of)

lemma hex_digit_plus: "n < 16 \<Longrightarrow> hex_digit n \<noteq> CHR ''+''"
  using hex_value_digit [of n] by (auto simp: hex_value_def)

lemma hex_pair_digits: "hex_pair (hex_digit (unat b div 16)) (hex_digit (unat b mod 16)) = Some b" for b :: u8
proof -
  have "unat b < 256" using unsigned_less [of b] by simp
  then have "unat b div 16 < 16" "unat b mod 16 < 16" by auto
  moreover have "byte (16 * (unat b div 16) + unat b mod 16) = b" by (simp add: byte_def)
  ultimately show ?thesis by (simp add: hex_pair_def hex_value_digit hex_digit_plus)
qed

lemma hex_pairs_encode: "hex_pairs (hex_encode bs) = Some bs"
  by (induction bs) (simp_all add: hex_encode_def hex_pair_digits)

lemma length_hex_encode: "length (hex_encode bs) = 2 * length bs"
  by (induction bs) (simp_all add: hex_encode_def)

lemma decode_sha256_encode: "length d = 32 \<Longrightarrow> decode_sha256 (hex_encode d) = Ok d"
  by (simp add: decode_sha256_def length_hex_encode hex_pairs_encode)

section \<open>A repeated saved post\<close>

lemma insert_staged_append:
  "insert_staged (a @ b) im = bind_result (insert_staged a im) (insert_staged b)"
proof (induction a arbitrary: im)
  case (Cons row a)
  then show ?case by (cases row) (auto simp: bind_result_def split: result.splits)
qed simp

lemma insert_staged_error:
  "insert_staged (map Ok rows) im = Err e \<Longrightarrow> e = ImReceipt ReceiptPersistence"
  by (induction rows arbitrary: im) (auto simp: bind_result_def insert_staged_record_def split: result.splits if_splits)

lemma insert_staged_keys:
  assumes "insert_staged (map Ok rows) im = Ok im'" "\<forall>x \<in> set rows. xr_run x = run_id"
  shows "distinct (map xr_key rows) \<and> (\<forall>x \<in> set rows. \<forall>y \<in> set (im_records im). xr_run y = run_id \<longrightarrow> xr_key y \<noteq> xr_key x)"
  using assms
proof (induction rows arbitrary: im)
  case (Cons x rows)
  then obtain im1 where one: "insert_staged_record x im = Ok im1" and rest: "insert_staged (map Ok rows) im1 = Ok im'" by auto
  have im1: "im_records im1 = im_records im @ [x]" "\<forall>y \<in> set (im_records im). xr_run y = xr_run x \<longrightarrow> xr_key y \<noteq> xr_key x"
    using one by (auto simp: insert_staged_record_def list_ex_iff split: if_splits)
  from Cons.IH [OF rest] Cons.prems(2) im1 show ?case by auto
qed simp

lemma repeated_key_refused:
  assumes "\<forall>x \<in> set records. is_ok (normalized_row I run_id now x)" "\<not> distinct (map normalized_key records)"
  shows "insert_staged (map (normalized_row I run_id now) records @ rest) im = Err (ImReceipt ReceiptPersistence)"
proof -
  define rows where "rows = map (\<lambda>x. case normalized_row I run_id now x of Ok r \<Rightarrow> r) records"
  have row: "normalized_row I run_id now x = Ok (case normalized_row I run_id now x of Ok r \<Rightarrow> r)
      \<and> xr_key (case normalized_row I run_id now x of Ok r \<Rightarrow> r) = normalized_key x
      \<and> xr_run (case normalized_row I run_id now x of Ok r \<Rightarrow> r) = run_id" if x: "x \<in> set records" for x
  proof -
    obtain r where "normalized_row I run_id now x = Ok r" using assms(1) x by (cases "normalized_row I run_id now x") auto
    then show ?thesis by (auto simp: normalized_row_def staged_row_def)
  qed
  have rows: "map (normalized_row I run_id now) records = map Ok rows" "map xr_key rows = map normalized_key records"
    "\<forall>x \<in> set rows. xr_run x = run_id"
    using row by (auto simp: rows_def)
  then have "insert_staged (map Ok rows) im \<noteq> Ok im'" for im'
    using insert_staged_keys [of rows im im' run_id] assms(2) by auto
  then obtain e where "insert_staged (map Ok rows) im = Err e" by (cases "insert_staged (map Ok rows) im") auto
  with insert_staged_error show ?thesis by (simp add: rows(1) insert_staged_append)
qed

text \<open>Two equal elements of the saved array are two equal records.\<close>

lemma repeated_post_repeats_key:
  assumes "parse_saved_posts J bytes inventory = Ok e" "j_parse J bytes = Some (JObj root)"
    and "map_of root SAVED_SECTION = Some (JArr saved)" "1 < count_list saved v" "is_ok (parse_saved J v)"
  shows "\<not> distinct (map normalized_key (pe_records e))"
proof -
  obtain x where x: "parse_saved J v = Ok x" using assms(5) by (cases "parse_saved J v") auto
  let ?f = "\<lambda>v. case parse_saved J v of Ok r \<Rightarrow> Some r | Err _ \<Rightarrow> None"
  have "mset (pe_records e) = mset (List.map_filter ?f saved)"
    by (rule parse_saved_posts_Ok [OF assms(1)]) (use assms(2,3) in auto)
  moreover have "count_list vs v \<le> count_list (List.map_filter ?f vs) x" for vs
    using x by (induction vs) (auto simp: List.map_filter_simps split: option.splits)
  ultimately have "1 < count_list (pe_records e) x"
    using assms(4) by (metis count_mset order_less_le_trans)
  then have "\<not> distinct (pe_records e)"
    by (metis count_mset distinct_count_atmost_1 less_one not_less_iff_gr_or_eq)
  then show ?thesis by (simp add: distinct_map)
qed

lemma parse_file_ends:
  assumes "\<And>path reads k chunk. ie_open_entry I bytes path = Some reads \<Longrightarrow> reads k = Some chunk \<Longrightarrow> length chunk \<le> 16384"
  shows "parse_export (Suc (unat (max_entry_decompressed_bytes (ie_limits I)))) (ie_json I) (ie_zip I)
    (ie_open_entry I bytes) bytes (ie_limits I) = Some (parse_file I bytes)"
proof -
  let ?fuel = "Suc (unat (max_entry_decompressed_bytes (ie_limits I)))"
  have "read_inspected_entry ?fuel (ie_open_entry I bytes) inventory path (ie_limits I) \<noteq> None" for inventory path
  proof (cases "ie_open_entry I bytes path")
    case (Some reads)
    have "\<exists>r. read_loop ?fuel reads (ie_limits I) c 0 0 [] = Some r" for c
      using read_loop_bounded [of reads 0 "[]" "ie_limits I" ?fuel 0 c] assms [OF Some] by auto
    then show ?thesis
      by (auto simp: read_inspected_entry_def Some split: option.splits result.splits) (metis option.distinct(1))
  qed (simp add: read_inspected_entry_def split: option.splits)
  then show ?thesis
    by (auto simp: parse_file_def parse_export_def read_archive_entry_def split: option.splits result.splits)
qed

lemma parse_file_records:
  assumes "parse_file I bytes = Ok parsed"
  obtains json inventory where "parse_saved_posts (ie_json I) json inventory = Ok parsed"
  using assms by (auto simp: parse_file_def parse_export_def split: option.splits result.splits)

lemma parse_saved_digest:
  assumes "parse_saved J v = Ok x"
  shows "per_digest x = digest_json J (j_record_bytes J (per_content x))"
proof -
  obtain wire where w: "saved_media_of v = Some wire" using assms by (auto simp: parse_saved_def split: option.splits)
  obtain p :: CanonicalPermalink where p: "canonicalize (sm_href wire) = Ok p"
    using assms w by (auto simp: parse_saved_def split: result.splits)
  show ?thesis using assms w p by (auto simp: parse_saved_def Let_def split: if_splits)
qed

lemma normalized_rows_convert:
  assumes "\<forall>b. length (j_sha256 (ie_json I) b) = 32" "\<forall>p. int (length (ie_payload_bytes I p)) < 2 ^ 63"
    and "parse_file I bytes = Ok parsed" "x \<in> set (pe_records parsed)"
  shows "is_ok (normalized_row I run_id now x)"
proof -
  obtain json inventory where e: "parse_saved_posts (ie_json I) json inventory = Ok parsed"
    by (rule parse_file_records [OF assms(3)])
  obtain saved where recs: "mset (pe_records parsed) =
      mset (List.map_filter (\<lambda>v. case parse_saved (ie_json I) v of Ok r \<Rightarrow> Some r | Err _ \<Rightarrow> None) saved)"
    by (rule parse_saved_posts_Ok [OF e])
  obtain v where "(case parse_saved (ie_json I) v of Ok r \<Rightarrow> Some r | Err _ \<Rightarrow> None) = Some x"
    using assms(4) unfolding mset_eq_setD [OF recs] set_map_filter_option by blast
  then have "parse_saved (ie_json I) v = Ok x" by (cases "parse_saved (ie_json I) v") simp_all
  with parse_saved_digest have "per_digest x = digest_json (ie_json I) (j_record_bytes (ie_json I) (per_content x))" by blast
  with assms(1,2) show ?thesis
    by (simp add: normalized_row_def digest_json_def decode_sha256_encode json_byte_size_def Let_def)
qed

text \<open>
  C36. A repeated saved element blocks the import worker: when the oldest open run is an inspected archive
  two of whose normalized records have one evidence key, as two equal elements of the saved array give
  (another title or time gives another key), every pass fails on the unique evidence key without changing
  a row, so neither that run nor any other open run is ever advanced, however often the worker polls.
  Digests are of 32 bytes and rendered payloads shorter than 2 to the 63.
\<close>
theorem repeated_post_blocks_worker:
  assumes "\<forall>b. length (j_sha256 (ie_json I) b) = 32" "\<forall>p. int (length (ie_payload_bytes I p)) < 2 ^ 63"
    and "selected_runs batch_size im = r # rs" "ir_state r = Inspected"
    and "open_run I io store Inspected (ir_id r) im = Ok bytes" "parse_file I bytes = Ok parsed"
    and "\<not> distinct (map normalized_key (pe_records parsed))"
  shows "import_run_once I io store now batch_size im = (im, Err (ImReceipt ReceiptPersistence))
    \<and> ((\<lambda>t. fst (import_run_once I io store now batch_size t)) ^^ n) im = im"
proof -
  have "\<forall>x \<in> set (pe_records parsed). is_ok (normalized_row I (ir_id r) now x)"
    using normalized_rows_convert [OF assms(1,2,6)] by blast
  from repeated_key_refused [OF this assms(7)]
  have "insert_staged (staged_rows I (ir_id r) now parsed) im = Err (ImReceipt ReceiptPersistence)"
    by (simp add: staged_rows_def)
  moreover have "map_option ir_state (run_of im (ir_id r)) = Some Inspected"
    using assms(5) by (auto simp: open_run_def archived_run_def split: option.splits if_splits Option.bind_splits)
  ultimately have "parse_run I io store now (ir_id r) im = (im, Err (ImReceipt ReceiptPersistence))"
    by (simp add: parse_run_def assms(5,6) persist_parsed_def)
  then have pass: "import_run_once I io store now batch_size im = (im, Err (ImReceipt ReceiptPersistence))"
    by (simp add: import_run_once_def Let_def assms(3,4) advance_def advance_parse_def handled_input_failure_def)
  moreover have "((\<lambda>t. fst (import_run_once I io store now batch_size t)) ^^ n) im = im"
    by (induction n) (simp_all add: pass)
  ultimately show ?thesis by blast
qed

section \<open>Samples\<close>

definition outcome_env :: import_env where
  "outcome_env =
     \<lparr>ie_env = retention_env\<lparr>e_uuid_v5 := \<lambda>ns b. Uuid (uuid_lo ns) (word_of_nat (length b))\<rparr>,
      ie_json = sample_json_env, ie_payload_bytes = \<lambda>_. [1], ie_zip = sample_open, ie_open_entry = \<lambda>_ _. None,
      ie_collate = \<lambda>s. s, ie_limits = sample_limits\<rparr>"

definition sample_ref :: BlobRef where
  "sample_ref = blob_ref ''0707'' 3"

definition sample_run :: "ImportState \<Rightarrow> ImportRunRow" where
  "sample_run s = \<lparr>ir_id = Uuid 0 1, ir_snapshot = Uuid 0 0, ir_user = Uuid 3 1, ir_state = s, ir_layout = None, ir_parser = None,
     ir_records = 0, ir_warnings = 0, ir_failure = None, ir_received_at = 10, ir_updated_at = 10, ir_finished_at = None\<rparr>"

definition sample_snapshot :: "u8 list \<Rightarrow> ExportSnapshotRow" where
  "sample_snapshot hash = \<lparr>es_id = Uuid 0 0, es_user = Uuid 3 1, es_hash = hash, es_ref = Some sample_ref, es_size = 3, es_received_at = 10\<rparr>"

definition sample_content :: ParsedExportRecord where
  "sample_content = \<lparr>per_content = \<lparr>sr_shortcode = ascii ''AAAAA'', sr_canonical_url = url sample_link, sr_display_author = None,
     sr_observed_at_unix = 7, sr_acquisition = ''data_export'', sr_authority = ''export_observation''\<rparr>, per_digest = ''09''\<rparr>"

definition parsed_import :: import_tables where
  "parsed_import = empty_imports
     \<lparr>im_archive := empty_archive
        \<lparr>captures := [\<lparr>cap_id = Uuid 4 1, cap_user = Uuid 3 1, cap_media = None, cap_url = ascii ''x'', cap_acquisition = ''share_extension'',
            cap_authority = EXPLICIT_AUTHORITY, cap_client = IosShareExtension, cap_status = Unavailable, cap_note = None,
            cap_key = None, cap_captured_at = 5, cap_next = None, cap_attempts = 0\<rparr>]\<rparr>,
      im_snapshots := [sample_snapshot [7, 7]], im_runs := [sample_run Parsed],
      im_records := [staged_row outcome_env (Uuid 0 1) 10 (ascii ''normalized:AAAAA:09'') ''normalized'' ''saved_posts'' SAVED_POSTS_PATH
        (Some [9]) 1 (Some (ascii ''AAAAA'')) (Some (url sample_link)) (NormalizedPayload sample_content)]\<rparr>"

lemma outcome_env_simps:
  "e_snapshot_ok (ie_env outcome_env) s" "e_instant_ok (ie_env outcome_env) t"
  by (simp_all add: outcome_env_def retention_env_def)

lemma parsed_import_reconciles: "is_ok (reconcile_run outcome_env (Uuid 0 1) parsed_import)"
  by (simp add: parsed_import_def empty_imports_def empty_archive_def reconcile_run_def archived_run_def run_of_def snapshot_of_def
      sample_run_def sample_snapshot_def staged_row_def normalized_rows_def reconcile_record_def media_matches_def
      project_record_def ensure_media_def attach_evidence_def project_media_def insert_raw_once_def insert_revision_once_def
      append_data_export_fact_def media_facts_def outcome_env_simps persist_report_def cas_run_def rows_affected_def
      insert_transition_def drawn_def drawn_import_def Let_def)

lemma parsed_import_facts:
  "archived_run parsed_import (Uuid 0 1) = Some (sample_run Parsed, sample_snapshot [7, 7])"
  "media (im_archive parsed_import) = []"
  "exported parsed_import (Uuid 0 1) = {ascii ''AAAAA''}"
  by (simp_all add: parsed_import_def archived_run_def run_of_def snapshot_of_def sample_run_def sample_snapshot_def
      empty_archive_def exported_def staged_row_def)

theorem reconciliation_only_adds_evidence_witness:
  "\<exists>im' report. reconcile_run outcome_env (Uuid 0 1) parsed_import = Ok (im', report)
     \<and> captures (im_archive im') = captures (im_archive parsed_import) \<and> (\<forall>m \<in> set (media (im_archive im')). \<not> stronger m)
     \<and> list_all export_fact (outbox (im_archive im'))"
proof -
  obtain im' report where r: "reconcile_run outcome_env (Uuid 0 1) parsed_import = Ok (im', report)"
    using parsed_import_reconciles by (cases "reconcile_run outcome_env (Uuid 0 1) parsed_import") auto
  have "export_extends (im_archive parsed_import) (im_archive im')"
    using reconciliation_only_adds_evidence [OF r] by (simp add: parsed_import_facts)
  then show ?thesis using r
    by (auto simp: export_extends_def media_extends_def parsed_import_facts list_all_iff) 
       (auto simp: parsed_import_def empty_archive_def)
qed

theorem completeness_report_is_exact_witness:
  "\<exists>im' report. reconcile_run outcome_env (Uuid 0 1) parsed_import = Ok (im', report)
     \<and> set (cr_matched report) \<union> set (cr_export_only report) = {ascii ''AAAAA''}
     \<and> reconcile_run outcome_env (Uuid 0 1) im' = Ok (im', report)"
proof -
  obtain im' report where r: "reconcile_run outcome_env (Uuid 0 1) parsed_import = Ok (im', report)"
    using parsed_import_reconciles by (cases "reconcile_run outcome_env (Uuid 0 1) parsed_import") auto
  have "set (cr_matched report) = exported parsed_import (Uuid 0 1) \<inter> captured_posts (im_archive parsed_import) (Uuid 3 1)"
    "set (cr_export_only report) = exported parsed_import (Uuid 0 1) - captured_posts (im_archive parsed_import) (Uuid 3 1)"
    "reconcile_run outcome_env (Uuid 0 1) im' = Ok (im', report)"
    using completeness_report_is_exact [OF r parsed_import_facts(1)] by (simp_all add: parsed_import_facts(2) sample_run_def)
  with r show ?thesis by (auto simp: parsed_import_facts(3))
qed


text \<open>An archive with the one entry the parser reads, whose saved section lists a post twice.\<close>

definition saved_name :: "u8 list" where
  "saved_name = utf8 SAVED_POSTS_PATH"

definition saved_zip :: "u8 list" where
  "saved_zip = LOCAL_SIGNATURE @ replicate 22 0 @ [46, 0, 0, 0] @ saved_name
     @ CENTRAL_SIGNATURE @ replicate 24 0 @ [46, 0] @ replicate 16 0 @ saved_name
     @ EOCD_SIGNATURE @ [0, 0, 0, 0, 1, 0, 1, 0, 92, 0, 0, 0, 76, 0, 0, 0, 0, 0]"

definition saved_limits :: ArchiveLimits where
  "saved_limits = \<lparr>max_entries = 2, max_entry_path_bytes = 64, max_path_depth = 4, max_total_compressed_bytes = 64,
     max_total_decompressed_bytes = 64, max_entry_decompressed_bytes = 4, max_compression_ratio = 4\<rparr>"

definition saved_open :: zip_open where
  "saved_open bytes =
     Some [Some \<lparr>ze_encrypted = False, ze_compression = Stored, ze_is_file = True, ze_unix_mode = None,
       ze_name_raw = saved_name, ze_size = 2, ze_compressed_size = 2\<rparr>]"

definition saved_inventory :: ArchiveInventory where
  "saved_inventory = \<lparr>inv_entries = [\<lparr>ie_path = SAVED_POSTS_PATH, ie_compressed_size = 2, ie_decompressed_size = 2\<rparr>],
     inv_total_compressed = 2, inv_total_decompressed = 2\<rparr>"

lemma saved_zip_accepted: "inspect_archive saved_open saved_zip saved_limits = Ok saved_inventory"
proof -
  have len: "length saved_zip = 190" by code_simp
  have "eocd_fields saved_zip 0 2 = Ok \<lparr>eocd_count = 1, eocd_offset = 76, eocd_size = 92\<rparr>" by code_simp
  with len have eocd: "end_of_central_directory saved_zip 2 = Ok \<lparr>eocd_count = 1, eocd_offset = 76, eocd_size = 92\<rparr>"
    by (simp add: end_of_central_directory_def EOCD_MINIMUM_def EOCD_SEARCH_def)
  have loop: "preflight_loop saved_zip saved_limits 76 168 1 76 [] = Ok (168, [saved_name])" by code_simp
  have "max_entries saved_limits = 2" by (simp add: saved_limits_def)
  with eocd loop have pre: "preflight_headers saved_zip saved_limits = Ok 1"
    by (simp add: preflight_headers_def checked_add_def bind_result_def)
  have ent: "inspect_loop saved_limits (the (saved_open saved_zip))
      \<lparr>inv_entries = [], inv_total_compressed = 0, inv_total_decompressed = 0\<rparr> = Ok saved_inventory"
    by code_simp
  obtain files where "saved_open saved_zip = Some files" "length files = 1" by (simp add: saved_open_def)
  with pre ent show ?thesis
    by (simp add: inspect_archive_def bind_result_def \<open>max_entries saved_limits = 2\<close> saved_inventory_def)
qed

definition repeated_json :: json_env where
  "repeated_json = sample_json_env\<lparr>j_parse := \<lambda>_. Some (JObj [(SAVED_SECTION, JArr [sample_item, sample_item])]),
     j_sha256 := \<lambda>_. replicate 32 0\<rparr>"

definition saved_reads :: "nat \<Rightarrow> u8 list option" where
  "saved_reads k = Some (if k = 0 then [123, 125] else [])"

definition blocked_env :: import_env where
  "blocked_env = \<lparr>ie_env = retention_env, ie_json = repeated_json, ie_payload_bytes = \<lambda>_. [1], ie_zip = saved_open,
     ie_open_entry = \<lambda>_ _. Some saved_reads, ie_collate = \<lambda>s. s, ie_limits = saved_limits\<rparr>"

definition blocked_store :: ArchiveStore where
  "blocked_store = \<lparr>as_objects = [hex_encode [80, 75] \<mapsto> \<lparr>af_bytes = saved_zip, af_private = True\<rparr>], as_staging = [], as_max_body = 500\<rparr>"

definition blocked_import :: import_tables where
  "blocked_import = empty_imports
     \<lparr>im_snapshots := [\<lparr>es_id = Uuid 0 0, es_user = Uuid 3 1, es_hash = [80, 75], es_ref = Some (blob_ref (hex_encode [80, 75]) 190),
        es_size = 190, es_received_at = 10\<rparr>],
      im_runs := [\<lparr>ir_id = Uuid 0 1, ir_snapshot = Uuid 0 0, ir_user = Uuid 3 1, ir_state = Inspected, ir_layout = None,
        ir_parser = None, ir_records = 0, ir_warnings = 0, ir_failure = None, ir_received_at = 10, ir_updated_at = 10,
        ir_finished_at = None\<rparr>]\<rparr>"

lemma blocked_bytes: "length saved_zip = 190" "e_sha256 retention_env saved_zip = [80, 75]"
  by code_simp+

lemma blocked_open: "open_run blocked_env archive_io blocked_store Inspected (Uuid 0 1) blocked_import = Ok saved_zip"
  by (simp add: open_run_def archived_run_def run_of_def snapshot_of_def blocked_import_def verified_path_def blob_ref_def
      verify_existing_def blocked_store_def blocked_env_def archive_io_def blocked_bytes Let_def)

lemma blocked_parse: "parse_file blocked_env saved_zip = parse_saved_posts repeated_json [123, 125] saved_inventory"
proof -
  have "read_loop 5 saved_reads saved_limits 2 0 0 [] = Some (Ok (2, [123, 125]))" by code_simp
  moreover have "Suc (unat (max_entry_decompressed_bytes saved_limits)) = 5" by (simp add: saved_limits_def)
  moreover have "saved_open saved_zip \<noteq> None" by (simp add: saved_open_def)
  ultimately show ?thesis
    by (simp add: parse_file_def parse_export_def read_archive_entry_def read_inspected_entry_def blocked_env_def
        saved_zip_accepted) (auto simp: saved_inventory_def)
qed

lemma parse_saved_ok_cong: "j_unix_ok J = j_unix_ok J' \<Longrightarrow> is_ok (parse_saved J v) \<longleftrightarrow> is_ok (parse_saved J' v)"
  by (auto simp: parse_saved_def Let_def split: option.splits result.splits)

theorem repeated_post_blocks_worker_witness:
  "import_run_once blocked_env archive_io blocked_store 30 8 blocked_import = (blocked_import, Err (ImReceipt ReceiptPersistence))"
proof -
  have sec: "j_parse repeated_json [123, 125] = Some (JObj [(SAVED_SECTION, JArr [sample_item, sample_item])])"
    by (simp add: repeated_json_def)
  have "\<exists>e. parse_saved_posts repeated_json [123, 125] saved_inventory = Ok e"
    by (simp add: parse_saved_posts_def sec Let_def)
  then obtain e where e: "parse_saved_posts repeated_json [123, 125] saved_inventory = Ok e" by blast
  have "is_ok (parse_saved repeated_json sample_item)"
    using sample_item_parses(1) parse_saved_ok_cong [of repeated_json sample_json_env] by (simp add: repeated_json_def)
  with repeated_post_repeats_key [OF e sec, of "[sample_item, sample_item]" sample_item]
  have dup: "\<not> distinct (map normalized_key (pe_records e))" by simp
  have sel: "selected_runs 8 blocked_import = [hd (im_runs blocked_import)]"
    by (simp add: selected_runs_def blocked_import_def)
  have run: "ir_state (hd (im_runs blocked_import)) = Inspected" "ir_id (hd (im_runs blocked_import)) = Uuid 0 1"
    by (simp_all add: blocked_import_def)
  have env: "\<forall>b. length (j_sha256 (ie_json blocked_env) b) = 32" "\<forall>p. int (length (ie_payload_bytes blocked_env p)) < 2 ^ 63"
    by (simp_all add: blocked_env_def repeated_json_def)
  show ?thesis
    using repeated_post_blocks_worker [OF env sel run(1) _ _ dup, where io = archive_io and store = blocked_store and bytes = saved_zip and now = 30 and n = 0]
    by (simp add: run(2) blocked_open blocked_parse e)
qed

end
