(* ===== verification/Export_Reprocessing.thy ===== *)
theory Export_Reprocessing
  imports Export_Import
begin

text \<open>
  Model of \<^verbatim>\<open>data_export_reprocessing.rs\<close> and of the process mode in \<^verbatim>\<open>reprocess_export.rs\<close>: the deterministic plan of a parser-version reprocessing and its
  restartable application in chunks. The tables of the imports are extended by the reprocessing runs and their
  items; one application of a chunk is one transaction, so an error leaves the tables as they were.
\<close>

section \<open>Data\<close>

definition SUPPORTED_REPROCESSING_LAYOUT :: string where
  "SUPPORTED_REPROCESSING_LAYOUT = ''instagram-json-saved-posts''"

definition SUPPORTED_REPROCESSING_PARSER :: string where
  "SUPPORTED_REPROCESSING_PARSER = ''instagram-saved-posts-json-v1''"

record RetainedExportReceipt =
  rx_bytes :: "u8 list"
  rx_expected_hash :: "u8 list"
  rx_expected_length :: u64
  rx_layout :: string

datatype ReprocessingError = ReceiptIntegrity | UnsupportedParser

record VerifiedReprocessingReceipt =
  vr_hash :: "u8 list"
  vr_length :: u64

datatype ReprocessClassification =
  ClassNormalized | ClassUnknownRecord | ClassUnknownSection | ClassConflict | ClassWarning | ClassOmitted

fun classification_wire :: "ReprocessClassification \<Rightarrow> string" where
  "classification_wire ClassNormalized = ''normalized''"
| "classification_wire ClassUnknownRecord = ''unknown_record''"
| "classification_wire ClassUnknownSection = ''unknown_section''"
| "classification_wire ClassConflict = ''conflict''"
| "classification_wire ClassWarning = ''warning''"
| "classification_wire ClassOmitted = ''omitted''"

record ReprocessInput =
  ri_key :: rstr
  ri_class :: ReprocessClassification
  ri_digest :: "string option"

record ReprocessReportItem =
  rt_key :: rstr
  rt_class :: ReprocessClassification
  rt_digest :: "string option"
  rt_retained :: bool

record ReprocessReport =
  rr_items :: "ReprocessReportItem list"
  rr_counts :: "string \<Rightarrow> nat option"
  rr_warnings :: "rstr list"
  rr_conflicts :: "rstr list"
  rr_evidence :: "string \<Rightarrow> nat option"
  rr_plan :: string
  rr_state :: string

datatype ReprocessState = RpRunning | RpCompleted | RpCompletedWithWarnings | RpFailed

record ReprocessRunRow =
  rp_id :: uuid
  rp_operation :: uuid
  rp_import :: uuid
  rp_user :: uuid
  rp_layout :: string
  rp_parser :: string
  rp_state :: ReprocessState
  rp_plan :: string
  rp_fingerprint :: string
  rp_checkpoint :: "rstr option"
  rp_report :: "ReprocessReport option"
  rp_updated_at :: instant
  rp_finished_at :: "instant option"

record ReprocessItemRow =
  pi_run :: uuid
  pi_key :: rstr
  pi_class :: string
  pi_state :: string
  pi_prospective :: "string option"
  pi_applied :: "string option"

record reprocessing = import_tables +
  rd_runs :: "ReprocessRunRow list"
  rd_items :: "ReprocessItemRow list"

record ReprocessApplyOutcome =
  ro_run :: uuid
  ro_report :: ReprocessReport
  ro_completed :: bool

datatype ReprocessPersistence = RowNotFound | PreconditionChanged | QueryFailed

section \<open>The report\<close>

definition report_item :: "ReprocessInput \<Rightarrow> ReprocessReportItem" where
  "report_item input = \<lparr>rt_key = ri_key input, rt_class = ri_class input, rt_digest = ri_digest input,
     rt_retained = (ri_class input = ClassOmitted)\<rparr>"

definition count_item :: "ReprocessReportItem \<Rightarrow> (string \<Rightarrow> nat option) \<Rightarrow> string \<Rightarrow> nat option" where
  "count_item item m = m(classification_wire (rt_class item) \<mapsto>
     (case m (classification_wire (rt_class item)) of None \<Rightarrow> 1 | Some n \<Rightarrow> n + 1))"

definition plan_line :: "ReprocessReportItem \<Rightarrow> rstr" where
  "plan_line item =
     decimal (str_len (rt_key item)) @ ascii '':'' @ rt_key item @ ascii ''|'' @ ascii (classification_wire (rt_class item))
     @ ascii ''|'' @ (case rt_digest item of Some d \<Rightarrow> ascii d | None \<Rightarrow> ascii ''-'') @ ascii ''|''
     @ (if rt_retained item then ascii ''retain'' else ascii ''apply'') @ [10]"

definition render_report :: "env \<Rightarrow> ReprocessInput list \<Rightarrow> string \<Rightarrow> ReprocessReport" where
  "render_report E inputs state_fingerprint =
     (let items = sort_key rt_key (map report_item inputs); counts = fold count_item items (\<lambda>_. None)
      in \<lparr>rr_items = items, rr_counts = counts,
          rr_warnings = map rt_key (filter (\<lambda>i. rt_class i = ClassWarning) items),
          rr_conflicts = map rt_key (filter (\<lambda>i. rt_class i = ClassConflict) items), rr_evidence = counts,
          rr_plan = hex_encode (e_sha256 E (utf8 (concat (map plan_line items)))), rr_state = state_fingerprint\<rparr>)"

definition migration_dry_run :: "env \<Rightarrow> ReprocessInput list \<Rightarrow> string \<Rightarrow> ReprocessReport" where
  "migration_dry_run E inputs state_fingerprint = render_report E inputs state_fingerprint"

definition migration_apply :: "env \<Rightarrow> ReprocessInput list \<Rightarrow> string \<Rightarrow> ReprocessReport" where
  "migration_apply E inputs state_fingerprint = render_report E inputs state_fingerprint"

text \<open>The projection is called once the receipt and the parser are accepted; \<open>s\<close> is what it changes.\<close>

definition begin_reprocessing ::
  "env \<Rightarrow> RetainedExportReceipt \<Rightarrow> string \<Rightarrow> ('s \<Rightarrow> 's) \<Rightarrow> 's \<Rightarrow> 's \<times> (VerifiedReprocessingReceipt, ReprocessingError) result" where
  "begin_reprocessing E retained parser_id projection s =
     (if 2 ^ 64 \<le> length (rx_bytes retained) then (s, Err ReceiptIntegrity)
      else if e_sha256 E (rx_bytes retained) \<noteq> rx_expected_hash retained
        \<or> word_of_nat (length (rx_bytes retained)) \<noteq> rx_expected_length retained then (s, Err ReceiptIntegrity)
      else if rx_layout retained \<noteq> SUPPORTED_REPROCESSING_LAYOUT \<or> parser_id \<noteq> SUPPORTED_REPROCESSING_PARSER
        then (s, Err UnsupportedParser)
      else (projection s, Ok \<lparr>vr_hash = e_sha256 E (rx_bytes retained), vr_length = word_of_nat (length (rx_bytes retained))\<rparr>))"

section \<open>The store\<close>

definition dry_run ::
  "env \<Rightarrow> reprocessing \<Rightarrow> uuid \<Rightarrow> uuid \<Rightarrow> ReprocessInput list \<Rightarrow> string \<Rightarrow> (ReprocessReport, ReprocessPersistence) result" where
  "dry_run E db owner import_run inputs state_fingerprint =
     (if \<not> list_ex (\<lambda>r. ir_id r = import_run \<and> ir_user r = owner) (im_runs db) then Err RowNotFound
      else Ok (migration_dry_run E inputs state_fingerprint))"

fun item_state :: "ReprocessClassification \<Rightarrow> string" where
  "item_state ClassConflict = ''conflict''"
| "item_state ClassWarning = ''warning''"
| "item_state ClassOmitted = ''skipped''"
| "item_state _ = ''applied''"

definition supported_receipt :: "reprocessing \<Rightarrow> uuid \<Rightarrow> uuid \<Rightarrow> bool" where
  "supported_receipt db owner import_run =
     (case find (\<lambda>r. ir_id r = import_run \<and> ir_user r = owner \<and> ir_state r = Reconciled) (im_runs db) of
        Some r \<Rightarrow> ir_layout r = Some SUPPORTED_REPROCESSING_LAYOUT \<and> ir_parser r = Some SUPPORTED_REPROCESSING_PARSER
      | None \<Rightarrow> False)"

definition reprocess_run :: "reprocessing \<Rightarrow> uuid \<Rightarrow> uuid \<Rightarrow> ReprocessRunRow option" where
  "reprocess_run db owner operation = find (\<lambda>r. rp_user r = owner \<and> rp_operation r = operation) (rd_runs db)"

definition ensure_reprocessing_run ::
  "env \<Rightarrow> reprocessing \<Rightarrow> uuid \<Rightarrow> uuid \<Rightarrow> uuid \<Rightarrow> ReprocessReport \<Rightarrow> instant
     \<Rightarrow> (reprocessing \<times> uuid \<times> ReprocessState, ReprocessPersistence) result" where
  "ensure_reprocessing_run E db owner import_run operation report now =
     (if \<not> supported_receipt db owner import_run then Err RowNotFound
      else (case reprocess_run db owner operation of
          Some r \<Rightarrow>
            if rp_import r \<noteq> import_run \<or> rp_plan r \<noteq> rr_plan report \<or> rp_fingerprint r \<noteq> rr_state report
            then Err PreconditionChanged else Ok (db, rp_id r, rp_state r)
        | None \<Rightarrow>
            let run_id = now_v7 E (im_archive db); db0 = db\<lparr>im_archive := drawn (im_archive db)\<rparr>
            in if list_ex (\<lambda>r. rp_id r = run_id) (rd_runs db) \<or> length (rr_plan report) \<noteq> 64 \<or> length (rr_state report) \<noteq> 64
               then Err QueryFailed
               else Ok (db0\<lparr>rd_runs := rd_runs db @ [\<lparr>rp_id = run_id, rp_operation = operation, rp_import = import_run,
                      rp_user = owner, rp_layout = SUPPORTED_REPROCESSING_LAYOUT, rp_parser = SUPPORTED_REPROCESSING_PARSER,
                      rp_state = RpRunning, rp_plan = rr_plan report, rp_fingerprint = rr_state report, rp_checkpoint = None,
                      rp_report = None, rp_updated_at = now, rp_finished_at = None\<rparr>]\<rparr>, run_id, RpRunning)))"

definition run_items :: "reprocessing \<Rightarrow> uuid \<Rightarrow> ReprocessItemRow list" where
  "run_items db run = filter (\<lambda>i. pi_run i = run) (rd_items db)"

definition item_row :: "uuid \<Rightarrow> ReprocessReportItem \<Rightarrow> ReprocessItemRow" where
  "item_row run item = \<lparr>pi_run = run, pi_key = rt_key item, pi_class = classification_wire (rt_class item),
     pi_state = item_state (rt_class item), pi_prospective = rt_digest item, pi_applied = rt_digest item\<rparr>"

text \<open>The constraints of the item table: key, length of the key and of the digest.\<close>

definition item_conflict :: "ReprocessItemRow list \<Rightarrow> ReprocessItemRow \<Rightarrow> bool" where
  "item_conflict rows i \<longleftrightarrow> list_ex (\<lambda>x. pi_run x = pi_run i \<and> pi_key x = pi_key i) rows
     \<or> pi_key i = [] \<or> 512 < length (pi_key i) \<or> (case pi_prospective i of None \<Rightarrow> False | Some d \<Rightarrow> length d \<noteq> 64)"

fun insert_items ::
  "uuid \<Rightarrow> ReprocessReportItem list \<Rightarrow> rstr option \<Rightarrow> ReprocessItemRow list
     \<Rightarrow> (ReprocessItemRow list \<times> rstr option, ReprocessPersistence) result" where
  "insert_items run [] checkpoint rows = Ok (rows, checkpoint)"
| "insert_items run (item # items) checkpoint rows =
     (if item_conflict rows (item_row run item) then Err QueryFailed
      else insert_items run items (Some (rt_key item)) (rows @ [item_row run item]))"

definition finish_reprocessing_run ::
  "reprocessing \<Rightarrow> uuid \<Rightarrow> rstr option \<Rightarrow> ReprocessReport \<Rightarrow> instant \<Rightarrow> reprocessing \<times> bool" where
  "finish_reprocessing_run db run checkpoint report now =
     (let completed = (length (run_items db run) = length (rr_items report));
          with_warnings = (rr_warnings report \<noteq> [] \<or> rr_conflicts report \<noteq> []);
          state = (if completed then if with_warnings then RpCompletedWithWarnings else RpCompleted else RpRunning)
      in (db\<lparr>rd_runs := update_where (\<lambda>r. rp_id r = run)
            (\<lambda>r. r\<lparr>rp_state := state, rp_checkpoint := (case checkpoint of None \<Rightarrow> rp_checkpoint r | Some k \<Rightarrow> Some k),
               rp_report := Some report, rp_updated_at := now, rp_finished_at := (if completed then Some now else None)\<rparr>)
            (rd_runs db)\<rparr>, completed))"

definition apply_chunk ::
  "env \<Rightarrow> reprocessing \<Rightarrow> uuid \<Rightarrow> uuid \<Rightarrow> uuid \<Rightarrow> ReprocessInput list \<Rightarrow> string \<Rightarrow> nat \<Rightarrow> instant
     \<Rightarrow> (reprocessing \<times> ReprocessApplyOutcome, ReprocessPersistence) result" where
  "apply_chunk E db owner import_run operation inputs state_fingerprint max_items now =
     (let report = migration_apply E inputs state_fingerprint
      in bind_result (ensure_reprocessing_run E db owner import_run operation report now) (\<lambda>(db1, run, previous).
           if previous = RpCompleted \<or> previous = RpCompletedWithWarnings
           then Ok (db1, \<lparr>ro_run = run, ro_report = report, ro_completed = True\<rparr>)
           else
             let existing = map pi_key (run_items db1 run)
             in bind_result (insert_items run (take max_items (filter (\<lambda>i. rt_key i \<notin> set existing) (rr_items report)))
                  None (rd_items db1)) (\<lambda>(rows, checkpoint).
                let (db2, completed) = finish_reprocessing_run (db1\<lparr>rd_items := rows\<rparr>) run checkpoint report now
                in Ok (db2, \<lparr>ro_run = run, ro_report = report, ro_completed = completed\<rparr>))))"

section \<open>The process mode\<close>

datatype ReprocessMode = DryRunMode | ApplyMode

record ReprocessCommand =
  cm_mode :: ReprocessMode
  cm_owner :: uuid
  cm_import :: uuid
  cm_operation :: "uuid option"

datatype CommandError =
  InvalidCommand | InvalidMode | FlagWithoutValue | OwnerNotUuid | RunNotUuid | OperationNotUuid | UnknownOrDuplicateFlag
| ParserNotRegistered | DryRunTakesNoOperation | ApplyNeedsOperation | OwnerRequired | RunRequired

text \<open>Text of identifiers and back: the \<^verbatim>\<open>uuid\<close> crate.\<close>

record uuid_codec =
  uc_text :: "uuid \<Rightarrow> rstr"
  uc_parse :: "string \<Rightarrow> uuid option"

record ReprocessFlags =
  fg_owner :: "uuid option"
  fg_run :: "uuid option"
  fg_parser :: "string option"
  fg_operation :: "uuid option"

fun parse_flags :: "uuid_codec \<Rightarrow> string list \<Rightarrow> ReprocessFlags \<Rightarrow> (ReprocessFlags, CommandError) result" where
  "parse_flags U [] f = Ok f"
| "parse_flags U [flag] f = Err FlagWithoutValue"
| "parse_flags U (flag # v # arguments) f =
     (if flag = ''--owner'' \<and> fg_owner f = None then
        (case uc_parse U v of None \<Rightarrow> Err OwnerNotUuid | Some i \<Rightarrow> parse_flags U arguments (f\<lparr>fg_owner := Some i\<rparr>))
      else if flag = ''--run-id'' \<and> fg_run f = None then
        (case uc_parse U v of None \<Rightarrow> Err RunNotUuid | Some i \<Rightarrow> parse_flags U arguments (f\<lparr>fg_run := Some i\<rparr>))
      else if flag = ''--parser'' \<and> fg_parser f = None then parse_flags U arguments (f\<lparr>fg_parser := Some v\<rparr>)
      else if flag = ''--operation-id'' \<and> fg_operation f = None then
        (case uc_parse U v of None \<Rightarrow> Err OperationNotUuid | Some i \<Rightarrow> parse_flags U arguments (f\<lparr>fg_operation := Some i\<rparr>))
      else Err UnknownOrDuplicateFlag)"

definition command_mode :: "string list \<Rightarrow> (ReprocessMode, CommandError) result" where
  "command_mode arguments =
     (case arguments of
        name # mode # _ \<Rightarrow>
          if name \<noteq> ''reprocess-export'' then Err InvalidCommand
          else if mode = ''dry-run'' then Ok DryRunMode else if mode = ''apply'' then Ok ApplyMode else Err InvalidMode
      | [name] \<Rightarrow> if name \<noteq> ''reprocess-export'' then Err InvalidCommand else Err InvalidMode
      | [] \<Rightarrow> Err InvalidCommand)"

definition parse_reprocess_command :: "uuid_codec \<Rightarrow> string list \<Rightarrow> (ReprocessCommand, CommandError) result" where
  "parse_reprocess_command U arguments =
     bind_result (command_mode arguments) (\<lambda>mode.
     bind_result (parse_flags U (drop 2 arguments) \<lparr>fg_owner = None, fg_run = None, fg_parser = None, fg_operation = None\<rparr>) (\<lambda>f.
       if fg_parser f \<noteq> Some SUPPORTED_REPROCESSING_PARSER then Err ParserNotRegistered
       else if mode = DryRunMode \<and> fg_operation f \<noteq> None then Err DryRunTakesNoOperation
       else if mode = ApplyMode \<and> fg_operation f = None then Err ApplyNeedsOperation
       else (case fg_owner f of None \<Rightarrow> Err OwnerRequired | Some owner \<Rightarrow>
            (case fg_run f of None \<Rightarrow> Err RunRequired | Some run \<Rightarrow>
               Ok \<lparr>cm_mode = mode, cm_owner = owner, cm_import = run, cm_operation = fg_operation f\<rparr>))))"

definition classification_of :: "string \<Rightarrow> (ReprocessClassification, ReprocessPersistence) result" where
  "classification_of v =
     (if v = ''normalized'' then Ok ClassNormalized
      else if v = ''unknown_record'' then Ok ClassUnknownRecord
      else if v = ''unknown_section'' then Ok ClassUnknownSection
      else if v = ''conflict'' then Ok ClassConflict
      else if v = ''warning'' then Ok ClassWarning
      else Err PreconditionChanged)"

fun reprocess_inputs ::
  "uuid_codec \<Rightarrow> ExportRecordRow list \<Rightarrow> (ReprocessInput list, ReprocessPersistence) result" where
  "reprocess_inputs U [] = Ok []"
| "reprocess_inputs U (r # records) =
     bind_result (classification_of (xr_kind r)) (\<lambda>c.
     bind_result (reprocess_inputs U records) (\<lambda>inputs.
       Ok (\<lparr>ri_key = uc_text U (xr_id r), ri_class = c, ri_digest = None\<rparr> # inputs)))"

definition load_reprocessing_inputs ::
  "uuid_codec \<Rightarrow> reprocessing \<Rightarrow> ReprocessCommand \<Rightarrow> (ReprocessInput list \<times> string, ReprocessPersistence) result" where
  "load_reprocessing_inputs U db command =
     (case find (\<lambda>r. ir_id r = cm_import command \<and> ir_user r = cm_owner command \<and> ir_state r = Reconciled
          \<and> ir_layout r = Some SUPPORTED_REPROCESSING_LAYOUT \<and> ir_parser r = Some SUPPORTED_REPROCESSING_PARSER) (im_runs db) of
        None \<Rightarrow> Err RowNotFound
      | Some r \<Rightarrow>
          (case find (\<lambda>s. es_id s = ir_snapshot r) (im_snapshots db) of
             None \<Rightarrow> Err RowNotFound
           | Some s \<Rightarrow>
               bind_result (reprocess_inputs U (sort_key xr_id (filter (\<lambda>x. xr_run x = cm_import command) (im_records db)))) (\<lambda>inputs.
                 let state_fingerprint = hex_encode (es_hash s)
                 in if length state_fingerprint \<noteq> 64 then Err PreconditionChanged else Ok (inputs, state_fingerprint))))"

text \<open>One invocation after the command line and the configuration were accepted: what it commits and renders.\<close>

definition run_reprocess_export ::
  "env \<Rightarrow> uuid_codec \<Rightarrow> reprocessing \<Rightarrow> ReprocessCommand \<Rightarrow> nat \<Rightarrow> instant
     \<Rightarrow> reprocessing \<times> (ReprocessReport \<times> (uuid \<times> bool) option, ReprocessPersistence) result" where
  "run_reprocess_export E U db command max_items now =
     (case load_reprocessing_inputs U db command of
        Err e \<Rightarrow> (db, Err e)
      | Ok (inputs, state_fingerprint) \<Rightarrow>
          (case cm_mode command of
             DryRunMode \<Rightarrow>
               (case dry_run E db (cm_owner command) (cm_import command) inputs state_fingerprint of
                  Err e \<Rightarrow> (db, Err e) | Ok report \<Rightarrow> (db, Ok (report, None)))
           | ApplyMode \<Rightarrow>
               (case apply_chunk E db (cm_owner command) (cm_import command)
                  (case cm_operation command of Some i \<Rightarrow> i | None \<Rightarrow> Uuid 0 0) inputs state_fingerprint max_items now of
                  Err e \<Rightarrow> (db, Err e)
                | Ok (db', outcome) \<Rightarrow> (db', Ok (ro_report outcome, Some (ro_run outcome, ro_completed outcome))))))"

end
