(* ===== verification/Export_Reprocessing_Outcomes.thy ===== *)
theory Export_Reprocessing_Outcomes
  imports Export_Reprocessing
begin

text \<open>
  What reprocessing promises: the plan does not depend on the order of its inputs, and repeated invocations of
  the process mode apply every planned item exactly once and complete.
\<close>

section \<open>Plans\<close>

lemma rt_key_report_item [simp]: "rt_key (report_item i) = ri_key i"
  by (simp add: report_item_def)

lemma sort_distinct: "distinct (map f xs) \<Longrightarrow> distinct (map f (sort_key f xs))"
  by (simp add: distinct_map)

lemma report_keys:
  assumes "distinct (map ri_key inputs)"
  shows "distinct (map rt_key (rr_items (render_report E inputs fp)))"
    "sorted (map rt_key (rr_items (render_report E inputs fp)))"
proof -
  have "distinct (map rt_key (map report_item inputs))" using assms by (simp add: comp_def)
  then show "distinct (map rt_key (rr_items (render_report E inputs fp)))"
    using sort_distinct by (simp only: render_report_def Let_def ReprocessReport.simps)
  show "sorted (map rt_key (rr_items (render_report E inputs fp)))" by (simp add: render_report_def Let_def)
qed

lemma length_report: "length (rr_items (render_report E inputs fp)) = length inputs"
  by (simp add: render_report_def Let_def)

lemma set_report: "set (rr_items (render_report E inputs fp)) = report_item ` set inputs"
  by (simp add: render_report_def Let_def)

lemma same_items:
  assumes "set inputs = set inputs'" "distinct (map ri_key inputs)" "distinct (map ri_key inputs')"
  shows "rr_items (render_report E inputs fp) = rr_items (render_report E inputs' fp)" (is "?a = ?b")
proof (rule map_sorted_distinct_set_unique [of rt_key])
  show "set ?a = set ?b" by (simp add: set_report assms(1))
  then show "inj_on rt_key (set ?a \<union> set ?b)"
    using report_keys(1) [OF assms(2), of E fp] by (simp add: distinct_map)
qed (use report_keys assms in auto)

lemma report_of_items:
  assumes "rr_items (render_report E inputs fp) = rr_items (render_report E inputs' fp)"
  shows "render_report E inputs fp = render_report E inputs' fp"
  using assms by (simp add: render_report_def Let_def)

section \<open>Chunks\<close>

definition item_valid :: "ReprocessReportItem \<Rightarrow> bool" where
  "item_valid i \<longleftrightarrow> rt_key i \<noteq> [] \<and> length (rt_key i) \<le> 512 \<and> (case rt_digest i of None \<Rightarrow> True | Some d \<Rightarrow> length d = 64)"

lemma insert_items_all:
  assumes "\<forall>i\<in>set items. item_valid i" "distinct (map rt_key items)"
    and "\<forall>x\<in>set rows. pi_run x = run \<longrightarrow> pi_key x \<notin> rt_key ` set items"
  shows "\<exists>c. insert_items run items checkpoint rows = Ok (rows @ map (item_row run) items, c)"
  using assms
proof (induction items arbitrary: checkpoint rows)
  case (Cons i items)
  have "\<not> item_conflict rows (item_row run i)"
    using Cons.prems(1,3) by (auto simp: item_conflict_def item_row_def item_valid_def list_ex_iff split: option.splits)
  moreover have "\<exists>c. insert_items run items (Some (rt_key i)) (rows @ [item_row run i])
      = Ok ((rows @ [item_row run i]) @ map (item_row run) items, c)"
    using Cons.prems by (intro Cons.IH) (auto simp: item_row_def)
  ultimately show ?case by simp
qed simp

lemma filter_rest:
  assumes "distinct (map rt_key items)"
  shows "filter (\<lambda>i. rt_key i \<notin> rt_key ` set (take j items)) items = drop j items"
proof -
  have "filter P (take j items @ drop j items) = drop j items"
    if "\<forall>i\<in>set (take j items). \<not> P i" "\<forall>i\<in>set (drop j items). P i" for P
    using that by (simp add: filter_empty_conv filter_id_conv del: append_take_drop_id)
  moreover have "rt_key i \<notin> rt_key ` set (take j items)" if "i \<in> set (drop j items)" for i
  proof -
    have "distinct (map rt_key (take j items) @ map rt_key (drop j items))"
      using assms by (metis append_take_drop_id map_append)
    with that show ?thesis by auto
  qed
  ultimately show ?thesis by (metis (no_types, lifting) append_take_drop_id image_eqI)
qed

definition finished_state :: "ReprocessState \<Rightarrow> bool" where
  "finished_state s \<longleftrightarrow> s = RpCompleted \<or> s = RpCompletedWithWarnings"

text \<open>An operation whose run has applied the first \<open>j\<close> items of its plan.\<close>

definition applied_prefix :: "reprocessing \<Rightarrow> uuid \<Rightarrow> uuid \<Rightarrow> uuid \<Rightarrow> ReprocessReport \<Rightarrow> uuid \<Rightarrow> nat \<Rightarrow> bool" where
  "applied_prefix db owner import_run operation report run j \<longleftrightarrow>
     supported_receipt db owner import_run
     \<and> (\<exists>r. reprocess_run db owner operation = Some r \<and> rp_id r = run \<and> rp_import r = import_run
          \<and> rp_plan r = rr_plan report \<and> rp_fingerprint r = rr_state report
          \<and> (finished_state (rp_state r) \<longrightarrow> length (rr_items report) \<le> j))
     \<and> run_items db run = map (item_row run) (take j (rr_items report))"

definition same_imports :: "reprocessing \<Rightarrow> reprocessing \<Rightarrow> bool" where
  "same_imports db db' \<longleftrightarrow> im_runs db' = im_runs db \<and> im_snapshots db' = im_snapshots db \<and> im_records db' = im_records db"

lemma supported_same: "same_imports db db' \<Longrightarrow> supported_receipt db' = supported_receipt db"
  by (simp add: same_imports_def supported_receipt_def [abs_def])

lemma pi_run_item_row [simp]: "pi_run (item_row run i) = run" "pi_key (item_row run i) = rt_key i"
  by (simp_all add: item_row_def)

lemma chunk_step:
  assumes prefix: "applied_prefix db owner import_run operation report run j"
    and report: "report = migration_apply E inputs fp"
    and valid: "\<forall>i\<in>set (rr_items report). item_valid i" "distinct (map rt_key (rr_items report))"
  shows "\<exists>db'. apply_chunk E db owner import_run operation inputs fp m now =
      Ok (db', \<lparr>ro_run = run, ro_report = report, ro_completed = (length (rr_items report) \<le> j + m)\<rparr>)
    \<and> applied_prefix db' owner import_run operation report run (j + m) \<and> same_imports db db'"
proof -
  let ?items = "rr_items report"
  from prefix obtain r where r: "reprocess_run db owner operation = Some r" "rp_id r = run" "rp_import r = import_run"
      "rp_plan r = rr_plan report" "rp_fingerprint r = rr_state report" "finished_state (rp_state r) \<Longrightarrow> length ?items \<le> j"
    and rows: "run_items db run = map (item_row run) (take j ?items)" and ok: "supported_receipt db owner import_run"
    by (auto simp: applied_prefix_def)
  have ensure: "ensure_reprocessing_run E db owner import_run operation report now = Ok (db, run, rp_state r)"
    by (simp add: ensure_reprocessing_run_def ok r(1-5))
  show ?thesis
  proof (cases "finished_state (rp_state r)")
    case True
    then have "apply_chunk E db owner import_run operation inputs fp m now =
        Ok (db, \<lparr>ro_run = run, ro_report = report, ro_completed = True\<rparr>)"
      by (simp add: apply_chunk_def Let_def ensure finished_state_def flip: report)
    moreover have "length ?items \<le> j" using r(6) True by simp
    ultimately show ?thesis using prefix by (simp add: applied_prefix_def same_imports_def)
  next
    case False
    let ?new = "take m (drop j ?items)"
    have keys: "map pi_key (run_items db run) = map rt_key (take j ?items)" by (simp add: rows comp_def)
    have rest: "filter (\<lambda>i. rt_key i \<notin> set (map pi_key (run_items db run))) ?items = drop j ?items"
      unfolding keys set_map by (rule filter_rest [OF valid(2)])
    then have rest': "filter (\<lambda>i. rt_key i \<notin> pi_key ` set (run_items db run)) ?items = drop j ?items" by simp
    have "distinct (map rt_key (take j ?items) @ map rt_key (drop j ?items))"
      using valid(2) by (metis append_take_drop_id map_append)
    then have parts: "rt_key ` set (take j ?items) \<inter> rt_key ` set (drop j ?items) = {}" "distinct (map rt_key (drop j ?items))"
      unfolding distinct_append set_map by blast+
    then have disj: "rt_key ` set (take j ?items) \<inter> rt_key ` set ?new = {}" "distinct (map rt_key ?new)"
      using set_take_subset [of m "drop j ?items"] by (blast, metis distinct_take take_map)
    have "\<forall>x\<in>set (rd_items db). pi_run x = run \<longrightarrow> pi_key x \<notin> rt_key ` set ?new"
    proof (intro ballI impI)
      fix x assume "x \<in> set (rd_items db)" "pi_run x = run"
      then have "x \<in> set (run_items db run)" by (simp add: run_items_def)
      then have "pi_key x \<in> set (map pi_key (run_items db run))" by simp
      then show "pi_key x \<notin> rt_key ` set ?new" unfolding keys using disj(1) by auto
    qed
    moreover have "\<forall>i\<in>set ?new. item_valid i"
      using valid(1) by (meson in_set_dropD in_set_takeD)
    ultimately obtain c where ins: "insert_items run ?new None (rd_items db) = Ok (rd_items db @ map (item_row run) ?new, c)"
      using insert_items_all [OF _ disj(2)] by blast
    let ?db1 = "db\<lparr>rd_items := rd_items db @ map (item_row run) ?new\<rparr>"
    have rows1: "run_items ?db1 run = map (item_row run) (take (j + m) ?items)"
    proof -
      have "filter (\<lambda>i. pi_run i = run) (map (item_row run) ?new) = map (item_row run) ?new" by (simp add: filter_id_conv)
      then show ?thesis using rows by (simp add: run_items_def take_add)
    qed
    then have count: "(length (run_items ?db1 run) = length ?items) = (length ?items \<le> j + m)" by auto
    define st where "st = (if length ?items \<le> j + m then if rr_warnings report \<noteq> [] \<or> rr_conflicts report \<noteq> []
        then RpCompletedWithWarnings else RpCompleted else RpRunning)"
    define f where "f = (\<lambda>r. r\<lparr>rp_state := st, rp_checkpoint := (case c of None \<Rightarrow> rp_checkpoint r | Some k \<Rightarrow> Some k),
        rp_report := Some report, rp_updated_at := now, rp_finished_at := (if length ?items \<le> j + m then Some now else None)\<rparr> :: ReprocessRunRow)"
    define db2 where db2: "db2 = ?db1\<lparr>rd_runs := update_where (\<lambda>r. rp_id r = run) f (rd_runs ?db1)\<rparr>"
    have fin: "finish_reprocessing_run ?db1 run c report now = (db2, length ?items \<le> j + m)"
      unfolding finish_reprocessing_run_def Let_def count db2 f_def st_def by (rule refl)
    have "reprocess_run db2 owner operation = map_option (\<lambda>r. if rp_id r = run then f r else r) (reprocess_run db owner operation)"
      unfolding reprocess_run_def db2 by (simp, rule find_update_where) (simp add: f_def)
    then have run2: "reprocess_run db2 owner operation = Some (f r)" using r(1,2) by simp
    have same: "same_imports db db2" by (simp add: same_imports_def db2)
    have "finished_state (rp_state (f r)) \<Longrightarrow> length ?items \<le> j + m" by (simp add: f_def st_def finished_state_def split: if_splits)
    then have "applied_prefix db2 owner import_run operation report run (j + m)"
      unfolding applied_prefix_def using run2 r ok supported_same [OF same] rows1
      by (simp add: f_def db2 run_items_def)
    moreover have "apply_chunk E db owner import_run operation inputs fp m now =
        Ok (db2, \<lparr>ro_run = run, ro_report = report, ro_completed = (length ?items \<le> j + m)\<rparr>)"
      using False by (simp add: apply_chunk_def Let_def ensure finished_state_def rest' ins fin flip: report)
    ultimately show ?thesis using same by blast
  qed
qed

lemma first_chunk:
  assumes none: "reprocess_run db owner operation = None" and ok: "supported_receipt db owner import_run"
    and report: "report = migration_apply E inputs fp"
    and fresh: "now_v7 E (im_archive db) \<notin> rp_id ` set (rd_runs db)" "pi_run ` set (rd_items db) \<subseteq> rp_id ` set (rd_runs db)"
    and len: "length (rr_plan report) = 64" "length (rr_state report) = 64"
  obtains db1 where "applied_prefix db1 owner import_run operation report (now_v7 E (im_archive db)) 0" "same_imports db db1"
    "apply_chunk E db owner import_run operation inputs fp m now = apply_chunk E db1 owner import_run operation inputs fp m now"
proof -
  let ?run = "now_v7 E (im_archive db)"
  define r where "r = \<lparr>rp_id = ?run, rp_operation = operation, rp_import = import_run, rp_user = owner,
    rp_layout = SUPPORTED_REPROCESSING_LAYOUT, rp_parser = SUPPORTED_REPROCESSING_PARSER, rp_state = RpRunning,
    rp_plan = rr_plan report, rp_fingerprint = rr_state report, rp_checkpoint = None, rp_report = None, rp_updated_at = now,
    rp_finished_at = None\<rparr>"
  define db1 where "db1 = db\<lparr>im_archive := drawn (im_archive db), rd_runs := rd_runs db @ [r]\<rparr>"
  have new: "\<not> list_ex (\<lambda>r. rp_id r = ?run) (rd_runs db)" using fresh(1) unfolding list_ex_iff by (metis image_eqI)
  have e: "ensure_reprocessing_run E db owner import_run operation report now = Ok (db1, ?run, RpRunning)"
    by (simp add: ensure_reprocessing_run_def ok none new len Let_def db1_def r_def)
  have same: "same_imports db db1" by (simp add: same_imports_def db1_def)
  have run1: "reprocess_run db1 owner operation = Some r"
    using none by (simp add: reprocess_run_def db1_def find_append r_def)
  have e1: "ensure_reprocessing_run E db1 owner import_run operation report now = Ok (db1, ?run, RpRunning)"
    by (simp add: ensure_reprocessing_run_def run1 supported_same [OF same] ok) (simp add: r_def)
  have "pi_run x \<noteq> ?run" if "x \<in> set (rd_items db)" for x
  proof
    assume "pi_run x = ?run"
    with imageI [OF that, of pi_run] fresh show False by (simp add: subset_iff)
  qed
  then have "run_items db1 ?run = []" by (simp add: run_items_def db1_def filter_empty_conv)
  with run1 ok have "applied_prefix db1 owner import_run operation report ?run 0"
    by (simp add: applied_prefix_def supported_same [OF same]) (simp add: r_def finished_state_def)
  moreover have "apply_chunk E db owner import_run operation inputs fp m now = apply_chunk E db1 owner import_run operation inputs fp m now"
    unfolding apply_chunk_def Let_def report [symmetric] e e1 by simp
  ultimately show thesis using same by (intro that)
qed

lemma load_same: "same_imports db db' \<Longrightarrow> load_reprocessing_inputs U db' command = load_reprocessing_inputs U db command"
  unfolding same_imports_def load_reprocessing_inputs_def by (elim conjE) (simp only:)

lemma same_imports_trans: "same_imports a b \<Longrightarrow> same_imports b c \<Longrightarrow> same_imports a c"
  by (simp add: same_imports_def)

section \<open>Invocations\<close>

definition applies :: "ReprocessCommand \<Rightarrow> uuid \<Rightarrow> bool" where
  "applies command operation \<longleftrightarrow> cm_mode command = ApplyMode \<and> cm_operation command = Some operation"

lemma invocation_step:
  assumes "applied_prefix db (cm_owner command) (cm_import command) operation report run j" "report = render_report E inputs fp"
    and "load_reprocessing_inputs U db command = Ok (inputs, fp)" "applies command operation"
    and "\<forall>i\<in>set (rr_items report). item_valid i" "distinct (map rt_key (rr_items report))"
  shows "\<exists>db'. run_reprocess_export E U db command m now =
      (db', Ok (report, Some (run, length (rr_items report) \<le> j + m)))
    \<and> applied_prefix db' (cm_owner command) (cm_import command) operation report run (j + m) \<and> same_imports db db'"
proof -
  have "report = migration_apply E inputs fp" by (simp add: assms(2) migration_apply_def)
  from chunk_step [OF assms(1) this assms(5,6), of m now] assms(3,4) show ?thesis
    by (auto simp: run_reprocess_export_def applies_def)
qed

lemma invocations:
  assumes "applied_prefix db (cm_owner command) (cm_import command) operation report run j" "report = render_report E inputs fp"
    and "load_reprocessing_inputs U db command = Ok (inputs, fp)" "applies command operation"
    and "\<forall>i\<in>set (rr_items report). item_valid i" "distinct (map rt_key (rr_items report))"
  shows "let db' = fold (\<lambda>t d. fst (run_reprocess_export E U d command m t)) ts db
    in applied_prefix db' (cm_owner command) (cm_import command) operation report run (j + length ts * m)
      \<and> load_reprocessing_inputs U db' command = Ok (inputs, fp)"
  using assms(1,3)
proof (induction ts arbitrary: db j)
  case (Cons t ts)
  from invocation_step [OF Cons.prems(1) assms(2) Cons.prems(2) assms(4-6), of m t] obtain db' where
    s: "fst (run_reprocess_export E U db command m t) = db'"
    "applied_prefix db' (cm_owner command) (cm_import command) operation report run (j + m)" "same_imports db db'" by auto
  have "load_reprocessing_inputs U db' command = Ok (inputs, fp)" using load_same [OF s(3)] Cons.prems(2) by simp
  from Cons.IH [OF s(2) this] s(1) show ?case by (simp add: Let_def add.assoc)
qed simp

lemma first_invocation:
  fixes db :: reprocessing
  assumes "load_reprocessing_inputs U db command = Ok (inputs, fp)" "applies command operation"
    and "supported_receipt db (cm_owner command) (cm_import command)"
    and "reprocess_run db (cm_owner command) operation = None"
    and "now_v7 E (im_archive db) \<notin> rp_id ` set (rd_runs db)" "pi_run ` set (rd_items db) \<subseteq> rp_id ` set (rd_runs db)"
    and "length (rr_plan (render_report E inputs fp)) = 64" "length (rr_state (render_report E inputs fp)) = 64"
    and "\<forall>i\<in>set (rr_items (render_report E inputs fp)). item_valid i"
    and "distinct (map rt_key (rr_items (render_report E inputs fp)))"
  obtains db1 where
    "applied_prefix db1 (cm_owner command) (cm_import command) operation (render_report E inputs fp) (now_v7 E (im_archive db)) 0"
    "load_reprocessing_inputs U db1 command = Ok (inputs, fp)"
    "run_reprocess_export E U db command max_items t = run_reprocess_export E U db1 command max_items t"
proof -
  let ?report = "render_report E inputs fp"
  have applied: "?report = migration_apply E inputs fp" by (simp add: migration_apply_def)
  obtain db1 where d: "applied_prefix db1 (cm_owner command) (cm_import command) operation ?report (now_v7 E (im_archive db)) 0"
    "same_imports db db1"
    "apply_chunk E db (cm_owner command) (cm_import command) operation inputs fp max_items t
      = apply_chunk E db1 (cm_owner command) (cm_import command) operation inputs fp max_items t"
    by (rule first_chunk [OF assms(4,3) applied assms(5-8)])
  have l: "load_reprocessing_inputs U db1 command = Ok (inputs, fp)" using load_same [OF d(2)] assms(1) by simp
  from chunk_step [OF d(1) applied assms(9,10), of max_items t] obtain x where
    "apply_chunk E db1 (cm_owner command) (cm_import command) operation inputs fp max_items t = Ok x" by blast
  then have "run_reprocess_export E U db command max_items t = run_reprocess_export E U db1 command max_items t"
    using d(3) l assms(1,2) by (simp add: run_reprocess_export_def applies_def)
  with d(1) l show thesis by (rule that)
qed

section \<open>Properties\<close>

text \<open>
  C32. The plan is deterministic: from the same retained items, in whatever order they are read, the dry run and
  the application render the same report with the same fingerprint, whose items are those of the inputs in
  strictly ascending order of their keys.
\<close>
theorem reprocessing_plan_is_deterministic:
  assumes "set inputs = set inputs'" "distinct (map ri_key inputs)" "distinct (map ri_key inputs')"
  shows "migration_apply E inputs fp = migration_dry_run E inputs' fp
    \<and> set (rr_items (migration_apply E inputs fp)) = report_item ` set inputs
    \<and> sorted_wrt (<) (map rt_key (rr_items (migration_apply E inputs fp)))"
proof -
  have "render_report E inputs fp = render_report E inputs' fp" by (rule report_of_items) (rule same_items [OF assms])
  moreover have "sorted_wrt (<) (map rt_key (rr_items (render_report E inputs fp)))"
    using report_keys [OF assms(2), of E fp] by (simp add: strict_sorted_iff)
  ultimately show ?thesis unfolding migration_apply_def migration_dry_run_def set_report by blast
qed

definition planned :: "ReprocessInput list" where
  "planned = [\<lparr>ri_key = [98], ri_class = ClassWarning, ri_digest = None\<rparr>, \<lparr>ri_key = [97], ri_class = ClassNormalized, ri_digest = None\<rparr>]"

definition plan_env :: env where
  "plan_env = \<lparr>e_now_v7 = \<lambda>n. Uuid 7 (word_of_nat n), e_uuid_v5 = \<lambda>u b. u, e_sha256 = \<lambda>b. replicate 32 0,
     e_canonical_json = \<lambda>p. [], e_payload_title = \<lambda>b. None, e_json_object = \<lambda>b. False, e_report_ok = \<lambda>r. True,
     e_snapshot_ok = \<lambda>s. True, e_instant_ok = \<lambda>t. True\<rparr>"

theorem reprocessing_plan_is_deterministic_witness:
  "migration_apply plan_env planned [] = migration_dry_run plan_env (rev planned) []
    \<and> sorted_wrt (<) (map rt_key (rr_items (migration_apply plan_env planned [])))"
proof -
  have "distinct (map ri_key planned)" by (simp add: planned_def)
  moreover from this have "distinct (map ri_key (rev planned))" by (metis distinct_rev rev_map)
  ultimately show ?thesis using reprocessing_plan_is_deterministic [of planned "rev planned" plan_env "[]"] set_rev by metis
qed

text \<open>
  C19. Repeated invocations finish: when an operation starts on a reconciled receipt of the owner, after k
  invocations with the same command exactly the first k * max_items items of the plan are stored, each once
  and in order; the invocation says that it completed exactly when these are all, every invocation reports the
  same run and the same plan, so with a positive limit the operation completes after finitely many.
\<close>
theorem repeated_invocations_complete:
  fixes db :: reprocessing
  assumes "load_reprocessing_inputs U db command = Ok (inputs, fp)" "applies command operation"
    and "supported_receipt db (cm_owner command) (cm_import command)"
    and "reprocess_run db (cm_owner command) operation = None"
    and "now_v7 E (im_archive db) \<notin> rp_id ` set (rd_runs db)" "pi_run ` set (rd_items db) \<subseteq> rp_id ` set (rd_runs db)"
    and "length (rr_plan (render_report E inputs fp)) = 64" "length fp = 64"
    and "\<forall>i\<in>set (rr_items (render_report E inputs fp)). item_valid i" "distinct (map ri_key inputs)"
  shows "let run = now_v7 E (im_archive db); report = render_report E inputs fp; k = Suc (length ts);
      db' = run_reprocess_export E U (fold (\<lambda>t d. fst (run_reprocess_export E U d command max_items t)) ts db) command max_items now
    in snd db' = Ok (report, Some (run, length inputs \<le> k * max_items))
      \<and> run_items (fst db') run = map (item_row run) (take (k * max_items) (rr_items report))"
proof -
  let ?report = "render_report E inputs fp"
  let ?go = "\<lambda>t d. fst (run_reprocess_export E U d command max_items t)"
  have state: "length (rr_state ?report) = 64" using assms(8) by (simp add: render_report_def Let_def)
  have keys: "distinct (map rt_key (rr_items ?report))" by (rule report_keys [OF assms(10)])
  obtain db1 where d: "applied_prefix db1 (cm_owner command) (cm_import command) operation ?report (now_v7 E (im_archive db)) 0"
    "load_reprocessing_inputs U db1 command = Ok (inputs, fp)"
    "run_reprocess_export E U db command max_items (hd (ts @ [now])) = run_reprocess_export E U db1 command max_items (hd (ts @ [now]))"
    by (rule first_invocation [OF assms(1-7) state assms(9) keys])
  from invocations [OF d(1) refl d(2) assms(2,9) keys, of max_items ts]
  have p: "applied_prefix (fold ?go ts db1) (cm_owner command) (cm_import command) operation ?report
      (now_v7 E (im_archive db)) (length ts * max_items)"
    "load_reprocessing_inputs U (fold ?go ts db1) command = Ok (inputs, fp)" by (simp_all add: Let_def)
  have "run_reprocess_export E U (fold ?go ts db) command max_items now = run_reprocess_export E U (fold ?go ts db1) command max_items now"
    using d(3) by (cases ts) simp_all
  with invocation_step [OF p(1) refl p(2) assms(2,9) keys, of max_items now] show ?thesis
    by (auto simp: Let_def length_report applied_prefix_def add.commute)
qed

definition sample_reprocessing :: reprocessing where
  "sample_reprocessing = \<lparr>im_archive = empty_archive,
     im_snapshots = [\<lparr>es_id = Uuid 1 1, es_user = Uuid 2 2, es_hash = replicate 32 0, es_ref = None, es_size = 0, es_received_at = 0\<rparr>],
     im_runs = [\<lparr>ir_id = Uuid 3 3, ir_snapshot = Uuid 1 1, ir_user = Uuid 2 2, ir_state = Reconciled,
       ir_layout = Some SUPPORTED_REPROCESSING_LAYOUT, ir_parser = Some SUPPORTED_REPROCESSING_PARSER, ir_records = 1,
       ir_warnings = 0, ir_failure = None, ir_received_at = 0, ir_updated_at = 0, ir_finished_at = None\<rparr>],
     im_transitions = [],
     im_records = [\<lparr>xr_id = Uuid 4 4, xr_run = Uuid 3 3, xr_key = [], xr_kind = ''normalized'', xr_category = [], xr_path = [],
       xr_digest = None, xr_size = 0, xr_provider = None, xr_url = None, xr_payload = RawPayload JNull, xr_at = 0\<rparr>],
     im_reports = [], rd_runs = [], rd_items = []\<rparr>"

definition sample_apply :: ReprocessCommand where
  "sample_apply = \<lparr>cm_mode = ApplyMode, cm_owner = Uuid 2 2, cm_import = Uuid 3 3, cm_operation = Some (Uuid 5 5)\<rparr>"

definition short_codec :: uuid_codec where
  "short_codec = \<lparr>uc_text = \<lambda>i. [97], uc_parse = \<lambda>s. None\<rparr>"

theorem repeated_invocations_complete_witness:
  "\<exists>report. snd (run_reprocess_export plan_env short_codec
      (fold (\<lambda>t d. fst (run_reprocess_export plan_env short_codec d sample_apply 1 t)) [] sample_reprocessing) sample_apply 1 9)
    = Ok (report, Some (Uuid 7 0, True))"
proof -
  let ?inputs = "[\<lparr>ri_key = [97], ri_class = ClassNormalized, ri_digest = None\<rparr>]"
  let ?fp = "hex_encode (replicate 32 0)"
  have fp: "length (hex_encode (replicate 32 0)) = 64" by (simp add: hex_encode_def length_concat comp_def sum_list_replicate)
  have "load_reprocessing_inputs short_codec sample_reprocessing sample_apply = Ok (?inputs, ?fp)"
    by (simp add: load_reprocessing_inputs_def sample_reprocessing_def sample_apply_def short_codec_def classification_of_def fp Let_def)
  moreover have "applies sample_apply (Uuid 5 5)" by (simp add: applies_def sample_apply_def)
  moreover have "supported_receipt sample_reprocessing (cm_owner sample_apply) (cm_import sample_apply)"
    by (simp add: supported_receipt_def sample_reprocessing_def sample_apply_def)
  moreover have "reprocess_run sample_reprocessing (cm_owner sample_apply) (Uuid 5 5) = None"
    "now_v7 plan_env (im_archive sample_reprocessing) \<notin> rp_id ` set (rd_runs sample_reprocessing)"
    "pi_run ` set (rd_items sample_reprocessing) \<subseteq> rp_id ` set (rd_runs sample_reprocessing)"
    by (simp_all add: reprocess_run_def sample_reprocessing_def)
  moreover have "length (rr_plan (render_report plan_env ?inputs ?fp)) = 64"
    by (simp only: render_report_def Let_def ReprocessReport.simps plan_env_def env.simps fp)
  moreover have "\<forall>i\<in>set (rr_items (render_report plan_env ?inputs ?fp)). item_valid i"
    unfolding set_report by (simp add: report_item_def item_valid_def)
  moreover have "now_v7 plan_env (im_archive sample_reprocessing) = Uuid 7 0"
    by (simp add: now_v7_def plan_env_def sample_reprocessing_def empty_archive_def)
  ultimately show ?thesis
    using repeated_invocations_complete [of short_codec sample_reprocessing sample_apply ?inputs ?fp "Uuid 5 5" plan_env "[]" 1 9] fp
    by (simp add: Let_def)
qed

end
