(* ===== verification/Analysis_Linkage.thy ===== *)
theory Analysis_Linkage
  imports Publishing
begin

text \<open>
  Model of \<^verbatim>\<open>analysis_linkage.rs\<close>: one at-least-once delivery of a Knowledge completion fact. The envelope and
  its typed payload are decoded by contract crates, the record \<open>completion_codec\<close>; the inbox claim, the
  linkage and the recorded outcome are one transaction over the archive and the table of links.
\<close>

section \<open>Data\<close>

datatype AnalysisCompletionOutcome = Linked | DuplicateDelivery | SkippedDelivery

datatype AnalysisCompletionError =
  InvalidEnvelope | InvalidPayload | InvalidEventId | InvalidTimestamp | LinkagePersistence

datatype DigestAlgorithm = Sha256Algorithm | OtherAlgorithm string

record AnalysisCompleted =
  ak_owner :: uuid
  ak_source :: uuid
  ak_algorithm :: DigestAlgorithm
  ak_digest :: string
  ak_completed_at :: string

record LinkRow =
  ln_capture :: uuid
  ln_digest :: string
  ln_completed_at :: instant

record linkage =
  lk_archive :: archive
  lk_links :: "LinkRow list"

record 'v completion_codec =
  cc_envelope :: "u8 list \<Rightarrow> 'v option"
  cc_event_id :: "'v \<Rightarrow> uuid option"
  cc_payload :: "'v \<Rightarrow> AnalysisCompleted option"
  cc_rfc3339 :: "string \<Rightarrow> instant option"

definition ANALYSIS_CONSUMER :: string where
  "ANALYSIS_CONSUMER = ''ratatoskr-instagram-analysis''"

section \<open>Linkage\<close>

definition privacy_removed :: "archive \<Rightarrow> uuid \<Rightarrow> uuid \<Rightarrow> bool" where
  "privacy_removed db owner source = list_ex (\<lambda>r. rem_user r = owner \<and> rem_source r = source) (removals db)"

definition link_candidate :: "env \<Rightarrow> uuid \<Rightarrow> uuid \<Rightarrow> CaptureRow \<Rightarrow> bool" where
  "link_candidate E owner source c \<longleftrightarrow> cap_user c = owner \<and> cap_media c \<noteq> None \<and> cap_status c \<noteq> Tombstoned
     \<and> source_identity E owner (cap_url c) = source"

definition insert_link :: "linkage \<Rightarrow> LinkRow \<Rightarrow> linkage" where
  "insert_link db l =
     (if list_ex (\<lambda>x. ln_capture x = ln_capture l \<and> ln_digest x = ln_digest l) (lk_links db) then db
      else db\<lparr>lk_links := lk_links db @ [l]\<rparr>)"

definition link_matching_capture ::
  "env \<Rightarrow> linkage \<Rightarrow> AnalysisCompleted \<Rightarrow> instant \<Rightarrow> (linkage \<times> AnalysisCompletionOutcome, AnalysisCompletionError) result" where
  "link_matching_capture E db completion completed_at =
     (if privacy_removed (lk_archive db) (ak_owner completion) (ak_source completion) then Ok (db, SkippedDelivery)
      else (case find (link_candidate E (ak_owner completion) (ak_source completion)) (captures (lk_archive db)) of
          None \<Rightarrow> Ok (db, SkippedDelivery)
        | Some c \<Rightarrow>
            (case current_content_digest E (lk_archive db) (cap_id c) of
               Err PublishPersistence \<Rightarrow> Err LinkagePersistence
             | Err _ \<Rightarrow> Ok (db, SkippedDelivery)
             | Ok digest \<Rightarrow>
                 if ak_algorithm completion \<noteq> Sha256Algorithm \<or> ak_digest completion \<noteq> digest then Ok (db, SkippedDelivery)
                 else Ok (insert_link db \<lparr>ln_capture = cap_id c, ln_digest = digest, ln_completed_at = completed_at\<rparr>, Linked))))"

definition analysis_claimed :: "archive \<Rightarrow> uuid \<Rightarrow> bool" where
  "analysis_claimed db i = list_ex (\<lambda>r. in_consumer r = ANALYSIS_CONSUMER \<and> in_event r = i) (inbox db)"

definition claim_analysis :: "linkage \<Rightarrow> uuid \<Rightarrow> linkage" where
  "claim_analysis db i = db\<lparr>lk_archive := (lk_archive db)\<lparr>inbox := inbox (lk_archive db) @
     [\<lparr>in_consumer = ANALYSIS_CONSUMER, in_event = i, in_outcome = ''processed''\<rparr>]\<rparr>\<rparr>"

definition record_analysis_outcome :: "linkage \<Rightarrow> uuid \<Rightarrow> AnalysisCompletionOutcome \<Rightarrow> linkage" where
  "record_analysis_outcome db i outcome = db\<lparr>lk_archive := (lk_archive db)\<lparr>inbox :=
     update_where (\<lambda>r. in_consumer r = ANALYSIS_CONSUMER \<and> in_event r = i)
       (\<lambda>r. r\<lparr>in_outcome := if outcome = Linked then ''processed'' else ''skipped''\<rparr>) (inbox (lk_archive db))\<rparr>\<rparr>"

definition ingest_analysis_completed ::
  "env \<Rightarrow> 'v completion_codec \<Rightarrow> linkage \<Rightarrow> u8 list
     \<Rightarrow> linkage \<times> (AnalysisCompletionOutcome, AnalysisCompletionError) result" where
  "ingest_analysis_completed E K db envelope_json =
     (case cc_envelope K envelope_json of None \<Rightarrow> (db, Err InvalidEnvelope) | Some envelope \<Rightarrow>
     (case cc_event_id K envelope of None \<Rightarrow> (db, Err InvalidEventId) | Some event_id \<Rightarrow>
     (case cc_payload K envelope of None \<Rightarrow> (db, Err InvalidPayload) | Some completion \<Rightarrow>
     (case cc_rfc3339 K (ak_completed_at completion) of None \<Rightarrow> (db, Err InvalidTimestamp) | Some completed_at \<Rightarrow>
       if analysis_claimed (lk_archive db) event_id then (db, Ok DuplicateDelivery)
       else (case link_matching_capture E (claim_analysis db event_id) completion completed_at of
           Err e \<Rightarrow> (db, Err e)
         | Ok (db', outcome) \<Rightarrow> (record_analysis_outcome db' event_id outcome, Ok outcome))))))"

section \<open>Deliveries\<close>

text \<open>What a delivery may change: the inbox and the links.\<close>

definition outside_inbox :: "archive \<Rightarrow> archive" where
  "outside_inbox db = db\<lparr>inbox := []\<rparr>"

lemma outside_claim [simp]:
  "outside_inbox (lk_archive (claim_analysis db i)) = outside_inbox (lk_archive db)"
  "lk_links (claim_analysis db i) = lk_links db"
  "outside_inbox (lk_archive (record_analysis_outcome db i r)) = outside_inbox (lk_archive db)"
  "lk_links (record_analysis_outcome db i r) = lk_links db"
  by (simp_all add: outside_inbox_def claim_analysis_def record_analysis_outcome_def)

lemma outside_archive:
  "captures (db\<lparr>inbox := b\<rparr>) = captures db" "removals (db\<lparr>inbox := b\<rparr>) = removals db"
  "build_snapshot E (db\<lparr>inbox := b\<rparr>) i k = build_snapshot E db i k"
proof -
  have "capture_of (db\<lparr>inbox := b\<rparr>) = capture_of db" by (rule ext) (simp add: capture_of_def)
  moreover have "current_evidence (db\<lparr>inbox := b\<rparr>) = current_evidence db"
    by (rule ext) (simp add: current_evidence_def media_of_def [abs_def] revision_of_def [abs_def] raw_of_def [abs_def])
  ultimately show "build_snapshot E (db\<lparr>inbox := b\<rparr>) i k = build_snapshot E db i k"
    unfolding build_snapshot_def by (simp only:)
qed simp_all

lemma insert_link_archive [simp]: "lk_archive (insert_link db l) = lk_archive db"
  by (simp add: insert_link_def)

lemma link_matching_archive:
  "link_matching_capture E db completion t = Ok (db', outcome) \<Longrightarrow> lk_archive db' = lk_archive db"
  by (auto simp: link_matching_capture_def split: if_splits option.splits result.splits PublishError.splits)

lemma link_skipped:
  "link_matching_capture E db completion t = Ok (db', outcome) \<Longrightarrow> outcome \<noteq> Linked \<Longrightarrow> db' = db"
  by (auto simp: link_matching_capture_def split: if_splits option.splits result.splits PublishError.splits)

lemma link_made:
  assumes "link_matching_capture E db completion t = Ok (db', Linked)"
  obtains c where "c \<in> set (captures (lk_archive db))" "link_candidate E (ak_owner completion) (ak_source completion) c"
    "\<not> privacy_removed (lk_archive db) (ak_owner completion) (ak_source completion)"
    "ak_algorithm completion = Sha256Algorithm" "current_content_digest E (lk_archive db) (cap_id c) = Ok (ak_digest completion)"
    "db' = insert_link db \<lparr>ln_capture = cap_id c, ln_digest = ak_digest completion, ln_completed_at = t\<rparr>"
proof (cases "find (link_candidate E (ak_owner completion) (ak_source completion)) (captures (lk_archive db))")
  case None
  then show thesis using assms by (simp add: link_matching_capture_def split: if_splits)
next
  case (Some c)
  with find_Some_memD [OF Some] assms show thesis
    by (intro that [of c]) (auto simp: link_matching_capture_def split: if_splits result.splits PublishError.splits)
qed

lemma not_duplicate: "link_matching_capture E db completion t \<noteq> Ok (db', DuplicateDelivery)"
  by (auto simp: link_matching_capture_def split: if_splits option.splits result.splits PublishError.splits)

lemma claimed_recorded:
  "analysis_claimed (lk_archive (record_analysis_outcome db i outcome)) j = analysis_claimed (lk_archive db) j"
  "analysis_claimed (lk_archive (claim_analysis db i)) i"
proof -
  have "list_ex (\<lambda>r. in_consumer r = ANALYSIS_CONSUMER \<and> in_event r = j) (update_where P (\<lambda>r. r\<lparr>in_outcome := x\<rparr>) t)
      = list_ex (\<lambda>r. in_consumer r = ANALYSIS_CONSUMER \<and> in_event r = j) t"
    for P x and t :: "InboxRow list"
    by (induction t) auto
  then show "analysis_claimed (lk_archive (record_analysis_outcome db i outcome)) j = analysis_claimed (lk_archive db) j"
    by (simp add: analysis_claimed_def record_analysis_outcome_def)
  show "analysis_claimed (lk_archive (claim_analysis db i)) i" by (simp add: analysis_claimed_def claim_analysis_def)
qed

text \<open>The links are keyed by capture and revision and refer to captures.\<close>

definition links_inv :: "linkage \<Rightarrow> bool" where
  "links_inv db \<longleftrightarrow> distinct (map (\<lambda>l. (ln_capture l, ln_digest l)) (lk_links db))
     \<and> ln_capture ` set (lk_links db) \<subseteq> cap_id ` set (captures (lk_archive db))"

lemma insert_link_inv:
  assumes "links_inv db" "ln_capture l \<in> cap_id ` set (captures (lk_archive db))"
  shows "links_inv (insert_link db l)"
  using assms by (auto simp: links_inv_def insert_link_def list_ex_iff)

text \<open>
  C25. An analysis links only to the content it was run on: when a delivery links, the completion names a live
  resolved capture of its owner under the capture's source identity, the owner has not removed that source,
  the digest is the capture's current one, and the link for it is stored; a delivery with any other outcome
  leaves the links alone, and no delivery changes anything of the archive but the inbox.
\<close>
theorem analysis_links_current_content:
  assumes "ingest_analysis_completed E K db bytes = (db', r)"
  shows "lk_archive db' = (lk_archive db)\<lparr>inbox := inbox (lk_archive db')\<rparr>
    \<and> (r \<noteq> Ok Linked \<longrightarrow> lk_links db' = lk_links db)
    \<and> (r = Ok Linked \<longrightarrow> (\<exists>envelope completion c. cc_envelope K bytes = Some envelope \<and> cc_payload K envelope = Some completion
         \<and> c \<in> set (captures (lk_archive db)) \<and> link_candidate E (ak_owner completion) (ak_source completion) c
         \<and> \<not> privacy_removed (lk_archive db) (ak_owner completion) (ak_source completion)
         \<and> current_content_digest E (lk_archive db) (cap_id c) = Ok (ak_digest completion)
         \<and> (cap_id c, ak_digest completion) \<in> (\<lambda>l. (ln_capture l, ln_digest l)) ` set (lk_links db')))"
proof -
  consider (same) "db' = db" "r \<noteq> Ok Linked"
    | (handled) envelope completion i t db1 outcome where "cc_envelope K bytes = Some envelope" "cc_payload K envelope = Some completion"
      "link_matching_capture E (claim_analysis db i) completion t = Ok (db1, outcome)"
      "db' = record_analysis_outcome db1 i outcome" "r = Ok outcome"
    using assms by (auto simp: ingest_analysis_completed_def split: option.splits if_splits result.splits)
  then show ?thesis
  proof cases
    case (handled envelope completion i t db1 outcome)
    have arch: "lk_archive db1 = lk_archive (claim_analysis db i)" using link_matching_archive [OF handled(3)] .
    show ?thesis
    proof (cases "outcome = Linked")
      case True
      from handled(3) [unfolded True] obtain c where c: "c \<in> set (captures (lk_archive (claim_analysis db i)))"
        "link_candidate E (ak_owner completion) (ak_source completion) c"
        "\<not> privacy_removed (lk_archive (claim_analysis db i)) (ak_owner completion) (ak_source completion)"
        "ak_algorithm completion = Sha256Algorithm"
        "current_content_digest E (lk_archive (claim_analysis db i)) (cap_id c) = Ok (ak_digest completion)"
        "db1 = insert_link (claim_analysis db i) \<lparr>ln_capture = cap_id c, ln_digest = ak_digest completion, ln_completed_at = t\<rparr>"
        by (rule link_made)
      have "(cap_id c, ak_digest completion) \<in> (\<lambda>l. (ln_capture l, ln_digest l)) ` set (lk_links db1)"
        unfolding c(6) insert_link_def by (force simp: list_ex_iff)
      then have "(cap_id c, ak_digest completion) \<in> (\<lambda>l. (ln_capture l, ln_digest l)) ` set (lk_links db')"
        by (simp add: handled(4) record_analysis_outcome_def)
      moreover have "lk_archive db' = (lk_archive db)\<lparr>inbox := inbox (lk_archive db')\<rparr>"
        by (simp add: handled(4) record_analysis_outcome_def arch claim_analysis_def)
      moreover have "c \<in> set (captures (lk_archive db))"
        "\<not> privacy_removed (lk_archive db) (ak_owner completion) (ak_source completion)"
        "current_content_digest E (lk_archive db) (cap_id c) = Ok (ak_digest completion)"
        using c(1,3,5) by (simp_all add: claim_analysis_def privacy_removed_def current_content_digest_def outside_archive)
      ultimately show ?thesis using handled(1,2,5) c(2) True by blast
    next
      case False
      with link_skipped [OF handled(3)] handled(4,5) show ?thesis
        by (simp add: claim_analysis_def record_analysis_outcome_def)
    qed
  qed simp
qed

definition linked_env :: env where
  "linked_env = \<lparr>e_now_v7 = \<lambda>n. Uuid 7 (word_of_nat n), e_uuid_v5 = \<lambda>u b. u, e_sha256 = \<lambda>b. [],
     e_canonical_json = \<lambda>p. [], e_payload_title = \<lambda>b. None, e_json_object = \<lambda>b. False, e_report_ok = \<lambda>r. True,
     e_snapshot_ok = \<lambda>s. True, e_instant_ok = \<lambda>t. True\<rparr>"

definition linked_capture :: CaptureRow where
  "linked_capture = \<lparr>cap_id = Uuid 1 1, cap_user = Uuid 2 2, cap_media = Some (Uuid 3 3), cap_url = shared_reel,
     cap_acquisition = ''browser_extension'', cap_authority = [], cap_client = BrowserExtension, cap_status = Resolved,
     cap_note = None, cap_key = None, cap_captured_at = 0, cap_next = None, cap_attempts = 1\<rparr>"

definition linked_archive :: archive where
  "linked_archive = empty_archive\<lparr>captures := [linked_capture],
     media := [\<lparr>med_id = Uuid 3 3, med_permalink = shared_reel, med_type = ''reel'', med_caption = None,
       med_acquisition = [], med_authority = [], med_upstream = UpAvailable,
       med_revision = Some (Uuid 4 4), med_updated_at = 0, med_account = None, med_provider = None, med_blob = None\<rparr>],
     revisions := [\<lparr>rev_id = Uuid 4 4, rev_media = Uuid 3 3, rev_raw = Uuid 5 5, rev_parser = [], rev_at = 0\<rparr>],
     raws := [\<lparr>raw_id = Uuid 5 5, raw_kind = [], raw_blob_ref = [], raw_hash = [], raw_size = 0, raw_body = [], raw_at = 0\<rparr>]\<rparr>"

definition unit_codec :: "unit completion_codec" where
  "unit_codec = \<lparr>cc_envelope = \<lambda>_. Some (), cc_event_id = \<lambda>_. Some (Uuid 6 6), cc_payload = \<lambda>_. Some \<lparr>ak_owner = Uuid 2 2,
     ak_source = IDENTITY_NAMESPACE, ak_algorithm = Sha256Algorithm, ak_digest = [], ak_completed_at = []\<rparr>,
     cc_rfc3339 = \<lambda>_. Some 9\<rparr>"

lemma linked_digest: "current_content_digest linked_env (linked_archive\<lparr>inbox := b\<rparr>) (Uuid 1 1) = Ok []"
proof -
  have hex: "snapshot_content_digest linked_env s = []" for s
    by (simp add: snapshot_content_digest_def linked_env_def hex_encode_def)
  have ok: "e_snapshot_ok linked_env s" for s by (simp add: linked_env_def)
  show ?thesis
    by (simp add: current_content_digest_def outside_archive)
      (simp add: build_snapshot_def linked_archive_def linked_capture_def capture_of_def shared_reel_canonicalizes
        acquisition_from_token_def current_evidence_def media_of_def revision_of_def raw_of_def Let_def hex ok)
qed

lemma sample_delivery_links:
  "\<exists>db'. ingest_analysis_completed linked_env unit_codec \<lparr>lk_archive = linked_archive, lk_links = []\<rparr> [] = (db', Ok Linked)"
proof -
  have cand: "link_candidate linked_env (Uuid 2 2) IDENTITY_NAMESPACE linked_capture"
    by (simp add: link_candidate_def linked_capture_def source_identity_def linked_env_def)
  have rows: "captures (linked_archive\<lparr>inbox := b\<rparr>) = [linked_capture]" "removals (linked_archive\<lparr>inbox := b\<rparr>) = []"
    "inbox linked_archive = []" for b
    by (simp_all add: linked_archive_def empty_archive_def)
  have i: "cap_id linked_capture = Uuid 1 1" by (simp add: linked_capture_def)
  show ?thesis
    by (simp add: ingest_analysis_completed_def unit_codec_def analysis_claimed_def link_matching_capture_def claim_analysis_def
        privacy_removed_def rows cand i linked_digest)
qed

theorem analysis_links_current_content_witness:
  "\<exists>db'. ingest_analysis_completed linked_env unit_codec \<lparr>lk_archive = linked_archive, lk_links = []\<rparr> [] = (db', Ok Linked)
     \<and> lk_links db' \<noteq> []"
proof -
  from sample_delivery_links obtain db' where d: "ingest_analysis_completed linked_env unit_codec
      \<lparr>lk_archive = linked_archive, lk_links = []\<rparr> [] = (db', Ok Linked)" by blast
  from analysis_links_current_content [OF d] have "set (lk_links db') \<noteq> {}" by auto
  with d show ?thesis by auto
qed

text \<open>
  Deliveries are handled once: after a delivery was handled, whatever its outcome, the same bytes are a
  duplicate that changes nothing, also after other work on the archive, as long as its inbox rows stay; and
  deliveries keep the links keyed and referring to captures.
\<close>
theorem analysis_delivery_is_handled_once:
  assumes "ingest_analysis_completed E K db bytes = (db', Ok outcome)" "set (inbox (lk_archive db')) \<subseteq> set (inbox (lk_archive later))"
  shows "ingest_analysis_completed E K later bytes = (later, Ok DuplicateDelivery)
    \<and> (links_inv db \<longrightarrow> links_inv db')"
proof -
  from assms(1) obtain envelope i completion t where d: "cc_envelope K bytes = Some envelope" "cc_event_id K envelope = Some i"
    "cc_payload K envelope = Some completion" "cc_rfc3339 K (ak_completed_at completion) = Some t"
    and cases: "analysis_claimed (lk_archive db) i \<and> db' = db \<or>
      (\<exists>db1. link_matching_capture E (claim_analysis db i) completion t = Ok (db1, outcome)
        \<and> db' = record_analysis_outcome db1 i outcome)"
    by (auto simp: ingest_analysis_completed_def split: option.splits if_splits result.splits)
  have "analysis_claimed (lk_archive db') i"
    using cases link_matching_archive claimed_recorded by metis
  then have "analysis_claimed (lk_archive later) i"
    using assms(2) by (auto simp: analysis_claimed_def list_ex_iff)
  moreover have "links_inv db'" if inv: "links_inv db"
    using cases
  proof (elim disjE exE conjE)
    fix db1
    assume l: "link_matching_capture E (claim_analysis db i) completion t = Ok (db1, outcome)" "db' = record_analysis_outcome db1 i outcome"
    have inv1: "links_inv (claim_analysis db i)" using inv by (simp add: links_inv_def claim_analysis_def)
    have "links_inv db1"
    proof (cases "outcome = Linked")
      case True
      from l(1) [unfolded True] show ?thesis by (rule link_made) (auto intro!: insert_link_inv [OF inv1])
    qed (use link_skipped [OF l(1)] inv1 in simp)
    then show ?thesis by (simp add: l(2) links_inv_def record_analysis_outcome_def)
  qed (use inv in simp)
  ultimately show ?thesis by (simp add: ingest_analysis_completed_def d)
qed

theorem analysis_delivery_is_handled_once_witness:
  "\<exists>db'. ingest_analysis_completed linked_env unit_codec \<lparr>lk_archive = linked_archive, lk_links = []\<rparr> [] = (db', Ok Linked)
     \<and> ingest_analysis_completed linked_env unit_codec db' [] = (db', Ok DuplicateDelivery)"
proof -
  from sample_delivery_links obtain db' where d: "ingest_analysis_completed linked_env unit_codec
      \<lparr>lk_archive = linked_archive, lk_links = []\<rparr> [] = (db', Ok Linked)" by blast
  from analysis_delivery_is_handled_once [OF d subset_refl] d show ?thesis by blast
qed

end
