(* ===== verification/Credentials.thy ===== *)
theory Credentials
  imports Publishing Export_Archive
begin

text \<open>
  Model of \<^verbatim>\<open>credentials/crypto.rs\<close>: the versioned envelope that seals a provider secret under the
  current key and binds it to its subject and kind. AES-256-GCM belongs to the \<^verbatim>\<open>aes_gcm\<close> crate: its two
  directions are the record \<open>aead\<close>, and what the code relies on is stated by \<open>aead_opens\<close> (decryption
  inverts encryption, the tag is part of the ciphertext) and \<open>aead_authenticates\<close> (a ciphertext does not
  open under other associated data). That \<open>associated_data\<close> separates the bindings is proved of the code,
  \<open>associated_data_inject\<close>. The random nonce is an argument.
\<close>

section \<open>Data\<close>

definition KEY_LEN :: nat where "KEY_LEN = 32"
definition FORMAT_VERSION :: u8 where "FORMAT_VERSION = 1"
definition NONCE_LEN :: nat where "NONCE_LEN = 12"
definition TAG_LEN :: nat where "TAG_LEN = 16"
definition HEADER_LEN :: nat where "HEADER_LEN = 1 + 4 + NONCE_LEN"

definition CREDENTIAL_DOMAIN :: "u8 list" where
  "CREDENTIAL_DOMAIN = utf8 (ascii ''ratatoskr.instagram.credential.v1'') @ [0]"

datatype TokenKind = AccessToken | RefreshToken | PkceVerifier

record TokenBinding =
  subject_id :: uuid
  token_kind :: TokenKind

record CredentialKeyring =
  current_version :: u32
  keyring_keys :: "(u32 \<times> u8 list) list"

datatype CryptoError = UnknownKeyVersion | MalformedEnvelope | AuthenticationFailed | UnsupportedCrypto

text \<open>Key, nonce, associated data and input, in this order; \<open>None\<close> is the crate's opaque error.\<close>

record aead =
  aead_encrypt :: "u8 list \<Rightarrow> u8 list \<Rightarrow> u8 list \<Rightarrow> u8 list \<Rightarrow> u8 list option"
  aead_decrypt :: "u8 list \<Rightarrow> u8 list \<Rightarrow> u8 list \<Rightarrow> u8 list \<Rightarrow> u8 list option"

section \<open>Operations\<close>

definition keyring_new :: "u32 \<Rightarrow> (u32 \<times> u8 list) list \<Rightarrow> (CredentialKeyring, CryptoError) result" where
  "keyring_new version ks =
     (if version \<notin> fst ` set ks then Err UnknownKeyVersion
      else Ok \<lparr>current_version = version, keyring_keys = ks\<rparr>)"

fun token_kind_byte :: "TokenKind \<Rightarrow> u8" where
  "token_kind_byte AccessToken = 1"
| "token_kind_byte RefreshToken = 2"
| "token_kind_byte PkceVerifier = 3"

definition associated_data :: "TokenBinding \<Rightarrow> u8 list" where
  "associated_data binding =
     CREDENTIAL_DOMAIN @ uuid_bytes (subject_id binding) @ [token_kind_byte (token_kind binding)]"

text \<open>\<^verbatim>\<open>u32::to_be_bytes\<close> and \<^verbatim>\<open>u32::from_be_bytes\<close>.\<close>

definition to_be_bytes :: "u32 \<Rightarrow> u8 list" where
  "to_be_bytes v = be_bytes 4 (unat v)"

definition from_be_bytes :: "u8 list \<Rightarrow> u32" where
  "from_be_bytes bs = word_of_nat (foldl (\<lambda>n b. n * 256 + unat b) 0 bs)"

definition seal ::
  "aead \<Rightarrow> CredentialKeyring \<Rightarrow> u8 list \<Rightarrow> TokenBinding \<Rightarrow> rstr \<Rightarrow> (u8 list, CryptoError) result" where
  "seal A ring nonce binding plaintext =
     (case map_of (keyring_keys ring) (current_version ring) of
        None \<Rightarrow> Err UnknownKeyVersion
      | Some key \<Rightarrow> (case aead_encrypt A key nonce (associated_data binding) (utf8 plaintext) of
          None \<Rightarrow> Err AuthenticationFailed
        | Some ciphertext \<Rightarrow>
            Ok ([FORMAT_VERSION] @ to_be_bytes (current_version ring) @ nonce @ ciphertext)))"

definition open_envelope ::
  "aead \<Rightarrow> CredentialKeyring \<Rightarrow> TokenBinding \<Rightarrow> u8 list \<Rightarrow> (rstr, CryptoError) result" where
  "open_envelope A ring binding envelope =
     (if length envelope < HEADER_LEN + TAG_LEN then Err MalformedEnvelope
      else if hd envelope \<noteq> FORMAT_VERSION then Err MalformedEnvelope
      else
        let version_and_rest = tl envelope;
            version = from_be_bytes (take 4 version_and_rest);
            rest = drop 4 version_and_rest
        in (case map_of (keyring_keys ring) version of
              None \<Rightarrow> Err UnknownKeyVersion
            | Some key \<Rightarrow>
                (case aead_decrypt A key (take NONCE_LEN rest) (associated_data binding) (drop NONCE_LEN rest) of
                   None \<Rightarrow> Err AuthenticationFailed
                 | Some plaintext \<Rightarrow> ok_or MalformedEnvelope (from_utf8 plaintext))))"

section \<open>What the code relies on\<close>

definition aead_opens :: "aead \<Rightarrow> bool" where
  "aead_opens A \<longleftrightarrow> (\<forall>key nonce aad msg c. aead_encrypt A key nonce aad msg = Some c
     \<longrightarrow> TAG_LEN \<le> length c \<and> aead_decrypt A key nonce aad c = Some msg)"

definition aead_authenticates :: "aead \<Rightarrow> bool" where
  "aead_authenticates A \<longleftrightarrow> (\<forall>key nonce aad aad' msg c. aad \<noteq> aad'
     \<longrightarrow> aead_encrypt A key nonce aad msg = Some c \<longrightarrow> aead_decrypt A key nonce aad' c = None)"

section \<open>Lemmas\<close>

text \<open>A Rust \<^verbatim>\<open>char\<close>: a Unicode scalar value.\<close>

definition scalar_value :: "nat \<Rightarrow> bool" where
  "scalar_value c \<longleftrightarrow> c < 55296 \<or> 57344 \<le> c \<and> c < 1114112"

lemma continuation_byte: "n < 64 \<Longrightarrow> continuation (byte (128 + n)) \<and> unat (byte (128 + n)) = 128 + n"
  by (simp add: continuation_def unat_byte)

lemma from_utf8_2:
  assumes "2 \<le> x" "x < 32" "y < 64"
  shows "from_utf8 (byte (192 + x) # byte (128 + y) # bs) = map_option (Cons (x * 64 + y)) (from_utf8 bs)"
  using assms continuation_byte [of y] by (simp add: unat_byte)

lemma from_utf8_3:
  assumes "x < 16" "y < 64" "z < 64" "x = 0 \<longrightarrow> 32 \<le> y" "x = 13 \<longrightarrow> y < 32"
  shows "from_utf8 (byte (224 + x) # byte (128 + y) # byte (128 + z) # bs) =
    map_option (Cons (x * 4096 + y * 64 + z)) (from_utf8 bs)"
  using assms continuation_byte [of y] continuation_byte [of z] by (simp add: unat_byte)

lemma from_utf8_4:
  assumes "x < 5" "y < 64" "z < 64" "w < 64" "x = 0 \<longrightarrow> 16 \<le> y" "x = 4 \<longrightarrow> y < 16"
  shows "from_utf8 (byte (240 + x) # byte (128 + y) # byte (128 + z) # byte (128 + w) # bs) =
    map_option (Cons (x * 262144 + y * 4096 + z * 64 + w)) (from_utf8 bs)"
  using assms continuation_byte [of y] continuation_byte [of z] continuation_byte [of w] by (simp add: unat_byte)

lemma digit_div:
  fixes c :: nat
  shows "c div 4096 = c div 64 div 64" "c div 262144 = c div 64 div 64 div 64"
  by (simp_all add: div_mult2_eq [symmetric])

lemma base64_digits:
  fixes c :: nat
  shows "c div 64 * 64 + c mod 64 = c"
    and "c div 4096 * 4096 + c div 64 mod 64 * 64 + c mod 64 = c"
    and "c div 262144 * 262144 + c div 4096 mod 64 * 4096 + c div 64 mod 64 * 64 + c mod 64 = c"
proof -
  have d: "n = n div 64 * 64 + n mod 64" for n :: nat by simp
  show "c div 64 * 64 + c mod 64 = c" by simp
  show two: "c div 4096 * 4096 + c div 64 mod 64 * 64 + c mod 64 = c"
    using d [of c] d [of "c div 64"] unfolding digit_div by linarith
  show "c div 262144 * 262144 + c div 4096 mod 64 * 4096 + c div 64 mod 64 * 64 + c mod 64 = c"
    using d [of c] d [of "c div 64"] d [of "c div 64 div 64"] unfolding digit_div by linarith
qed

lemma leading_digit:
  fixes c :: nat
  shows "2048 \<le> c \<Longrightarrow> c div 4096 = 0 \<Longrightarrow> 32 \<le> c div 64 mod 64"
    and "c < 55296 \<or> 57344 \<le> c \<Longrightarrow> c div 4096 = 13 \<Longrightarrow> c div 64 mod 64 < 32"
    and "65536 \<le> c \<Longrightarrow> c div 262144 = 0 \<Longrightarrow> 16 \<le> c div 4096 mod 64"
    and "c < 1114112 \<Longrightarrow> c div 262144 = 4 \<Longrightarrow> c div 4096 mod 64 < 16"
proof -
  have r: "n mod 64 < 64" for n :: nat by simp
  note b = base64_digits [of c]
  show "2048 \<le> c \<Longrightarrow> c div 4096 = 0 \<Longrightarrow> 32 \<le> c div 64 mod 64"
    using b(2) r [of c] by simp
  show "c < 55296 \<or> 57344 \<le> c \<Longrightarrow> c div 4096 = 13 \<Longrightarrow> c div 64 mod 64 < 32"
    using b(2) r [of c] r [of "c div 64"] by (elim disjE) linarith+
  show "65536 \<le> c \<Longrightarrow> c div 262144 = 0 \<Longrightarrow> 16 \<le> c div 4096 mod 64"
    using b(3) r [of c] r [of "c div 64"] by simp
  show "c < 1114112 \<Longrightarrow> c div 262144 = 4 \<Longrightarrow> c div 4096 mod 64 < 16"
    using b(3) r [of c] r [of "c div 64"] by simp
qed

lemma from_utf8_encoded_char:
  assumes "scalar_value c"
  shows "from_utf8 (utf8_char c @ bs) = map_option (Cons c) (from_utf8 bs)"
proof -
  consider "c < 128" | "128 \<le> c" "c < 2048" | "2048 \<le> c" "c < 65536" | "65536 \<le> c" by linarith
  then show ?thesis
  proof cases
    case 1
    then show ?thesis by (simp add: utf8_char_def unat_byte)
  next
    case 2
    then have "2 \<le> c div 64" "c div 64 < 32" by auto
    from from_utf8_2 [OF this, of "c mod 64" bs] 2 base64_digits(1) [of c] show ?thesis
      by (simp add: utf8_char_def del: from_utf8.simps)
  next
    case 3
    have "c div 4096 < 16" using 3 by auto
    moreover have "c div 4096 = 0 \<longrightarrow> 32 \<le> c div 64 mod 64" using leading_digit(1) 3 by blast
    moreover have "c div 4096 = 13 \<longrightarrow> c div 64 mod 64 < 32"
      using leading_digit(2) assms unfolding scalar_value_def by blast
    ultimately show ?thesis
      using from_utf8_3 [of "c div 4096" "c div 64 mod 64" "c mod 64" bs] 3 base64_digits(2) [of c]
      by (simp add: utf8_char_def del: from_utf8.simps)
  next
    case 4
    have c: "c < 1114112" using assms 4 by (auto simp: scalar_value_def)
    then have "c div 262144 < 5" by auto
    moreover have "c div 262144 = 0 \<longrightarrow> 16 \<le> c div 4096 mod 64" using leading_digit(3) 4 by blast
    moreover have "c div 262144 = 4 \<longrightarrow> c div 4096 mod 64 < 16" using leading_digit(4) c by blast
    ultimately show ?thesis
      using from_utf8_4 [of "c div 262144" "c div 4096 mod 64" "c div 64 mod 64" "c mod 64" bs] 4
        base64_digits(3) [of c]
      by (simp add: utf8_char_def del: from_utf8.simps)
  qed
qed

lemma from_utf8_utf8: "list_all scalar_value s \<Longrightarrow> from_utf8 (utf8 s) = Some s"
  by (induction s) (simp_all add: utf8_def from_utf8_encoded_char)

lemma foldl_be_bytes: "n < 256 ^ k \<Longrightarrow> foldl (\<lambda>n b. n * 256 + unat b) 0 (be_bytes k n) = n"
proof (induction k arbitrary: n)
  case (Suc k)
  from Suc.prems have "n div 256 < 256 ^ k" by (simp add: less_mult_imp_div_less mult.commute)
  with Suc.IH show ?case by (simp add: unat_byte)
qed simp

lemma from_to_be_bytes: "from_be_bytes (to_be_bytes v) = v"
proof -
  have "unat v < 256 ^ 4" using unsigned_less [of v] by simp
  then show ?thesis by (simp add: from_be_bytes_def to_be_bytes_def foldl_be_bytes)
qed

lemma length_to_be_bytes [simp]: "length (to_be_bytes v) = 4"
  by (simp add: to_be_bytes_def)

lemma associated_data_inject: "associated_data b = associated_data b' \<longleftrightarrow> b = b'"
proof
  assume "associated_data b = associated_data b'"
  then have "subject_id b = subject_id b'" "token_kind b = token_kind b'"
    by (auto simp: associated_data_def uuid_bytes_inject)
      (cases "token_kind b"; cases "token_kind b'"; simp)
  then show "b = b'" by simp
qed simp

text \<open>Opening what was sealed under a version the keyring holds is decryption under that version's key.\<close>

lemma open_sealed:
  assumes "seal A ring nonce b s = Ok e" "length nonce = NONCE_LEN" "aead_opens A"
  shows "\<exists>key c. map_of (keyring_keys ring) (current_version ring) = Some key
    \<and> aead_encrypt A key nonce (associated_data b) (utf8 s) = Some c
    \<and> open_envelope A ring' b' e = (case map_of (keyring_keys ring') (current_version ring) of
        None \<Rightarrow> Err UnknownKeyVersion
      | Some key' \<Rightarrow> (case aead_decrypt A key' nonce (associated_data b') c of
          None \<Rightarrow> Err AuthenticationFailed | Some p \<Rightarrow> ok_or MalformedEnvelope (from_utf8 p)))"
proof -
  from assms(1) obtain key c where k: "map_of (keyring_keys ring) (current_version ring) = Some key"
    "aead_encrypt A key nonce (associated_data b) (utf8 s) = Some c"
    "e = FORMAT_VERSION # to_be_bytes (current_version ring) @ nonce @ c"
    by (auto simp: seal_def split: option.splits)
  from k(2) assms(3) have "TAG_LEN \<le> length c" unfolding aead_opens_def by blast
  then have "\<not> length e < HEADER_LEN + TAG_LEN" by (simp add: k(3) HEADER_LEN_def assms(2))
  then have "open_envelope A ring' b' e = (case map_of (keyring_keys ring') (current_version ring) of
        None \<Rightarrow> Err UnknownKeyVersion
      | Some key' \<Rightarrow> (case aead_decrypt A key' nonce (associated_data b') c of
          None \<Rightarrow> Err AuthenticationFailed | Some p \<Rightarrow> ok_or MalformedEnvelope (from_utf8 p)))"
    using assms(2) by (simp add: open_envelope_def k(3) Let_def from_to_be_bytes cong: option.case_cong)
  with k show ?thesis by blast
qed

section \<open>Properties\<close>

text \<open>
  C11. A sealed secret opens exactly for its binding: under every keyring that still holds the key of the
  version it was sealed under, so also after a rotation, the envelope opens to the secret for the
  subject and kind it was sealed for and is refused as unauthentic for every other subject or kind; a
  keyring without that version refuses it by name.
\<close>
theorem sealed_secret_opens_for_its_binding:
  assumes "aead_opens A" "aead_authenticates A" "seal A ring nonce b s = Ok e"
    and "length nonce = NONCE_LEN" "list_all scalar_value s"
  shows "(\<forall>ring'. map_of (keyring_keys ring') (current_version ring) = map_of (keyring_keys ring) (current_version ring)
        \<longrightarrow> open_envelope A ring' b e = Ok s
          \<and> (\<forall>b'. b' \<noteq> b \<longrightarrow> open_envelope A ring' b' e = Err AuthenticationFailed))
    \<and> (\<forall>ring' b'. map_of (keyring_keys ring') (current_version ring) = None
        \<longrightarrow> open_envelope A ring' b' e = Err UnknownKeyVersion)"
proof -
  note op = open_sealed [OF assms(3,4,1)]
  have "open_envelope A ring' b e = Ok s"
    if "map_of (keyring_keys ring') (current_version ring) = map_of (keyring_keys ring) (current_version ring)" for ring'
    using op [of ring' b] that assms(1) unfolding aead_opens_def
    by (force simp: from_utf8_utf8 assms(5))
  moreover have "open_envelope A ring' b' e = Err AuthenticationFailed"
    if "map_of (keyring_keys ring') (current_version ring) = map_of (keyring_keys ring) (current_version ring)"
      "b' \<noteq> b" for ring' b'
    using op [of ring' b'] that assms(2) associated_data_inject [of b b'] unfolding aead_authenticates_def
    by (metis option.simps(4,5))
  moreover have "open_envelope A ring' b' e = Err UnknownKeyVersion"
    if "map_of (keyring_keys ring') (current_version ring) = None" for ring' b'
    using op [of ring' b'] that by auto
  ultimately show ?thesis by blast
qed

text \<open>
  A scheme with both laws: the associated data travels in the ciphertext, framed so that it can be told
  from the message behind it, and is compared.
\<close>

fun framed :: "u8 list \<Rightarrow> u8 list" where
  "framed [] = [0]"
| "framed (b # bs) = 1 # b # framed bs"

lemma framed_append_eq: "framed aad @ m = framed aad' @ m' \<longleftrightarrow> aad = aad' \<and> m = m'"
proof (induction aad arbitrary: aad')
  case Nil
  then show ?case by (cases aad') auto
next
  case (Cons b bs)
  then show ?case by (cases aad') auto
qed

definition plain_aead :: aead where
  "plain_aead = \<lparr>aead_encrypt = \<lambda>key nonce aad msg. Some (replicate 16 0 @ framed aad @ msg),
     aead_decrypt = \<lambda>key nonce aad c.
       (let body = drop 16 c; n = length (framed aad)
        in if take n body = framed aad then Some (drop n body) else None)\<rparr>"

lemma plain_aead_laws: "aead_opens plain_aead" "aead_authenticates plain_aead"
proof -
  show "aead_opens plain_aead" by (auto simp: aead_opens_def plain_aead_def TAG_LEN_def)
  have "take (length (framed aad')) (framed aad @ msg) \<noteq> framed aad'" if "aad \<noteq> aad'" for aad aad' msg
    using that framed_append_eq [of aad msg aad'] by (metis append_take_drop_id)
  then show "aead_authenticates plain_aead"
    unfolding aead_authenticates_def plain_aead_def by (auto simp: Let_def)
qed

theorem sealed_secret_opens_for_its_binding_witness:
  "open_envelope plain_aead \<lparr>current_version = 8, keyring_keys = [(8, [9]), (7, [1])]\<rparr>
      \<lparr>subject_id = Uuid 1 2, token_kind = AccessToken\<rparr>
      (FORMAT_VERSION # to_be_bytes 7 @ replicate 12 5 @ replicate 16 0
        @ framed (associated_data \<lparr>subject_id = Uuid 1 2, token_kind = AccessToken\<rparr>) @ utf8 [233])
    = Ok [233]
  \<and> open_envelope plain_aead \<lparr>current_version = 8, keyring_keys = [(8, [9]), (7, [1])]\<rparr>
      \<lparr>subject_id = Uuid 1 2, token_kind = RefreshToken\<rparr>
      (FORMAT_VERSION # to_be_bytes 7 @ replicate 12 5 @ replicate 16 0
        @ framed (associated_data \<lparr>subject_id = Uuid 1 2, token_kind = AccessToken\<rparr>) @ utf8 [233])
    = Err AuthenticationFailed"
proof -
  let ?b = "\<lparr>subject_id = Uuid 1 2, token_kind = AccessToken\<rparr>"
  let ?ring = "\<lparr>current_version = 7, keyring_keys = [(7, [1])]\<rparr>"
  have "seal plain_aead ?ring (replicate 12 5) ?b [233] =
      Ok (FORMAT_VERSION # to_be_bytes 7 @ replicate 12 5 @ replicate 16 0 @ framed (associated_data ?b) @ utf8 [233])"
    by (simp add: seal_def plain_aead_def)
  from sealed_secret_opens_for_its_binding [OF plain_aead_laws this] show ?thesis
    by (simp add: NONCE_LEN_def scalar_value_def)
qed

end
