(* ===== verification/Account_Capability.thy ===== *)
theory Account_Capability
  imports Prelude "HOL-Library.List_Lexorder" "HOL-Library.Char_ord"
begin

text \<open>
  Model of \<^verbatim>\<open>crates/instagram-archive/src/capability_reconciliation.rs\<close>: one complete provider
  observation of an official account is reconciled into the six closed capability rows, which
  replace the account's previous generation. The permission map is an association list with
  distinct names; the identifiers the code draws from \<^verbatim>\<open>Uuid::now_v7\<close> are arguments.
\<close>

section \<open>Vocabulary\<close>

datatype AccountType = Business | Creator | Personal | UnknownAccountType

fun is_professional :: "AccountType \<Rightarrow> bool" where
  "is_professional Business = True"
| "is_professional Creator = True"
| "is_professional _ = False"

fun account_type_wire :: "AccountType \<Rightarrow> string" where
  "account_type_wire Business = ''business''"
| "account_type_wire Creator = ''creator''"
| "account_type_wire Personal = ''personal''"
| "account_type_wire UnknownAccountType = ''unknown''"

datatype PermissionStatus = Granted | Declined | Expired | Absent | UnknownStatus

fun permission_status_wire :: "PermissionStatus \<Rightarrow> string" where
  "permission_status_wire Granted = ''granted''"
| "permission_status_wire Declined = ''declined''"
| "permission_status_wire Expired = ''expired''"
| "permission_status_wire Absent = ''absent''"
| "permission_status_wire UnknownStatus = ''unknown''"

record AccountObservation =
  provider_account_id :: rstr
  account_type :: AccountType
  permissions :: "(string \<times> PermissionStatus) list"
  external_write_consent :: bool
  ao_observed_at :: instant
  ao_raw_record_id :: uuid

datatype AccountCapability =
  AccountIdentityRead | OwnMediaRead | ContentPublish | CommentManagement | MessageManagement
| NativeSavedRead

definition AccountCapability_ALL :: "AccountCapability list" where
  "AccountCapability_ALL = [AccountIdentityRead, OwnMediaRead, ContentPublish, CommentManagement,
     MessageManagement, NativeSavedRead]"

fun capability_wire :: "AccountCapability \<Rightarrow> string" where
  "capability_wire AccountIdentityRead = ''account_identity_read''"
| "capability_wire OwnMediaRead = ''own_media_read''"
| "capability_wire ContentPublish = ''content_publish''"
| "capability_wire CommentManagement = ''comment_management''"
| "capability_wire MessageManagement = ''message_management''"
| "capability_wire NativeSavedRead = ''native_saved_read''"

datatype CapabilityState = CapAvailable | CapUnavailable | CapNotSupported

fun state_wire_value :: "CapabilityState \<Rightarrow> string" where
  "state_wire_value CapAvailable = ''available''"
| "state_wire_value CapUnavailable = ''unavailable''"
| "state_wire_value CapNotSupported = ''not_supported''"

datatype CapabilityReason =
  ReasonGranted | AccountTypeUnsupported | PermissionDeclined | PermissionExpired | PermissionAbsent
| PermissionUnknown | MissingPermission | WriteConsentRequired | ProviderNotSupported | Revoked
| ReauthorizationRequired

fun reason_wire_value :: "CapabilityReason \<Rightarrow> string" where
  "reason_wire_value ReasonGranted = ''granted''"
| "reason_wire_value AccountTypeUnsupported = ''account_type_unsupported''"
| "reason_wire_value PermissionDeclined = ''permission_declined''"
| "reason_wire_value PermissionExpired = ''permission_expired''"
| "reason_wire_value PermissionAbsent = ''permission_absent''"
| "reason_wire_value PermissionUnknown = ''permission_unknown''"
| "reason_wire_value MissingPermission = ''missing_permission''"
| "reason_wire_value WriteConsentRequired = ''write_consent_required''"
| "reason_wire_value ProviderNotSupported = ''provider_not_supported''"
| "reason_wire_value Revoked = ''revoked''"
| "reason_wire_value ReauthorizationRequired = ''reauthorization_required''"

definition parse_capability :: "string \<Rightarrow> AccountCapability option" where
  "parse_capability value =
     (if value = ''account_identity_read'' then Some AccountIdentityRead
      else if value = ''own_media_read'' then Some OwnMediaRead
      else if value = ''content_publish'' then Some ContentPublish
      else if value = ''comment_management'' then Some CommentManagement
      else if value = ''message_management'' then Some MessageManagement
      else if value = ''native_saved_read'' then Some NativeSavedRead
      else None)"

definition parse_state :: "string \<Rightarrow> CapabilityState option" where
  "parse_state value =
     (if value = ''available'' then Some CapAvailable
      else if value = ''unavailable'' then Some CapUnavailable
      else if value = ''not_supported'' then Some CapNotSupported
      else None)"

definition parse_reason :: "string \<Rightarrow> CapabilityReason option" where
  "parse_reason value =
     (if value = ''granted'' then Some ReasonGranted
      else if value = ''account_type_unsupported'' then Some AccountTypeUnsupported
      else if value = ''permission_declined'' then Some PermissionDeclined
      else if value = ''permission_expired'' then Some PermissionExpired
      else if value = ''permission_absent'' then Some PermissionAbsent
      else if value = ''permission_unknown'' then Some PermissionUnknown
      else if value = ''missing_permission'' then Some MissingPermission
      else if value = ''write_consent_required'' then Some WriteConsentRequired
      else if value = ''provider_not_supported'' then Some ProviderNotSupported
      else if value = ''revoked'' then Some Revoked
      else if value = ''reauthorization_required'' then Some ReauthorizationRequired
      else None)"

record ReconciledCapability =
  rc_capability :: AccountCapability
  rc_state :: CapabilityState
  rc_reason :: CapabilityReason

section \<open>Reconciliation\<close>

definition permission_status :: "AccountObservation \<Rightarrow> string \<Rightarrow> PermissionStatus" where
  "permission_status obs name =
     (case map_of (permissions obs) name of None \<Rightarrow> Absent | Some s \<Rightarrow> s)"

fun permission_reason :: "PermissionStatus \<Rightarrow> bool \<Rightarrow> CapabilityReason" where
  "permission_reason Granted _ = ReasonGranted"
| "permission_reason Declined _ = PermissionDeclined"
| "permission_reason Expired _ = PermissionExpired"
| "permission_reason Absent write_permission =
     (if write_permission then MissingPermission else PermissionAbsent)"
| "permission_reason UnknownStatus _ = PermissionUnknown"

definition row :: "AccountCapability \<Rightarrow> CapabilityState \<Rightarrow> CapabilityReason \<Rightarrow> ReconciledCapability" where
  "row c s r = \<lparr>rc_capability = c, rc_state = s, rc_reason = r\<rparr>"

text \<open>The write permission a capability needs; \<open>None\<close> for the two read capabilities.\<close>

fun write_permission_of :: "AccountCapability \<Rightarrow> string option" where
  "write_permission_of ContentPublish = Some ''instagram_business_content_publish''"
| "write_permission_of CommentManagement = Some ''instagram_business_manage_comments''"
| "write_permission_of MessageManagement = Some ''instagram_business_manage_messages''"
| "write_permission_of _ = None"

definition reconcile_one :: "AccountObservation \<Rightarrow> AccountCapability \<Rightarrow> ReconciledCapability" where
  "reconcile_one obs c =
     (if c = NativeSavedRead then row c CapNotSupported ProviderNotSupported
      else if \<not> is_professional (account_type obs) then row c CapUnavailable AccountTypeUnsupported
      else let basic = permission_status obs ''instagram_business_basic''
      in if basic \<noteq> Granted then row c CapUnavailable (permission_reason basic False)
      else (case write_permission_of c of
          None \<Rightarrow> row c CapAvailable ReasonGranted
        | Some write_permission \<Rightarrow>
            let status = permission_status obs write_permission
            in if status \<noteq> Granted then row c CapUnavailable (permission_reason status True)
            else if \<not> external_write_consent obs then row c CapUnavailable WriteConsentRequired
            else row c CapAvailable ReasonGranted))"

definition reconcile :: "AccountObservation \<Rightarrow> ReconciledCapability list" where
  "reconcile obs = map (reconcile_one obs) AccountCapability_ALL"

section \<open>Persistence of a generation\<close>

record PermissionObservationRow =
  po_observation_id :: uuid
  po_account_id :: uuid
  po_generation_id :: uuid
  po_name :: string
  po_status :: string

record AccountCapabilityRow =
  ac_account_id :: uuid
  ac_generation_id :: uuid
  ac_capability :: string
  ac_state :: string
  ac_reason :: string
  ac_observed_at :: instant

datatype ConnectionStatus = Connected | NeedsReauthorization | Revoking | RevokedConnection

record AccountRow =
  acc_account_id :: uuid
  acc_user :: uuid
  acc_provider_id :: rstr
  acc_username :: rstr
  acc_account_type :: string
  acc_status :: ConnectionStatus
  acc_scopes :: "string list"
  acc_connected_at :: instant
  acc_updated_at :: instant

record AccountTables =
  permission_observations :: "PermissionObservationRow list"
  account_capabilities :: "AccountCapabilityRow list"
  accounts :: "AccountRow list"

definition REQUIRED_PERMISSIONS :: "string list" where
  "REQUIRED_PERMISSIONS = [''instagram_business_basic'', ''instagram_business_content_publish'',
     ''instagram_business_manage_comments'', ''instagram_business_manage_messages'']"

definition permission_names :: "AccountObservation \<Rightarrow> string list" where
  "permission_names obs = sort (remdups (map fst (permissions obs) @ REQUIRED_PERMISSIONS))"

definition capability_row ::
  "uuid \<Rightarrow> uuid \<Rightarrow> AccountObservation \<Rightarrow> ReconciledCapability \<Rightarrow> AccountCapabilityRow" where
  "capability_row account_id generation_id obs r =
     \<lparr>ac_account_id = account_id, ac_generation_id = generation_id,
      ac_capability = capability_wire (rc_capability r), ac_state = state_wire_value (rc_state r),
      ac_reason = reason_wire_value (rc_reason r), ac_observed_at = ao_observed_at obs\<rparr>"

definition reconcile_account_capabilities ::
  "(string \<Rightarrow> uuid) \<Rightarrow> uuid \<Rightarrow> instant \<Rightarrow> 'a AccountTables_scheme \<Rightarrow> uuid \<Rightarrow> AccountObservation
     \<Rightarrow> 'a AccountTables_scheme" where
  "reconcile_account_capabilities observation_id generation_id now db account_id obs =
     db\<lparr>permission_observations :=
          filter (\<lambda>r. po_account_id r \<noteq> account_id) (permission_observations db)
          @ map (\<lambda>name. \<lparr>po_observation_id = observation_id name, po_account_id = account_id,
                  po_generation_id = generation_id, po_name = name,
                  po_status = permission_status_wire (permission_status obs name)\<rparr>)
                (permission_names obs),
        account_capabilities :=
          filter (\<lambda>r. ac_account_id r \<noteq> account_id) (account_capabilities db)
          @ map (capability_row account_id generation_id obs) (reconcile obs),
        accounts :=
          update_where (\<lambda>r. acc_account_id r = account_id)
            (\<lambda>r. r\<lparr>acc_account_type := account_type_wire (account_type obs),
                   acc_scopes := map fst (filter (\<lambda>p. snd p = Granted) (permissions obs)),
                   acc_updated_at := now\<rparr>)
            (accounts db)\<rparr>"

datatype CapabilityPersistenceError = MalformedRecord

record StoredAccountCapability =
  generation_id :: uuid
  reconciled :: ReconciledCapability

definition decode_row ::
  "AccountCapabilityRow \<Rightarrow> (StoredAccountCapability, CapabilityPersistenceError) result" where
  "decode_row r =
     (case parse_capability (ac_capability r) of
        None \<Rightarrow> Err MalformedRecord
      | Some c \<Rightarrow> (case parse_state (ac_state r) of
          None \<Rightarrow> Err MalformedRecord
        | Some s \<Rightarrow> (case parse_reason (ac_reason r) of
            None \<Rightarrow> Err MalformedRecord
          | Some e \<Rightarrow> Ok \<lparr>generation_id = ac_generation_id r, reconciled = row c s e\<rparr>)))"

text \<open>\<^verbatim>\<open>collect\<close> into a \<^verbatim>\<open>Result\<close>: the first failing row wins.\<close>

fun collect_results :: "('a, 'e) result list \<Rightarrow> ('a list, 'e) result" where
  "collect_results [] = Ok []"
| "collect_results (Err e # rs) = Err e"
| "collect_results (Ok a # rs) = (case collect_results rs of Err e \<Rightarrow> Err e | Ok as \<Rightarrow> Ok (a # as))"

definition load_account_capabilities ::
  "'a AccountTables_scheme \<Rightarrow> uuid \<Rightarrow> (StoredAccountCapability list, CapabilityPersistenceError) result" where
  "load_account_capabilities db account_id =
     collect_results (map decode_row
       (sort_key ac_capability (filter (\<lambda>r. ac_account_id r = account_id) (account_capabilities db))))"

section \<open>Codecs\<close>

interpretation capability_codec: wire_codec capability_wire parse_capability
proof
  show "parse_capability (capability_wire a) = Some a" for a
    by (cases a) (simp_all add: parse_capability_def)
  show "capability_wire a = s" if "parse_capability s = Some a" for s a
    using that by (auto simp: parse_capability_def split: if_splits)
qed

interpretation state_codec: wire_codec state_wire_value parse_state
proof
  show "parse_state (state_wire_value a) = Some a" for a
    by (cases a) (simp_all add: parse_state_def)
  show "state_wire_value a = s" if "parse_state s = Some a" for s a
    using that by (auto simp: parse_state_def split: if_splits)
qed

interpretation reason_codec: wire_codec reason_wire_value parse_reason
proof
  show "parse_reason (reason_wire_value a) = Some a" for a
    by (cases a) (simp_all add: parse_reason_def)
  show "reason_wire_value a = s" if "parse_reason s = Some a" for s a
    using that by (auto simp: parse_reason_def split: if_splits)
qed

section \<open>Lemmas\<close>

lemma rc_capability_reconcile_one [simp]: "rc_capability (reconcile_one obs c) = c"
  by (simp add: reconcile_one_def row_def Let_def split: option.splits)

lemma decode_capability_row:
  "decode_row (capability_row a g obs r) = Ok \<lparr>generation_id = g, reconciled = r\<rparr>"
  by (simp add: decode_row_def capability_row_def capability_codec.parse_wire
      state_codec.parse_wire reason_codec.parse_wire row_def)

lemma collect_results_map_Ok: "(\<And>x. x \<in> set xs \<Longrightarrow> f x = Ok (g x)) \<Longrightarrow> collect_results (map f xs) = Ok (map g xs)"
  by (induction xs) auto

lemma stored_capabilities_of_account:
  "filter (\<lambda>r. ac_account_id r = a) (account_capabilities (reconcile_account_capabilities ids g now db a obs)) =
     map (capability_row a g obs) (reconcile obs)"
  by (simp add: reconcile_account_capabilities_def filter_map comp_def capability_row_def)

lemma reconcile_one_available_iff:
  "rc_state (reconcile_one obs c) = CapAvailable \<longleftrightarrow>
     c \<noteq> NativeSavedRead \<and> is_professional (account_type obs)
     \<and> permission_status obs ''instagram_business_basic'' = Granted
     \<and> (case write_permission_of c of None \<Rightarrow> True
        | Some w \<Rightarrow> permission_status obs w = Granted \<and> external_write_consent obs)"
  by (auto simp: reconcile_one_def row_def Let_def split: option.splits)

section \<open>Properties\<close>

text \<open>
  Reconciliation never grants more than the evidence: a capability is available exactly when
  it is not the native Saved list, the account is professional, the basic permission is granted
  and, for a write capability, its own permission is granted and the separate write consent was
  given. The native Saved list is never available.
\<close>

theorem capability_available_iff_evidence:
  "r \<in> set (reconcile obs) \<and> rc_state r = CapAvailable \<longleftrightarrow>
     (\<exists>c. r = row c CapAvailable ReasonGranted \<and> c \<noteq> NativeSavedRead
        \<and> is_professional (account_type obs)
        \<and> permission_status obs ''instagram_business_basic'' = Granted
        \<and> (write_permission_of c = None
           \<or> (\<exists>w. write_permission_of c = Some w \<and> permission_status obs w = Granted)
             \<and> external_write_consent obs))"
proof -
  have all: "c \<in> set AccountCapability_ALL" for c
    by (cases c) (simp_all add: AccountCapability_ALL_def)
  have avail: "reconcile_one obs c = row c CapAvailable ReasonGranted \<longleftrightarrow>
      rc_state (reconcile_one obs c) = CapAvailable" for c
    by (auto simp: reconcile_one_def row_def Let_def split: option.splits)
  have write_case: "(case write_permission_of c of None \<Rightarrow> True
      | Some w \<Rightarrow> permission_status obs w = Granted \<and> external_write_consent obs) \<longleftrightarrow>
      (write_permission_of c = None \<or> (\<exists>w. write_permission_of c = Some w
        \<and> permission_status obs w = Granted) \<and> external_write_consent obs)" for c
    by (cases "write_permission_of c") simp_all
  have "r \<in> set (reconcile obs) \<and> rc_state r = CapAvailable \<longleftrightarrow>
      (\<exists>c. r = reconcile_one obs c \<and> rc_state (reconcile_one obs c) = CapAvailable)"
    using all by (auto simp: reconcile_def)
  also have "\<dots> \<longleftrightarrow> (\<exists>c. r = row c CapAvailable ReasonGranted
      \<and> rc_state (reconcile_one obs c) = CapAvailable)"
    using avail by metis
  also have "\<dots> \<longleftrightarrow> (\<exists>c. r = row c CapAvailable ReasonGranted \<and> c \<noteq> NativeSavedRead
      \<and> is_professional (account_type obs)
      \<and> permission_status obs ''instagram_business_basic'' = Granted
      \<and> (write_permission_of c = None
         \<or> (\<exists>w. write_permission_of c = Some w \<and> permission_status obs w = Granted)
           \<and> external_write_consent obs))"
    unfolding reconcile_one_available_iff write_case by (rule refl)
  finally show ?thesis .
qed

text \<open>
  A stored generation reads back whole: after one reconciliation the account's capability
  matrix loads without a decoding failure and is, up to the order of the rows, exactly the six
  reconciled capabilities of that observation, each once, all of the new generation, while every
  other account still loads exactly what it loaded before.
\<close>

theorem reconciled_generation_reads_back:
  "(\<exists>rows. load_account_capabilities (reconcile_account_capabilities ids g now db a obs) a = Ok rows
      \<and> mset rows = mset (map (\<lambda>r. \<lparr>generation_id = g, reconciled = r\<rparr>) (reconcile obs))
      \<and> mset (map (\<lambda>s. rc_capability (reconciled s)) rows) = mset AccountCapability_ALL)
   \<and> (b = a \<or> load_account_capabilities (reconcile_account_capabilities ids g now db a obs) b =
     load_account_capabilities db b)"
proof
  let ?db = "reconcile_account_capabilities ids g now db a obs"
  let ?sorted = "sort_key ac_capability (map (capability_row a g obs) (reconcile obs))"
  let ?rows = "map (\<lambda>r. \<lparr>generation_id = g, reconciled = r\<rparr>)
    (map (\<lambda>r. reconciled (case decode_row r of Ok s \<Rightarrow> s)) ?sorted)"
  have dec: "decode_row r = Ok \<lparr>generation_id = g, reconciled = reconciled (case decode_row r of Ok s \<Rightarrow> s)\<rparr>"
    if "r \<in> set ?sorted" for r
    using that by (auto simp: decode_capability_row)
  have load: "load_account_capabilities ?db a = Ok ?rows"
    unfolding load_account_capabilities_def stored_capabilities_of_account
    by (subst collect_results_map_Ok [OF dec]) simp_all
  have ms: "mset ?rows = mset (map (\<lambda>r. \<lparr>generation_id = g, reconciled = r\<rparr>) (reconcile obs))"
    by (simp add: multiset.map_comp comp_def decode_capability_row)
  have "mset (map (\<lambda>s. rc_capability (reconciled s)) ?rows) = mset AccountCapability_ALL"
    by (simp add: multiset.map_comp comp_def reconcile_def decode_capability_row)
  with load ms show "\<exists>rows. load_account_capabilities ?db a = Ok rows
     \<and> mset rows = mset (map (\<lambda>r. \<lparr>generation_id = g, reconciled = r\<rparr>) (reconcile obs))
     \<and> mset (map (\<lambda>s. rc_capability (reconciled s)) rows) = mset AccountCapability_ALL"
    by blast
  have "b \<noteq> a \<Longrightarrow> filter (\<lambda>r. ac_account_id r = b) (account_capabilities ?db) =
      filter (\<lambda>r. ac_account_id r = b) (account_capabilities db)"
    by (auto simp: reconcile_account_capabilities_def filter_map comp_def capability_row_def
        intro: filter_cong)
  then show "b = a \<or> load_account_capabilities ?db b = load_account_capabilities db b"
    unfolding load_account_capabilities_def by metis
qed

end
