(* ===== verification/Provider_Budget.thy ===== *)
theory Provider_Budget
  imports Prelude
begin

text \<open>
  Model of \<^verbatim>\<open>provider_budget.rs\<close>: the durable ledger of provider calls and the finite budget of one
  operation. The ledger \<^verbatim>\<open>provider_api_usage\<close> is a list of rows; a budget is the in-process value,
  and several processes may hold one for the same operation. \<open>reserve\<close> and \<open>complete\<close> return the
  committed ledger beside their result, because a failure after the insert leaves the row.
\<close>

section \<open>Vocabulary\<close>

datatype RequestClass =
  CodeExchange | AccountDiscovery | PermissionDiscovery | TokenRefresh | TokenRevoke | OwnMediaPage

fun request_class_wire :: "RequestClass \<Rightarrow> string" where
  "request_class_wire CodeExchange = ''code_exchange''"
| "request_class_wire AccountDiscovery = ''account_discovery''"
| "request_class_wire PermissionDiscovery = ''permission_discovery''"
| "request_class_wire TokenRefresh = ''token_refresh''"
| "request_class_wire TokenRevoke = ''token_revoke''"
| "request_class_wire OwnMediaPage = ''own_media_page''"

datatype UsageOutcome =
  UsageSucceeded | UsageAuthentication | UsageValidation | UsageRateLimited | UsageServer | UsageNetwork
| UsageResponseRefused | UsageProviderUnsupported

fun usage_outcome_wire :: "UsageOutcome \<Rightarrow> string" where
  "usage_outcome_wire UsageSucceeded = ''succeeded''"
| "usage_outcome_wire UsageAuthentication = ''authentication''"
| "usage_outcome_wire UsageValidation = ''validation''"
| "usage_outcome_wire UsageRateLimited = ''rate_limited''"
| "usage_outcome_wire UsageServer = ''server''"
| "usage_outcome_wire UsageNetwork = ''network''"
| "usage_outcome_wire UsageResponseRefused = ''response_refused''"
| "usage_outcome_wire UsageProviderUnsupported = ''provider_unsupported''"

record MetaUsage =
  call_count_percent :: "u8 option"
  cpu_time_percent :: "u8 option"
  total_time_percent :: "u8 option"

record UsageReservation =
  usage_id :: uuid
  attempt_ordinal :: u32
  request_class :: RequestClass

record ProviderBudget =
  pb_operation :: uuid
  pb_account :: "uuid option"
  pb_limit :: u32
  pb_next :: u32

datatype BudgetError = Exhausted | InvalidMetadata | BudgetDatabase

datatype UsageState = UsageStarted | UsageCompleted

record UsageRow =
  us_id :: uuid
  us_operation :: uuid
  us_account :: "uuid option"
  us_class :: RequestClass
  us_ordinal :: int
  us_state :: UsageState
  us_outcome :: "UsageOutcome option"
  us_status :: "u16 option"
  us_usage :: MetaUsage
  us_started_at :: instant
  us_finished_at :: "instant option"

definition no_usage :: MetaUsage where
  "no_usage = \<lparr>call_count_percent = None, cpu_time_percent = None, total_time_percent = None\<rparr>"

section \<open>Operations\<close>

definition new_budget :: "uuid \<Rightarrow> uuid option \<Rightarrow> u32 \<Rightarrow> ProviderBudget" where
  "new_budget operation account limit =
     \<lparr>pb_operation = operation, pb_account = account, pb_limit = limit, pb_next = 1\<rparr>"

definition ordinals :: "uuid \<Rightarrow> UsageRow list \<Rightarrow> int list" where
  "ordinals operation rows = map us_ordinal (filter (\<lambda>r. us_operation r = operation) rows)"

definition resume_budget ::
  "UsageRow list \<Rightarrow> uuid \<Rightarrow> uuid option \<Rightarrow> u32 \<Rightarrow> (ProviderBudget, BudgetError) result" where
  "resume_budget rows operation account limit =
     (let previous = (if ordinals operation rows = [] then 0 else Max (set (ordinals operation rows)))
      in if previous < 0 \<or> 2 ^ 32 \<le> previous then Err InvalidMetadata
         else (case checked_add (word_of_int previous) 1 of
                 None \<Rightarrow> Err InvalidMetadata
               | Some next_ordinal \<Rightarrow>
                   Ok \<lparr>pb_operation = operation, pb_account = account, pb_limit = limit, pb_next = next_ordinal\<rparr>))"

text \<open>
  The constraints the insert is checked against: the primary key, the unique pair of operation and
  ordinal, and the positive ordinal.
\<close>

definition usage_conflict :: "UsageRow list \<Rightarrow> UsageRow \<Rightarrow> bool" where
  "usage_conflict rows r \<longleftrightarrow> us_ordinal r \<le> 0
     \<or> list_ex (\<lambda>x. us_id x = us_id r \<or> us_operation x = us_operation r \<and> us_ordinal x = us_ordinal r) rows"

definition started_row :: "ProviderBudget \<Rightarrow> uuid \<Rightarrow> RequestClass \<Rightarrow> instant \<Rightarrow> UsageRow" where
  "started_row b i class started_at =
     \<lparr>us_id = i, us_operation = pb_operation b, us_account = pb_account b, us_class = class,
      us_ordinal = uint (pb_next b), us_state = UsageStarted, us_outcome = None, us_status = None,
      us_usage = no_usage, us_started_at = started_at, us_finished_at = None\<rparr>"

definition reserve ::
  "UsageRow list \<Rightarrow> ProviderBudget \<Rightarrow> uuid \<Rightarrow> RequestClass \<Rightarrow> instant
     \<Rightarrow> UsageRow list \<times> ProviderBudget \<times> (UsageReservation, BudgetError) result" where
  "reserve rows b i class started_at =
     (if pb_limit b < pb_next b then (rows, b, Err Exhausted)
      else if 2 ^ 31 \<le> uint (pb_next b) then (rows, b, Err InvalidMetadata)
      else if usage_conflict rows (started_row b i class started_at) then (rows, b, Err BudgetDatabase)
      else
        let rows' = rows @ [started_row b i class started_at]
        in (case checked_add (pb_next b) 1 of
              None \<Rightarrow> (rows', b, Err InvalidMetadata)
            | Some n \<Rightarrow> (rows', b\<lparr>pb_next := n\<rparr>,
                Ok \<lparr>usage_id = i, attempt_ordinal = pb_next b, request_class = class\<rparr>)))"

definition metadata_invalid :: "u16 option \<Rightarrow> MetaUsage \<Rightarrow> bool" where
  "metadata_invalid http_status usage \<longleftrightarrow>
     (case http_status of None \<Rightarrow> False | Some s \<Rightarrow> \<not> (100 \<le> s \<and> s \<le> 599))
     \<or> list_ex (\<lambda>p. case p of None \<Rightarrow> False | Some v \<Rightarrow> 100 < v)
         [call_count_percent usage, cpu_time_percent usage, total_time_percent usage]"

definition completed_row :: "UsageOutcome \<Rightarrow> u16 option \<Rightarrow> MetaUsage \<Rightarrow> instant \<Rightarrow> UsageRow \<Rightarrow> UsageRow" where
  "completed_row outcome http_status usage finished_at r =
     r\<lparr>us_state := UsageCompleted, us_outcome := Some outcome, us_status := http_status, us_usage := usage,
       us_finished_at := Some finished_at\<rparr>"

definition complete_matches :: "ProviderBudget \<Rightarrow> UsageReservation \<Rightarrow> UsageRow \<Rightarrow> bool" where
  "complete_matches b reservation r \<longleftrightarrow> us_id r = usage_id reservation \<and> us_operation r = pb_operation b
     \<and> us_state r = UsageStarted"

definition complete ::
  "UsageRow list \<Rightarrow> ProviderBudget \<Rightarrow> UsageReservation \<Rightarrow> UsageOutcome \<Rightarrow> u16 option \<Rightarrow> MetaUsage \<Rightarrow> instant
     \<Rightarrow> UsageRow list \<times> (unit, BudgetError) result" where
  "complete rows b reservation outcome http_status usage finished_at =
     (if metadata_invalid http_status usage then (rows, Err InvalidMetadata)
      else
        (update_where (complete_matches b reservation) (completed_row outcome http_status usage finished_at) rows,
         if rows_affected (complete_matches b reservation) rows = 1 then Ok () else Err InvalidMetadata))"

section \<open>The ledger invariant\<close>

text \<open>
  Any number of processes: each starts or resumes a budget under the operation's limit, reserves and
  completes; a budget may be stale when another process reserved in between.
\<close>

inductive budget_step ::
  "(uuid \<Rightarrow> u32) \<Rightarrow> UsageRow list \<times> ProviderBudget list \<Rightarrow> UsageRow list \<times> ProviderBudget list \<Rightarrow> bool" for lim where
  step_new: "budget_step lim (rows, bs) (rows, bs @ [new_budget operation account (lim operation)])"
| step_resume: "resume_budget rows operation account (lim operation) = Ok b
    \<Longrightarrow> budget_step lim (rows, bs) (rows, bs @ [b])"
| step_reserve: "k < length bs \<Longrightarrow> reserve rows (bs ! k) i class started_at = (rows', b', reserved)
    \<Longrightarrow> budget_step lim (rows, bs) (rows', bs[k := b'])"
| step_complete: "complete rows b reservation outcome http_status usage finished_at = (rows', completed)
    \<Longrightarrow> budget_step lim (rows, bs) (rows', bs)"

definition calls :: "uuid \<Rightarrow> UsageRow list \<Rightarrow> nat" where
  "calls operation rows = length (ordinals operation rows)"

definition ledger_inv :: "(uuid \<Rightarrow> u32) \<Rightarrow> UsageRow list \<times> ProviderBudget list \<Rightarrow> bool" where
  "ledger_inv lim s \<longleftrightarrow>
     (\<forall>op. ordinals op (fst s) = map int [1 ..< Suc (calls op (fst s))] \<and> calls op (fst s) \<le> unat (lim op)
        \<and> calls op (fst s) < 2 ^ 31)
     \<and> (\<forall>b \<in> set (snd s). pb_limit b = lim (pb_operation b) \<and> 1 \<le> unat (pb_next b)
        \<and> unat (pb_next b) \<le> Suc (calls (pb_operation b) (fst s)))"

lemma ordinals_append: "ordinals op (rows @ [r]) = ordinals op rows @ (if us_operation r = op then [us_ordinal r] else [])"
  by (simp add: ordinals_def)

lemma ordinals_complete: "ordinals op (fst (complete rows b res oc st us t)) = ordinals op rows"
proof -
  have "ordinals op (update_where P (completed_row oc st us t) rows) = ordinals op rows" for P
    by (induction rows) (auto simp: ordinals_def completed_row_def)
  then show ?thesis by (simp add: complete_def)
qed

lemma resume_next:
  assumes "resume_budget rows op acc l = Ok b" "ordinals op rows = map int [1 ..< Suc k]"
  shows "pb_operation b = op \<and> pb_limit b = l \<and> unat (pb_next b) = Suc k"
proof -
  define prev where "prev = (if ordinals op rows = [] then 0 else Max (set (ordinals op rows)))"
  have prev: "prev = int k"
  proof (cases "k = 0")
    case False
    have "Max (int ` {1 ..< Suc k}) = int k"
      by (rule Max_eqI) (use False in auto)
    moreover have "set (ordinals op rows) = int ` {1 ..< Suc k}" by (simp only: assms(2) set_map set_upt)
    moreover have "ordinals op rows \<noteq> []" using False assms(2) by simp
    ultimately show ?thesis by (simp only: prev_def if_False)
  qed (use assms(2) in \<open>simp add: prev_def\<close>)
  have fits: "\<not> 2 ^ 32 \<le> int k"
    using assms(1) by (auto simp: resume_budget_def Let_def prev_def [symmetric] prev split: if_splits)
  then have "unat (word_of_int (int k) :: u32) = k"
    by (simp add: unat_of_nat)
  with assms(1) fits show ?thesis
    by (auto simp: resume_budget_def Let_def prev_def [symmetric] prev checked_add_eq_Some_iff
        split: option.splits if_splits)
qed

lemma reserve_inv:
  assumes inv: "ledger_inv lim (rows, bs)" and k: "k < length bs"
    and r: "reserve rows (bs ! k) i class t = (rows', b', res)"
  shows "ledger_inv lim (rows', bs[k := b'])"
proof -
  let ?b = "bs ! k"
  have b: "?b \<in> set bs" using k by simp
  note ord = inv [unfolded ledger_inv_def fst_conv snd_conv, THEN conjunct1]
  note buds = inv [unfolded ledger_inv_def fst_conv snd_conv, THEN conjunct2]
  show ?thesis
  proof (cases "rows' = rows")
    case True
    then have "b' = ?b" using r by (auto simp: reserve_def Let_def split: if_splits option.splits)
    with True inv show ?thesis by simp
  next
    case False
    then have lim: "\<not> pb_limit ?b < pb_next ?b" and small: "\<not> 2 ^ 31 \<le> uint (pb_next ?b)"
      and free: "\<not> usage_conflict rows (started_row ?b i class t)"
      and rows': "rows' = rows @ [started_row ?b i class t]"
      and b': "b' = ?b \<or> (\<exists>n. checked_add (pb_next ?b) 1 = Some n \<and> b' = ?b\<lparr>pb_next := n\<rparr>)"
      using r by (auto simp: reserve_def Let_def split: if_splits option.splits)
    let ?op = "pb_operation ?b"
    have u: "uint (pb_next ?b) = int (unat (pb_next ?b))" by simp
    have "int (unat (pb_next ?b)) \<notin> set (ordinals ?op rows)"
      using free by (force simp: usage_conflict_def started_row_def list_ex_iff ordinals_def)
    then have "unat (pb_next ?b) \<notin> {1 ..< Suc (calls ?op rows)}"
      using ord by (metis imageI set_map set_upt)
    then have next_eq: "unat (pb_next ?b) = Suc (calls ?op rows)" using buds b by auto
    have calls': "calls op rows' = (if op = ?op then Suc (calls op rows) else calls op rows)" for op
      by (simp add: calls_def rows' ordinals_append started_row_def)
    have "ordinals op rows' = map int [1 ..< Suc (calls op rows')] \<and> calls op rows' \<le> unat (lim op)
        \<and> calls op rows' < 2 ^ 31" for op
    proof (cases "op = ?op")
      case True
      have "pb_limit ?b = lim ?op" using buds b by blast
      with lim have "unat (pb_next ?b) \<le> unat (lim ?op)" by (simp only: word_less_nat_alt not_less)
      moreover have "unat (pb_next ?b) < 2 ^ 31" using small
        by (metis linorder_not_le of_nat_le_iff of_nat_numeral of_nat_power u)
      moreover have "ordinals ?op rows' = ordinals ?op rows @ [int (unat (pb_next ?b))]"
        by (simp add: rows' ordinals_append started_row_def)
      moreover have "[1 ..< Suc (Suc (calls ?op rows))] = [1 ..< Suc (calls ?op rows)] @ [Suc (calls ?op rows)]"
        by simp
      ultimately show ?thesis using True ord next_eq calls' by (simp del: upt_Suc)
    next
      case False
      then have "ordinals op rows' = ordinals op rows" by (simp add: rows' ordinals_append started_row_def)
      with False ord calls' show ?thesis by simp
    qed
    moreover have "pb_limit x = lim (pb_operation x) \<and> 1 \<le> unat (pb_next x)
        \<and> unat (pb_next x) \<le> Suc (calls (pb_operation x) rows')" if "x \<in> set (bs[k := b'])" for x
    proof -
      from that set_update_subset_insert have "x = b' \<or> x \<in> set bs" by fast
      then show ?thesis
      proof
        assume "x \<in> set bs"
        moreover have "calls op rows \<le> calls op rows'" for op by (simp add: calls')
        ultimately show ?thesis using buds by (meson Suc_le_mono le_trans)
      next
        assume "x = b'"
        with b' b buds next_eq calls' show ?thesis by (auto simp: checked_add_eq_Some_iff)
      qed
    qed
    ultimately show ?thesis by (simp add: ledger_inv_def)
  qed
qed

lemma budget_step_inv:
  assumes "ledger_inv lim s" "budget_step lim s s'"
  shows "ledger_inv lim s'"
  using assms(2,1)
proof (cases rule: budget_step.cases)
  case (step_resume rows operation account b bs)
  with assms(1) resume_next [OF step_resume(3)] show ?thesis by (auto simp: ledger_inv_def)
next
  case (step_reserve k bs rows i cl t rows' b' res)
  with assms(1) reserve_inv show ?thesis by blast
next
  case (step_complete rows b res oc st us t rows' c bs)
  then have "ordinals op rows' = ordinals op rows" for op
    by (metis fst_conv ordinals_complete)
  with assms(1) step_complete(1,2) show ?thesis by (simp add: ledger_inv_def calls_def)
qed (auto simp: ledger_inv_def new_budget_def)

interpretation ledger: invariant_system "\<lambda>s. s = ([], [])" "budget_step lim" "ledger_inv lim" for lim
proof
  show "ledger_inv lim s" if "s = ([], [])" for s
    using that by (simp add: ledger_inv_def ordinals_def calls_def)
qed (rule budget_step_inv)


lemma reachable_ledger: "(budget_step lim)\<^sup>*\<^sup>* ([], []) s \<Longrightarrow> ledger_inv lim s"
  by (rule ledger.inv_reachable [OF refl])

section \<open>Properties\<close>

text \<open>
  C29. The budget is never exceeded: however many processes start, crash, resume and race on one
  operation, its ledger holds the consecutive ordinals 1, 2, ..., k and k never passes the
  operation's limit, so transport is invoked at most limit times.
\<close>
theorem provider_budget_never_exceeded:
  assumes "(budget_step lim)\<^sup>*\<^sup>* ([], []) (rows, bs)"
  shows "ordinals op rows = map int [1 ..< Suc (calls op rows)] \<and> calls op rows \<le> unat (lim op)"
  using reachable_ledger [OF assms] by (simp add: ledger_inv_def del: upt_Suc)

theorem provider_budget_never_exceeded_witness:
  "\<exists>rows bs. (budget_step (\<lambda>_. 1))\<^sup>*\<^sup>* ([], []) (rows, bs) \<and> calls (Uuid 1 1) rows = 1
     \<and> calls (Uuid 1 1) rows \<le> unat (1 :: u32)"
proof -
  let ?b = "new_budget (Uuid 1 1) None 1"
  let ?r = "started_row ?b (Uuid 2 2) CodeExchange 5"
  have "budget_step (\<lambda>_. 1) ([], []) ([], [] @ [?b])" by (rule step_new)
  moreover have "reserve [] ?b (Uuid 2 2) CodeExchange 5 =
      ([?r], ?b\<lparr>pb_next := 2\<rparr>, Ok \<lparr>usage_id = Uuid 2 2, attempt_ordinal = 1, request_class = CodeExchange\<rparr>)"
    by (simp add: reserve_def new_budget_def started_row_def usage_conflict_def checked_add_def)
  then have "budget_step (\<lambda>_. 1) ([], [?b]) ([?r], [?b][0 := ?b\<lparr>pb_next := 2\<rparr>])"
    by (intro step_reserve [where k = 0]) simp_all
  ultimately have run: "(budget_step (\<lambda>_. 1))\<^sup>*\<^sup>* ([], []) ([?r], [?b\<lparr>pb_next := 2\<rparr>])" by simp
  have "calls (Uuid 1 1) [?r] = 1" by (simp add: calls_def ordinals_def started_row_def new_budget_def)
  with run provider_budget_never_exceeded [OF run, of "Uuid 1 1"] show ?thesis by blast
qed

lemma complete_matches_update:
  "\<not> complete_matches b res (if complete_matches b res r then completed_row oc st us t r else r)"
  by (simp add: complete_matches_def completed_row_def)

text \<open>
  A reservation is completed once: an accepted completion stores exactly its outcome in the one
  started row, and every later completion of that reservation, with whatever outcome, is refused and
  leaves the ledger alone.
\<close>
theorem completion_is_final:
  assumes "complete rows b res oc st us t = (rows1, Ok ())"
  shows "rows1 = update_where (complete_matches b res) (completed_row oc st us t) rows
    \<and> rows_affected (complete_matches b res) rows = 1
    \<and> complete rows1 b res oc' st' us' t' = (rows1, Err InvalidMetadata)"
proof -
  have rows1: "rows1 = update_where (complete_matches b res) (completed_row oc st us t) rows"
    and one: "rows_affected (complete_matches b res) rows = 1"
    using assms by (auto simp: complete_def split: if_splits)
  have none: "\<not> complete_matches b res r" if "r \<in> set rows1" for r
    using that complete_matches_update unfolding rows1 set_update_where by blast
  then have "update_where (complete_matches b res) f rows1 = rows1" "rows_affected (complete_matches b res) rows1 = 0" for f
    by (simp_all add: update_where_none rows_affected_def filter_empty_conv)
  with rows1 one show ?thesis by (simp add: complete_def)
qed

theorem completion_is_final_witness:
  "\<exists>rows1. complete [started_row (new_budget (Uuid 1 1) None 1) (Uuid 2 2) CodeExchange 5] (new_budget (Uuid 1 1) None 1)
      \<lparr>usage_id = Uuid 2 2, attempt_ordinal = 1, request_class = CodeExchange\<rparr> UsageSucceeded (Some 200) no_usage 9 = (rows1, Ok ())
    \<and> complete rows1 (new_budget (Uuid 1 1) None 1)
      \<lparr>usage_id = Uuid 2 2, attempt_ordinal = 1, request_class = CodeExchange\<rparr> UsageNetwork None no_usage 12
        = (rows1, Err InvalidMetadata)"
proof -
  obtain rows1 where c: "complete [started_row (new_budget (Uuid 1 1) None 1) (Uuid 2 2) CodeExchange 5] (new_budget (Uuid 1 1) None 1)
      \<lparr>usage_id = Uuid 2 2, attempt_ordinal = 1, request_class = CodeExchange\<rparr> UsageSucceeded (Some 200) no_usage 9 = (rows1, Ok ())"
    by (simp add: complete_def metadata_invalid_def no_usage_def rows_affected_def complete_matches_def started_row_def
        new_budget_def)
  from completion_is_final [OF c] c show ?thesis by blast
qed

end
