(* ===== verification/Provider_Client.thy ===== *)
theory Provider_Client
  imports Account_Capability Provider_Budget
begin

text \<open>
  Model of \<^verbatim>\<open>provider.rs\<close>: the official provider profile, the requests it builds, the bounded reading
  of a response and the strict decoding of each body, and the claim of a relayed authorization code.
  HTTP is a function from requests to replies (a status and the chunks of the body, \<open>None\<close> for a chunk the
  transport failed to deliver); JSON reading, URL parsing and RFC 3339 parsing belong to \<^verbatim>\<open>serde_json\<close>,
  \<^verbatim>\<open>url\<close> and \<^verbatim>\<open>time\<close> and are the record \<open>decoders\<close>.
\<close>

section \<open>Profile\<close>

definition GRAPH_API_VERSION :: string where "GRAPH_API_VERSION = ''v26.0''"
definition BASIC_READ_SCOPE :: string where "BASIC_READ_SCOPE = ''instagram_business_basic''"
definition AUTHORIZE_ENDPOINT :: string where
  "AUTHORIZE_ENDPOINT = ''https://www.instagram.com/oauth/authorize''"
definition CODE_EXCHANGE_ENDPOINT :: string where
  "CODE_EXCHANGE_ENDPOINT = ''https://api.instagram.com/oauth/access_token''"
definition ACCOUNT_DISCOVERY_FIELDS :: string where
  "ACCOUNT_DISCOVERY_FIELDS = ''id,username,account_type''"
definition OWN_MEDIA_FIELDS :: string where
  "OWN_MEDIA_FIELDS =
     ''id,owner,caption,media_type,media_product_type,media_url,permalink,thumbnail_url,timestamp,username''"
definition REFRESH_SUPPORTED :: bool where "REFRESH_SUPPORTED = True"
definition REVOKE_SUPPORTED :: bool where "REVOKE_SUPPORTED = False"

section \<open>Data\<close>

datatype ProviderFailureClass =
  AuthenticationFailure | ValidationFailure | RateLimitedFailure | ServerFailure | NetworkFailure
| ResponseRefusedFailure | UnsupportedFailure

record ProviderError =
  failure_class :: ProviderFailureClass
  http_status :: "u16 option"

definition refused :: "ProviderFailureClass \<Rightarrow> u16 option \<Rightarrow> ProviderError" where
  "refused failure status = \<lparr>failure_class = failure, http_status = status\<rparr>"

record ExchangedToken =
  access_token :: rstr
  exchanged_user_id :: rstr
  exchanged_permissions :: "rstr list"
  expires_in_seconds :: "u64 option"

record ProviderAccount =
  pa_provider_account_id :: rstr
  pa_username :: rstr
  pa_account_type :: AccountType

text \<open>The permission map in key order.\<close>

type_synonym ProviderPermissions = "(string \<times> PermissionStatus) list"

record ProviderOwnMediaItem =
  pm_provider_media_id :: rstr
  pm_owner :: rstr
  pm_media_type :: string
  pm_product_type :: string
  pm_permalink :: rstr
  pm_caption :: "rstr option"
  pm_published_at :: instant
  pm_media_url :: "rstr option"
  pm_thumbnail_url :: "rstr option"

record ProviderOwnMediaPage =
  page_items :: "ProviderOwnMediaItem list"
  page_next :: "rstr option"
  page_raw :: "u8 list"

record RelayClaim =
  claim_user :: uuid
  claim_state :: rstr
  claim_code :: rstr
  claim_redirect :: rstr

datatype RelayError = RelayUnavailable | RelayTransport | RelayResponseRefused

text \<open>Decoded bodies.\<close>

record AccountResponse =
  ar_id :: rstr
  ar_username :: rstr
  ar_account_type :: string

datatype JsonUserId = JsonString rstr | JsonNumber rstr | JsonOther

record ExchangeResponse =
  er_access_token :: rstr
  er_user_id :: JsonUserId
  er_permissions :: "rstr list"
  er_expires_in :: "u64 option"

record RefreshResponse =
  rr_access_token :: rstr
  rr_expires_in :: "u64 option"

record OwnMediaEntry =
  oe_id :: rstr
  oe_owner :: rstr
  oe_caption :: "rstr option"
  oe_media_type :: string
  oe_product_type :: string
  oe_media_url :: "rstr option"
  oe_permalink :: rstr
  oe_thumbnail_url :: "rstr option"
  oe_timestamp :: rstr

text \<open>\<open>omr_after\<close> is the cursor after the page, when paging and cursors are present.\<close>

record OwnMediaResponse =
  omr_data :: "OwnMediaEntry list"
  omr_after :: "rstr option"

datatype request_body = NoBody | FormBody "(string \<times> rstr) list" | JsonBody "(string \<times> rstr) list"

record ProviderRequest =
  rq_post :: bool
  rq_url :: rstr
  rq_query :: "(string \<times> rstr) list"
  rq_bearer :: "rstr option"
  rq_body :: request_body

datatype HttpReply = NoReply | HttpReply u16 "u8 list option list"

record decoders =
  d_join :: "rstr \<Rightarrow> rstr option"
  d_scheme :: "rstr \<Rightarrow> string option"
  d_rfc3339 :: "rstr \<Rightarrow> instant option"
  d_account :: "u8 list \<Rightarrow> AccountResponse option"
  d_permissions :: "u8 list \<Rightarrow> (string \<times> string) list option"
  d_exchange :: "u8 list \<Rightarrow> ExchangeResponse option"
  d_refresh :: "u8 list \<Rightarrow> RefreshResponse option"
  d_own_media :: "u8 list \<Rightarrow> OwnMediaResponse option"
  d_relay :: "u8 list \<Rightarrow> RelayClaim option"

record ReqwestInstagramProvider =
  client_id :: rstr
  client_secret :: rstr
  redirect_uri :: rstr
  max_response_bytes :: nat

section \<open>Retry and status classes\<close>

definition should_retry :: "RequestClass \<Rightarrow> ProviderFailureClass \<Rightarrow> bool" where
  "should_retry request failure \<longleftrightarrow>
     request \<in> {AccountDiscovery, PermissionDiscovery, OwnMediaPage}
     \<and> failure \<in> {NetworkFailure, RateLimitedFailure, ServerFailure}"

definition classify_status :: "u16 \<Rightarrow> ProviderFailureClass" where
  "classify_status status =
     (if status = 401 \<or> status = 403 then AuthenticationFailure
      else if status = 429 then RateLimitedFailure
      else if 400 \<le> status \<and> status \<le> 499 then ValidationFailure
      else if 500 \<le> status \<and> status \<le> 599 then ServerFailure
      else ResponseRefusedFailure)"

definition status_success :: "u16 \<Rightarrow> bool" where
  "status_success status \<longleftrightarrow> 200 \<le> status \<and> status \<le> 299"

section \<open>Requests\<close>

definition versioned :: "string \<Rightarrow> rstr" where
  "versioned path = ascii (GRAPH_API_VERSION @ ''/'' @ path)"

definition get_request :: "rstr \<Rightarrow> (string \<times> rstr) list \<Rightarrow> rstr \<Rightarrow> ProviderRequest" where
  "get_request url query token =
     \<lparr>rq_post = False, rq_url = url, rq_query = query, rq_bearer = Some token, rq_body = NoBody\<rparr>"

definition exchange_request :: "ReqwestInstagramProvider \<Rightarrow> rstr \<Rightarrow> ProviderRequest" where
  "exchange_request P code =
     \<lparr>rq_post = True, rq_url = ascii CODE_EXCHANGE_ENDPOINT, rq_query = [], rq_bearer = None,
      rq_body = FormBody [(''client_id'', client_id P), (''client_secret'', client_secret P),
        (''grant_type'', ascii ''authorization_code''), (''redirect_uri'', redirect_uri P), (''code'', code)]\<rparr>"

definition joined :: "decoders \<Rightarrow> rstr \<Rightarrow> (rstr, ProviderError) result" where
  "joined D path = ok_or (refused ValidationFailure None) (d_join D path)"

definition account_request :: "decoders \<Rightarrow> rstr \<Rightarrow> (ProviderRequest, ProviderError) result" where
  "account_request D token =
     bind_result (joined D (versioned ''me''))
       (\<lambda>url. Ok (get_request url [(''fields'', ascii ACCOUNT_DISCOVERY_FIELDS)] token))"

definition cursor_refused :: "rstr \<Rightarrow> bool" where
  "cursor_refused cursor \<longleftrightarrow> cursor = [] \<or> 2048 < str_len cursor"

definition own_media_request ::
  "decoders \<Rightarrow> rstr \<Rightarrow> rstr \<Rightarrow> rstr option \<Rightarrow> (ProviderRequest, ProviderError) result" where
  "own_media_request D account token after =
     (if account = [] \<or> 47 \<in> set account then Err (refused ValidationFailure None)
      else bind_result (joined D (ascii (GRAPH_API_VERSION @ ''/'') @ account @ ascii ''/media''))
        (\<lambda>url. (case after of
             None \<Rightarrow> Ok (get_request url [(''fields'', ascii OWN_MEDIA_FIELDS)] token)
           | Some cursor \<Rightarrow>
               if cursor_refused cursor then Err (refused ValidationFailure None)
               else Ok (get_request url [(''fields'', ascii OWN_MEDIA_FIELDS), (''after'', cursor)] token))))"

definition permissions_request :: "decoders \<Rightarrow> rstr \<Rightarrow> (ProviderRequest, ProviderError) result" where
  "permissions_request D token =
     bind_result (joined D (versioned ''me/permissions'')) (\<lambda>url. Ok (get_request url [] token))"

definition refresh_request :: "decoders \<Rightarrow> rstr \<Rightarrow> (ProviderRequest, ProviderError) result" where
  "refresh_request D token =
     bind_result (joined D (versioned ''refresh_access_token''))
       (\<lambda>url. Ok (get_request url [(''grant_type'', ascii ''ig_refresh_token'')] token))"

section \<open>Bounded bodies\<close>

text \<open>The chunk loop: the length after the chunk is checked before the chunk is kept.\<close>

fun read_chunks :: "'e \<Rightarrow> 'e \<Rightarrow> nat \<Rightarrow> u8 list \<Rightarrow> u8 list option list \<Rightarrow> (u8 list, 'e) result" where
  "read_chunks broken refusal limit body [] = Ok body"
| "read_chunks broken refusal limit body (None # chunks) = Err broken"
| "read_chunks broken refusal limit body (Some chunk # chunks) =
     (if 2 ^ 64 \<le> length body + length chunk then Err refusal
      else if limit < length body + length chunk then Err refusal
      else read_chunks broken refusal limit (body @ chunk) chunks)"

definition execute ::
  "(ProviderRequest \<Rightarrow> HttpReply) \<Rightarrow> ReqwestInstagramProvider \<Rightarrow> ProviderRequest \<Rightarrow> (u8 list, ProviderError) result" where
  "execute net P request =
     (case net request of
        NoReply \<Rightarrow> Err (refused NetworkFailure None)
      | HttpReply status chunks \<Rightarrow>
          if \<not> status_success status then Err (refused (classify_status status) (Some status))
          else read_chunks (refused NetworkFailure (Some status)) (refused ResponseRefusedFailure (Some status))
            (max_response_bytes P) [] chunks)"

definition ensure_bounded :: "ReqwestInstagramProvider \<Rightarrow> u8 list \<Rightarrow> (unit, ProviderError) result" where
  "ensure_bounded P body =
     (if max_response_bytes P < length body then Err (refused ResponseRefusedFailure None) else Ok ())"

section \<open>Bodies\<close>

definition response_refused :: ProviderError where
  "response_refused = refused ResponseRefusedFailure None"

definition parse_account ::
  "decoders \<Rightarrow> ReqwestInstagramProvider \<Rightarrow> u8 list \<Rightarrow> (ProviderAccount, ProviderError) result" where
  "parse_account D P body =
     bind_result (ensure_bounded P body) (\<lambda>_. bind_result (ok_or response_refused (d_account D body)) (\<lambda>r.
       let account = \<lambda>t. \<lparr>pa_provider_account_id = ar_id r, pa_username = ar_username r, pa_account_type = t\<rparr>
       in if ar_account_type r = ''BUSINESS'' then Ok (account Business)
          else if ar_account_type r = ''CREATOR'' then Ok (account Creator)
          else if ar_account_type r = ''PERSONAL'' then Ok (account Personal)
          else Err response_refused))"

definition permission_status_of :: "string \<Rightarrow> PermissionStatus" where
  "permission_status_of status =
     (if status = ''granted'' then Granted
      else if status = ''declined'' then Declined
      else if status = ''expired'' then Expired
      else if status = ''absent'' then Absent
      else UnknownStatus)"

fun insert_permissions ::
  "ProviderPermissions \<Rightarrow> (string \<times> string) list \<Rightarrow> (ProviderPermissions, ProviderError) result" where
  "insert_permissions statuses [] = Ok statuses"
| "insert_permissions statuses ((permission, status) # entries) =
     (if permission \<in> fst ` set statuses then Err response_refused
      else insert_permissions (insort_key fst (permission, permission_status_of status) statuses) entries)"

definition parse_permissions ::
  "decoders \<Rightarrow> ReqwestInstagramProvider \<Rightarrow> u8 list \<Rightarrow> (ProviderPermissions, ProviderError) result" where
  "parse_permissions D P body =
     bind_result (ensure_bounded P body) (\<lambda>_. bind_result (ok_or response_refused (d_permissions D body))
       (insert_permissions []))"

definition is_ascii_digit :: "nat \<Rightarrow> bool" where
  "is_ascii_digit c \<longleftrightarrow> 48 \<le> c \<and> c \<le> 57"

text \<open>A timestamp with a compact offset, such as \<^verbatim>\<open>+0000\<close>, is read with a colon in it.\<close>

definition parse_own_media_timestamp :: "decoders \<Rightarrow> rstr \<Rightarrow> instant option" where
  "parse_own_media_timestamp D s =
     (case d_rfc3339 D s of
        Some t \<Rightarrow> Some t
      | None \<Rightarrow>
          if \<not> list_all (\<lambda>c. c < 128) s \<or> length s < 5 then None
          else let prefix = take (length s - 5) s; compact_offset = drop (length s - 5) s
            in if hd compact_offset \<notin> {43, 45} \<or> \<not> list_all is_ascii_digit (tl compact_offset) then None
               else d_rfc3339 D (prefix @ take 3 compact_offset @ [58] @ drop 3 compact_offset))"

definition own_media_entry_refused :: "decoders \<Rightarrow> rstr \<Rightarrow> rstr list \<Rightarrow> OwnMediaEntry \<Rightarrow> bool" where
  "own_media_entry_refused D account seen e \<longleftrightarrow>
     oe_owner e \<noteq> account \<or> oe_id e = [] \<or> oe_id e \<in> set seen
     \<or> oe_media_type e \<notin> {''IMAGE'', ''VIDEO'', ''CAROUSEL_ALBUM''}
     \<or> oe_product_type e \<notin> {''FEED'', ''REELS''}
     \<or> d_scheme D (oe_permalink e) \<noteq> Some ''https''"

fun own_media_items ::
  "decoders \<Rightarrow> rstr \<Rightarrow> rstr list \<Rightarrow> OwnMediaEntry list \<Rightarrow> (ProviderOwnMediaItem list, ProviderError) result" where
  "own_media_items D account seen [] = Ok []"
| "own_media_items D account seen (e # entries) =
     (if own_media_entry_refused D account seen e then Err response_refused
      else bind_result (ok_or response_refused (parse_own_media_timestamp D (oe_timestamp e))) (\<lambda>published_at.
        bind_result (own_media_items D account (oe_id e # seen) entries) (\<lambda>items.
          Ok (\<lparr>pm_provider_media_id = oe_id e, pm_owner = oe_owner e, pm_media_type = oe_media_type e,
               pm_product_type = oe_product_type e, pm_permalink = oe_permalink e, pm_caption = oe_caption e,
               pm_published_at = published_at, pm_media_url = oe_media_url e,
               pm_thumbnail_url = oe_thumbnail_url e\<rparr> # items))))"

definition parse_own_media_page ::
  "decoders \<Rightarrow> ReqwestInstagramProvider \<Rightarrow> u8 list \<Rightarrow> rstr \<Rightarrow> (ProviderOwnMediaPage, ProviderError) result" where
  "parse_own_media_page D P body account =
     bind_result (ensure_bounded P body) (\<lambda>_. bind_result (ok_or response_refused (d_own_media D body)) (\<lambda>r.
       bind_result (own_media_items D account [] (omr_data r)) (\<lambda>items.
         Ok \<lparr>page_items = items, page_next = omr_after r, page_raw = body\<rparr>)))"

section \<open>The provider port\<close>

definition exchange_code ::
  "decoders \<Rightarrow> (ProviderRequest \<Rightarrow> HttpReply) \<Rightarrow> ReqwestInstagramProvider \<Rightarrow> rstr \<Rightarrow> (ExchangedToken, ProviderError) result" where
  "exchange_code D net P code =
     bind_result (execute net P (exchange_request P code)) (\<lambda>body.
       bind_result (ensure_bounded P body) (\<lambda>_. bind_result (ok_or response_refused (d_exchange D body)) (\<lambda>r.
         let token = \<lambda>user. Ok \<lparr>access_token = er_access_token r, exchanged_user_id = user,
               exchanged_permissions = er_permissions r, expires_in_seconds = er_expires_in r\<rparr>
         in (case er_user_id r of JsonString v \<Rightarrow> token v | JsonNumber v \<Rightarrow> token v
               | JsonOther \<Rightarrow> Err response_refused))))"

definition discover_account ::
  "decoders \<Rightarrow> (ProviderRequest \<Rightarrow> HttpReply) \<Rightarrow> ReqwestInstagramProvider \<Rightarrow> rstr \<Rightarrow> (ProviderAccount, ProviderError) result" where
  "discover_account D net P token =
     bind_result (account_request D token) (\<lambda>request. bind_result (execute net P request) (parse_account D P))"

definition discover_permissions ::
  "decoders \<Rightarrow> (ProviderRequest \<Rightarrow> HttpReply) \<Rightarrow> ReqwestInstagramProvider \<Rightarrow> rstr
     \<Rightarrow> (ProviderPermissions, ProviderError) result" where
  "discover_permissions D net P token =
     bind_result (permissions_request D token) (\<lambda>request. bind_result (execute net P request) (parse_permissions D P))"

definition refresh_token ::
  "decoders \<Rightarrow> (ProviderRequest \<Rightarrow> HttpReply) \<Rightarrow> ReqwestInstagramProvider \<Rightarrow> rstr \<Rightarrow> (ExchangedToken, ProviderError) result" where
  "refresh_token D net P token =
     bind_result (refresh_request D token) (\<lambda>request. bind_result (execute net P request) (\<lambda>body.
       bind_result (ensure_bounded P body) (\<lambda>_. bind_result (ok_or response_refused (d_refresh D body)) (\<lambda>r.
         Ok \<lparr>access_token = rr_access_token r, exchanged_user_id = [], exchanged_permissions = [],
             expires_in_seconds = rr_expires_in r\<rparr>))))"

definition revoke_token :: "rstr \<Rightarrow> (unit, ProviderError) result" where
  "revoke_token token = Err (refused UnsupportedFailure None)"

definition list_own_media_page ::
  "decoders \<Rightarrow> (ProviderRequest \<Rightarrow> HttpReply) \<Rightarrow> ReqwestInstagramProvider \<Rightarrow> rstr \<Rightarrow> rstr \<Rightarrow> rstr option
     \<Rightarrow> (ProviderOwnMediaPage, ProviderError) result" where
  "list_own_media_page D net P account token after =
     bind_result (own_media_request D account token after) (\<lambda>request.
       bind_result (execute net P request) (\<lambda>body. parse_own_media_page D P body account))"

section \<open>The code relay\<close>

definition relay_claim ::
  "decoders \<Rightarrow> (ProviderRequest \<Rightarrow> HttpReply) \<Rightarrow> rstr \<Rightarrow> rstr \<Rightarrow> nat \<Rightarrow> rstr \<Rightarrow> (RelayClaim, RelayError) result" where
  "relay_claim D net claim_url bearer limit relay_id =
     (if relay_id = [] \<or> 256 < str_len relay_id then Err RelayUnavailable
      else (case net \<lparr>rq_post = True, rq_url = claim_url, rq_query = [], rq_bearer = Some bearer,
              rq_body = JsonBody [(''relay_id'', relay_id)]\<rparr> of
          NoReply \<Rightarrow> Err RelayTransport
        | HttpReply status chunks \<Rightarrow>
            if \<not> status_success status
            then Err (if 500 \<le> status \<and> status \<le> 599 then RelayTransport else RelayUnavailable)
            else bind_result (read_chunks RelayTransport RelayResponseRefused limit [] chunks) (\<lambda>body.
              ok_or RelayResponseRefused (d_relay D body))))"

section \<open>Lemmas\<close>

lemma read_chunks_Ok:
  "read_chunks broken refusal limit body chunks = Ok b \<Longrightarrow> length body \<le> limit
    \<Longrightarrow> None \<notin> set chunks \<and> b = body @ concat (map the chunks) \<and> length b \<le> limit"
  by (induction broken refusal limit body chunks rule: read_chunks.induct) (auto split: if_splits)

lemma execute_Ok:
  assumes "execute net P request = Ok body"
  shows "\<exists>status chunks. net request = HttpReply status chunks \<and> status_success status \<and> None \<notin> set chunks
    \<and> body = concat (map the chunks) \<and> length body \<le> max_response_bytes P"
proof -
  from assms obtain status chunks where n: "net request = HttpReply status chunks" "status_success status"
    and r: "read_chunks (refused NetworkFailure (Some status)) (refused ResponseRefusedFailure (Some status))
      (max_response_bytes P) [] chunks = Ok body"
    by (auto simp: execute_def split: HttpReply.splits if_splits)
  from read_chunks_Ok [OF r] n show ?thesis by auto
qed

definition item_accepted :: "decoders \<Rightarrow> rstr \<Rightarrow> ProviderOwnMediaItem \<Rightarrow> bool" where
  "item_accepted D account item \<longleftrightarrow> pm_owner item = account \<and> pm_provider_media_id item \<noteq> []
     \<and> pm_media_type item \<in> {''IMAGE'', ''VIDEO'', ''CAROUSEL_ALBUM''}
     \<and> pm_product_type item \<in> {''FEED'', ''REELS''} \<and> d_scheme D (pm_permalink item) = Some ''https''"

lemma own_media_items_Ok:
  "own_media_items D account seen entries = Ok items
    \<Longrightarrow> map pm_provider_media_id items = map oe_id entries \<and> list_all (item_accepted D account) items
      \<and> distinct (map oe_id entries) \<and> oe_id ` set entries \<inter> set seen = {}"
proof (induction entries arbitrary: seen items)
  case (Cons e entries)
  from Cons.prems obtain item rest where ok: "\<not> own_media_entry_refused D account seen e"
    and r: "own_media_items D account (oe_id e # seen) entries = Ok rest" and items: "items = item # rest"
    and item: "pm_provider_media_id item = oe_id e" "pm_owner item = oe_owner e" "pm_media_type item = oe_media_type e"
      "pm_product_type item = oe_product_type e" "pm_permalink item = oe_permalink e"
    by (auto split: if_splits)
  have "item_accepted D account item" "oe_id e \<notin> set seen"
    using ok by (simp_all add: item own_media_entry_refused_def item_accepted_def)
  with Cons.IH [OF r] show ?case by (simp add: items item)
qed simp

text \<open>The laws a synchronization relies on in a page source: one owner, no repetition, a closed media type.\<close>

locale own_media_source =
  fixes page_of :: "rstr \<Rightarrow> rstr \<Rightarrow> rstr option \<Rightarrow> (ProviderOwnMediaPage, ProviderError) result"
  assumes page_owner: "page_of account token after = Ok page \<Longrightarrow> item \<in> set (page_items page) \<Longrightarrow> pm_owner item = account"
    and page_distinct: "page_of account token after = Ok page \<Longrightarrow> distinct (map pm_provider_media_id (page_items page))"
    and page_type: "page_of account token after = Ok page \<Longrightarrow> item \<in> set (page_items page)
      \<Longrightarrow> pm_media_type item \<in> {''IMAGE'', ''VIDEO'', ''CAROUSEL_ALBUM''}"

lemma parse_own_media_page_Ok:
  assumes "parse_own_media_page D P body account = Ok page"
  shows "page_raw page = body \<and> length body \<le> max_response_bytes P
    \<and> list_all (item_accepted D account) (page_items page) \<and> distinct (map pm_provider_media_id (page_items page))
    \<and> (\<exists>r. d_own_media D body = Some r \<and> page_next page = omr_after r
        \<and> map pm_provider_media_id (page_items page) = map oe_id (omr_data r))"
  using assms
  by (auto simp: parse_own_media_page_def ensure_bounded_def dest: own_media_items_Ok split: if_splits)

lemma own_media_request_bearer:
  assumes "own_media_request D account token after = Ok request"
  shows "rq_bearer request = Some token"
  using assms by (cases after) (auto simp: own_media_request_def get_request_def simp del: ascii_simps split: if_splits)

lemma list_own_media_page_Ok:
  assumes "list_own_media_page D net P account token after = Ok page"
  shows "\<exists>request status chunks. own_media_request D account token after = Ok request
    \<and> net request = HttpReply status chunks \<and> status_success status \<and> None \<notin> set chunks
    \<and> parse_own_media_page D P (concat (map the chunks)) account = Ok page"
  using assms execute_Ok by (fastforce simp: list_own_media_page_def)

lemma listed_items:
  assumes "list_own_media_page D net P account token after = Ok page"
  shows "list_all (item_accepted D account) (page_items page)"
    "distinct (map pm_provider_media_id (page_items page))"
  using list_own_media_page_Ok [OF assms] parse_own_media_page_Ok by blast+

interpretation reqwest: own_media_source "list_own_media_page D net P" for D net P
proof
  fix account token after page item
  assume p: "list_own_media_page D net P account token after = Ok page"
  show "distinct (map pm_provider_media_id (page_items page))" by (rule listed_items [OF p])
  assume "item \<in> set (page_items page)"
  with listed_items(1) [OF p] have "item_accepted D account item" by (simp add: list_all_iff)
  then show "pm_owner item = account" "pm_media_type item \<in> {''IMAGE'', ''VIDEO'', ''CAROUSEL_ALBUM''}"
    by (simp_all add: item_accepted_def)
qed

section \<open>Properties\<close>

text \<open>
  C26. A page of own media is accepted only whole: it is the complete body of a successful reply to a
  request that carries the token in the bearer header, within the size limit; every decoded entry is
  in it, in order, none repeated, each of the connected account, of a known type and product, with an
  https permalink; its cursor is the decoded one and its raw evidence is the body itself.
\<close>
theorem accepted_page_is_whole:
  assumes "list_own_media_page D net P account token after = Ok page"
  shows "\<exists>request status chunks r. net request = HttpReply status chunks \<and> status_success status
    \<and> rq_bearer request = Some token \<and> None \<notin> set chunks
    \<and> page_raw page = concat (map the chunks) \<and> length (page_raw page) \<le> max_response_bytes P
    \<and> d_own_media D (page_raw page) = Some r \<and> page_next page = omr_after r
    \<and> map pm_provider_media_id (page_items page) = map oe_id (omr_data r)
    \<and> distinct (map pm_provider_media_id (page_items page))
    \<and> list_all (item_accepted D account) (page_items page)"
proof -
  from list_own_media_page_Ok [OF assms] obtain request status chunks
    where q: "own_media_request D account token after = Ok request"
    and n: "net request = HttpReply status chunks" "status_success status" "None \<notin> set chunks"
    and p: "parse_own_media_page D P (concat (map the chunks)) account = Ok page" by blast
  from q have "rq_bearer request = Some token" by (rule own_media_request_bearer)
  moreover from parse_own_media_page_Ok [OF p] obtain r where "page_raw page = concat (map the chunks)"
    "length (page_raw page) \<le> max_response_bytes P" "list_all (item_accepted D account) (page_items page)"
    "distinct (map pm_provider_media_id (page_items page))" "d_own_media D (page_raw page) = Some r"
    "page_next page = omr_after r" "map pm_provider_media_id (page_items page) = map oe_id (omr_data r)"
    by (elim conjE exE) simp
  ultimately show ?thesis using n by blast
qed

definition sample_entry :: OwnMediaEntry where
  "sample_entry = \<lparr>oe_id = [49], oe_owner = [55], oe_caption = None, oe_media_type = ''IMAGE'',
     oe_product_type = ''FEED'', oe_media_url = None, oe_permalink = [104], oe_thumbnail_url = None,
     oe_timestamp = [48]\<rparr>"

definition sample_decoders :: decoders where
  "sample_decoders = \<lparr>d_join = Some, d_scheme = \<lambda>_. Some ''https'', d_rfc3339 = \<lambda>_. Some 0, d_account = \<lambda>_. None,
     d_permissions = \<lambda>_. None, d_exchange = \<lambda>_. None, d_refresh = \<lambda>_. None,
     d_own_media = \<lambda>_. Some \<lparr>omr_data = [sample_entry], omr_after = None\<rparr>, d_relay = \<lambda>_. None\<rparr>"

definition sample_client :: ReqwestInstagramProvider where
  "sample_client = \<lparr>client_id = [], client_secret = [], redirect_uri = [], max_response_bytes = 3\<rparr>"

definition sample_item :: ProviderOwnMediaItem where
  "sample_item = \<lparr>pm_provider_media_id = [49], pm_owner = [55], pm_media_type = ''IMAGE'', pm_product_type = ''FEED'',
     pm_permalink = [104], pm_caption = None, pm_published_at = 0, pm_media_url = None, pm_thumbnail_url = None\<rparr>"

lemma sample_page:
  "list_own_media_page sample_decoders (\<lambda>_. HttpReply 200 [Some [1], Some [2, 3]]) sample_client [55] [9] None =
     Ok \<lparr>page_items = [sample_item], page_next = None, page_raw = [1, 2, 3]\<rparr>"
  by (simp add: list_own_media_page_def own_media_request_def joined_def sample_decoders_def execute_def
      status_success_def sample_client_def parse_own_media_page_def ensure_bounded_def own_media_entry_refused_def
      sample_entry_def sample_item_def parse_own_media_timestamp_def)

theorem accepted_page_is_whole_witness:
  "list_all (item_accepted sample_decoders [55]) [sample_item] \<and> length [1 :: u8, 2, 3] \<le> 3"
  using accepted_page_is_whole [OF sample_page] by (auto simp: sample_client_def)

end
