(* ===== verification/Official_Accounts.thy ===== *)
theory Official_Accounts
  imports Credentials Provider_Client
begin

text \<open>
  Model of \<^verbatim>\<open>account.rs\<close>: the tables of connected accounts (\<open>official\<close> extends the capability tables by
  credentials, OAuth flows, the audit trail, the provider ledger and the archive), the refresh of a
  credential with rediscovery, the loss of authorization and the revocation. The provider is a record of
  functions; discovery answers depend on the attempt. A transaction is a function on the tables; the calls
  of a refresh happen between its transactions, which therefore take what was read before as arguments.
\<close>

section \<open>Tables\<close>

record CredentialRow =
  cr_id :: uuid
  cr_account :: uuid
  cr_envelope :: "u8 list"
  cr_refresh_envelope :: "u8 list option"
  cr_key_version :: int
  cr_permissions :: "string list"
  cr_expires_at :: "instant option"
  cr_rotated_at :: "instant option"
  cr_created_at :: instant

record OAuthFlowRow =
  fl_id :: uuid
  fl_user :: uuid
  fl_account :: "uuid option"
  fl_state_hash :: "u8 list"
  fl_redirect_hash :: "u8 list"
  fl_verifier :: "u8 list option"
  fl_key_version :: "int option"
  fl_expires_at :: instant
  fl_consumed_at :: "instant option"
  fl_created_at :: instant

record AuditRow =
  au_id :: uuid
  au_account :: uuid
  au_change :: string
  au_outcome :: string
  au_detail :: "(string \<times> string) list"
  au_at :: instant

record official = AccountTables +
  of_credentials :: "CredentialRow list"
  of_flows :: "OAuthFlowRow list"
  of_audit :: "AuditRow list"
  of_usage :: "UsageRow list"
  of_archive :: archive

datatype ProviderRevokeOutcome = RevokeSucceeded | RevokeFailed | RevokeUnsupported

datatype AccountLifecycleError =
  AccountUnavailable | AccountDatabase | UnsupportedRefresh | AccountCrypto CryptoError
| AccountProvider ProviderError | AccountBudget BudgetError | AccountCapabilityError CapabilityPersistenceError
| AccountPanic

text \<open>
  The provider port: the discovery calls take the number of the attempt. \<open>aj_account\<close> and \<open>aj_permissions\<close>
  are the JSON bodies the evidence rows store.
\<close>

record provider_port =
  pp_exchange :: "rstr \<Rightarrow> (ExchangedToken, ProviderError) result"
  pp_account :: "nat \<Rightarrow> rstr \<Rightarrow> (ProviderAccount, ProviderError) result"
  pp_permissions :: "nat \<Rightarrow> rstr \<Rightarrow> (ProviderPermissions, ProviderError) result"
  pp_refresh :: "rstr \<Rightarrow> (ExchangedToken, ProviderError) result"

record account_json =
  aj_account :: "ProviderAccount \<Rightarrow> u8 list"
  aj_permissions :: "ProviderPermissions \<Rightarrow> u8 list"

section \<open>Identifiers and rows\<close>

definition of_id :: "env \<Rightarrow> 'a official_scheme \<Rightarrow> uuid" where
  "of_id E db = now_v7 E (of_archive db)"

definition of_draw :: "'a official_scheme \<Rightarrow> 'a official_scheme" where
  "of_draw db = db\<lparr>of_archive := drawn (of_archive db)\<rparr>"

definition account_row :: "'a official_scheme \<Rightarrow> uuid \<Rightarrow> AccountRow option" where
  "account_row db i = find (\<lambda>a. acc_account_id a = i) (accounts db)"

definition credential_row :: "'a official_scheme \<Rightarrow> uuid \<Rightarrow> CredentialRow option" where
  "credential_row db i = find (\<lambda>c. cr_account c = i) (of_credentials db)"

definition append_audit ::
  "env \<Rightarrow> 'a official_scheme \<Rightarrow> uuid \<Rightarrow> string \<Rightarrow> string \<Rightarrow> (string \<times> string) list \<Rightarrow> instant \<Rightarrow> 'a official_scheme" where
  "append_audit E db account_id change outcome detail now =
     (of_draw db)\<lparr>of_audit := of_audit db @ [\<lparr>au_id = of_id E db, au_account = account_id, au_change = change,
        au_outcome = outcome, au_detail = detail, au_at = now\<rparr>]\<rparr>"

definition official_account_owned_by :: "'a official_scheme \<Rightarrow> uuid \<Rightarrow> uuid \<Rightarrow> bool" where
  "official_account_owned_by db account_id user \<longleftrightarrow>
     list_ex (\<lambda>a. acc_account_id a = account_id \<and> acc_user a = user) (accounts db)"

text \<open>One reconciled generation: its identifier is drawn first, then one per permission row.\<close>

definition reconcile_in_transaction ::
  "env \<Rightarrow> instant \<Rightarrow> 'a official_scheme \<Rightarrow> uuid \<Rightarrow> AccountObservation \<Rightarrow> 'a official_scheme" where
  "reconcile_in_transaction E now db account_id obs =
     (let n = minted (of_archive db); names = permission_names obs;
          ids = (\<lambda>name. e_now_v7 E (Suc n + length (takeWhile (\<lambda>x. x \<noteq> name) names)));
          db1 = reconcile_account_capabilities ids (e_now_v7 E n) now db account_id obs
      in db1\<lparr>of_archive := (of_archive db1)\<lparr>minted := Suc n + length names\<rparr>\<rparr>)"

definition insert_raw_record ::
  "env \<Rightarrow> 'e \<Rightarrow> 'a official_scheme \<Rightarrow> u8 list \<Rightarrow> instant \<Rightarrow> (uuid \<times> 'a official_scheme, 'e) result" where
  "insert_raw_record E too_large db body now =
     (if 2 ^ 63 \<le> length body then Err too_large
      else Ok (of_id E db, db\<lparr>of_archive := (drawn (of_archive db))\<lparr>raws := raws (of_archive db) @
        [\<lparr>raw_id = of_id E db, raw_kind = ''api_response'', raw_blob_ref = hex_encode (e_sha256 E body),
          raw_hash = e_sha256 E body, raw_size = int (length body), raw_body = body, raw_at = now\<rparr>]\<rparr>\<rparr>))"

definition insert_permission_evidence ::
  "env \<Rightarrow> account_json \<Rightarrow> 'a official_scheme \<Rightarrow> ProviderPermissions \<Rightarrow> instant
     \<Rightarrow> (uuid \<times> 'a official_scheme, AccountLifecycleError) result" where
  "insert_permission_evidence E J db perms now =
     insert_raw_record E AccountUnavailable db (aj_permissions J perms) now"

section \<open>Provider attempts\<close>

fun provider_usage_outcome :: "ProviderFailureClass \<Rightarrow> UsageOutcome" where
  "provider_usage_outcome AuthenticationFailure = UsageAuthentication"
| "provider_usage_outcome ValidationFailure = UsageValidation"
| "provider_usage_outcome RateLimitedFailure = UsageRateLimited"
| "provider_usage_outcome ServerFailure = UsageServer"
| "provider_usage_outcome NetworkFailure = UsageNetwork"
| "provider_usage_outcome ResponseRefusedFailure = UsageResponseRefused"
| "provider_usage_outcome UnsupportedFailure = UsageProviderUnsupported"

fun result_error :: "('a, 'e) result \<Rightarrow> 'e option" where
  "result_error (Ok _) = None"
| "result_error (Err e) = Some e"

definition finish_attempt ::
  "UsageRow list \<Rightarrow> ProviderBudget \<Rightarrow> UsageReservation \<Rightarrow> ProviderError option \<Rightarrow> instant
     \<Rightarrow> UsageRow list \<times> (unit, BudgetError) result" where
  "finish_attempt rows b reservation error now =
     complete rows b reservation
       (case error of None \<Rightarrow> UsageSucceeded | Some e \<Rightarrow> provider_usage_outcome (failure_class e))
       (Option.bind error http_status) no_usage now"

text \<open>Reserve, call, complete: the call is not made when the reservation fails.\<close>

definition provider_attempt ::
  "env \<Rightarrow> instant \<Rightarrow> 'a official_scheme \<Rightarrow> ProviderBudget \<Rightarrow> RequestClass \<Rightarrow> ('b, ProviderError) result
     \<Rightarrow> 'a official_scheme \<times> ProviderBudget \<times> (('b, ProviderError) result, BudgetError) result" where
  "provider_attempt E now db b request answer =
     (case reserve (of_usage db) b (of_id E db) request now of
        (rows, b', Err e) \<Rightarrow> ((of_draw db)\<lparr>of_usage := rows\<rparr>, b', Err e)
      | (rows, b', Ok reservation) \<Rightarrow>
          (case finish_attempt rows b' reservation (result_error answer) now of
             (rows', Err e) \<Rightarrow> ((of_draw db)\<lparr>of_usage := rows'\<rparr>, b', Err e)
           | (rows', Ok _) \<Rightarrow> ((of_draw db)\<lparr>of_usage := rows'\<rparr>, b', Ok answer)))"

datatype attempt_error = AttemptBudget BudgetError | AttemptProvider ProviderError

text \<open>The discovery loops: \<open>retries\<close> further attempts after a failure the profile may retry.\<close>

fun discover ::
  "env \<Rightarrow> instant \<Rightarrow> RequestClass \<Rightarrow> (nat \<Rightarrow> ('b, ProviderError) result) \<Rightarrow> nat \<Rightarrow> nat
     \<Rightarrow> 'a official_scheme \<Rightarrow> ProviderBudget \<Rightarrow> 'a official_scheme \<times> ProviderBudget \<times> ('b, attempt_error) result" where
  "discover E now request call attempt retries db b =
     (case provider_attempt E now db b request (call attempt) of
        (db', b', Err e) \<Rightarrow> (db', b', Err (AttemptBudget e))
      | (db', b', Ok (Ok a)) \<Rightarrow> (db', b', Ok a)
      | (db', b', Ok (Err error)) \<Rightarrow>
          (case retries of
             Suc n \<Rightarrow>
               if should_retry request (failure_class error) then discover E now request call (Suc attempt) n db' b'
               else (db', b', Err (AttemptProvider error))
           | 0 \<Rightarrow> (db', b', Err (AttemptProvider error))))"

declare discover.simps [simp del]

section \<open>Loss of authorization\<close>

definition closed_capability :: "uuid \<Rightarrow> uuid \<Rightarrow> string \<Rightarrow> instant \<Rightarrow> AccountCapability \<Rightarrow> AccountCapabilityRow" where
  "closed_capability account_id generation reason now c =
     \<lparr>ac_account_id = account_id, ac_generation_id = generation, ac_capability = capability_wire c,
      ac_state = ''unavailable'', ac_reason = reason, ac_observed_at = now\<rparr>"

definition close_capabilities :: "env \<Rightarrow> 'a official_scheme \<Rightarrow> uuid \<Rightarrow> string \<Rightarrow> instant \<Rightarrow> 'a official_scheme" where
  "close_capabilities E db account_id reason now =
     (of_draw db)\<lparr>account_capabilities := filter (\<lambda>r. ac_account_id r \<noteq> account_id) (account_capabilities db)
        @ map (closed_capability account_id (of_id E db) reason now) AccountCapability_ALL\<rparr>"

definition set_status ::
  "'a official_scheme \<Rightarrow> uuid \<Rightarrow> uuid \<Rightarrow> ConnectionStatus \<Rightarrow> instant \<Rightarrow> 'a official_scheme" where
  "set_status db account_id user status now =
     db\<lparr>accounts := update_where (\<lambda>a. acc_account_id a = account_id \<and> acc_user a = user)
          (\<lambda>a. a\<lparr>acc_status := status, acc_scopes := [], acc_updated_at := now\<rparr>) (accounts db)\<rparr>"

definition drop_credentials :: "'a official_scheme \<Rightarrow> uuid \<Rightarrow> 'a official_scheme" where
  "drop_credentials db account_id = db\<lparr>of_credentials := filter (\<lambda>c. cr_account c \<noteq> account_id) (of_credentials db)\<rparr>"

definition mark_reauthorization_required ::
  "env \<Rightarrow> 'a official_scheme \<Rightarrow> uuid \<Rightarrow> uuid \<Rightarrow> instant \<Rightarrow> ('a official_scheme, AccountLifecycleError) result" where
  "mark_reauthorization_required E db account_id user now =
     (let db1 = close_capabilities E (drop_credentials db account_id) account_id ''reauthorization_required'' now
      in if rows_affected (\<lambda>a. acc_account_id a = account_id \<and> acc_user a = user) (accounts db1) \<noteq> 1
         then Err AccountUnavailable
         else Ok (append_audit E (set_status db1 account_id user NeedsReauthorization now) account_id
           ''reauthorization_required'' ''authentication_failed'' [] now))"

fun revoke_outcome_wire :: "ProviderRevokeOutcome \<Rightarrow> string" where
  "revoke_outcome_wire RevokeSucceeded = ''succeeded''"
| "revoke_outcome_wire RevokeFailed = ''provider_failed''"
| "revoke_outcome_wire RevokeUnsupported = ''provider_unsupported''"

definition scrub_revoked_account ::
  "env \<Rightarrow> 'a official_scheme \<Rightarrow> uuid \<Rightarrow> uuid \<Rightarrow> ProviderRevokeOutcome \<Rightarrow> instant
     \<Rightarrow> ('a official_scheme, AccountLifecycleError) result" where
  "scrub_revoked_account E db account_id user provider_outcome now =
     (case account_row db account_id of
        None \<Rightarrow> Err AccountUnavailable
      | Some a \<Rightarrow>
          if acc_user a \<noteq> user then Err AccountUnavailable
          else if acc_status a = RevokedConnection then Ok db
          else
            let db1 = drop_credentials db account_id;
                db2 = db1\<lparr>of_flows := filter (\<lambda>f. fl_user f \<noteq> user) (of_flows db1)\<rparr>;
                db3 = close_capabilities E db2 account_id ''revoked'' now;
                outcome = revoke_outcome_wire provider_outcome
            in Ok (append_audit E (set_status db3 account_id user RevokedConnection now) account_id ''revoked''
                 outcome [(''provider_revoke'', outcome)] now))"

fun scrub_all ::
  "env \<Rightarrow> instant \<Rightarrow> (uuid \<times> uuid) list \<Rightarrow> 'a official_scheme \<Rightarrow> 'a official_scheme \<times> (unit, AccountLifecycleError) result" where
  "scrub_all E now [] db = (db, Ok ())"
| "scrub_all E now ((account_id, user) # rest) db =
     (case scrub_revoked_account E db account_id user RevokeFailed now of
        Err e \<Rightarrow> (db, Err e)
      | Ok db' \<Rightarrow> scrub_all E now rest db')"

definition scrub_stranded_revocations ::
  "env \<Rightarrow> 'a official_scheme \<Rightarrow> instant \<Rightarrow> 'a official_scheme \<times> (nat, AccountLifecycleError) result" where
  "scrub_stranded_revocations E db now =
     (let stranded = map (\<lambda>a. (acc_account_id a, acc_user a))
            (sort_key acc_account_id (filter (\<lambda>a. acc_status a = Revoking) (accounts db)))
      in (case scrub_all E now stranded db of
            (db', Err e) \<Rightarrow> (db', Err e)
          | (db', Ok _) \<Rightarrow> (db', Ok (length stranded))))"

section \<open>Refresh\<close>

text \<open>
  The end of a reported lifetime. \<^verbatim>\<open>i64::try_from\<close> drops what does not fit; the addition panics past the
  last representable date, 9999-12-31.
\<close>

definition LAST_INSTANT :: instant where
  "LAST_INSTANT = seconds 253402300800 - 1"

definition expiry :: "instant \<Rightarrow> u64 option \<Rightarrow> instant option option" where
  "expiry now lifetime =
     (case lifetime of
        None \<Rightarrow> Some None
      | Some s \<Rightarrow>
          if 2 ^ 63 \<le> uint s then Some None
          else if LAST_INSTANT < now + seconds (uint s) then None
          else Some (Some (now + seconds (uint s))))"

definition granted_permissions :: "ProviderPermissions \<Rightarrow> string list" where
  "granted_permissions perms = map fst (filter (\<lambda>p. snd p = Granted) perms)"

definition account_binding :: "uuid \<Rightarrow> TokenBinding" where
  "account_binding account_id = \<lparr>subject_id = account_id, token_kind = AccessToken\<rparr>"

text \<open>The transaction that stores a refreshed credential with the capabilities discovered under it.\<close>

definition refresh_commit ::
  "env \<Rightarrow> account_json \<Rightarrow> 'a official_scheme \<Rightarrow> uuid \<Rightarrow> uuid \<Rightarrow> u8 list \<Rightarrow> int \<Rightarrow> instant option \<Rightarrow> ProviderAccount
     \<Rightarrow> ProviderPermissions \<Rightarrow> instant \<Rightarrow> ('a official_scheme, AccountLifecycleError) result" where
  "refresh_commit E J db account_id user envelope key_version expires_at account perms now =
     (if map_option acc_status (find (\<lambda>a. acc_account_id a = account_id \<and> acc_user a = user) (accounts db))
         \<noteq> Some Connected then Err AccountUnavailable
      else (case insert_permission_evidence E J db perms now of
          Err e \<Rightarrow> Err e
        | Ok (raw_record_id, db1) \<Rightarrow>
            let granted = granted_permissions perms;
                db2 = db1\<lparr>of_credentials := update_where (\<lambda>c. cr_account c = account_id)
                  (\<lambda>c. c\<lparr>cr_envelope := envelope, cr_refresh_envelope := None, cr_key_version := key_version,
                     cr_permissions := granted, cr_expires_at := expires_at, cr_rotated_at := Some now\<rparr>)
                  (of_credentials db1)\<rparr>;
                db3 = db2\<lparr>accounts := update_where (\<lambda>a. acc_account_id a = account_id \<and> acc_user a = user)
                  (\<lambda>a. a\<lparr>acc_username := pa_username account,
                     acc_account_type := account_type_wire (pa_account_type account), acc_status := Connected,
                     acc_scopes := granted, acc_updated_at := now\<rparr>) (accounts db2)\<rparr>;
                db4 = append_audit E db3 account_id ''refreshed'' ''succeeded'' [] now
            in Ok (reconcile_in_transaction E now db4 account_id
                 \<lparr>provider_account_id = pa_provider_account_id account, account_type = pa_account_type account,
                  permissions = perms, external_write_consent = False, ao_observed_at = now,
                  ao_raw_record_id = raw_record_id\<rparr>)))"

text \<open>A provider failure of the refresh: lost authorization is recorded before it is returned.\<close>

definition refresh_failure ::
  "env \<Rightarrow> 'a official_scheme \<Rightarrow> uuid \<Rightarrow> uuid \<Rightarrow> instant \<Rightarrow> attempt_error
     \<Rightarrow> 'a official_scheme \<times> ('b, AccountLifecycleError) result" where
  "refresh_failure E db account_id user now failure =
     (case failure of
        AttemptBudget e \<Rightarrow> (db, Err (AccountBudget e))
      | AttemptProvider error \<Rightarrow>
          if failure_class error = AuthenticationFailure
          then (case mark_reauthorization_required E db account_id user now of
                  Err e \<Rightarrow> (db, Err e)
                | Ok db' \<Rightarrow> (db', Err (AccountProvider error)))
          else (db, Err (AccountProvider error)))"

definition refresh_store ::
  "env \<Rightarrow> account_json \<Rightarrow> aead \<Rightarrow> CredentialKeyring \<Rightarrow> u8 list \<Rightarrow> 'a official_scheme \<Rightarrow> uuid \<Rightarrow> uuid
     \<Rightarrow> ExchangedToken \<Rightarrow> ProviderAccount \<Rightarrow> ProviderPermissions \<Rightarrow> instant
     \<Rightarrow> 'a official_scheme \<times> (StoredAccountCapability list, AccountLifecycleError) result" where
  "refresh_store E J A ring nonce db account_id user refreshed account perms now =
     (case account_row db account_id of
        None \<Rightarrow> (db, Err AccountDatabase)
      | Some a \<Rightarrow>
          if acc_provider_id a \<noteq> pa_provider_account_id account then (db, Err AccountUnavailable)
          else (case seal A ring nonce (account_binding account_id) (access_token refreshed) of
              Err e \<Rightarrow> (db, Err (AccountCrypto e))
            | Ok envelope \<Rightarrow>
                if 2 ^ 31 \<le> uint (current_version ring) then (db, Err AccountUnavailable)
                else (case expiry now (expires_in_seconds refreshed) of
                    None \<Rightarrow> (db, Err AccountPanic)
                  | Some expires_at \<Rightarrow>
                      (case refresh_commit E J db account_id user envelope (uint (current_version ring)) expires_at
                         account perms now of
                         Err e \<Rightarrow> (db, Err e)
                       | Ok db' \<Rightarrow> (db', map_err AccountCapabilityError (load_account_capabilities db' account_id))))))"

definition refresh_official_account ::
  "env \<Rightarrow> account_json \<Rightarrow> aead \<Rightarrow> CredentialKeyring \<Rightarrow> u8 list \<Rightarrow> provider_port \<Rightarrow> 'a official_scheme \<Rightarrow> uuid \<Rightarrow> uuid
     \<Rightarrow> u32 \<Rightarrow> u32 \<Rightarrow> bool \<Rightarrow> instant
     \<Rightarrow> 'a official_scheme \<times> (StoredAccountCapability list, AccountLifecycleError) result" where
  "refresh_official_account E J A ring nonce P db account_id user call_budget discovery_retries refresh_supported now =
     (if \<not> refresh_supported then (db, Err UnsupportedRefresh)
      else (case (account_row db account_id, credential_row db account_id) of
          (Some a, Some c) \<Rightarrow>
            if acc_user a \<noteq> user \<or> acc_status a = RevokedConnection then (db, Err AccountUnavailable)
            else (case open_envelope A ring (account_binding account_id) (cr_envelope c) of
                Err e \<Rightarrow> (db, Err (AccountCrypto e))
              | Ok token \<Rightarrow>
                  let b0 = new_budget (of_id E db) (Some account_id) call_budget; db0 = of_draw db
                  in (case discover E now TokenRefresh (\<lambda>_. pp_refresh P token) 0 0 db0 b0 of
                        (db1, b1, Err e) \<Rightarrow> refresh_failure E db1 account_id user now e
                      | (db1, b1, Ok refreshed) \<Rightarrow>
                          (case discover E now AccountDiscovery (\<lambda>k. pp_account P k (access_token refreshed)) 0
                             (unat discovery_retries) db1 b1 of
                             (db2, b2, Err e) \<Rightarrow> refresh_failure E db2 account_id user now e
                           | (db2, b2, Ok account) \<Rightarrow>
                               (case discover E now PermissionDiscovery
                                  (\<lambda>k. pp_permissions P k (access_token refreshed)) 0 (unat discovery_retries) db2 b2 of
                                  (db3, b3, Err e) \<Rightarrow> refresh_failure E db3 account_id user now e
                                | (db3, b3, Ok perms) \<Rightarrow>
                                    refresh_store E J A ring nonce db3 account_id user refreshed account perms
                                      now))))
        | _ \<Rightarrow> (db, Err AccountUnavailable)))"

end
