(* ===== verification/OAuth_Flow.thy ===== *)
theory OAuth_Flow
  imports Official_Accounts
begin

text \<open>
  Model of \<^verbatim>\<open>oauth.rs\<close>: the start of an owner-bound authorization and its single-use completion, with the
  account lifecycle of \<^verbatim>\<open>account.rs\<close> as one transition system. The random bytes, the base64 encoding and
  the relayed claim are arguments; an authorization URL is its endpoint with the query pairs in order.
\<close>

section \<open>Beginning\<close>

record OAuthBegin =
  ob_flow_id :: uuid
  authorization_url :: "rstr \<times> (string \<times> rstr) list"

record ConnectedOfficialAccount =
  co_account_id :: uuid
  co_provider_account_id :: rstr
  co_account_type :: AccountType
  co_capabilities :: "StoredAccountCapability list"

datatype OAuthError =
  OAuthUnavailable | OAuthConfiguration | OAuthCrypto CryptoError | OAuthDatabase | OAuthRelay RelayError
| OAuthProvider ProviderError | OAuthBudget BudgetError | OAuthCapability CapabilityPersistenceError | OAuthPanic

definition state_digest :: "env \<Rightarrow> rstr \<Rightarrow> u8 list" where
  "state_digest E s = e_sha256 E (utf8 s)"

definition flow_conflict :: "'a official_scheme \<Rightarrow> uuid \<Rightarrow> u8 list \<Rightarrow> bool" where
  "flow_conflict db flow_id state_hash \<longleftrightarrow>
     list_ex (\<lambda>f. fl_id f = flow_id \<or> fl_state_hash f = state_hash) (of_flows db)"

definition insert_flow ::
  "env \<Rightarrow> 'a official_scheme \<Rightarrow> OAuthFlowRow \<Rightarrow> ('a official_scheme, OAuthError) result" where
  "insert_flow E db f =
     (if flow_conflict db (fl_id f) (fl_state_hash f) then Err OAuthDatabase
      else Ok (db\<lparr>of_flows := of_flows db @ [f]\<rparr>))"

text \<open>\<open>state_bytes\<close> and \<open>verifier_bytes\<close> are what the generator fills in.\<close>

definition begin_official_oauth ::
  "env \<Rightarrow> (u8 list \<Rightarrow> rstr) \<Rightarrow> aead \<Rightarrow> CredentialKeyring \<Rightarrow> u8 list \<Rightarrow> u8 list \<Rightarrow> u8 list \<Rightarrow> 'a official_scheme \<Rightarrow> uuid
     \<Rightarrow> rstr \<Rightarrow> rstr \<Rightarrow> u64 \<Rightarrow> bool \<Rightarrow> instant \<Rightarrow> 'a official_scheme \<times> (OAuthBegin, OAuthError) result" where
  "begin_official_oauth E b64 A ring nonce state_bytes verifier_bytes db user client redirect ttl pkce_supported now =
     (let flow_id = of_id E db; db0 = of_draw db; state = b64 state_bytes;
          pairs = [(''client_id'', client), (''redirect_uri'', redirect), (''response_type'', ascii ''code''),
            (''scope'', ascii BASIC_READ_SCOPE), (''state'', state)];
          flow = \<lparr>fl_id = flow_id, fl_user = user, fl_account = None, fl_state_hash = state_digest E state,
            fl_redirect_hash = state_digest E redirect, fl_verifier = None, fl_key_version = None,
            fl_expires_at = now + seconds (uint ttl), fl_consumed_at = None, fl_created_at = now\<rparr>
      in if 2 ^ 63 \<le> uint ttl then (db0, Err OAuthConfiguration)
         else if LAST_INSTANT < now + seconds (uint ttl) then (db0, Err OAuthPanic)
         else if \<not> pkce_supported
         then (case insert_flow E db0 flow of
                 Err e \<Rightarrow> (db0, Err e)
               | Ok db' \<Rightarrow> (db', Ok \<lparr>ob_flow_id = flow_id,
                   authorization_url = (ascii AUTHORIZE_ENDPOINT, pairs)\<rparr>))
         else
           let verifier = b64 verifier_bytes; challenge = b64 (e_sha256 E (utf8 verifier))
           in (case seal A ring nonce \<lparr>subject_id = flow_id, token_kind = PkceVerifier\<rparr> verifier of
                 Err e \<Rightarrow> (db0, Err (OAuthCrypto e))
               | Ok envelope \<Rightarrow>
                   if 2 ^ 31 \<le> uint (current_version ring) then (db0, Err OAuthConfiguration)
                   else (case insert_flow E db0 (flow\<lparr>fl_verifier := Some envelope,
                             fl_key_version := Some (uint (current_version ring))\<rparr>) of
                       Err e \<Rightarrow> (db0, Err e)
                     | Ok db' \<Rightarrow> (db', Ok \<lparr>ob_flow_id = flow_id, authorization_url = (ascii AUTHORIZE_ENDPOINT,
                         pairs @ [(''code_challenge'', challenge), (''code_challenge_method'', ascii ''S256'')])\<rparr>))))"

section \<open>Completion\<close>

definition flow_matches :: "uuid \<Rightarrow> u8 list \<Rightarrow> u8 list \<Rightarrow> instant \<Rightarrow> OAuthFlowRow \<Rightarrow> bool" where
  "flow_matches user state_hash redirect_hash now f \<longleftrightarrow>
     fl_user f = user \<and> fl_state_hash f = state_hash \<and> fl_redirect_hash f = redirect_hash
     \<and> fl_consumed_at f = None \<and> now < fl_expires_at f"

definition consume_flow ::
  "'a official_scheme \<Rightarrow> uuid \<Rightarrow> u8 list \<Rightarrow> u8 list \<Rightarrow> instant \<Rightarrow> 'a official_scheme \<times> uuid option" where
  "consume_flow db user state_hash redirect_hash now =
     (db\<lparr>of_flows := update_where (flow_matches user state_hash redirect_hash now)
           (\<lambda>f. f\<lparr>fl_consumed_at := Some now\<rparr>) (of_flows db)\<rparr>,
      map_option fl_id (find (flow_matches user state_hash redirect_hash now) (of_flows db)))"

definition account_by_provider :: "'a official_scheme \<Rightarrow> rstr \<Rightarrow> AccountRow option" where
  "account_by_provider db provider_id = find (\<lambda>a. acc_provider_id a = provider_id) (accounts db)"

text \<open>The upsert on the provider identity: an update only for the same owner.\<close>

definition upsert_account ::
  "'a official_scheme \<Rightarrow> uuid \<Rightarrow> uuid \<Rightarrow> ProviderAccount \<Rightarrow> string list \<Rightarrow> instant
     \<Rightarrow> ('a official_scheme \<times> uuid, OAuthError) result" where
  "upsert_account db candidate user account granted now =
     (case account_by_provider db (pa_provider_account_id account) of
        Some a \<Rightarrow>
          if acc_user a \<noteq> user then Err OAuthUnavailable
          else Ok (db\<lparr>accounts := update_where (\<lambda>x. acc_provider_id x = pa_provider_account_id account)
                 (\<lambda>x. x\<lparr>acc_username := pa_username account,
                    acc_account_type := account_type_wire (pa_account_type account), acc_status := Connected,
                    acc_scopes := granted, acc_updated_at := now\<rparr>) (accounts db)\<rparr>, acc_account_id a)
      | None \<Rightarrow>
          if list_ex (\<lambda>a. acc_account_id a = candidate) (accounts db) then Err OAuthDatabase
          else Ok (db\<lparr>accounts := accounts db @ [\<lparr>acc_account_id = candidate, acc_user = user,
                 acc_provider_id = pa_provider_account_id account, acc_username = pa_username account,
                 acc_account_type = account_type_wire (pa_account_type account), acc_status = Connected,
                 acc_scopes = granted, acc_connected_at = now, acc_updated_at = now\<rparr>]\<rparr>, candidate))"

definition replace_credential ::
  "env \<Rightarrow> 'a official_scheme \<Rightarrow> uuid \<Rightarrow> u8 list \<Rightarrow> int \<Rightarrow> string list \<Rightarrow> instant option \<Rightarrow> instant \<Rightarrow> 'a official_scheme" where
  "replace_credential E db account_id envelope key_version granted expires_at now =
     (of_draw (drop_credentials db account_id))\<lparr>of_credentials := of_credentials (drop_credentials db account_id) @
        [\<lparr>cr_id = of_id E db, cr_account = account_id, cr_envelope = envelope, cr_refresh_envelope = None,
          cr_key_version = key_version, cr_permissions = granted, cr_expires_at = expires_at, cr_rotated_at = None,
          cr_created_at = now\<rparr>]\<rparr>"

text \<open>The connecting transaction: evidence, account, credential, audit and capabilities together.\<close>

definition connect_account ::
  "env \<Rightarrow> account_json \<Rightarrow> aead \<Rightarrow> CredentialKeyring \<Rightarrow> u8 list \<Rightarrow> 'a official_scheme \<Rightarrow> uuid \<Rightarrow> uuid \<Rightarrow> ExchangedToken
     \<Rightarrow> ProviderAccount \<Rightarrow> ProviderPermissions \<Rightarrow> instant \<Rightarrow> ('a official_scheme \<times> uuid, OAuthError) result" where
  "connect_account E J A ring nonce db candidate user exchanged account perms now =
     bind_result (insert_raw_record E OAuthConfiguration db (aj_account J account) now) (\<lambda>(_, db1).
     bind_result (insert_raw_record E OAuthConfiguration db1 (aj_permissions J perms) now) (\<lambda>(permission_raw, db2).
     bind_result (upsert_account db2 candidate user account (granted_permissions perms) now) (\<lambda>(db3, account_id).
     bind_result (map_err OAuthCrypto (seal A ring nonce (account_binding account_id) (access_token exchanged))) (\<lambda>envelope.
       if 2 ^ 31 \<le> uint (current_version ring) then Err OAuthConfiguration
       else (case expiry now (expires_in_seconds exchanged) of
           None \<Rightarrow> Err OAuthPanic
         | Some expires_at \<Rightarrow>
             let db4 = replace_credential E db3 account_id envelope (uint (current_version ring))
                   (granted_permissions perms) expires_at now;
                 db5 = append_audit E db4 account_id ''authorized'' ''succeeded''
                   [(''provider_profile'', ''instagram_login'')] now
             in Ok (reconcile_in_transaction E now db5 account_id
                  \<lparr>provider_account_id = pa_provider_account_id account, account_type = pa_account_type account,
                   permissions = perms, external_write_consent = False, ao_observed_at = now,
                   ao_raw_record_id = permission_raw\<rparr>, account_id))))))"

fun oauth_attempt_error :: "attempt_error \<Rightarrow> OAuthError" where
  "oauth_attempt_error (AttemptBudget e) = OAuthBudget e"
| "oauth_attempt_error (AttemptProvider e) = OAuthProvider e"

definition complete_connection ::
  "env \<Rightarrow> account_json \<Rightarrow> aead \<Rightarrow> CredentialKeyring \<Rightarrow> u8 list \<Rightarrow> 'a official_scheme \<Rightarrow> uuid \<Rightarrow> ExchangedToken
     \<Rightarrow> ProviderAccount \<Rightarrow> ProviderPermissions \<Rightarrow> instant
     \<Rightarrow> 'a official_scheme \<times> (ConnectedOfficialAccount, OAuthError) result" where
  "complete_connection E J A ring nonce db user exchanged account perms now =
     (if exchanged_user_id exchanged \<noteq> pa_provider_account_id account then (db, Err OAuthUnavailable)
      else
        let existing = account_by_provider db (pa_provider_account_id account);
            db' = (case existing of None \<Rightarrow> of_draw db | Some _ \<Rightarrow> db);
            candidate = (case existing of None \<Rightarrow> of_id E db | Some a \<Rightarrow> acc_account_id a)
        in if (case existing of None \<Rightarrow> False | Some a \<Rightarrow> acc_user a \<noteq> user) then (db, Err OAuthUnavailable)
           else (case connect_account E J A ring nonce db' candidate user exchanged account perms now of
               Err e \<Rightarrow> (db', Err e)
             | Ok (db2, account_id) \<Rightarrow>
                 (db2, map_err OAuthCapability (bind_result (load_account_capabilities db2 account_id) (\<lambda>rows.
                    Ok \<lparr>co_account_id = account_id, co_provider_account_id = pa_provider_account_id account,
                        co_account_type = pa_account_type account, co_capabilities = rows\<rparr>)))))"

definition complete_exchange ::
  "env \<Rightarrow> account_json \<Rightarrow> aead \<Rightarrow> CredentialKeyring \<Rightarrow> u8 list \<Rightarrow> provider_port \<Rightarrow> 'a official_scheme \<Rightarrow> uuid \<Rightarrow> rstr
     \<Rightarrow> u32 \<Rightarrow> u32 \<Rightarrow> instant \<Rightarrow> 'a official_scheme \<times> (ConnectedOfficialAccount, OAuthError) result" where
  "complete_exchange E J A ring nonce P db user code call_budget discovery_retries now =
     (let b0 = new_budget (of_id E db) None call_budget; db0 = of_draw db
      in (case discover E now CodeExchange (\<lambda>_. pp_exchange P code) 0 0 db0 b0 of
            (db1, b1, Err e) \<Rightarrow> (db1, Err (oauth_attempt_error e))
          | (db1, b1, Ok exchanged) \<Rightarrow>
              (case discover E now AccountDiscovery (\<lambda>k. pp_account P k (access_token exchanged)) 0
                 (unat discovery_retries) db1 b1 of
                 (db2, b2, Err e) \<Rightarrow> (db2, Err (oauth_attempt_error e))
               | (db2, b2, Ok account) \<Rightarrow>
                   (case discover E now PermissionDiscovery (\<lambda>k. pp_permissions P k (access_token exchanged)) 0
                      (unat discovery_retries) db2 b2 of
                      (db3, b3, Err e) \<Rightarrow> (db3, Err (oauth_attempt_error e))
                    | (db3, b3, Ok perms) \<Rightarrow>
                        complete_connection E J A ring nonce db3 user exchanged account perms now))))"

definition complete_official_oauth ::
  "env \<Rightarrow> account_json \<Rightarrow> aead \<Rightarrow> CredentialKeyring \<Rightarrow> u8 list \<Rightarrow> provider_port \<Rightarrow> (rstr \<Rightarrow> (RelayClaim, RelayError) result)
     \<Rightarrow> 'a official_scheme \<Rightarrow> uuid \<Rightarrow> rstr \<Rightarrow> rstr \<Rightarrow> u32 \<Rightarrow> u32 \<Rightarrow> instant
     \<Rightarrow> 'a official_scheme \<times> (ConnectedOfficialAccount, OAuthError) result" where
  "complete_official_oauth E J A ring nonce P relay db user relay_id redirect call_budget discovery_retries now =
     (case relay relay_id of
        Err e \<Rightarrow> (db, Err (OAuthRelay e))
      | Ok claim \<Rightarrow>
          if claim_user claim \<noteq> user \<or> claim_redirect claim \<noteq> redirect then (db, Err OAuthUnavailable)
          else (case consume_flow db user (state_digest E (claim_state claim)) (state_digest E redirect) now of
              (db1, None) \<Rightarrow> (db1, Err OAuthUnavailable)
            | (db1, Some _) \<Rightarrow>
                complete_exchange E J A ring nonce P db1 user (claim_code claim) call_budget discovery_retries now))"

end
