(* ===== verification/Account_History.thy ===== *)
theory Account_History
  imports OAuth_Flow
begin

text \<open>
  The transactions of \<^verbatim>\<open>oauth.rs\<close> and \<^verbatim>\<open>account.rs\<close> as one transition system, in any interleaving: a
  completion or a refresh is a sequence of ledger entries and at most one closing transaction, and what
  happens in between is another process's transaction. Reconciliation of capabilities happens inside
  those transactions; the public \<^verbatim>\<open>reconcile_account_capabilities\<close>, which wraps it in a transaction of its
  own, is called by tests only and is not a step.
\<close>

section \<open>Transitions\<close>

inductive account_step ::
  "env \<Rightarrow> account_json \<Rightarrow> aead \<Rightarrow> CredentialKeyring \<Rightarrow> 'a official_scheme \<Rightarrow> 'a official_scheme \<Rightarrow> bool" for E J A ring where
  step_ledger: "account_step E J A ring db (db\<lparr>of_usage := rows, of_archive := (of_archive db)\<lparr>minted := n\<rparr>\<rparr>)"
| step_begin: "insert_flow E db f = Ok db' \<Longrightarrow> account_step E J A ring db db'"
| step_consume: "account_step E J A ring db (fst (consume_flow db user state_hash redirect_hash now))"
| step_connect: "connect_account E J A ring nonce db candidate user exchanged account perms now = Ok (db', account_id)
    \<Longrightarrow> account_step E J A ring db db'"
| step_refresh: "refresh_commit E J db account_id user envelope key_version expires_at account perms now = Ok db'
    \<Longrightarrow> account_step E J A ring db db'"
| step_reauthorize: "mark_reauthorization_required E db account_id user now = Ok db' \<Longrightarrow> account_step E J A ring db db'"
| step_scrub: "scrub_revoked_account E db account_id user outcome now = Ok db' \<Longrightarrow> account_step E J A ring db db'"

section \<open>Invariant\<close>

definition holds_secret :: "ConnectionStatus \<Rightarrow> bool" where
  "holds_secret s \<longleftrightarrow> s \<in> {Connected, Revoking}"

definition capabilities_of :: "'a AccountTables_scheme \<Rightarrow> uuid \<Rightarrow> AccountCapabilityRow list" where
  "capabilities_of db i = filter (\<lambda>r. ac_account_id r = i) (account_capabilities db)"

definition account_settled :: "'a official_scheme \<Rightarrow> AccountRow \<Rightarrow> bool" where
  "account_settled db a \<longleftrightarrow>
     map ac_capability (capabilities_of db (acc_account_id a)) = map capability_wire AccountCapability_ALL
     \<and> (\<not> holds_secret (acc_status a) \<longrightarrow>
          list_all (\<lambda>r. ac_state r = ''unavailable'') (capabilities_of db (acc_account_id a))
          \<and> acc_account_id a \<notin> cr_account ` set (of_credentials db))"

definition accounts_inv :: "'a official_scheme \<Rightarrow> bool" where
  "accounts_inv db \<longleftrightarrow>
     distinct (map acc_account_id (accounts db)) \<and> distinct (map acc_provider_id (accounts db))
     \<and> distinct (map fl_state_hash (of_flows db)) \<and> distinct (map cr_account (of_credentials db))
     \<and> cr_account ` set (of_credentials db) \<subseteq> acc_account_id ` set (accounts db)
     \<and> (\<forall>a \<in> set (accounts db). account_settled db a)"

text \<open>What the invariant reads of the tables.\<close>

lemma accounts_inv_cong:
  assumes "accounts db' = accounts db" "map fl_state_hash (of_flows db') = map fl_state_hash (of_flows db)"
    "map cr_account (of_credentials db') = map cr_account (of_credentials db)"
    "account_capabilities db' = account_capabilities db"
  shows "accounts_inv db' \<longleftrightarrow> accounts_inv db"
proof -
  have "cr_account ` set (of_credentials db') = cr_account ` set (of_credentials db)"
    using arg_cong [OF assms(3), of set] by simp
  then show ?thesis
    by (simp add: accounts_inv_def account_settled_def capabilities_of_def assms)
qed

text \<open>
  Every account transaction touches one account: it keeps the other accounts' rows, capabilities and
  credentials, and leaves the account settled. \<open>touches\<close> says what that is, and the invariant follows once.
\<close>

definition touches :: "uuid \<Rightarrow> 'a official_scheme \<Rightarrow> 'a official_scheme \<Rightarrow> bool" where
  "touches i db db' \<longleftrightarrow>
     (\<forall>j. j \<noteq> i \<longrightarrow> capabilities_of db' j = capabilities_of db j
        \<and> filter (\<lambda>c. cr_account c = j) (of_credentials db') = filter (\<lambda>c. cr_account c = j) (of_credentials db)
        \<and> (\<forall>a. acc_account_id a = j \<longrightarrow> (a \<in> set (accounts db') \<longleftrightarrow> a \<in> set (accounts db))))"

lemma credential_filter_mem:
  "j \<in> cr_account ` set cs \<longleftrightarrow> filter (\<lambda>c. cr_account c = j) cs \<noteq> []"
  by (induction cs) auto

lemma touches_inv:
  assumes inv: "accounts_inv db" and t: "touches i db db'"
    and keys: "distinct (map acc_account_id (accounts db'))" "distinct (map acc_provider_id (accounts db'))"
    and flows: "distinct (map fl_state_hash (of_flows db'))"
    and creds: "distinct (map cr_account (of_credentials db'))"
    and here: "i \<in> acc_account_id ` set (accounts db') \<or> i \<notin> cr_account ` set (of_credentials db')"
    and settled: "\<And>a. a \<in> set (accounts db') \<Longrightarrow> acc_account_id a = i \<Longrightarrow> account_settled db' a"
  shows "accounts_inv db'"
proof -
  have other: "account_settled db' a" if "a \<in> set (accounts db')" "acc_account_id a \<noteq> i" for a
  proof -
    from that t have "a \<in> set (accounts db)" unfolding touches_def by blast
    with inv have s: "account_settled db a" by (simp add: accounts_inv_def)
    have "capabilities_of db' (acc_account_id a) = capabilities_of db (acc_account_id a)"
      "acc_account_id a \<in> cr_account ` set (of_credentials db') \<longleftrightarrow> acc_account_id a \<in> cr_account ` set (of_credentials db)"
      using t that(2) unfolding touches_def credential_filter_mem by metis+
    with s show ?thesis by (simp add: account_settled_def)
  qed
  have "j \<in> acc_account_id ` set (accounts db')" if j: "j \<in> cr_account ` set (of_credentials db')" for j
  proof (cases "j = i")
    case True
    with here j show ?thesis by blast
  next
    case False
    with t j have "j \<in> cr_account ` set (of_credentials db)" unfolding touches_def credential_filter_mem by metis
    with inv obtain a where "a \<in> set (accounts db)" "acc_account_id a = j" by (auto simp: accounts_inv_def)
    with t False have "a \<in> set (accounts db')" unfolding touches_def by blast
    with \<open>acc_account_id a = j\<close> show ?thesis by blast
  qed
  then show ?thesis using keys flows creds other settled unfolding accounts_inv_def by blast
qed

section \<open>Closing transactions\<close>

lemmas closing_defs = close_capabilities_def set_status_def drop_credentials_def append_audit_def of_draw_def

text \<open>What \<open>mark_reauthorization_required\<close> and \<open>scrub_revoked_account\<close> leave behind.\<close>

definition closed_account :: "uuid \<Rightarrow> uuid \<Rightarrow> ConnectionStatus \<Rightarrow> 'a official_scheme \<Rightarrow> 'a official_scheme \<Rightarrow> bool" where
  "closed_account i user status db db' \<longleftrightarrow>
     (\<exists>reason now g. accounts db' = update_where (\<lambda>a. acc_account_id a = i \<and> acc_user a = user)
          (\<lambda>a. a\<lparr>acc_status := status, acc_scopes := [], acc_updated_at := now\<rparr>) (accounts db)
        \<and> account_capabilities db' = filter (\<lambda>r. ac_account_id r \<noteq> i) (account_capabilities db)
            @ map (closed_capability i g reason now) AccountCapability_ALL)
     \<and> of_credentials db' = filter (\<lambda>c. cr_account c \<noteq> i) (of_credentials db)
     \<and> (\<exists>P. of_flows db' = filter P (of_flows db))
     \<and> (\<exists>a \<in> set (accounts db). acc_account_id a = i \<and> acc_user a = user)"

lemma closed_accountI:
  assumes "accounts db' = update_where (\<lambda>a. acc_account_id a = i \<and> acc_user a = user)
      (\<lambda>a. a\<lparr>acc_status := status, acc_scopes := [], acc_updated_at := now\<rparr>) (accounts db)"
    "account_capabilities db' = filter (\<lambda>r. ac_account_id r \<noteq> i) (account_capabilities db)
      @ map (closed_capability i g reason now) AccountCapability_ALL"
    "of_credentials db' = filter (\<lambda>c. cr_account c \<noteq> i) (of_credentials db)"
    "of_flows db' = filter P (of_flows db)" "a \<in> set (accounts db)" "acc_account_id a = i" "acc_user a = user"
  shows "closed_account i user status db db'"
  using assms unfolding closed_account_def by blast

lemma mark_reauthorization_closes:
  assumes "mark_reauthorization_required E db i user now = Ok db'"
  shows "closed_account i user NeedsReauthorization db db'"
proof -
  from assms have "rows_affected (\<lambda>a. acc_account_id a = i \<and> acc_user a = user) (accounts db) = 1"
    by (auto simp: mark_reauthorization_required_def Let_def closing_defs split: if_splits)
  then obtain a where "a \<in> set (accounts db)" "acc_account_id a = i" "acc_user a = user"
    by (metis (mono_tags, lifting) filter_False length_0_conv rows_affected_def zero_neq_one)
  with assms show ?thesis
    by (intro closed_accountI [where P = "\<lambda>_. True" and now = now and reason = "''reauthorization_required''"
          and g = "of_id E (drop_credentials db i)"])
      (auto simp: mark_reauthorization_required_def Let_def closing_defs split: if_splits)
qed

lemma scrub_closes:
  assumes "scrub_revoked_account E db i user outcome now = Ok db'"
  shows "db' = db \<or> closed_account i user RevokedConnection db db'"
proof -
  from assms obtain a where a: "account_row db i = Some a" "acc_user a = user"
    by (auto simp: scrub_revoked_account_def split: option.splits if_splits)
  from find_Some_memD [OF a(1) [unfolded account_row_def]] have m: "a \<in> set (accounts db)" "acc_account_id a = i"
    by simp_all
  show ?thesis
  proof (cases "acc_status a = RevokedConnection")
    case True
    with assms a show ?thesis by (simp add: scrub_revoked_account_def)
  next
    case False
    with assms a m show ?thesis
      by (intro disjI2 closed_accountI [where P = "\<lambda>f. fl_user f \<noteq> user" and now = now and reason = "''revoked''"
            and g = "of_id E db" and a = a])
        (auto simp: scrub_revoked_account_def Let_def closing_defs of_id_def)
  qed
qed

lemma capabilities_replaced:
  assumes "account_capabilities db' = filter (\<lambda>r. ac_account_id r \<noteq> i) (account_capabilities db) @ rows"
    "list_all (\<lambda>r. ac_account_id r = i) rows"
  shows "capabilities_of db' j = (if j = i then rows else capabilities_of db j)"
  using assms by (auto simp: capabilities_of_def filter_empty_conv list_all_iff intro: filter_cong)

lemma update_whereD:
  assumes "a \<in> set (update_where P f t)"
  shows "\<exists>r \<in> set t. a = (if P r then f r else r)"
  using assms by (auto simp: set_update_where)

lemma update_where_mem_other:
  assumes "\<And>r. key (f r) = key r" "\<And>r. r \<in> set t \<Longrightarrow> P r \<Longrightarrow> key r = i" "key a \<noteq> i"
  shows "a \<in> set (update_where P f t) \<longleftrightarrow> a \<in> set t"
  using assms by (auto simp: set_update_where image_iff)

lemma accounts_key:
  assumes "accounts db' = update_where P f (accounts db)"
    "\<And>a. acc_account_id (f a) = acc_account_id a" "\<And>a. acc_provider_id (f a) = acc_provider_id a"
  shows "map acc_account_id (accounts db') = map acc_account_id (accounts db)"
    "map acc_provider_id (accounts db') = map acc_provider_id (accounts db)"
  using assms by (simp_all add: map_update_where_same)

lemma closed_account_inv:
  assumes inv: "accounts_inv db" and c: "closed_account i user status db db'" and st: "\<not> holds_secret status"
  shows "accounts_inv db'"
proof -
  from c obtain reason now g P a0 where
    acc: "accounts db' = update_where (\<lambda>a. acc_account_id a = i \<and> acc_user a = user)
      (\<lambda>a. a\<lparr>acc_status := status, acc_scopes := [], acc_updated_at := now\<rparr>) (accounts db)"
    and caps: "account_capabilities db' = filter (\<lambda>r. ac_account_id r \<noteq> i) (account_capabilities db)
      @ map (closed_capability i g reason now) AccountCapability_ALL"
    and creds: "of_credentials db' = filter (\<lambda>c. cr_account c \<noteq> i) (of_credentials db)"
    and flows: "of_flows db' = filter P (of_flows db)"
    and a0: "a0 \<in> set (accounts db)" "acc_account_id a0 = i" "acc_user a0 = user"
    unfolding closed_account_def by blast
  have cap: "capabilities_of db' j = (if j = i then map (closed_capability i g reason now) AccountCapability_ALL
      else capabilities_of db j)" for j
    by (rule capabilities_replaced [OF caps]) (simp add: list_all_iff closed_capability_def)
  have none: "i \<notin> cr_account ` set (of_credentials db')" by (auto simp: creds)
  note keys = accounts_key [OF acc, simplified]
  have mem: "a \<in> set (accounts db') \<longleftrightarrow> a \<in> set (accounts db)" if "acc_account_id a \<noteq> i" for a
    unfolding acc by (rule update_where_mem_other [of acc_account_id, OF _ _ that]) auto
  show ?thesis
  proof (rule touches_inv [OF inv])
    show "touches i db db'"
      using mem unfolding touches_def creds cap by (auto intro: filter_cong)
    show "distinct (map acc_account_id (accounts db'))" "distinct (map acc_provider_id (accounts db'))"
      using inv by (simp_all add: keys accounts_inv_def)
    show "distinct (map fl_state_hash (of_flows db'))" "distinct (map cr_account (of_credentials db'))"
      using inv by (simp_all add: flows creds accounts_inv_def distinct_map_filter)
    show "i \<in> acc_account_id ` set (accounts db') \<or> i \<notin> cr_account ` set (of_credentials db')" using none by blast
    fix a assume a: "a \<in> set (accounts db')" "acc_account_id a = i"
    then obtain r where r1: "r \<in> set (accounts db)" and ar: "a = (if acc_account_id r = i \<and> acc_user r = user
        then r\<lparr>acc_status := status, acc_scopes := [], acc_updated_at := now\<rparr> else r)"
      unfolding acc set_update_where by blast
    have "acc_account_id r = i" using a(2) unfolding ar by (simp split: if_splits)
    note r = r1 this
    have "inj_on acc_account_id (set (accounts db))" using inv by (simp add: accounts_inv_def distinct_map)
    from inj_onD [OF this _ r(1) a0(1)] have "r = a0" using r(2) a0(2) by simp
    then have "acc_status a = status" using a0 unfolding ar by simp
    with none cap a(2) show "account_settled db' a"
      by (simp add: account_settled_def list_all_iff closed_capability_def comp_def)
  qed
qed

section \<open>Connecting transactions\<close>

text \<open>What a connection and a refresh leave: the account connected, one reconciled generation, its credential.\<close>

definition opened_account :: "uuid \<Rightarrow> 'a official_scheme \<Rightarrow> 'a official_scheme \<Rightarrow> bool" where
  "opened_account i db db' \<longleftrightarrow>
     (\<exists>g obs. account_capabilities db' = filter (\<lambda>r. ac_account_id r \<noteq> i) (account_capabilities db)
            @ map (capability_row i g obs) (reconcile obs))
     \<and> of_flows db' = of_flows db
     \<and> distinct (map acc_account_id (accounts db')) \<and> distinct (map acc_provider_id (accounts db'))
     \<and> distinct (map cr_account (of_credentials db'))
     \<and> (\<forall>j. j \<noteq> i \<longrightarrow> filter (\<lambda>c. cr_account c = j) (of_credentials db') = filter (\<lambda>c. cr_account c = j) (of_credentials db)
          \<and> (\<forall>a. acc_account_id a = j \<longrightarrow> (a \<in> set (accounts db') \<longleftrightarrow> a \<in> set (accounts db))))
     \<and> i \<in> acc_account_id ` set (accounts db')
     \<and> (\<forall>a \<in> set (accounts db'). acc_account_id a = i \<longrightarrow> acc_status a = Connected)"

lemma opened_account_inv:
  assumes inv: "accounts_inv db" and op: "opened_account i db db'"
  shows "accounts_inv db'"
proof -
  from op obtain g obs where caps: "account_capabilities db' = filter (\<lambda>r. ac_account_id r \<noteq> i) (account_capabilities db)
      @ map (capability_row i g obs) (reconcile obs)" unfolding opened_account_def by blast
  have cap: "capabilities_of db' j = (if j = i then map (capability_row i g obs) (reconcile obs)
      else capabilities_of db j)" for j
    by (rule capabilities_replaced [OF caps]) (simp add: list_all_iff capability_row_def)
  show ?thesis
  proof (rule touches_inv [OF inv])
    show "touches i db db'" using op unfolding touches_def opened_account_def cap by simp
    show "distinct (map fl_state_hash (of_flows db'))"
      using op inv by (simp add: opened_account_def accounts_inv_def)
    fix a assume a: "a \<in> set (accounts db')" "acc_account_id a = i"
    with op have "acc_status a = Connected" unfolding opened_account_def by blast
    with a show "account_settled db' a"
      by (simp add: account_settled_def cap holds_secret_def capability_row_def reconcile_def comp_def)
  qed (use op in \<open>simp_all add: opened_account_def\<close>)
qed

lemma reconcile_in_transaction_tables:
  defines "r \<equiv> \<lambda>E now db i obs. reconcile_in_transaction E now db i obs"
  shows "of_credentials (r E now db i obs) = of_credentials db" "of_flows (r E now db i obs) = of_flows db"
    "of_usage (r E now db i obs) = of_usage db" "of_audit (r E now db i obs) = of_audit db"
    "accounts (r E now db i obs) = update_where (\<lambda>r. acc_account_id r = i)
      (\<lambda>r. r\<lparr>acc_account_type := account_type_wire (account_type obs),
         acc_scopes := map fst (filter (\<lambda>p. snd p = Granted) (permissions obs)), acc_updated_at := now\<rparr>) (accounts db)"
    "account_capabilities (r E now db i obs) = filter (\<lambda>r. ac_account_id r \<noteq> i) (account_capabilities db)
      @ map (capability_row i (e_now_v7 E (minted (of_archive db))) obs) (reconcile obs)"
  by (simp_all add: r_def reconcile_in_transaction_def reconcile_account_capabilities_def Let_def)

lemma insert_raw_tables:
  assumes "insert_raw_record E e db body now = Ok (i, db')"
  shows "accounts db' = accounts db" "account_capabilities db' = account_capabilities db"
    "of_credentials db' = of_credentials db" "of_flows db' = of_flows db"
  using assms by (auto simp: insert_raw_record_def split: if_splits)

text \<open>A later update of the account's row that keeps its keys and status keeps an opened account.\<close>

lemma opened_after_reconcile:
  assumes keys: "distinct (map acc_account_id (accounts db1))" "distinct (map acc_provider_id (accounts db1))"
    and caps: "account_capabilities db1 = account_capabilities db" and flows: "of_flows db1 = of_flows db"
    and creds: "distinct (map cr_account (of_credentials db1))"
      "\<And>j. j \<noteq> i \<Longrightarrow> filter (\<lambda>c. cr_account c = j) (of_credentials db1) = filter (\<lambda>c. cr_account c = j) (of_credentials db)"
    and others: "\<And>a. acc_account_id a \<noteq> i \<Longrightarrow> a \<in> set (accounts db1) \<longleftrightarrow> a \<in> set (accounts db)"
    and here: "i \<in> acc_account_id ` set (accounts db1)"
    and conn: "\<And>a. a \<in> set (accounts db1) \<Longrightarrow> acc_account_id a = i \<Longrightarrow> acc_status a = Connected"
  shows "opened_account i db (reconcile_in_transaction E now db1 i obs)"
proof -
  note tab = reconcile_in_transaction_tables [of E now db1 i obs]
  note key = accounts_key [OF tab(5), simplified]
  have mem: "a \<in> set (accounts (reconcile_in_transaction E now db1 i obs)) \<longleftrightarrow> a \<in> set (accounts db1)"
    if "acc_account_id a \<noteq> i" for a
    unfolding tab(5) by (rule update_where_mem_other [of acc_account_id, OF _ _ that]) auto
  have ids: "acc_account_id ` set (accounts (reconcile_in_transaction E now db1 i obs)) = acc_account_id ` set (accounts db1)"
    using arg_cong [OF key(1), of set] by simp
  have st: "acc_status a = Connected"
    if "a \<in> set (accounts (reconcile_in_transaction E now db1 i obs))" "acc_account_id a = i" for a
  proof -
    from update_whereD [OF that(1) [unfolded tab(5)]] obtain r where "r \<in> set (accounts db1)" "acc_account_id r = acc_account_id a"
      "acc_status a = acc_status r" by (auto split: if_splits)
    with conn that(2) show ?thesis by simp
  qed
  have oth: "filter (\<lambda>c. cr_account c = j) (of_credentials db1) = filter (\<lambda>c. cr_account c = j) (of_credentials db)
      \<and> (\<forall>a. acc_account_id a = j \<longrightarrow> (a \<in> set (accounts (reconcile_in_transaction E now db1 i obs)) \<longleftrightarrow> a \<in> set (accounts db)))"
    if "j \<noteq> i" for j
  proof (intro conjI allI impI creds(2) that)
    fix a :: AccountRow
    assume "acc_account_id a = j"
    with that have "acc_account_id a \<noteq> i" by simp
    from mem [OF this] others [OF this]
    show "a \<in> set (accounts (reconcile_in_transaction E now db1 i obs)) \<longleftrightarrow> a \<in> set (accounts db)" by (rule trans)
  qed
  have cap: "\<exists>g obs'. account_capabilities (reconcile_in_transaction E now db1 i obs) =
      filter (\<lambda>r. ac_account_id r \<noteq> i) (account_capabilities db) @ map (capability_row i g obs') (reconcile obs')"
    unfolding tab(6) caps by (intro exI) (rule refl)
  show ?thesis
    unfolding opened_account_def
    using cap oth keys creds(1) here st flows unfolding tab(1,2) key ids by blast
qed

lemma upsert_account_Ok:
  assumes inv: "accounts_inv db" and acc: "accounts db2 = accounts db"
    and u: "upsert_account db2 candidate user account granted now = Ok (db3, i)"
  shows "distinct (map acc_account_id (accounts db3))" "distinct (map acc_provider_id (accounts db3))"
    "\<And>a. acc_account_id a \<noteq> i \<Longrightarrow> a \<in> set (accounts db3) \<longleftrightarrow> a \<in> set (accounts db)"
    "i \<in> acc_account_id ` set (accounts db3)"
    "\<And>a. a \<in> set (accounts db3) \<Longrightarrow> acc_account_id a = i \<Longrightarrow> acc_status a = Connected"
    "\<exists>rows. db3 = db2\<lparr>accounts := rows\<rparr>"
proof -
  have d: "distinct (map acc_account_id (accounts db))" "distinct (map acc_provider_id (accounts db))"
    using inv by (simp_all add: accounts_inv_def)
  let ?p = "pa_provider_account_id account"
  define f :: "AccountRow \<Rightarrow> AccountRow" where "f = (\<lambda>x. x\<lparr>acc_username := pa_username account,
     acc_account_type := account_type_wire (pa_account_type account), acc_status := Connected,
     acc_scopes := granted, acc_updated_at := now\<rparr>)"
  have f: "acc_account_id (f x) = acc_account_id x" "acc_provider_id (f x) = acc_provider_id x"
    "acc_status (f x) = Connected" for x :: AccountRow by (simp_all add: f_def)
  show "\<exists>rows. db3 = db2\<lparr>accounts := rows\<rparr>"
    using u by (auto simp: upsert_account_def split: option.splits if_splits)
  consider (old) a where "a \<in> set (accounts db)" "acc_provider_id a = ?p" "i = acc_account_id a"
      "accounts db3 = update_where (\<lambda>x. acc_provider_id x = ?p) f (accounts db)"
    | (new) n where "accounts db3 = accounts db @ [n]" "acc_account_id n = i" "acc_provider_id n = ?p"
      "acc_status n = Connected" "i \<notin> acc_account_id ` set (accounts db)" "?p \<notin> acc_provider_id ` set (accounts db)"
  proof (cases "account_by_provider db2 ?p")
    case None
    have "?p \<notin> acc_provider_id ` set (accounts db)"
      using find_None_memD [OF None [unfolded account_by_provider_def acc]] by (metis imageE)
    with None u acc show ?thesis
      by (intro that(2)) (auto simp: upsert_account_def list_ex_iff split: if_splits)
  next
    case (Some a)
    with find_Some_memD [OF Some [unfolded account_by_provider_def]] u acc show ?thesis
      by (intro that(1) [of a]) (auto simp: upsert_account_def f_def split: if_splits)
  qed
  note c = this
  show "distinct (map acc_account_id (accounts db3))" "distinct (map acc_provider_id (accounts db3))"
    using c d by (cases; simp add: map_update_where_same f)+
  show "i \<in> acc_account_id ` set (accounts db3)"
    using c
  proof cases
    case old
    then have "map acc_account_id (accounts db3) = map acc_account_id (accounts db)"
      by (simp add: map_update_where_same f)
    from arg_cong [OF this, of set] old(1,3) show ?thesis by simp
  qed auto
  have only: "acc_account_id r = i" if "r \<in> set (accounts db)" "acc_provider_id r = ?p" "a \<in> set (accounts db)"
    "acc_provider_id a = ?p" "i = acc_account_id a" for r a
    using d(2) that by (metis (mono_tags) distinct_map inj_onD)
  show "a \<in> set (accounts db3) \<longleftrightarrow> a \<in> set (accounts db)" if "acc_account_id a \<noteq> i" for a
    using c
  proof cases
    case (old a0)
    show ?thesis unfolding old(4)
      by (rule update_where_mem_other [of acc_account_id, OF f(1) only [OF _ _ old(1-3)] that])
  qed (use that in auto)
  show "acc_status a = Connected" if a: "a \<in> set (accounts db3)" "acc_account_id a = i" for a
    using c
  proof cases
    case (old a0)
    from update_whereD [OF a(1) [unfolded old(4)]] obtain r where r: "r \<in> set (accounts db)"
      "a = (if acc_provider_id r = ?p then f r else r)" by blast
    with a(2) f old(3) have "acc_account_id r = acc_account_id a0" by (auto split: if_splits)
    then have "r = a0" using d(1) r(1) old(1) by (metis (mono_tags) distinct_map inj_onD)
    with r(2) old(2) f(3) show ?thesis by simp
  next
    case (new n)
    with a show ?thesis by force
  qed
qed

lemma connect_opens:
  assumes inv: "accounts_inv db"
    and c: "connect_account E J A ring nonce db candidate user exchanged account perms now = Ok (db', i)"
  shows "opened_account i db db'"
proof -
  from c obtain r1 db1 r2 db2 db3 envelope expires_at where
    raw: "insert_raw_record E OAuthConfiguration db (aj_account J account) now = Ok (r1, db1)"
      "insert_raw_record E OAuthConfiguration db1 (aj_permissions J perms) now = Ok (r2, db2)"
    and up: "upsert_account db2 candidate user account (granted_permissions perms) now = Ok (db3, i)"
    and db': "db' = reconcile_in_transaction E now (append_audit E (replace_credential E db3 i envelope
        (uint (current_version ring)) (granted_permissions perms) expires_at now) i ''authorized'' ''succeeded''
        [(''provider_profile'', ''instagram_login'')] now) i
      \<lparr>provider_account_id = pa_provider_account_id account, account_type = pa_account_type account,
       permissions = perms, external_write_consent = False, ao_observed_at = now, ao_raw_record_id = r2\<rparr>"
    by (auto simp: connect_account_def Let_def split: if_splits option.splits)
  note tab = insert_raw_tables [OF raw(1)] insert_raw_tables [OF raw(2)]
  have acc: "accounts db2 = accounts db" by (simp add: tab)
  note u = upsert_account_Ok [OF inv acc up]
  from u(6) have same: "account_capabilities db3 = account_capabilities db" "of_flows db3 = of_flows db"
    "of_credentials db3 = of_credentials db" by (auto simp: tab)
  have fil: "filter (\<lambda>c. cr_account c \<noteq> i \<and> cr_account c = j) (of_credentials db) =
      filter (\<lambda>c. cr_account c = j) (of_credentials db)" if "j \<noteq> i" for j
    using that by (auto intro: filter_cong)
  show ?thesis
    unfolding db'
  proof (rule opened_after_reconcile)
    show "distinct (map cr_account (of_credentials (append_audit E (replace_credential E db3 i envelope
        (uint (current_version ring)) (granted_permissions perms) expires_at now) i ''authorized'' ''succeeded''
        [(''provider_profile'', ''instagram_login'')] now)))"
      using inv by (auto simp: closing_defs replace_credential_def same accounts_inv_def distinct_map_filter)
  qed (use u(1-5) in \<open>simp_all add: closing_defs replace_credential_def same fil\<close>)
qed

lemma refresh_opens:
  assumes inv: "accounts_inv db"
    and c: "refresh_commit E J db i user envelope key_version expires_at account perms now = Ok db'"
  shows "opened_account i db db'"
proof -
  from c obtain a where fa: "find (\<lambda>a. acc_account_id a = i \<and> acc_user a = user) (accounts db) = Some a"
    and st: "acc_status a = Connected"
    by (auto simp: refresh_commit_def split: if_splits)
  from c obtain r1 db1 where
    raw: "insert_raw_record E AccountUnavailable db (aj_permissions J perms) now = Ok (r1, db1)"
    by (auto simp: refresh_commit_def insert_permission_evidence_def split: if_splits result.splits)
  note tab = insert_raw_tables [OF raw]
  define f :: "AccountRow \<Rightarrow> AccountRow" where "f = (\<lambda>a. a\<lparr>acc_username := pa_username account,
     acc_account_type := account_type_wire (pa_account_type account), acc_status := Connected,
     acc_scopes := granted_permissions perms, acc_updated_at := now\<rparr>)"
  define g :: "CredentialRow \<Rightarrow> CredentialRow" where "g = (\<lambda>c. c\<lparr>cr_envelope := envelope, cr_refresh_envelope := None,
     cr_key_version := key_version, cr_permissions := granted_permissions perms, cr_expires_at := expires_at,
     cr_rotated_at := Some now\<rparr>)"
  have f: "acc_account_id (f x) = acc_account_id x" "acc_provider_id (f x) = acc_provider_id x"
    "acc_status (f x) = Connected" for x by (simp_all add: f_def)
  have g: "cr_account (g x) = cr_account x" for x by (simp add: g_def)
  define db2 where "db2 = append_audit E (db1\<lparr>of_credentials := update_where (\<lambda>c. cr_account c = i) g (of_credentials db1),
      accounts := update_where (\<lambda>a. acc_account_id a = i \<and> acc_user a = user) f (accounts db1)\<rparr>) i ''refreshed''
      ''succeeded'' [] now"
  have db': "db' = reconcile_in_transaction E now db2 i
      \<lparr>provider_account_id = pa_provider_account_id account, account_type = pa_account_type account,
       permissions = perms, external_write_consent = False, ao_observed_at = now, ao_raw_record_id = r1\<rparr>"
    using c raw fa st
    by (simp add: refresh_commit_def insert_permission_evidence_def Let_def db2_def f_def g_def)
  have t2: "accounts db2 = update_where (\<lambda>a. acc_account_id a = i \<and> acc_user a = user) f (accounts db)"
    "of_credentials db2 = update_where (\<lambda>c. cr_account c = i) g (of_credentials db)"
    "account_capabilities db2 = account_capabilities db" "of_flows db2 = of_flows db"
    by (simp_all add: db2_def closing_defs tab)
  from find_Some_memD [OF fa] have a: "a \<in> set (accounts db)" "acc_account_id a = i" "acc_user a = user" by simp_all
  have inj: "inj_on acc_account_id (set (accounts db))" using inv by (simp add: accounts_inv_def distinct_map)
  have key: "map acc_account_id (accounts db2) = map acc_account_id (accounts db)"
    "map acc_provider_id (accounts db2) = map acc_provider_id (accounts db)"
    "map cr_account (of_credentials db2) = map cr_account (of_credentials db)"
    unfolding t2 by (simp_all add: map_update_where_same f g)
  show ?thesis
    unfolding db'
  proof (rule opened_after_reconcile)
    show "distinct (map acc_account_id (accounts db2))" "distinct (map acc_provider_id (accounts db2))"
      "distinct (map cr_account (of_credentials db2))"
      unfolding key using inv by (simp_all add: accounts_inv_def)
    show "account_capabilities db2 = account_capabilities db" "of_flows db2 = of_flows db" by (rule t2)+
    show "filter (\<lambda>c. cr_account c = j) (of_credentials db2) = filter (\<lambda>c. cr_account c = j) (of_credentials db)"
      if "j \<noteq> i" for j
      unfolding t2 by (rule filter_update_where_same) (use that g in auto)
    show "x \<in> set (accounts db2) \<longleftrightarrow> x \<in> set (accounts db)" if "acc_account_id x \<noteq> i" for x
      unfolding t2 by (rule update_where_mem_other [of acc_account_id, OF f(1) _ that]) simp
    show "i \<in> acc_account_id ` set (accounts db2)" using a arg_cong [OF key(1), of set] by (metis image_eqI set_map)
    show "acc_status x = Connected" if x: "x \<in> set (accounts db2)" "acc_account_id x = i" for x
    proof -
      from update_whereD [OF x(1) [unfolded t2(1)]] obtain r where r: "r \<in> set (accounts db)"
        "x = (if acc_account_id r = i \<and> acc_user r = user then f r else r)" by blast
      with x(2) f(1) have "acc_account_id r = i" by (auto split: if_splits)
      with inj_onD [OF inj _ r(1) a(1)] a(2) have "r = a" by simp
      with r(2) a f(3) show ?thesis by simp
    qed
  qed
qed

section \<open>Every transaction keeps the invariant\<close>

lemma account_step_inv:
  assumes "accounts_inv db" "account_step E J A ring db db'"
  shows "accounts_inv db'"
  using assms(2)
proof cases
  case (step_ledger rows n)
  then show ?thesis using assms(1) accounts_inv_cong [of db' db] by simp
next
  case (step_begin f)
  then have "accounts db' = accounts db" "of_credentials db' = of_credentials db"
    "account_capabilities db' = account_capabilities db"
    and fl: "of_flows db' = of_flows db @ [f]" "fl_state_hash f \<notin> fl_state_hash ` set (of_flows db)"
    by (auto simp: insert_flow_def flow_conflict_def list_ex_iff split: if_splits)
  then show ?thesis using assms(1)
    by (simp add: accounts_inv_def account_settled_def capabilities_of_def)
next
  case (step_consume user sh rh now)
  then have "map fl_state_hash (of_flows db') = map fl_state_hash (of_flows db)"
    by (simp add: consume_flow_def map_update_where_same)
  with step_consume show ?thesis using assms(1) accounts_inv_cong [of db' db] by (simp add: consume_flow_def)
next
  case (step_connect nonce candidate user exchanged account perms now account_id)
  from connect_opens [OF assms(1) this] show ?thesis by (rule opened_account_inv [OF assms(1)])
next
  case (step_refresh account_id user envelope key_version expires_at account perms now)
  from refresh_opens [OF assms(1) this] show ?thesis by (rule opened_account_inv [OF assms(1)])
next
  case (step_reauthorize account_id user now)
  from mark_reauthorization_closes [OF this] show ?thesis
    by (rule closed_account_inv [OF assms(1)]) (simp add: holds_secret_def)
next
  case (step_scrub account_id user outcome now)
  from scrub_closes [OF this] show ?thesis
    using assms(1) closed_account_inv [OF assms(1)] by (auto simp: holds_secret_def)
qed

definition no_accounts :: "'a official_scheme \<Rightarrow> bool" where
  "no_accounts db \<longleftrightarrow> accounts db = [] \<and> of_flows db = [] \<and> of_credentials db = []"

interpretation account_history: invariant_system no_accounts "account_step E J A ring" accounts_inv for E J A ring
proof
  show "accounts_inv db" if "no_accounts db" for db :: "'a official_scheme"
    using that by (simp add: no_accounts_def accounts_inv_def)
qed (rule account_step_inv)

section \<open>Operations as transactions\<close>

definition ledger_change :: "'a official_scheme \<Rightarrow> 'a official_scheme \<Rightarrow> bool" where
  "ledger_change db db' \<longleftrightarrow> (\<exists>rows n. db' = db\<lparr>of_usage := rows, of_archive := (of_archive db)\<lparr>minted := n\<rparr>\<rparr>)"

lemma ledger_change_trans: "ledger_change a b \<Longrightarrow> ledger_change b c \<Longrightarrow> ledger_change a c"
  unfolding ledger_change_def by (elim exE) (simp, blast)

lemma ledger_change_draw: "ledger_change db ((of_draw db)\<lparr>of_usage := rows\<rparr>)" "ledger_change db (of_draw db)"
proof -
  show "ledger_change db ((of_draw db)\<lparr>of_usage := rows\<rparr>)"
    unfolding ledger_change_def of_draw_def drawn_def
    by (rule exI [of _ rows], rule exI [of _ "Suc (minted (of_archive db))"]) simp
  show "ledger_change db (of_draw db)"
    unfolding ledger_change_def of_draw_def drawn_def
    by (rule exI [of _ "of_usage db"], rule exI [of _ "Suc (minted (of_archive db))"]) simp
qed

lemma ledger_change_step: "ledger_change db db' \<Longrightarrow> account_step E J A ring db db'"
  unfolding ledger_change_def by (elim exE) (simp add: step_ledger)

lemma ledger_change_flows: "ledger_change db db' \<Longrightarrow> of_flows db' = of_flows db"
  by (auto simp: ledger_change_def)

lemma provider_attempt_ledger:
  "provider_attempt E now db b request answer = (db', b', r) \<Longrightarrow> ledger_change db db'"
  by (auto simp: provider_attempt_def ledger_change_draw split: prod.splits result.splits)

lemma discover_ledger:
  "discover E now request call attempt retries db b = (db', b', r) \<Longrightarrow> ledger_change db db'"
proof (induction retries arbitrary: attempt db b)
  case 0
  then show ?case
    by (auto simp: discover.simps dest: provider_attempt_ledger split: prod.splits result.splits)
next
  case (Suc n)
  obtain db1 b1 r1 where p: "provider_attempt E now db b request (call attempt) = (db1, b1, r1)"
    by (cases "provider_attempt E now db b request (call attempt)") auto
  note l = provider_attempt_ledger [OF p]
  from Suc.prems p have "db' = db1 \<or> discover E now request call (Suc attempt) n db1 b1 = (db', b', r)"
    by (auto simp: discover.simps [of E now request call attempt] split: result.splits if_splits)
  with Suc.IH l ledger_change_trans show ?case by blast
qed

lemma step_then: "account_step E J A ring db db1 \<Longrightarrow> (account_step E J A ring)\<^sup>*\<^sup>* db1 db2 \<Longrightarrow> (account_step E J A ring)\<^sup>*\<^sup>* db db2"
  by (rule converse_rtranclp_into_rtranclp)

lemmas ledger_then = step_then [OF ledger_change_step]

lemma begin_steps:
  "(account_step E J A ring)\<^sup>*\<^sup>* db
     (fst (begin_official_oauth E b64 A ring nonce sb vb db user client redirect ttl pkce now))"
proof -
  obtain r where r: "begin_official_oauth E b64 A ring nonce sb vb db user client redirect ttl pkce now = (of_draw db, r)
      \<or> (\<exists>f db'. insert_flow E (of_draw db) f = Ok db'
        \<and> begin_official_oauth E b64 A ring nonce sb vb db user client redirect ttl pkce now = (db', r))"
    by (cases "snd (begin_official_oauth E b64 A ring nonce sb vb db user client redirect ttl pkce now)")
      (auto simp: begin_official_oauth_def Let_def split: result.splits if_splits)
  note d = ledger_then [OF ledger_change_draw(2)]
  from r show ?thesis
  proof (elim disjE exE conjE)
    fix f db'
    assume "insert_flow E (of_draw db) f = Ok db'"
      and b: "begin_official_oauth E b64 A ring nonce sb vb db user client redirect ttl pkce now = (db', r)"
    then have "account_step E J A ring (of_draw db) db'" by (intro step_begin)
    then show ?thesis unfolding b by (auto intro: d)
  qed (auto intro: d)
qed

lemma scrub_all_steps: "(account_step E J A ring)\<^sup>*\<^sup>* db (fst (scrub_all E now targets db))"
proof (induction targets arbitrary: db)
  case (Cons t targets)
  obtain i u where t: "t = (i, u)" by (cases t)
  show ?case
  proof (cases "scrub_revoked_account E db i u RevokeFailed now")
    case (Ok db')
    from step_scrub [OF Ok] Cons.IH [of db'] step_then show ?thesis by (fastforce simp: t Ok)
  qed (simp add: t)
qed simp

lemma sweep_steps: "(account_step E J A ring)\<^sup>*\<^sup>* db (fst (scrub_stranded_revocations E db now))"
proof -
  have "fst (scrub_stranded_revocations E db now) = fst (scrub_all E now (map (\<lambda>a. (acc_account_id a, acc_user a))
      (sort_key acc_account_id (filter (\<lambda>a. acc_status a = Revoking) (accounts db)))) db)"
    by (simp add: scrub_stranded_revocations_def split: prod.splits result.splits)
  then show ?thesis by (simp only: scrub_all_steps)
qed

lemma refresh_failure_steps: "(account_step E J A ring)\<^sup>*\<^sup>* db (fst (refresh_failure E db i user now failure))"
  by (auto simp: refresh_failure_def intro: step_reauthorize split: attempt_error.splits result.splits)

lemma refresh_store_steps:
  "(account_step E J A ring)\<^sup>*\<^sup>* db (fst (refresh_store E J A ring nonce db i user refreshed account perms now))"
  by (auto simp: refresh_store_def intro: step_refresh split: option.splits result.splits)

lemma connection_steps:
  "(account_step E J A ring)\<^sup>*\<^sup>* db (fst (complete_connection E J A ring nonce db user exchanged account perms now))"
proof -
  note d = ledger_then [OF ledger_change_draw(2)]
  show ?thesis
    by (auto simp: complete_connection_def Let_def intro: d step_connect split: option.splits result.splits prod.splits)
qed

text \<open>
  The three calls of a refresh and of a completion: whatever they answer, the tables reached differ in the
  ledger only, and the continuation runs there.
\<close>

lemma discover_chain:
  assumes "\<And>db' b' r. ledger_change db db' \<Longrightarrow> (account_step E J A ring)\<^sup>*\<^sup>* db' (fst (k db' b' r))"
  shows "(account_step E J A ring)\<^sup>*\<^sup>* db
    (fst (case discover E' now request call attempt retries db b of (db', b', r) \<Rightarrow> k db' b' r))"
proof -
  obtain db' b' r where d: "discover E' now request call attempt retries db b = (db', b', r)"
    by (metis prod_cases3)
  from ledger_then [OF discover_ledger [OF d] assms [OF discover_ledger [OF d]]] show ?thesis by (simp add: d)
qed

lemma exchange_steps:
  "(account_step E J A ring)\<^sup>*\<^sup>* db (fst (complete_exchange E J A ring nonce P db user code budget retries now))"
  unfolding complete_exchange_def Let_def
  by (rule ledger_then [OF ledger_change_draw(2)])
    (intro discover_chain, auto intro!: discover_chain connection_steps split: result.split)

lemma refresh_steps:
  "(account_step E J A ring)\<^sup>*\<^sup>* db
     (fst (refresh_official_account E J A ring nonce P db i user budget retries supported now))"
proof -
  have calls: "(account_step E J A ring)\<^sup>*\<^sup>* db
      (fst (case discover E now TokenRefresh (\<lambda>_. pp_refresh P token) 0 0 (of_draw db) b0 of
              (db1, b1, Err e) \<Rightarrow> refresh_failure E db1 i user now e
            | (db1, b1, Ok refreshed) \<Rightarrow>
                (case discover E now AccountDiscovery (\<lambda>k. pp_account P k (access_token refreshed)) 0 (unat retries) db1 b1 of
                   (db2, b2, Err e) \<Rightarrow> refresh_failure E db2 i user now e
                 | (db2, b2, Ok account) \<Rightarrow>
                     (case discover E now PermissionDiscovery (\<lambda>k. pp_permissions P k (access_token refreshed)) 0
                        (unat retries) db2 b2 of
                        (db3, b3, Err e) \<Rightarrow> refresh_failure E db3 i user now e
                      | (db3, b3, Ok perms) \<Rightarrow> refresh_store E J A ring nonce db3 i user refreshed account perms now))))"
    for token b0 user
    by (rule ledger_then [OF ledger_change_draw(2)])
      (intro discover_chain, auto intro!: discover_chain refresh_failure_steps refresh_store_steps split: result.split)
  show ?thesis
    unfolding refresh_official_account_def Let_def
    by (auto intro: calls split: option.split result.split)
qed

lemma completion_steps:
  "(account_step E J A ring)\<^sup>*\<^sup>* db
     (fst (complete_official_oauth E J A ring nonce P relay db user relay_id redirect budget retries now))"
proof (cases "relay relay_id")
  case (Ok claim)
  let ?c = "consume_flow db user (state_digest E (claim_state claim)) (state_digest E redirect) now"
  have s: "account_step E J A ring db (fst ?c)" by (rule step_consume)
  show ?thesis
    using step_then [OF s exchange_steps] r_into_rtranclp [of "account_step E J A ring", OF s]
    by (auto simp: complete_official_oauth_def Ok split: prod.splits option.splits)
qed (simp add: complete_official_oauth_def)

section \<open>Single use\<close>

definition spent :: "u8 list \<Rightarrow> 'a official_scheme \<Rightarrow> bool" where
  "spent h db \<longleftrightarrow> (\<forall>f \<in> set (of_flows db). fl_state_hash f = h \<longrightarrow> fl_consumed_at f \<noteq> None)"

lemma spent_flows: "of_flows db' = of_flows db \<Longrightarrow> spent h db' = spent h db"
  by (simp add: spent_def)

lemma spent_filter: "of_flows db' = filter P (of_flows db) \<Longrightarrow> spent h db \<Longrightarrow> spent h db'"
  by (auto simp: spent_def)

lemma refresh_commit_flows:
  "refresh_commit E J db i user envelope kv ex account perms now = Ok db' \<Longrightarrow> of_flows db' = of_flows db"
  by (auto simp: refresh_commit_def insert_permission_evidence_def Let_def closing_defs
      reconcile_in_transaction_tables insert_raw_tables split: if_splits result.splits)

lemma connect_flows:
  assumes c: "connect_account E J A ring nonce db candidate user exchanged account perms now = Ok (db', i)"
  shows "of_flows db' = of_flows db"
proof -
  from c obtain r1 db1 r2 db2 db3 where
    raw: "insert_raw_record E OAuthConfiguration db (aj_account J account) now = Ok (r1, db1)"
      "insert_raw_record E OAuthConfiguration db1 (aj_permissions J perms) now = Ok (r2, db2)"
    and up: "upsert_account db2 candidate user account (granted_permissions perms) now = Ok (db3, i)"
    and db': "of_flows db' = of_flows db3"
    by (auto simp: connect_account_def Let_def reconcile_in_transaction_tables closing_defs replace_credential_def
        split: if_splits option.splits)
  from up have "of_flows db3 = of_flows db2"
    by (auto simp: upsert_account_def split: option.splits if_splits)
  with db' insert_raw_tables(4) [OF raw(1)] insert_raw_tables(4) [OF raw(2)] show ?thesis by simp
qed

lemma spent_step:
  assumes "account_step E J A ring db db'" "spent h db" "\<And>f. insert_flow E db f = Ok db' \<Longrightarrow> fl_state_hash f \<noteq> h"
  shows "spent h db'"
  using assms(1)
proof cases
  case (step_ledger rows n)
  with assms(2) show ?thesis by (simp add: spent_def)
next
  case (step_begin f)
  with assms(3) have "of_flows db' = of_flows db @ [f]" "fl_state_hash f \<noteq> h"
    by (auto simp: insert_flow_def split: if_splits)
  with assms(2) show ?thesis by (simp add: spent_def)
next
  case (step_consume user sh rh now)
  with assms(2) show ?thesis by (auto simp: spent_def consume_flow_def set_update_where)
next
  case (step_connect nonce candidate user exchanged account perms now account_id)
  from spent_flows [OF connect_flows [OF this]] assms(2) show ?thesis by simp
next
  case (step_refresh account_id user envelope key_version expires_at account perms now)
  from spent_flows [OF refresh_commit_flows [OF this]] assms(2) show ?thesis by simp
next
  case (step_reauthorize account_id user now)
  from mark_reauthorization_closes [OF this] spent_filter assms(2) show ?thesis
    unfolding closed_account_def by blast
next
  case (step_scrub account_id user outcome now)
  from scrub_closes [OF this] spent_filter assms(2) show ?thesis
    unfolding closed_account_def by blast
qed

lemma spent_consume:
  assumes "spent h db"
  shows "consume_flow db user h redirect_hash now = (db, None)"
proof -
  have no: "\<not> flow_matches user h redirect_hash now f" if "f \<in> set (of_flows db)" for f
    using assms that by (auto simp: spent_def flow_matches_def)
  have "find (flow_matches user h redirect_hash now) (of_flows db) = None"
    using no by (simp add: find_None_iff)
  with no show ?thesis by (simp add: consume_flow_def update_where_none)
qed

lemma consumed_spent:
  assumes inv: "accounts_inv db" and c: "consume_flow db user h rh now = (db', Some flow)"
  shows "spent h db'" "\<exists>f \<in> set (of_flows db). fl_id f = flow \<and> flow_matches user h rh now f"
proof -
  from c obtain f where f: "find (flow_matches user h rh now) (of_flows db) = Some f" "fl_id f = flow"
    by (auto simp: consume_flow_def)
  from find_Some_memD [OF f(1)] have m: "f \<in> set (of_flows db)" "flow_matches user h rh now f" by simp_all
  with f(2) show "\<exists>f \<in> set (of_flows db). fl_id f = flow \<and> flow_matches user h rh now f" by blast
  have inj: "inj_on fl_state_hash (set (of_flows db))" using inv by (simp add: accounts_inv_def distinct_map)
  show "spent h db'"
    unfolding spent_def
  proof (intro ballI impI)
    fix g assume g: "g \<in> set (of_flows db')" "fl_state_hash g = h"
    from c have "of_flows db' = update_where (flow_matches user h rh now) (\<lambda>f. f\<lparr>fl_consumed_at := Some now\<rparr>) (of_flows db)"
      by (auto simp: consume_flow_def)
    from update_whereD [OF g(1) [unfolded this]] obtain r where r: "r \<in> set (of_flows db)"
      "g = (if flow_matches user h rh now r then r\<lparr>fl_consumed_at := Some now\<rparr> else r)" by blast
    then have "fl_state_hash r = h" using g(2) by (auto split: if_splits)
    with inj_onD [OF inj _ r(1) m(1)] m(2) have "r = f" by (auto simp: flow_matches_def)
    with r(2) m(2) show "fl_consumed_at g \<noteq> None" by simp
  qed
qed

lemma discover_chain_flows:
  assumes "\<And>db' b' r. of_flows (fst (k db' b' r)) = of_flows db'"
  shows "of_flows (fst (case discover E now request call attempt n db b of (db', b', r) \<Rightarrow> k db' b' r)) = of_flows db"
proof -
  obtain db' b' r where e: "discover E now request call attempt n db b = (db', b', r)" by (metis prod_cases3)
  from ledger_change_flows [OF discover_ledger [OF e]] assms show ?thesis by (simp add: e)
qed

lemma exchange_flows:
  "of_flows (fst (complete_exchange E J A ring nonce P db user code budget retries now)) = of_flows db"
proof -
  have c: "of_flows (fst (complete_connection E J A ring nonce db user exchanged account perms now)) = of_flows db"
    for db :: "'a official_scheme" and exchanged account perms
    by (auto simp: complete_connection_def Let_def of_draw_def dest: connect_flows split: option.splits result.splits)
  have "of_flows (fst (complete_exchange E J A ring nonce P db user code budget retries now)) = of_flows (of_draw db)"
    unfolding complete_exchange_def Let_def
    by (intro discover_chain_flows, auto intro!: discover_chain_flows c split: result.split)
  then show ?thesis by (simp add: of_draw_def)
qed

section \<open>Properties\<close>

text \<open>
  C6. Secrets follow the connection: in every state the account transactions reach, however a
  refresh, a completion, a revocation and a loss of authorization interleave, a provider identity has one
  account, an account has one credential at most, a credential belongs to an account that is connected (or
  being revoked), every account has its six capability rows, and those of a revoked account or one that
  lost its authorization are all unavailable.
\<close>
theorem secrets_follow_the_connection:
  assumes "no_accounts db0" "(account_step E J A ring)\<^sup>*\<^sup>* db0 db"
  shows "distinct (map acc_provider_id (accounts db)) \<and> distinct (map cr_account (of_credentials db))
    \<and> (\<forall>c \<in> set (of_credentials db). \<exists>a \<in> set (accounts db). acc_account_id a = cr_account c \<and> holds_secret (acc_status a))
    \<and> (\<forall>a \<in> set (accounts db).
         map ac_capability (capabilities_of db (acc_account_id a)) = map capability_wire AccountCapability_ALL
         \<and> (\<not> holds_secret (acc_status a) \<longrightarrow>
              list_all (\<lambda>r. ac_state r = ''unavailable'') (capabilities_of db (acc_account_id a))))"
proof -
  have inv: "accounts_inv db" by (rule account_history.inv_reachable [OF assms])
  have "\<exists>a \<in> set (accounts db). acc_account_id a = cr_account c \<and> holds_secret (acc_status a)"
    if c: "c \<in> set (of_credentials db)" for c
  proof -
    from inv c obtain a where a: "a \<in> set (accounts db)" "acc_account_id a = cr_account c"
      unfolding accounts_inv_def by (metis image_eqI image_iff subsetD)
    with inv have "account_settled db a" by (simp add: accounts_inv_def)
    with a c show ?thesis unfolding account_settled_def by (metis image_eqI)
  qed
  with inv show ?thesis by (simp add: accounts_inv_def account_settled_def)
qed

definition blank_official :: official where
  "blank_official = \<lparr>permission_observations = [], account_capabilities = [], accounts = [], of_credentials = [],
     of_flows = [], of_audit = [], of_usage = [], of_archive = empty_archive\<rparr>"

definition plain_env :: env where
  "plain_env = \<lparr>e_now_v7 = \<lambda>n. Uuid 7 (word_of_nat n), e_uuid_v5 = \<lambda>u b. u, e_sha256 = \<lambda>b. b,
     e_canonical_json = \<lambda>p. [], e_payload_title = \<lambda>b. None, e_json_object = \<lambda>b. False, e_report_ok = \<lambda>r. True,
     e_snapshot_ok = \<lambda>s. True, e_instant_ok = \<lambda>t. True\<rparr>"

definition plain_json :: account_json where
  "plain_json = \<lparr>aj_account = \<lambda>a. [], aj_permissions = \<lambda>p. []\<rparr>"

definition sample_ring :: CredentialKeyring where
  "sample_ring = \<lparr>current_version = 1, keyring_keys = [(1, [1])]\<rparr>"

definition sample_token :: ExchangedToken where
  "sample_token = \<lparr>access_token = [65], exchanged_user_id = [49], exchanged_permissions = [], expires_in_seconds = None\<rparr>"

definition sample_account :: ProviderAccount where
  "sample_account = \<lparr>pa_provider_account_id = [49], pa_username = [97], pa_account_type = Business\<rparr>"

lemma sample_connects:
  "\<exists>db'. connect_account plain_env plain_json plain_aead sample_ring (replicate 12 0) blank_official (Uuid 1 1)
     (Uuid 2 2) sample_token sample_account [] 5 = Ok (db', Uuid 1 1)"
  by (simp add: connect_account_def insert_raw_record_def blank_official_def empty_archive_def plain_json_def
      upsert_account_def account_by_provider_def sample_account_def seal_def plain_aead_def sample_ring_def
      sample_token_def expiry_def Let_def)

theorem secrets_follow_the_connection_witness:
  "\<exists>db :: official. accounts db \<noteq> [] \<and> distinct (map cr_account (of_credentials db))
     \<and> (account_step plain_env plain_json plain_aead sample_ring)\<^sup>*\<^sup>* blank_official db"
proof -
  from sample_connects obtain db where c: "connect_account plain_env plain_json plain_aead sample_ring (replicate 12 0)
      blank_official (Uuid 1 1) (Uuid 2 2) sample_token sample_account [] 5 = Ok (db, Uuid 1 1)" by blast
  have no: "no_accounts blank_official" by (simp add: no_accounts_def blank_official_def)
  have run: "(account_step plain_env plain_json plain_aead sample_ring)\<^sup>*\<^sup>* blank_official db"
    by (rule r_into_rtranclp) (rule step_connect [OF c])
  from connect_opens [OF account_history.inv_init [OF no] c] have "accounts db \<noteq> []"
    by (auto simp: opened_account_def)
  with secrets_follow_the_connection [OF no run] run show ?thesis by blast
qed

text \<open>
  Every account operation is a sequence of account transactions, whatever the provider and the relay
  answer and wherever the operation fails, so the invariants of the transactions hold of it.
\<close>
lemma account_operations_are_transactions:
  "(account_step E J A ring)\<^sup>*\<^sup>* db
     (fst (begin_official_oauth E b64 A ring nonce state_bytes verifier_bytes db user client redirect ttl pkce now))
   \<and> (account_step E J A ring)\<^sup>*\<^sup>* db
     (fst (complete_official_oauth E J A ring nonce P relay db user relay_id redirect budget retries now))
   \<and> (account_step E J A ring)\<^sup>*\<^sup>* db
     (fst (refresh_official_account E J A ring nonce P db account_id user budget retries supported now))
   \<and> (account_step E J A ring)\<^sup>*\<^sup>* db (fst (scrub_stranded_revocations E db now))"
  by (intro conjI begin_steps completion_steps refresh_steps sweep_steps)

text \<open>
  C18. An authorization state is used once: a completion that is accepted consumed a flow of that very
  owner and redirect, unused and not expired; and from then on, after any further transactions that do
  not issue the same state anew, no completion with that state, by whatever user or redirect, reaches the
  provider or changes a table.
\<close>
theorem authorization_state_is_single_use:
  assumes "no_accounts db0" "(account_step E J A ring)\<^sup>*\<^sup>* db0 db" "relay relay_id = Ok claim"
    and user: "claim_user claim = user" "claim_redirect claim = redirect"
    and flow: "snd (consume_flow db user (state_digest E (claim_state claim)) (state_digest E redirect) now) = Some flow"
    and fin: "complete_official_oauth E J A ring nonce P relay db user relay_id redirect budget retries now = (db1, outcome)"
    and later: "(\<lambda>x y. account_step E J A ring x y
      \<and> (\<forall>f. insert_flow E x f = Ok y \<longrightarrow> fl_state_hash f \<noteq> state_digest E (claim_state claim)))\<^sup>*\<^sup>* db1 db2"
  shows "(\<exists>f \<in> set (of_flows db). fl_id f = flow \<and> fl_user f = user \<and> fl_consumed_at f = None \<and> now < fl_expires_at f
        \<and> fl_redirect_hash f = state_digest E redirect)
    \<and> (relay' relay_id' = Ok claim' \<longrightarrow> claim_state claim' = claim_state claim \<longrightarrow>
        complete_official_oauth E J A ring nonce' P' relay' db2 user' relay_id' redirect' budget' retries' now'
          = (db2, Err OAuthUnavailable))"
proof -
  let ?h = "state_digest E (claim_state claim)"
  have inv: "accounts_inv db" by (rule account_history.inv_reachable [OF assms(1,2)])
  obtain dbc where c: "consume_flow db user ?h (state_digest E redirect) now = (dbc, Some flow)"
    using flow by (metis prod.collapse)
  note used = consumed_spent [OF inv c]
  from fin assms(3) user c have "db1 = fst (complete_exchange E J A ring nonce P dbc user (claim_code claim) budget retries now)"
    by (auto simp: complete_official_oauth_def)
  then have "spent ?h db1" using used(1) spent_flows exchange_flows by metis
  with later have "spent ?h db2"
    by (induction rule: rtranclp_induct) (use spent_step in blast)+
  from spent_consume [OF this] used(2) show ?thesis
    by (auto simp: complete_official_oauth_def flow_matches_def)
qed

definition sample_flow :: OAuthFlowRow where
  "sample_flow = \<lparr>fl_id = Uuid 3 3, fl_user = Uuid 2 2, fl_account = None, fl_state_hash = [115], fl_redirect_hash = [114],
     fl_verifier = None, fl_key_version = None, fl_expires_at = 9, fl_consumed_at = None, fl_created_at = 0\<rparr>"

definition sample_claim :: RelayClaim where
  "sample_claim = \<lparr>claim_user = Uuid 2 2, claim_state = [115], claim_code = [99], claim_redirect = [114]\<rparr>"

definition failing_port :: provider_port where
  "failing_port = \<lparr>pp_exchange = \<lambda>_. Err response_refused, pp_account = \<lambda>_ _. Err response_refused,
     pp_permissions = \<lambda>_ _. Err response_refused, pp_refresh = \<lambda>_. Err response_refused\<rparr>"

theorem authorization_state_is_single_use_witness:
  "\<exists>db1 outcome. complete_official_oauth plain_env plain_json plain_aead sample_ring [] failing_port (\<lambda>_. Ok sample_claim)
      (blank_official\<lparr>of_flows := [sample_flow]\<rparr>) (Uuid 2 2) [] [114] 3 0 5 = (db1, outcome)
    \<and> complete_official_oauth plain_env plain_json plain_aead sample_ring [] failing_port (\<lambda>_. Ok sample_claim)
      db1 (Uuid 2 2) [] [114] 3 0 6 = (db1, Err OAuthUnavailable)"
proof -
  let ?db = "blank_official\<lparr>of_flows := [sample_flow]\<rparr>"
  have no: "no_accounts blank_official" by (simp add: no_accounts_def blank_official_def)
  have "insert_flow plain_env blank_official sample_flow = Ok ?db"
    by (simp add: insert_flow_def flow_conflict_def blank_official_def)
  then have run: "(account_step plain_env plain_json plain_aead sample_ring)\<^sup>*\<^sup>* blank_official ?db"
    by (intro r_into_rtranclp step_begin)
  have "utf8 [115] = [115]" "utf8 [114] = [114]" by (simp_all add: utf8_def utf8_char_def byte_def)
  then have fl: "snd (consume_flow ?db (Uuid 2 2) (state_digest plain_env (claim_state sample_claim))
      (state_digest plain_env [114]) 5) = Some (Uuid 3 3)"
    by (simp add: consume_flow_def flow_matches_def sample_flow_def sample_claim_def state_digest_def plain_env_def)
  obtain db1 outcome where c: "complete_official_oauth plain_env plain_json plain_aead sample_ring [] failing_port
      (\<lambda>_. Ok sample_claim) ?db (Uuid 2 2) [] [114] 3 0 5 = (db1, outcome)" by (metis prod.exhaust)
  from authorization_state_is_single_use [where relay = "\<lambda>_. Ok sample_claim" and relay' = "\<lambda>_. Ok sample_claim"
      and claim = sample_claim and claim' = sample_claim, OF no run refl _ _ fl c rtranclp.rtrancl_refl,
      where relay_id' = "[]" and nonce' = "[]" and P' = failing_port and user' = "Uuid 2 2" and redirect' = "[114]"
        and budget' = 3 and retries' = 0 and now' = 6]
  have "complete_official_oauth plain_env plain_json plain_aead sample_ring [] failing_port (\<lambda>_. Ok sample_claim)
      db1 (Uuid 2 2) [] [114] 3 0 6 = (db1, Err OAuthUnavailable)" by (simp add: sample_claim_def)
  with c show ?thesis by blast
qed

end
