(* ===== verification/Own_Media.thy ===== *)
theory Own_Media
  imports Account_History
begin

text \<open>
  Model of \<^verbatim>\<open>own_media.rs\<close> and of \<^verbatim>\<open>append_own_media_facts\<close> in \<^verbatim>\<open>publishing.rs\<close>: the capability-gated
  synchronization of a connected account's own media. The tables of the accounts are extended by the runs,
  the per-account state, the staged items and the authority. \<open>page_of k\<close> is the provider's answer to the
  \<open>k\<close>-th request of a pass; the RFC 3339 rendering and the JSON of the content digest are the record
  \<open>own_codec\<close>. Columns of \<^verbatim>\<open>media\<close> that no query reads (\<^verbatim>\<open>published_at\<close>, \<^verbatim>\<open>created_at\<close>) are left out.
\<close>

section \<open>Data\<close>

record OwnMediaSyncConfig =
  oc_enabled :: bool
  oc_cadence_seconds :: u64
  oc_accounts_per_tick :: u32
  oc_pages_per_run :: u32
  oc_call_budget :: u32

datatype OwnMediaSyncOutcome =
  CapabilityNoop uuid string
| SyncCompleted uuid "rstr option"
| SyncRetryable uuid "rstr option"

record OwnMediaSyncSummary =
  sum_attempted :: u32
  sum_completed :: u32
  sum_noops :: u32
  sum_retryable :: u32
  sum_failed :: u32

datatype OwnMediaSyncError =
  SyncUnavailable | SyncDatabase | SyncCrypto CryptoError | SyncBudget BudgetError | SyncProvider ProviderError
| SyncPublish PublishError | SyncMalformed | SyncPanic

datatype SyncRunStatus = RunRunning | RunRetryable | RunCompleted | RunNoop | RunFailed

record SyncRunRow =
  sr_id :: uuid
  sr_account :: uuid
  sr_user :: uuid
  sr_generation :: uuid
  sr_start_watermark :: "rstr option"
  sr_candidate :: "rstr option"
  sr_cursor :: "rstr option"
  sr_status :: SyncRunStatus
  sr_reason :: "string option"
  sr_pages :: int
  sr_items :: int
  sr_started_at :: instant
  sr_updated_at :: instant
  sr_finished_at :: "instant option"

record SyncStateRow =
  ss_account :: uuid
  ss_watermark :: "rstr option"
  ss_next_due :: instant
  ss_last_run :: "uuid option"
  ss_last_outcome :: "string option"
  ss_updated_at :: instant

record SyncItemRow =
  si_run :: uuid
  si_provider_id :: rstr
  si_owner :: rstr
  si_type :: string
  si_permalink :: rstr
  si_caption :: "rstr option"
  si_published_at :: instant
  si_media_url :: "rstr option"
  si_thumbnail_url :: "rstr option"
  si_raw :: uuid
  si_observed_at :: instant

record AuthorityRow =
  sa_account :: uuid
  sa_run :: uuid
  sa_activated_at :: instant

record own_media = official +
  om_runs :: "SyncRunRow list"
  om_state :: "SyncStateRow list"
  om_items :: "SyncItemRow list"
  om_authority :: "AuthorityRow list"

record own_codec =
  cd_rfc3339 :: "instant \<Rightarrow> string option"
  cd_json :: "rstr \<Rightarrow> rstr \<Rightarrow> rstr option \<Rightarrow> string \<Rightarrow> u8 list"

type_synonym page_source = "nat \<Rightarrow> rstr \<Rightarrow> rstr \<Rightarrow> rstr option \<Rightarrow> (ProviderOwnMediaPage, ProviderError) result"

section \<open>Rows\<close>

definition active_status :: "SyncRunStatus \<Rightarrow> bool" where
  "active_status s \<longleftrightarrow> s = RunRunning \<or> s = RunRetryable"

definition active_run :: "own_media \<Rightarrow> uuid \<Rightarrow> SyncRunRow option" where
  "active_run db i = find (\<lambda>r. sr_account r = i \<and> active_status (sr_status r)) (om_runs db)"

definition update_run :: "own_media \<Rightarrow> (SyncRunRow \<Rightarrow> bool) \<Rightarrow> (SyncRunRow \<Rightarrow> SyncRunRow) \<Rightarrow> own_media" where
  "update_run db P f = db\<lparr>om_runs := update_where P f (om_runs db)\<rparr>"

definition running :: "uuid \<Rightarrow> SyncRunRow \<Rightarrow> bool" where
  "running run r \<longleftrightarrow> sr_id r = run \<and> sr_status r = RunRunning"

definition sync_state :: "own_media \<Rightarrow> uuid \<Rightarrow> SyncStateRow option" where
  "sync_state db i = find (\<lambda>s. ss_account s = i) (om_state db)"

definition put_state :: "(SyncStateRow \<Rightarrow> SyncStateRow) \<Rightarrow> own_media \<Rightarrow> SyncStateRow \<Rightarrow> own_media" where
  "put_state merge db s =
     (if list_ex (\<lambda>x. ss_account x = ss_account s) (om_state db)
      then db\<lparr>om_state := update_where (\<lambda>x. ss_account x = ss_account s) merge (om_state db)\<rparr>
      else db\<lparr>om_state := om_state db @ [s]\<rparr>)"

definition own_capability :: "own_media \<Rightarrow> uuid \<Rightarrow> AccountCapabilityRow option" where
  "own_capability db i = find (\<lambda>r. ac_account_id r = i \<and> ac_capability r = ''own_media_read'') (account_capabilities db)"

definition insert_item :: "own_media \<Rightarrow> SyncItemRow \<Rightarrow> own_media" where
  "insert_item db s =
     (if list_ex (\<lambda>x. si_run x = si_run s \<and> si_provider_id x = si_provider_id s) (om_items db)
      then db\<lparr>om_items := update_where (\<lambda>x. si_run x = si_run s \<and> si_provider_id x = si_provider_id s)
        (\<lambda>_. s) (om_items db)\<rparr>
      else db\<lparr>om_items := om_items db @ [s]\<rparr>)"

text \<open>\<^verbatim>\<open>now + Duration::seconds(cadence)\<close>.\<close>

definition next_due :: "OwnMediaSyncConfig \<Rightarrow> instant \<Rightarrow> (instant, OwnMediaSyncError) result" where
  "next_due C now =
     (if 2 ^ 63 \<le> uint (oc_cadence_seconds C) then Err SyncMalformed
      else if LAST_INSTANT < now + seconds (uint (oc_cadence_seconds C)) then Err SyncPanic
      else Ok (now + seconds (uint (oc_cadence_seconds C))))"

section \<open>Capability no-op\<close>

definition RUN_REASONS :: "string list" where
  "RUN_REASONS = [''completed'', ''account_type_unsupported'', ''permission_declined'', ''permission_expired'',
     ''permission_absent'', ''permission_unknown'', ''reauthorization_required'', ''revoked'', ''owner_mismatch'',
     ''capability_changed'', ''budget_exhausted'', ''page_limit'', ''provider_retryable'', ''response_refused'']"

definition noop_reason :: "ConnectionStatus \<Rightarrow> string \<Rightarrow> string" where
  "noop_reason status reason =
     (if status = NeedsReauthorization then ''reauthorization_required''
      else if status = RevokedConnection then ''revoked''
      else reason)"

definition fail_run :: "string \<Rightarrow> instant \<Rightarrow> SyncRunRow \<Rightarrow> SyncRunRow" where
  "fail_run reason now r =
     r\<lparr>sr_status := RunFailed, sr_reason := Some reason, sr_updated_at := now, sr_finished_at := Some now\<rparr>"

text \<open>One transaction: stale runs close, the no-op run is recorded, the account is due again later.\<close>

definition record_noop ::
  "env \<Rightarrow> own_media \<Rightarrow> uuid \<Rightarrow> uuid \<Rightarrow> uuid \<Rightarrow> string \<Rightarrow> instant \<Rightarrow> instant
     \<Rightarrow> own_media \<times> (OwnMediaSyncOutcome, OwnMediaSyncError) result" where
  "record_noop E db account_id user generation reason next_due_at now =
     (let run_id = of_id E db; db0 = of_draw db;
          db1 = update_run db0 (\<lambda>r. sr_account r = account_id \<and> active_status (sr_status r)) (fail_run ''capability_changed'' now);
          db2 = db1\<lparr>om_runs := om_runs db1 @ [\<lparr>sr_id = run_id, sr_account = account_id, sr_user = user,
             sr_generation = generation, sr_start_watermark = None, sr_candidate = None, sr_cursor = None,
             sr_status = RunNoop, sr_reason = Some reason, sr_pages = 0, sr_items = 0, sr_started_at = now,
             sr_updated_at = now, sr_finished_at = Some now\<rparr>]\<rparr>;
          db3 = put_state (\<lambda>s. s\<lparr>ss_next_due := next_due_at, ss_last_run := Some run_id,
               ss_last_outcome := Some ''capability_noop'', ss_updated_at := now\<rparr>) db2
             \<lparr>ss_account = account_id, ss_watermark = None, ss_next_due = next_due_at, ss_last_run = Some run_id,
              ss_last_outcome = Some ''capability_noop'', ss_updated_at = now\<rparr>
      in if reason \<notin> set RUN_REASONS \<or> list_ex (\<lambda>r. sr_id r = run_id) (om_runs db) then (db0, Err SyncDatabase)
         else (db3, Ok (CapabilityNoop run_id reason)))"

section \<open>Pages\<close>

definition normalized_media_type :: "ProviderOwnMediaItem \<Rightarrow> string" where
  "normalized_media_type item =
     (if pm_media_type item = ''VIDEO'' \<and> pm_product_type item = ''REELS'' then ''reel''
      else if pm_media_type item = ''IMAGE'' then ''image''
      else if pm_media_type item = ''VIDEO'' then ''video''
      else if pm_media_type item = ''CAROUSEL_ALBUM'' then ''carousel''
      else ''unknown'')"

definition staged_item :: "uuid \<Rightarrow> uuid \<Rightarrow> instant \<Rightarrow> ProviderOwnMediaItem \<Rightarrow> SyncItemRow" where
  "staged_item run raw now item =
     \<lparr>si_run = run, si_provider_id = pm_provider_media_id item, si_owner = pm_owner item,
      si_type = normalized_media_type item, si_permalink = pm_permalink item, si_caption = pm_caption item,
      si_published_at = pm_published_at item, si_media_url = pm_media_url item,
      si_thumbnail_url = pm_thumbnail_url item, si_raw = raw, si_observed_at = now\<rparr>"

fun persist_items ::
  "uuid \<Rightarrow> rstr \<Rightarrow> uuid \<Rightarrow> instant \<Rightarrow> ProviderOwnMediaItem list \<Rightarrow> own_media \<Rightarrow> (own_media, OwnMediaSyncError) result" where
  "persist_items run account raw now [] db = Ok db"
| "persist_items run account raw now (item # items) db =
     (if pm_owner item \<noteq> account then Err SyncMalformed
      else if normalized_media_type item \<notin> set [''image'', ''video'', ''carousel'', ''reel''] then Err SyncDatabase
      else persist_items run account raw now items (insert_item db (staged_item run raw now item)))"

definition persist_page ::
  "env \<Rightarrow> own_media \<Rightarrow> uuid \<Rightarrow> rstr \<Rightarrow> ProviderOwnMediaPage \<Rightarrow> rstr option \<Rightarrow> instant \<Rightarrow> (own_media, OwnMediaSyncError) result" where
  "persist_page E db run account page candidate now =
     bind_result (insert_raw_record E SyncMalformed db (page_raw page) now) (\<lambda>(raw, db1).
     bind_result (persist_items run account raw now (page_items page) db1) (\<lambda>db2.
       Ok (update_run db2 (running run)
         (\<lambda>r. r\<lparr>sr_cursor := page_next page,
            sr_candidate := (case sr_candidate r of Some c \<Rightarrow> Some c | None \<Rightarrow> candidate),
            sr_pages := sr_pages r + 1, sr_items := sr_items r + int (length (page_items page)), sr_updated_at := now\<rparr>))))"

definition is_retryable :: "ProviderFailureClass \<Rightarrow> bool" where
  "is_retryable failure \<longleftrightarrow> failure \<in> {NetworkFailure, RateLimitedFailure, ServerFailure}"

definition retry_run :: "string \<Rightarrow> instant \<Rightarrow> SyncRunRow \<Rightarrow> SyncRunRow" where
  "retry_run reason now r = r\<lparr>sr_status := RunRetryable, sr_reason := Some reason, sr_updated_at := now\<rparr>"

definition mark_provider_failure :: "own_media \<Rightarrow> uuid \<Rightarrow> ProviderError \<Rightarrow> instant \<Rightarrow> own_media" where
  "mark_provider_failure db run error now =
     update_run db (running run)
       (if is_retryable (failure_class error) then (\<lambda>r. (retry_run ''provider_retryable'' now r)\<lparr>sr_finished_at := None\<rparr>)
        else fail_run ''response_refused'' now)"

section \<open>Facts\<close>

definition own_media_content_digest :: "env \<Rightarrow> own_codec \<Rightarrow> SyncItemRow \<Rightarrow> string option" where
  "own_media_content_digest E K s =
     map_option (\<lambda>published. hex_encode (e_sha256 E (cd_json K (si_provider_id s) (si_permalink s) (si_caption s) published)))
       (cd_rfc3339 K (si_published_at s))"

definition media_events :: "archive \<Rightarrow> uuid \<Rightarrow> OutboxRow list" where
  "media_events db media_id = filter (\<lambda>r. ob_agg_type r = AggMedia \<and> ob_agg_id r = media_id) (outbox db)"

definition own_snapshot :: "env \<Rightarrow> uuid \<Rightarrow> rstr option \<Rightarrow> instant \<Rightarrow> SyncItemRow \<Rightarrow> RawRow \<Rightarrow> string \<Rightarrow> Snapshot" where
  "own_snapshot E owner checkpoint captured_at s raw digest =
     \<lparr>snap_source_id = own_media_source_identity E owner (si_provider_id s), snap_external_post_id = si_provider_id s,
      snap_permalink = si_permalink s, snap_owner = owner, snap_published_at = Some (si_published_at s),
      snap_captured_at = captured_at,
      snap_text = (case si_caption s of Some body \<Rightarrow> if body \<noteq> [] then Some body else None | None \<Rightarrow> None),
      snap_content_digest = digest,
      snap_raw_blob = \<lparr>blob_digest_hex = raw_blob_ref raw, blob_length_bytes = raw_size raw\<rparr>,
      snap_acquisition = OfficialApiMethod, snap_authority = AuthoritativePlatformState,
      snap_upstream = AvailableUpstream, snap_checkpoint = checkpoint\<rparr>"

text \<open>One joined row; a digest the media row ever published is not published again.\<close>

definition append_own_media_fact ::
  "env \<Rightarrow> own_codec \<Rightarrow> uuid \<Rightarrow> rstr option \<Rightarrow> instant \<Rightarrow> SyncItemRow \<Rightarrow> MediaRow \<Rightarrow> RawRow \<Rightarrow> archive \<Rightarrow> (archive, PublishError) result" where
  "append_own_media_fact E K owner checkpoint captured_at s m raw db =
     (case own_media_content_digest E K s of
        None \<Rightarrow> Err (ContractViolation (Uuid 0 0))
      | Some digest \<Rightarrow>
          let prior = map (\<lambda>r. payload_digest (ob_payload r)) (media_events db (med_id m));
              snapshot = own_snapshot E owner checkpoint captured_at s raw digest
          in if Some digest \<in> set prior then Ok db
             else if \<not> e_instant_ok E (si_published_at s) \<or> \<not> e_instant_ok E captured_at \<or> raw_size raw < 0
               \<or> \<not> e_snapshot_ok E snapshot then Err (ContractViolation (med_id m))
             else if list_ex (\<lambda>r. ob_event_id r = now_v7 E db) (outbox db) then Ok (drawn db)
             else Ok (append_outbox (drawn db)
               (outbox_row (now_v7 E db) (fact_event_type (if prior = [] then Captured else Updated)) AggMedia (med_id m)
                 owner (SnapshotPayload snapshot) (now_v7 E db) None captured_at)))"

fun append_own_media_loop ::
  "env \<Rightarrow> own_codec \<Rightarrow> uuid \<Rightarrow> rstr option \<Rightarrow> instant \<Rightarrow> SyncItemRow list \<Rightarrow> archive \<Rightarrow> (archive, PublishError) result" where
  "append_own_media_loop E K owner checkpoint captured_at [] db = Ok db"
| "append_own_media_loop E K owner checkpoint captured_at (s # items) db =
     (case (find (\<lambda>m. med_provider m = Some (si_provider_id s)) (media db), raw_of db (si_raw s)) of
        (Some m, Some raw) \<Rightarrow>
          bind_result (append_own_media_fact E K owner checkpoint captured_at s m raw db)
            (append_own_media_loop E K owner checkpoint captured_at items)
      | _ \<Rightarrow> append_own_media_loop E K owner checkpoint captured_at items db)"

definition staged :: "own_media \<Rightarrow> uuid \<Rightarrow> SyncItemRow list" where
  "staged db run = sort_key si_provider_id (filter (\<lambda>s. si_run s = run) (om_items db))"

definition append_own_media_facts ::
  "env \<Rightarrow> own_codec \<Rightarrow> own_media \<Rightarrow> uuid \<Rightarrow> uuid \<Rightarrow> rstr option \<Rightarrow> instant \<Rightarrow> (own_media, PublishError) result" where
  "append_own_media_facts E K db run owner checkpoint captured_at =
     bind_result (append_own_media_loop E K owner checkpoint captured_at (staged db run) (of_archive db))
       (\<lambda>arch. Ok (db\<lparr>of_archive := arch\<rparr>))"

section \<open>Finalization\<close>

definition project_item :: "uuid \<Rightarrow> SyncItemRow \<Rightarrow> instant \<Rightarrow> MediaRow \<Rightarrow> MediaRow" where
  "project_item account_id s now m =
     m\<lparr>med_account := Some account_id, med_permalink := si_permalink s, med_type := si_type s, med_caption := si_caption s,
       med_acquisition := ''official_api'', med_authority := ''authoritative_platform_state'',
       med_upstream := UpAvailable, med_updated_at := now\<rparr>"

definition new_own_media :: "uuid \<Rightarrow> uuid \<Rightarrow> SyncItemRow \<Rightarrow> instant \<Rightarrow> MediaRow" where
  "new_own_media media_id account_id s now =
     \<lparr>med_id = media_id, med_permalink = si_permalink s, med_type = si_type s, med_caption = si_caption s,
      med_acquisition = ''official_api'', med_authority = ''authoritative_platform_state'', med_upstream = UpAvailable,
      med_revision = None, med_updated_at = now, med_account = Some account_id, med_provider = Some (si_provider_id s),
      med_blob = None\<rparr>"

text \<open>The lookup is by provider identity only; the permalink is unique in the table.\<close>

definition ensure_own_media ::
  "env \<Rightarrow> archive \<Rightarrow> uuid \<Rightarrow> SyncItemRow \<Rightarrow> instant \<Rightarrow> (archive \<times> uuid, OwnMediaSyncError) result" where
  "ensure_own_media E db account_id s now =
     (case find (\<lambda>m. med_provider m = Some (si_provider_id s)) (media db) of
        Some m \<Rightarrow> Ok (db, med_id m)
      | None \<Rightarrow>
          if list_ex (\<lambda>m. med_permalink m = si_permalink s \<or> med_id m = now_v7 E db) (media db) then Err SyncDatabase
          else Ok ((drawn db)\<lparr>media := media db @ [new_own_media (now_v7 E db) account_id s now]\<rparr>, now_v7 E db))"

definition finalize_item ::
  "env \<Rightarrow> uuid \<Rightarrow> instant \<Rightarrow> SyncItemRow \<Rightarrow> archive \<Rightarrow> (archive, OwnMediaSyncError) result" where
  "finalize_item E account_id now s db =
     bind_result (ensure_own_media E db account_id s now) (\<lambda>(db1, media_id).
       if list_ex (\<lambda>m. med_id m \<noteq> media_id \<and> med_permalink m = si_permalink s) (media db1)
         \<or> list_ex (\<lambda>r. rev_id r = now_v7 E db1) (revisions db1) then Err SyncDatabase
       else
         let revision_id = now_v7 E db1;
             db2 = (drawn db1)\<lparr>media := update_where (\<lambda>m. med_id m = media_id) (project_item account_id s now) (media db1),
               revisions := revisions db1 @ [\<lparr>rev_id = revision_id, rev_media = media_id, rev_raw = si_raw s,
                 rev_parser = ''official-own-media-v1'', rev_at = now\<rparr>]\<rparr>
         in Ok (db2\<lparr>media := update_where (\<lambda>m. med_id m = media_id) (\<lambda>m. m\<lparr>med_revision := Some revision_id\<rparr>) (media db2)\<rparr>))"

fun finalize_items ::
  "env \<Rightarrow> uuid \<Rightarrow> instant \<Rightarrow> SyncItemRow list \<Rightarrow> archive \<Rightarrow> (archive, OwnMediaSyncError) result" where
  "finalize_items E account_id now [] db = Ok db"
| "finalize_items E account_id now (s # items) db =
     bind_result (finalize_item E account_id now s db) (finalize_items E account_id now items)"

definition put_authority :: "own_media \<Rightarrow> uuid \<Rightarrow> uuid \<Rightarrow> instant \<Rightarrow> own_media" where
  "put_authority db account_id run now =
     (if list_ex (\<lambda>a. sa_account a = account_id) (om_authority db)
      then db\<lparr>om_authority := update_where (\<lambda>a. sa_account a = account_id)
        (\<lambda>a. a\<lparr>sa_run := run, sa_activated_at := now\<rparr>) (om_authority db)\<rparr>
      else db\<lparr>om_authority := om_authority db @ [\<lparr>sa_account = account_id, sa_run = run, sa_activated_at = now\<rparr>]\<rparr>)"

definition still_eligible :: "own_media \<Rightarrow> uuid \<Rightarrow> uuid \<Rightarrow> uuid \<Rightarrow> rstr \<Rightarrow> bool" where
  "still_eligible db account_id user generation provider_id \<longleftrightarrow>
     (case (account_row db account_id, own_capability db account_id) of
        (Some a, Some c) \<Rightarrow> acc_user a = user \<and> acc_provider_id a = provider_id \<and> acc_status a = Connected
          \<and> ac_generation_id c = generation \<and> ac_state c = ''available''
      | _ \<Rightarrow> False)"

definition complete_run :: "own_media \<Rightarrow> uuid \<Rightarrow> uuid \<Rightarrow> rstr option \<Rightarrow> instant \<Rightarrow> instant \<Rightarrow> own_media" where
  "complete_run db account_id run candidate next_due_at now =
     update_run
       (put_state (\<lambda>s. s\<lparr>ss_watermark := candidate, ss_next_due := next_due_at, ss_last_run := Some run,
            ss_last_outcome := Some ''completed'', ss_updated_at := now\<rparr>)
          (put_authority db account_id run now)
          \<lparr>ss_account = account_id, ss_watermark = candidate, ss_next_due = next_due_at, ss_last_run = Some run,
           ss_last_outcome = Some ''completed'', ss_updated_at = now\<rparr>)
       (running run)
       (\<lambda>r. r\<lparr>sr_status := RunCompleted, sr_reason := Some ''completed'', sr_cursor := None, sr_updated_at := now,
          sr_finished_at := Some now\<rparr>)"

definition finalize_run ::
  "env \<Rightarrow> own_codec \<Rightarrow> OwnMediaSyncConfig \<Rightarrow> own_media \<Rightarrow> uuid \<Rightarrow> uuid \<Rightarrow> uuid \<Rightarrow> uuid \<Rightarrow> rstr \<Rightarrow> rstr option \<Rightarrow> instant
     \<Rightarrow> own_media \<times> (unit, OwnMediaSyncError) result" where
  "finalize_run E K C db run account_id user generation provider_id candidate now =
     (case next_due C now of
        Err e \<Rightarrow> (db, Err e)
      | Ok next_due_at \<Rightarrow>
          if \<not> still_eligible db account_id user generation provider_id
          then (update_run db (\<lambda>r. sr_id r = run) (fail_run ''capability_changed'' now), Err SyncUnavailable)
          else (case finalize_items E account_id now (staged db run) (of_archive db) of
              Err e \<Rightarrow> (db, Err e)
            | Ok arch \<Rightarrow>
                (case append_own_media_facts E K (db\<lparr>of_archive := arch\<rparr>) run user candidate now of
                   Err e \<Rightarrow> (db, Err (SyncPublish e))
                 | Ok db1 \<Rightarrow> (complete_run db1 account_id run candidate next_due_at now, Ok ()))))"

section \<open>One eligible account\<close>

text \<open>
  The page loop: \<open>n\<close> pages remain, \<open>k\<close> were requested. \<open>Inl\<close> is a return from inside the loop, \<open>Inr\<close> the end of
  the loop with whether the traversal completed, the cursor and the candidate watermark.
\<close>

type_synonym loop_end = "(OwnMediaSyncOutcome, OwnMediaSyncError) result + bool \<times> rstr option \<times> rstr option"

fun page_loop ::
  "env \<Rightarrow> page_source \<Rightarrow> instant \<Rightarrow> uuid \<Rightarrow> rstr \<Rightarrow> rstr \<Rightarrow> rstr option \<Rightarrow> nat \<Rightarrow> nat \<Rightarrow> rstr option \<Rightarrow> rstr option
     \<Rightarrow> own_media \<Rightarrow> ProviderBudget \<Rightarrow> own_media \<times> loop_end" where
  "page_loop E pages now run account token old 0 k cursor candidate db b = (db, Inr (False, cursor, candidate))"
| "page_loop E pages now run account token old (Suc n) k cursor candidate db b =
     (case provider_attempt E now db b OwnMediaPage (pages k account token cursor) of
        (db1, b1, Err e) \<Rightarrow>
          if e = Exhausted
          then (update_run db1 (running run) (retry_run ''budget_exhausted'' now), Inl (Ok (SyncRetryable run cursor)))
          else (db1, Inl (Err (SyncBudget e)))
      | (db1, b1, Ok (Err error)) \<Rightarrow>
          (mark_provider_failure db1 run error now,
           Inl (if is_retryable (failure_class error) then Ok (SyncRetryable run cursor) else Err (SyncProvider error)))
      | (db1, b1, Ok (Ok page)) \<Rightarrow>
          let candidate' = (case candidate of Some c \<Rightarrow> Some c
                | None \<Rightarrow> (case page_items page of [] \<Rightarrow> None | item # _ \<Rightarrow> Some (pm_provider_media_id item)));
              reached = (case old of None \<Rightarrow> False
                | Some w \<Rightarrow> list_ex (\<lambda>item. pm_provider_media_id item = w) (page_items page))
          in (case persist_page E db1 run account page candidate' now of
                Err e \<Rightarrow> (db1, Inl (Err e))
              | Ok db2 \<Rightarrow>
                  if reached \<or> old = None \<and> page_next page = None then (db2, Inr (True, page_next page, candidate'))
                  else if page_next page = None then (db2, Inr (False, page_next page, candidate'))
                  else page_loop E pages now run account token old n (Suc k) (page_next page) candidate' db2 b1))"

text \<open>The run a pass works on: the active one when its generation is current, or a new one that starts
  with the items of the authoritative run.\<close>

record run_start =
  rs_run :: uuid
  rs_old :: "rstr option"
  rs_candidate :: "rstr option"
  rs_cursor :: "rstr option"
  rs_resumed :: bool

definition authority_items :: "own_media \<Rightarrow> uuid \<Rightarrow> uuid \<Rightarrow> SyncItemRow list" where
  "authority_items db account_id run =
     concat (map (\<lambda>a. map (\<lambda>s. s\<lparr>si_run := run\<rparr>) (filter (\<lambda>s. si_run s = sa_run a) (om_items db)))
       (filter (\<lambda>a. sa_account a = account_id) (om_authority db)))"

definition start_run ::
  "env \<Rightarrow> own_media \<Rightarrow> uuid \<Rightarrow> uuid \<Rightarrow> uuid \<Rightarrow> instant \<Rightarrow> own_media \<times> (run_start, OwnMediaSyncError) result" where
  "start_run E db account_id user generation now =
     (case active_run db account_id of
        Some r \<Rightarrow>
          if sr_generation r \<noteq> generation then (db, Err SyncUnavailable)
          else (update_run db (\<lambda>x. sr_id x = sr_id r \<and> sr_status x = RunRetryable)
                 (\<lambda>x. x\<lparr>sr_status := RunRunning, sr_reason := None, sr_updated_at := now\<rparr>),
               Ok \<lparr>rs_run = sr_id r, rs_old = sr_start_watermark r, rs_candidate = sr_candidate r,
                   rs_cursor = sr_cursor r, rs_resumed = True\<rparr>)
      | None \<Rightarrow>
          let old = Option.bind (sync_state db account_id) ss_watermark; run_id = of_id E db; db0 = of_draw db
          in if list_ex (\<lambda>r. sr_id r = run_id) (om_runs db) then (db0, Err SyncDatabase)
             else (db0\<lparr>om_runs := om_runs db0 @ [\<lparr>sr_id = run_id, sr_account = account_id, sr_user = user,
                      sr_generation = generation, sr_start_watermark = old, sr_candidate = None, sr_cursor = None,
                      sr_status = RunRunning, sr_reason = None, sr_pages = 0, sr_items = 0, sr_started_at = now,
                      sr_updated_at = now, sr_finished_at = None\<rparr>],
                    om_items := om_items db0 @ authority_items db0 account_id run_id\<rparr>,
                   Ok \<lparr>rs_run = run_id, rs_old = old, rs_candidate = None, rs_cursor = None, rs_resumed = False\<rparr>))"

definition run_budget ::
  "OwnMediaSyncConfig \<Rightarrow> own_media \<Rightarrow> uuid \<Rightarrow> run_start \<Rightarrow> (ProviderBudget, BudgetError) result" where
  "run_budget C db account_id s =
     (if rs_resumed s then resume_budget (of_usage db) (rs_run s) (Some account_id) (oc_call_budget C)
      else Ok (new_budget (rs_run s) (Some account_id) (oc_call_budget C)))"

definition traverse ::
  "env \<Rightarrow> own_codec \<Rightarrow> OwnMediaSyncConfig \<Rightarrow> page_source \<Rightarrow> own_media \<Rightarrow> uuid \<Rightarrow> uuid \<Rightarrow> uuid \<Rightarrow> rstr \<Rightarrow> rstr \<Rightarrow> run_start
     \<Rightarrow> ProviderBudget \<Rightarrow> instant \<Rightarrow> own_media \<times> (OwnMediaSyncOutcome, OwnMediaSyncError) result" where
  "traverse E K C pages db account_id user generation provider_id token s b now =
     (case page_loop E pages now (rs_run s) provider_id token (rs_old s) (unat (oc_pages_per_run C)) 0
        (rs_cursor s) (rs_candidate s) db b of
        (db1, Inl r) \<Rightarrow> (db1, r)
      | (db1, Inr (False, cursor, candidate)) \<Rightarrow>
          (update_run db1 (running (rs_run s)) (retry_run ''page_limit'' now), Ok (SyncRetryable (rs_run s) cursor))
      | (db1, Inr (True, cursor, candidate)) \<Rightarrow>
          (case finalize_run E K C db1 (rs_run s) account_id user generation provider_id candidate now of
             (db2, Err e) \<Rightarrow> (db2, Err e)
           | (db2, Ok _) \<Rightarrow> (db2, Ok (SyncCompleted (rs_run s) candidate))))"

definition run_eligible ::
  "env \<Rightarrow> own_codec \<Rightarrow> aead \<Rightarrow> CredentialKeyring \<Rightarrow> OwnMediaSyncConfig \<Rightarrow> page_source \<Rightarrow> own_media \<Rightarrow> uuid \<Rightarrow> uuid \<Rightarrow> uuid
     \<Rightarrow> instant \<Rightarrow> own_media \<times> (OwnMediaSyncOutcome, OwnMediaSyncError) result" where
  "run_eligible E K A ring C pages db account_id user generation now =
     (case (find (\<lambda>a. acc_account_id a = account_id \<and> acc_user a = user \<and> acc_status a = Connected) (accounts db),
            credential_row db account_id) of
        (Some a, Some c) \<Rightarrow>
          (case open_envelope A ring (account_binding account_id) (cr_envelope c) of
             Err e \<Rightarrow> (db, Err (SyncCrypto e))
           | Ok token \<Rightarrow>
               (case start_run E db account_id user generation now of
                  (db1, Err e) \<Rightarrow> (db1, Err e)
                | (db1, Ok s) \<Rightarrow>
                    (case run_budget C db1 account_id s of
                       Err e \<Rightarrow> (db1, Err (SyncBudget e))
                     | Ok b \<Rightarrow> traverse E K C pages db1 account_id user generation (acc_provider_id a) token s b now)))
      | _ \<Rightarrow> (db, Err SyncUnavailable))"

definition run_account_once ::
  "env \<Rightarrow> own_codec \<Rightarrow> aead \<Rightarrow> CredentialKeyring \<Rightarrow> OwnMediaSyncConfig \<Rightarrow> page_source \<Rightarrow> own_media \<Rightarrow> uuid \<Rightarrow> instant
     \<Rightarrow> own_media \<times> (OwnMediaSyncOutcome, OwnMediaSyncError) result" where
  "run_account_once E K A ring C pages db account_id now =
     (case (account_row db account_id, own_capability db account_id) of
        (Some a, Some c) \<Rightarrow>
          if acc_status a \<noteq> Connected \<or> ac_state c \<noteq> ''available''
          then (case next_due C now of
                  Err e \<Rightarrow> (db, Err e)
                | Ok next_due_at \<Rightarrow>
                    record_noop E db account_id (acc_user a) (ac_generation_id c) (noop_reason (acc_status a) (ac_reason c))
                      next_due_at now)
          else run_eligible E K A ring C pages db account_id (acc_user a) (ac_generation_id c) now
      | _ \<Rightarrow> (db, Err SyncUnavailable))"

section \<open>Scheduling\<close>

definition due_accounts :: "OwnMediaSyncConfig \<Rightarrow> own_media \<Rightarrow> instant \<Rightarrow> uuid list" where
  "due_accounts C db now =
     (let due = (\<lambda>a. active_run db (acc_account_id a) \<noteq> None
            \<or> (case sync_state db (acc_account_id a) of None \<Rightarrow> True | Some s \<Rightarrow> ss_next_due s \<le> now));
          key = (\<lambda>a. case sync_state db (acc_account_id a) of None \<Rightarrow> acc_connected_at a | Some s \<Rightarrow> ss_next_due s)
      in map acc_account_id (take (unat (oc_accounts_per_tick C))
           (sort_key key (sort_key acc_account_id (filter due (accounts db))))))"

definition count_outcome ::
  "(OwnMediaSyncOutcome, OwnMediaSyncError) result \<Rightarrow> OwnMediaSyncSummary \<Rightarrow> OwnMediaSyncSummary" where
  "count_outcome r s =
     (case r of
        Ok (SyncCompleted _ _) \<Rightarrow> s\<lparr>sum_completed := saturating_add (sum_completed s) 1\<rparr>
      | Ok (CapabilityNoop _ _) \<Rightarrow> s\<lparr>sum_noops := saturating_add (sum_noops s) 1\<rparr>
      | Ok (SyncRetryable _ _) \<Rightarrow> s\<lparr>sum_retryable := saturating_add (sum_retryable s) 1\<rparr>
      | Err _ \<Rightarrow> s\<lparr>sum_failed := saturating_add (sum_failed s) 1\<rparr>)"

fun run_accounts ::
  "(own_media \<Rightarrow> uuid \<Rightarrow> own_media \<times> (OwnMediaSyncOutcome, OwnMediaSyncError) result) \<Rightarrow> uuid list \<Rightarrow> own_media
     \<Rightarrow> OwnMediaSyncSummary \<Rightarrow> own_media \<times> OwnMediaSyncSummary" where
  "run_accounts one [] db s = (db, s)"
| "run_accounts one (i # is) db s =
     (case one db i of
        (db', r) \<Rightarrow> run_accounts one is db' (count_outcome r (s\<lparr>sum_attempted := saturating_add (sum_attempted s) 1\<rparr>)))"

definition no_summary :: OwnMediaSyncSummary where
  "no_summary = \<lparr>sum_attempted = 0, sum_completed = 0, sum_noops = 0, sum_retryable = 0, sum_failed = 0\<rparr>"

definition own_run_due_once ::
  "env \<Rightarrow> own_codec \<Rightarrow> aead \<Rightarrow> CredentialKeyring \<Rightarrow> OwnMediaSyncConfig \<Rightarrow> (uuid \<Rightarrow> page_source) \<Rightarrow> own_media \<Rightarrow> instant
     \<Rightarrow> own_media \<times> OwnMediaSyncSummary" where
  "own_run_due_once E K A ring C pages db now =
     (if \<not> oc_enabled C then (db, no_summary)
      else run_accounts (\<lambda>db i. run_account_once E K A ring C (pages i) db i now) (due_accounts C db now) db no_summary)"

end
