(* ===== verification/Own_Media_History.thy ===== *)
theory Own_Media_History
  imports Own_Media
begin

text \<open>
  Lemmas on the synchronization of own media: what each operation leaves alone, the invariant of its tables
  under every interleaving of passes, the projection of staged items into the archive, and the two situations
  in which a traversal can never complete. The properties are in \<open>Own_Media_Outcomes\<close>.
\<close>

section \<open>Frames\<close>

text \<open>What readers of the archive see of own media: rows, revisions, facts, authority and watermarks.\<close>

definition watermark_of :: "own_media \<Rightarrow> uuid \<Rightarrow> rstr option" where
  "watermark_of db i = Option.bind (sync_state db i) ss_watermark"

definition authoritative_view ::
  "own_media \<Rightarrow> MediaRow list \<times> RevisionRow list \<times> OutboxRow list \<times> AuthorityRow list \<times> (uuid \<Rightarrow> rstr option)" where
  "authoritative_view db =
     (media (of_archive db), revisions (of_archive db), outbox (of_archive db), om_authority db, watermark_of db)"

text \<open>The four tables of the synchronization.\<close>

definition own_tables ::
  "own_media \<Rightarrow> SyncRunRow list \<times> SyncStateRow list \<times> SyncItemRow list \<times> AuthorityRow list" where
  "own_tables db = (om_runs db, om_state db, om_items db, om_authority db)"

lemma view_draw [simp]: "authoritative_view (of_draw db) = authoritative_view db" "own_tables (of_draw db) = own_tables db"
  by (simp_all add: authoritative_view_def own_tables_def of_draw_def drawn_def watermark_of_def [abs_def] sync_state_def)

lemma view_update_run [simp]: "authoritative_view (update_run db P f) = authoritative_view db"
  by (simp add: authoritative_view_def update_run_def watermark_of_def [abs_def] sync_state_def)

lemma attempt_frame:
  assumes "provider_attempt E now db b request answer = (db', b', r)"
  shows "authoritative_view db' = authoritative_view db" "own_tables db' = own_tables db"
  using provider_attempt_ledger [OF assms]
  by (auto simp: ledger_change_def authoritative_view_def own_tables_def watermark_of_def [abs_def] sync_state_def)

lemma raw_frame:
  assumes "insert_raw_record E e db body now = Ok (i, db')"
  shows "authoritative_view db' = authoritative_view db" "own_tables db' = own_tables db"
  using assms
  by (auto simp: insert_raw_record_def authoritative_view_def own_tables_def drawn_def watermark_of_def [abs_def]
      sync_state_def split: if_splits)

lemma insert_item_only: "\<exists>items. insert_item db s = db\<lparr>om_items := items\<rparr>"
  by (auto simp: insert_item_def)

lemma persist_items_only: "persist_items run account raw now items db = Ok db' \<Longrightarrow> \<exists>its. db' = db\<lparr>om_items := its\<rparr>"
proof (induction items arbitrary: db)
  case Nil
  then show ?case by (auto intro!: exI [of _ "om_items db"])
next
  case (Cons item items)
  obtain its where its: "insert_item db (staged_item run raw now item) = db\<lparr>om_items := its\<rparr>"
    using insert_item_only by blast
  from Cons.prems its have "persist_items run account raw now items (db\<lparr>om_items := its\<rparr>) = Ok db'"
    by (simp split: if_splits)
  from Cons.IH [OF this] show ?case by auto
qed

lemma view_items [simp]: "authoritative_view (db\<lparr>om_items := its\<rparr>) = authoritative_view db"
  by (simp add: authoritative_view_def watermark_of_def [abs_def] sync_state_def)

text \<open>An accepted page: evidence, staged items, then the run's cursor.\<close>

definition page_progress :: "ProviderOwnMediaPage \<Rightarrow> rstr option \<Rightarrow> instant \<Rightarrow> SyncRunRow \<Rightarrow> SyncRunRow" where
  "page_progress page candidate now r =
     r\<lparr>sr_cursor := page_next page,
       sr_candidate := (case sr_candidate r of Some c \<Rightarrow> Some c | None \<Rightarrow> candidate),
       sr_pages := sr_pages r + 1, sr_items := sr_items r + int (length (page_items page)), sr_updated_at := now\<rparr>"

lemma persist_pageE:
  assumes "persist_page E db run account page candidate now = Ok db'"
  obtains raw db1 db2 where "authoritative_view db1 = authoritative_view db" "own_tables db1 = own_tables db"
    "persist_items run account raw now (page_items page) db1 = Ok db2"
    "db' = update_run db2 (running run) (page_progress page candidate now)"
proof -
  from assms obtain raw db1 db2 where r: "insert_raw_record E SyncMalformed db (page_raw page) now = Ok (raw, db1)"
    "persist_items run account raw now (page_items page) db1 = Ok db2"
    "db' = update_run db2 (running run) (page_progress page candidate now)"
    by (auto simp: persist_page_def page_progress_def [abs_def])
  from that [OF raw_frame [OF r(1)] r(2,3)] show thesis .
qed

lemma persist_page_view:
  assumes "persist_page E db run account page candidate now = Ok db'"
  shows "authoritative_view db' = authoritative_view db"
  using assms by (elim persist_pageE) (auto dest!: persist_items_only)

lemma mark_failure_view [simp]: "authoritative_view (mark_provider_failure db run error now) = authoritative_view db"
  by (simp add: mark_provider_failure_def)

text \<open>One turn of the page loop, on each of its branches.\<close>

lemma page_loop_Suc:
  assumes p: "provider_attempt E now db b OwnMediaPage (pages k account token cursor) = (db1, b1, r)"
    and l: "page_loop E pages now run account token old (Suc n) k cursor candidate db b = (db', e)"
  obtains
    (exhausted) "r = Err Exhausted" "db' = update_run db1 (running run) (retry_run ''budget_exhausted'' now)"
      "e = Inl (Ok (SyncRetryable run cursor))"
  | (budget) f where "r = Err f" "db' = db1" "e = Inl (Err (SyncBudget f))"
  | (provider) f where "r = Ok (Err f)" "db' = mark_provider_failure db1 run f now"
      "e = Inl (if is_retryable (failure_class f) then Ok (SyncRetryable run cursor) else Err (SyncProvider f))"
  | (refused) page c f where "r = Ok (Ok page)" "persist_page E db1 run account page c now = Err f" "db' = db1"
      "e = Inl (Err f)"
  | (last) page c done' where "r = Ok (Ok page)" "persist_page E db1 run account page c now = Ok db'"
      "e = Inr (done', page_next page, c)"
  | (next_page) page c db2 where "r = Ok (Ok page)" "persist_page E db1 run account page c now = Ok db2"
      "page_loop E pages now run account token old n (Suc k) (page_next page) c db2 b1 = (db', e)"
proof (cases r)
  case (Err f)
  then show ?thesis using l exhausted budget by (auto simp: p split: if_splits)
next
  case (Ok answer)
  show ?thesis
  proof (cases answer)
    case (Err f)
    then show ?thesis using l provider Ok by (auto simp: p)
  next
    case (Ok page)
    note r = \<open>r = Ok answer\<close> [unfolded Ok]
    define c where "c = (case candidate of Some c \<Rightarrow> Some c
      | None \<Rightarrow> (case page_items page of [] \<Rightarrow> None | item # _ \<Rightarrow> Some (pm_provider_media_id item)))"
    show ?thesis
    proof (cases "persist_page E db1 run account page c now")
      case (Err f)
      have "(db', e) = (db1, Inl (Err f))"
        using l by (simp only: page_loop.simps p r Let_def prod.case result.case c_def [symmetric] Err)
      then show ?thesis using refused [OF r Err] by simp
    next
      case (Ok db2)
      define stop where "stop \<longleftrightarrow> (case old of None \<Rightarrow> False
          | Some w \<Rightarrow> list_ex (\<lambda>item. pm_provider_media_id item = w) (page_items page)) \<or> old = None \<and> page_next page = None"
      have "(db', e) = (if stop then (db2, Inr (True, page_next page, c))
          else if page_next page = None then (db2, Inr (False, page_next page, c))
          else page_loop E pages now run account token old n (Suc k) (page_next page) c db2 b1)"
        using l by (simp only: page_loop.simps p r Let_def prod.case result.case c_def [symmetric] Ok stop_def)
      then show ?thesis using last [OF r] next_page [OF r] Ok by (metis prod.inject)
    qed
  qed
qed

lemma page_loop_view:
  "page_loop E pages now run account token old n k cursor candidate db b = (db', e)
     \<Longrightarrow> authoritative_view db' = authoritative_view db"
proof (induction n arbitrary: k cursor candidate db b)
  case (Suc n)
  obtain db1 b1 r where p: "provider_attempt E now db b OwnMediaPage (pages k account token cursor) = (db1, b1, r)"
    by (cases "provider_attempt E now db b OwnMediaPage (pages k account token cursor)") auto
  note v = attempt_frame(1) [OF p]
  from p Suc.prems show ?case
  proof (cases rule: page_loop_Suc)
    case (next_page page c db2)
    with Suc.IH v persist_page_view show ?thesis by metis
  qed (auto simp: v dest: persist_page_view)
qed simp

lemma watermark_frame [simp]:
  "watermark_of (db\<lparr>of_archive := a\<rparr>) = watermark_of db" "watermark_of (db\<lparr>om_runs := runs\<rparr>) = watermark_of db"
  "watermark_of (db\<lparr>om_authority := auth\<rparr>) = watermark_of db"
  by (simp_all add: watermark_of_def [abs_def] sync_state_def)

lemma put_state_watermark:
  assumes "\<And>s. ss_account (merge s) = ss_account s"
  shows "sync_state (put_state merge db s) i =
    (if i = ss_account s then Some (case sync_state db i of None \<Rightarrow> s | Some t \<Rightarrow> merge t) else sync_state db i)"
proof (cases "list_ex (\<lambda>x. ss_account x = ss_account s) (om_state db)")
  case True
  then have "sync_state db (ss_account s) \<noteq> None"
    by (auto simp: sync_state_def find_None_iff list_ex_iff)
  moreover have "find (\<lambda>x. ss_account x = i) (update_where (\<lambda>x. ss_account x = ss_account s) merge (om_state db)) =
      map_option (\<lambda>r. if ss_account r = ss_account s then merge r else r) (find (\<lambda>x. ss_account x = i) (om_state db))"
    by (rule find_update_where) (simp add: assms)
  ultimately show ?thesis using True
    by (auto simp: sync_state_def put_state_def map_option_case dest: find_Some_memD split: option.splits)
next
  case False
  then have "find (\<lambda>x. ss_account x = ss_account s) (om_state db) = None"
    by (auto simp: find_None_iff list_ex_iff)
  with False show ?thesis
    by (auto simp: sync_state_def put_state_def find_append split: option.splits)
qed

lemma put_state_archive [simp]:
  "of_archive (put_state merge db s) = of_archive db" "om_authority (put_state merge db s) = om_authority db"
  "om_runs (put_state merge db s) = om_runs db" "om_items (put_state merge db s) = om_items db"
  by (simp_all add: put_state_def)

lemma record_noop_view:
  assumes "record_noop E db account_id user generation reason due now = (db', r)"
  shows "authoritative_view db' = authoritative_view db"
proof -
  have w: "watermark_of (put_state (\<lambda>s. s\<lparr>ss_next_due := due, ss_last_run := l, ss_last_outcome := oc, ss_updated_at := now\<rparr>) d
      \<lparr>ss_account = account_id, ss_watermark = None, ss_next_due = due, ss_last_run = l, ss_last_outcome = oc,
       ss_updated_at = now\<rparr>) = watermark_of d" for d l oc
    by (rule ext) (simp add: watermark_of_def put_state_watermark split: option.splits)
  show ?thesis
    using assms
    by (auto simp: record_noop_def Let_def authoritative_view_def w update_run_def of_draw_def drawn_def split: if_splits)
qed

lemma start_run_view: "start_run E db i user generation now = (db', r) \<Longrightarrow> authoritative_view db' = authoritative_view db"
  by (auto simp: start_run_def Let_def split: option.splits if_splits)
    (simp_all add: authoritative_view_def of_draw_def drawn_def watermark_of_def [abs_def] sync_state_def)

lemma finalize_run_view:
  "finalize_run E K C db run i user generation provider_id candidate now = (db', Err e)
     \<Longrightarrow> authoritative_view db' = authoritative_view db"
  by (auto simp: finalize_run_def split: result.splits if_splits)

lemma traverse_view:
  assumes "traverse E K C pages db i user generation provider_id token s b now = (db', r)"
    and "\<And>run w. r \<noteq> Ok (SyncCompleted run w)"
  shows "authoritative_view db' = authoritative_view db"
proof -
  obtain db1 e where l: "page_loop E pages now (rs_run s) provider_id token (rs_old s) (unat (oc_pages_per_run C)) 0
      (rs_cursor s) (rs_candidate s) db b = (db1, e)"
    by (meson surj_pair)
  note v = page_loop_view [OF l]
  show ?thesis
  proof (cases e)
    case (Inr x)
    obtain finished cursor candidate where x: "x = (finished, cursor, candidate)" by (cases x)
    show ?thesis
      using assms v
      by (cases finished) (auto simp: traverse_def l Inr x dest!: finalize_run_view split: prod.splits result.splits)
  qed (use assms v in \<open>auto simp: traverse_def l\<close>)
qed

lemma run_eligible_view:
  assumes "run_eligible E K A ring C pages db i user generation now = (db', r)"
    and "\<And>run w. r \<noteq> Ok (SyncCompleted run w)"
  shows "authoritative_view db' = authoritative_view db"
  using assms
  by (auto simp: run_eligible_def dest!: start_run_view traverse_view split: option.splits result.splits prod.splits)

lemma pass_view:
  assumes "run_account_once E K A ring C pages db i now = (db', r)"
    and "\<And>run w. r \<noteq> Ok (SyncCompleted run w)"
  shows "authoritative_view db' = authoritative_view db"
  using assms
  by (auto simp: run_account_once_def dest!: record_noop_view run_eligible_view
      split: option.splits result.splits if_splits)

section \<open>The tables of the synchronization\<close>

text \<open>
  Run identifiers are unique, a run is terminal exactly when it has a finishing time, an account has at most
  one active run; states, items and authorities have their primary keys, items belong to runs, and an authority
  names a completed run of its account.
\<close>

definition active_accounts :: "SyncRunRow list \<Rightarrow> uuid list" where
  "active_accounts runs = map sr_account (filter (\<lambda>r. active_status (sr_status r)) runs)"

definition runs_ok :: "SyncRunRow list \<Rightarrow> bool" where
  "runs_ok runs \<longleftrightarrow> distinct (map sr_id runs)
     \<and> (\<forall>r\<in>set runs. (sr_finished_at r = None) = active_status (sr_status r)) \<and> distinct (active_accounts runs)"

definition items_ok :: "SyncRunRow list \<Rightarrow> SyncItemRow list \<Rightarrow> bool" where
  "items_ok runs items \<longleftrightarrow> distinct (map (\<lambda>s. (si_run s, si_provider_id s)) items)
     \<and> si_run ` set items \<subseteq> sr_id ` set runs"

definition authority_ok :: "SyncRunRow list \<Rightarrow> AuthorityRow list \<Rightarrow> bool" where
  "authority_ok runs auth \<longleftrightarrow> distinct (map sa_account auth)
     \<and> (\<forall>a\<in>set auth. \<exists>r\<in>set runs. sr_id r = sa_run a \<and> sr_account r = sa_account a \<and> sr_status r = RunCompleted)"

definition own_inv :: "own_media \<Rightarrow> bool" where
  "own_inv db \<longleftrightarrow> runs_ok (om_runs db) \<and> distinct (map ss_account (om_state db))
     \<and> items_ok (om_runs db) (om_items db) \<and> authority_ok (om_runs db) (om_authority db)"

lemma own_inv_tables: "own_tables db' = own_tables db \<Longrightarrow> own_inv db' = own_inv db"
  by (simp add: own_inv_def own_tables_def)

text \<open>An update of active runs: keys stay, no run becomes active, finishing ticks agree with the status.\<close>

definition run_edit :: "(SyncRunRow \<Rightarrow> SyncRunRow) \<Rightarrow> SyncRunRow \<Rightarrow> bool" where
  "run_edit f r \<longleftrightarrow> sr_id (f r) = sr_id r \<and> sr_account (f r) = sr_account r \<and> active_status (sr_status r)
     \<and> (sr_finished_at (f r) = None) = active_status (sr_status (f r))"

lemma map_id_edit:
  "(\<And>r. r \<in> set runs \<Longrightarrow> P r \<Longrightarrow> run_edit f r) \<Longrightarrow> map sr_id (update_where P f runs) = map sr_id runs"
  by (induction runs) (simp_all add: run_edit_def)

lemma active_edit:
  assumes "\<And>r. r \<in> set runs \<Longrightarrow> P r \<Longrightarrow> run_edit f r"
  shows "set (active_accounts (update_where P f runs)) \<subseteq> set (active_accounts runs)"
    and "distinct (active_accounts runs) \<Longrightarrow> distinct (active_accounts (update_where P f runs))"
proof -
  have "set (active_accounts (update_where P f runs)) \<subseteq> set (active_accounts runs)
    \<and> (distinct (active_accounts runs) \<longrightarrow> distinct (active_accounts (update_where P f runs)))"
    using assms
  proof (induction runs)
    case (Cons r runs)
    let ?t = "active_accounts (update_where P f runs)"
    have IH: "set ?t \<subseteq> set (active_accounts runs)" "distinct (active_accounts runs) \<Longrightarrow> distinct ?t"
      using Cons by simp_all
    have tab: "active_accounts (x # xs) = (if active_status (sr_status x) then [sr_account x] else []) @ active_accounts xs" for x xs
      by (simp add: active_accounts_def)
    have "active_status (sr_status r)" "sr_account (f r) = sr_account r" if "P r"
      using Cons.prems [of r] that by (simp_all add: run_edit_def)
    with IH show ?case by (cases "P r"; cases "active_status (sr_status r)"; cases "active_status (sr_status (f r))") (auto simp: tab)
  qed (simp add: active_accounts_def)
  then show "set (active_accounts (update_where P f runs)) \<subseteq> set (active_accounts runs)"
    "distinct (active_accounts runs) \<Longrightarrow> distinct (active_accounts (update_where P f runs))" by simp_all
qed

lemma runs_ok_edit:
  assumes ok: "runs_ok runs" and f: "\<And>r. r \<in> set runs \<Longrightarrow> P r \<Longrightarrow> run_edit f r"
  shows "runs_ok (update_where P f runs)"
proof -
  have "(sr_finished_at r = None) = active_status (sr_status r)" if "r \<in> set (update_where P f runs)" for r
  proof -
    from update_whereD [OF that] obtain r0 where "r0 \<in> set runs" "r = (if P r0 then f r0 else r0)" by blast
    then show ?thesis using f ok by (cases "P r0") (simp_all add: run_edit_def runs_ok_def)
  qed
  moreover have "distinct (active_accounts (update_where P f runs))"
    using active_edit(2) [of runs P f] f ok by (simp add: runs_ok_def)
  moreover have "distinct (map sr_id (update_where P f runs))"
    using map_id_edit [of runs P f] f ok by (simp add: runs_ok_def)
  ultimately show ?thesis by (simp add: runs_ok_def)
qed

lemma ids_edit:
  assumes "\<And>r. r \<in> set runs \<Longrightarrow> P r \<Longrightarrow> run_edit f r"
  shows "sr_id ` set (update_where P f runs) = sr_id ` set runs"
  using map_id_edit [of runs P f, OF assms] by (metis list.set_map)

lemma authority_ok_edit:
  assumes ok: "authority_ok runs auth" and f: "\<And>r. r \<in> set runs \<Longrightarrow> P r \<Longrightarrow> run_edit f r"
  shows "authority_ok (update_where P f runs) auth"
proof -
  have "r \<in> set (update_where P f runs)" if "r \<in> set runs" "sr_status r = RunCompleted" for r
    using that f [of r] unfolding set_update_where
    by (intro image_eqI [of _ _ r]) (auto simp: run_edit_def active_status_def)
  with ok show ?thesis unfolding authority_ok_def by blast
qed

lemma own_inv_update_run:
  assumes "own_inv db" "\<And>r. r \<in> set (om_runs db) \<Longrightarrow> P r \<Longrightarrow> run_edit f r"
  shows "own_inv (update_run db P f)"
  using assms by (simp add: own_inv_def update_run_def runs_ok_edit authority_ok_edit items_ok_def ids_edit)

lemma run_edits:
  "active_status (sr_status r) \<Longrightarrow> run_edit (fail_run reason now) r"
  "runs_ok runs \<Longrightarrow> r \<in> set runs \<Longrightarrow> running run r \<Longrightarrow> run_edit (retry_run reason now) r"
  "runs_ok runs \<Longrightarrow> r \<in> set runs \<Longrightarrow> running run r \<Longrightarrow> run_edit (page_progress page candidate now) r"
  "running run r \<Longrightarrow> run_edit (\<lambda>r. (retry_run reason now r)\<lparr>sr_finished_at := None\<rparr>) r"
  by (auto simp: run_edit_def fail_run_def retry_run_def page_progress_def running_def active_status_def runs_ok_def)

lemma running_active: "running run r \<Longrightarrow> active_status (sr_status r)"
  by (simp add: running_def active_status_def)

lemma own_inv_retry: "own_inv db \<Longrightarrow> own_inv (update_run db (running run) (retry_run reason now))"
  by (rule own_inv_update_run) (auto simp: own_inv_def intro: run_edits)

lemma own_inv_failure: "own_inv db \<Longrightarrow> own_inv (mark_provider_failure db run error now)"
  unfolding mark_provider_failure_def
  by (rule own_inv_update_run) (auto intro: run_edits running_active)

lemma runs_ok_append:
  assumes "runs_ok runs" "sr_id r \<notin> sr_id ` set runs" "(sr_finished_at r = None) = active_status (sr_status r)"
    and "active_status (sr_status r) \<Longrightarrow> sr_account r \<notin> set (active_accounts runs)"
  shows "runs_ok (runs @ [r])"
  using assms unfolding runs_ok_def by (simp add: active_accounts_def)

lemma items_ok_insert:
  assumes "items_ok runs (om_items db)" "si_run s \<in> sr_id ` set runs"
  shows "items_ok runs (om_items (insert_item db s))"
proof (cases "list_ex (\<lambda>x. si_run x = si_run s \<and> si_provider_id x = si_provider_id s) (om_items db)")
  case True
  have "map (\<lambda>s. (si_run s, si_provider_id s)) (update_where (\<lambda>x. si_run x = si_run s \<and> si_provider_id x = si_provider_id s) (\<lambda>_. s) t)
      = map (\<lambda>s. (si_run s, si_provider_id s)) t" for t
    by (rule map_update_where_same) auto
  moreover have sub: "si_run ` set (update_where P (\<lambda>_. s) t) \<subseteq> insert (si_run s) (si_run ` set t)" for P t
    unfolding set_update_where by auto
  moreover have "si_run ` set (update_where P (\<lambda>_. s) (om_items db)) \<subseteq> sr_id ` set runs" for P
    using assms by (intro subset_trans [OF sub]) (simp add: items_ok_def)
  ultimately show ?thesis
    using True assms(1) by (simp add: items_ok_def insert_item_def)
next
  case False
  then show ?thesis using assms by (auto simp: items_ok_def insert_item_def list_ex_iff)
qed

lemma items_ok_persist:
  "persist_items run account raw now items db = Ok db' \<Longrightarrow> items_ok runs (om_items db) \<Longrightarrow> run \<in> sr_id ` set runs
     \<Longrightarrow> items_ok runs (om_items db')"
proof (induction items arbitrary: db)
  case (Cons item items)
  then have "persist_items run account raw now items (insert_item db (staged_item run raw now item)) = Ok db'"
    by (simp split: if_splits)
  from Cons.IH [OF this items_ok_insert [OF Cons.prems(2)]] Cons.prems(3) show ?case by (simp add: staged_item_def)
qed simp

text \<open>A run that a traversal works on.\<close>

definition run_keys :: "SyncRunRow list \<Rightarrow> (uuid \<times> uuid \<times> SyncRunStatus) list" where
  "run_keys runs = map (\<lambda>r. (sr_id r, sr_account r, sr_status r)) runs"

definition runs_for :: "own_media \<Rightarrow> uuid \<Rightarrow> uuid \<Rightarrow> bool" where
  "runs_for db run i \<longleftrightarrow> (run, i, RunRunning) \<in> set (run_keys (om_runs db))"

lemma runs_for_tables: "own_tables db' = own_tables db \<Longrightarrow> runs_for db' run i = runs_for db run i"
  by (simp add: runs_for_def own_tables_def)

lemma runs_forE:
  assumes "runs_for db run i"
  obtains r where "r \<in> set (om_runs db)" "sr_id r = run" "sr_account r = i" "sr_status r = RunRunning"
  using assms unfolding runs_for_def run_keys_def set_map by (elim imageE) (simp add: prod.inject)

lemma run_keys_same:
  assumes "\<And>r. (sr_id (f r), sr_account (f r), sr_status (f r)) = (sr_id r, sr_account r, sr_status r)"
    and "om_runs db = runs"
  shows "run_keys (om_runs (update_run db P f)) = run_keys runs"
  using assms by (simp add: run_keys_def update_run_def map_update_where_same)

lemma run_keys_update:
  assumes "r \<in> set (om_runs db)"
  shows "(if P r then (sr_id (f r), sr_account (f r), sr_status (f r)) else (sr_id r, sr_account r, sr_status r))
    \<in> set (run_keys (om_runs (update_run db P f)))"
  using assms by (auto simp: run_keys_def update_run_def update_where_def intro!: image_eqI [of _ _ r])

lemma persist_page_inv:
  assumes "persist_page E db run account page candidate now = Ok db'" "own_inv db" "runs_for db run i"
  shows "own_inv db' \<and> runs_for db' run i"
proof -
  from assms(1) obtain raw db1 db2 where d: "own_tables db1 = own_tables db"
    "persist_items run account raw now (page_items page) db1 = Ok db2"
    "db' = update_run db2 (running run) (page_progress page candidate now)"
    by (elim persist_pageE)
  have inv1: "own_inv db1" "runs_for db1 run i"
    using assms(2,3) own_inv_tables [OF d(1)] runs_for_tables [OF d(1)] by simp_all
  from persist_items_only [OF d(2)] obtain its where its: "db2 = db1\<lparr>om_items := its\<rparr>" ..
  have ids: "run \<in> sr_id ` set (om_runs db1)" using inv1(2) by (elim runs_forE) (metis image_eqI)
  have ok: "items_ok (om_runs db1) its"
    using items_ok_persist [OF d(2) _ ids] inv1(1) unfolding own_inv_def its by simp
  have inv2: "own_inv db2" using inv1(1) ok by (simp add: own_inv_def its)
  have "own_inv db'" unfolding d(3)
    by (rule own_inv_update_run [OF inv2]) (use inv2 in \<open>auto simp: own_inv_def intro: run_edits\<close>)
  moreover have "run_keys (om_runs db') = run_keys (om_runs db1)"
    unfolding d(3) its by (rule run_keys_same) (simp_all add: page_progress_def)
  ultimately show ?thesis using inv1(2) by (simp add: runs_for_def)
qed

lemma page_loop_inv:
  "page_loop E pages now run account token old n k cursor candidate db b = (db', e) \<Longrightarrow> own_inv db \<Longrightarrow> runs_for db run i
     \<Longrightarrow> own_inv db' \<and> (\<forall>x. e = Inr x \<longrightarrow> runs_for db' run i)"
proof (induction n arbitrary: k cursor candidate db b)
  case (Suc n)
  obtain db1 b1 r where p: "provider_attempt E now db b OwnMediaPage (pages k account token cursor) = (db1, b1, r)"
    by (cases "provider_attempt E now db b OwnMediaPage (pages k account token cursor)") auto
  have t: "own_inv db1" "runs_for db1 run i"
    using Suc.prems(2,3) own_inv_tables runs_for_tables attempt_frame(2) [OF p] by blast+
  from p Suc.prems(1) show ?case
  proof (cases rule: page_loop_Suc)
    case (next_page page c db2)
    from Suc.IH [OF next_page(3)] persist_page_inv [OF next_page(2) t] show ?thesis by simp
  next
    case (last page c done')
    from persist_page_inv [OF last(2) t] show ?thesis by simp
  qed (simp_all add: t own_inv_retry own_inv_failure)
qed simp

lemma active_run_None: "active_run db i = None \<Longrightarrow> i \<notin> set (active_accounts (om_runs db))"
  by (auto simp: active_run_def active_accounts_def find_None_iff)

lemma fresh_id: "\<not> list_ex (\<lambda>r. sr_id r = x) runs \<Longrightarrow> x \<notin> sr_id ` set runs"
  by (auto simp: list_ex_iff)

lemma authority_items_keys:
  assumes "items_ok runs (om_items db)" "distinct (map sa_account (om_authority db))"
  shows "distinct (map (\<lambda>s. (si_run s, si_provider_id s)) (authority_items db i run))"
    "si_run ` set (authority_items db i run) \<subseteq> {run}"
proof -
  have one: "filter (\<lambda>a. sa_account a = i) t = [] \<or> (\<exists>a. filter (\<lambda>a. sa_account a = i) t = [a])"
    if "distinct (map sa_account t)" for t
    using that
  proof (induction t)
    case (Cons a t)
    then have "filter (\<lambda>x. sa_account x = i) t = []" if "sa_account a = i"
      unfolding filter_empty_conv using that by (metis distinct.simps(2) image_eqI list.set_map list.simps(9))
    with Cons show ?case by auto
  qed simp
  have "distinct (map si_provider_id (filter (\<lambda>s. si_run s = k) t))"
    if "distinct (map (\<lambda>s. (si_run s, si_provider_id s)) t)" for k t
    using that by (induction t) (auto, metis (no_types, lifting) image_eqI)
  then have "distinct (map (\<lambda>s. (si_run s, si_provider_id s)) (map (\<lambda>s. s\<lparr>si_run := run\<rparr>)
      (filter (\<lambda>s. si_run s = k) (om_items db))))" for k
    using assms(1) by (simp add: items_ok_def comp_def distinct_map inj_on_def)
  then show "distinct (map (\<lambda>s. (si_run s, si_provider_id s)) (authority_items db i run))"
    using one [OF assms(2)] unfolding authority_items_def by fastforce
  show "si_run ` set (authority_items db i run) \<subseteq> {run}"
    by (auto simp: authority_items_def)
qed

lemma items_ok_start:
  assumes "items_ok runs (om_items db)" "authority_ok runs (om_authority db)" "sr_id started \<notin> sr_id ` set runs"
  shows "items_ok (runs @ [started]) (om_items db @ authority_items db i (sr_id started))"
proof -
  note k = authority_items_keys [of runs db i "sr_id started", OF assms(1)]
  have d: "distinct (map sa_account (om_authority db))" using assms(2) by (simp add: authority_ok_def)
  let ?key = "\<lambda>s. (si_run s, si_provider_id s)"
  have runs: "si_run ` set (om_items db) \<subseteq> sr_id ` set runs" using assms(1) by (simp add: items_ok_def)
  have "?key ` set (om_items db) \<inter> ?key ` set (authority_items db i (sr_id started)) = {}"
  proof (rule ccontr)
    assume "\<not> ?thesis"
    then obtain s s' where s: "s \<in> set (om_items db)" "s' \<in> set (authority_items db i (sr_id started))" "si_run s = si_run s'"
      by blast
    from k(2) [OF d] s(2) have "si_run s' = sr_id started" by blast
    moreover from runs s(1) have "si_run s \<in> sr_id ` set runs" by blast
    ultimately show False using assms(3) s(3) by simp
  qed
  moreover have "si_run ` set (om_items db @ authority_items db i (sr_id started)) \<subseteq> sr_id ` set (runs @ [started])"
    using runs k(2) [OF d] unfolding set_append image_Un by (intro Un_mono) simp_all
  ultimately show ?thesis
    using assms(1) k(1) [OF d] by (simp add: items_ok_def)
qed

lemma start_run_inv:
  assumes "start_run E db i user generation now = (db', r)" "own_inv db"
  shows "own_inv db' \<and> (\<forall>s. r = Ok s \<longrightarrow> runs_for db' (rs_run s) i)"
proof (cases "active_run db i")
  case (Some a)
  then have a: "a \<in> set (om_runs db)" "sr_account a = i" "active_status (sr_status a)"
    by (auto simp: active_run_def dest: find_Some_memD)
  let ?P = "\<lambda>x. sr_id x = sr_id a \<and> sr_status x = RunRetryable"
  let ?f = "\<lambda>x. x\<lparr>sr_status := RunRunning, sr_reason := None, sr_updated_at := now\<rparr>"
  have ok: "runs_ok (om_runs db)" using assms(2) by (simp add: own_inv_def)
  have "own_inv (update_run db ?P ?f)"
    by (rule own_inv_update_run [OF assms(2)]) (use ok in \<open>simp add: run_edit_def active_status_def runs_ok_def\<close>)
  moreover have "(sr_id a, i, RunRunning) \<in> set (run_keys (om_runs (update_run db ?P ?f)))"
    using run_keys_update [OF a(1), of ?P ?f] a(2,3) by (cases "sr_status a") (simp_all add: active_status_def)
  ultimately show ?thesis
    using assms Some by (auto simp: start_run_def runs_for_def split: if_splits)
next
  case None
  let ?run = "of_id E db"
  show ?thesis
  proof (cases "list_ex (\<lambda>r. sr_id r = ?run) (om_runs db)")
    case True
    then show ?thesis using assms None own_inv_tables [of "of_draw db" db] by (auto simp: start_run_def Let_def)
  next
    case False
    note fresh = fresh_id [OF False]
    define started where "started = \<lparr>sr_id = ?run, sr_account = i, sr_user = user,
      sr_generation = generation, sr_start_watermark = Option.bind (sync_state db i) ss_watermark, sr_candidate = None,
      sr_cursor = None, sr_status = RunRunning, sr_reason = None, sr_pages = 0, sr_items = 0, sr_started_at = now,
      sr_updated_at = now, sr_finished_at = None\<rparr>"
    have started: "sr_id started = ?run" "sr_account started = i" "sr_status started = RunRunning" "sr_finished_at started = None"
      by (simp_all add: started_def)
    have tab: "om_runs db' = om_runs db @ [started]" "om_state db' = om_state db"
      "om_items db' = om_items db @ authority_items db i ?run" "om_authority db' = om_authority db"
      "r = Err e \<Longrightarrow> False" "\<forall>s. r = Ok s \<longrightarrow> rs_run s = ?run" for e
      using assms(1) None False
      by (auto simp: start_run_def Let_def started_def of_draw_def authority_items_def)
    have "runs_ok (om_runs db @ [started])"
      using assms(2) fresh active_run_None [OF None] by (intro runs_ok_append) (auto simp: own_inv_def started active_status_def)
    moreover have "authority_ok (om_runs db @ [started]) (om_authority db)"
      using assms(2) unfolding own_inv_def authority_ok_def set_append by blast
    moreover have "items_ok (om_runs db @ [started]) (om_items db @ authority_items db i ?run)"
      using items_ok_start [of "om_runs db" db started i] assms(2) fresh started(1) by (simp add: own_inv_def)
    moreover have "(?run, i, RunRunning) \<in> set (run_keys (om_runs db @ [started]))"
      by (simp add: run_keys_def started)
    ultimately show ?thesis
      using assms(2) tab unfolding own_inv_def runs_for_def by metis
  qed
qed

lemma put_state_keys:
  assumes "distinct (map ss_account (om_state db))" "\<And>s. ss_account (merge s) = ss_account s"
  shows "distinct (map ss_account (om_state (put_state merge db s)))"
  using assms map_update_where_same [of _ ss_account merge "om_state db"]
  by (auto simp: put_state_def list_ex_iff)

lemma record_noop_inv:
  assumes "record_noop E db i user generation reason due now = (db', r)" "own_inv db"
  shows "own_inv db'"
proof (cases "reason \<notin> set RUN_REASONS \<or> list_ex (\<lambda>r. sr_id r = of_id E db) (om_runs db)")
  case True
  then show ?thesis using assms own_inv_tables [of "of_draw db" db] by (auto simp: record_noop_def Let_def)
next
  case False
  let ?P = "\<lambda>r. sr_account r = i \<and> active_status (sr_status r)"
  let ?f = "fail_run ''capability_changed'' now"
  define noop where "noop = \<lparr>sr_id = of_id E db, sr_account = i, sr_user = user, sr_generation = generation,
    sr_start_watermark = None, sr_candidate = None, sr_cursor = None, sr_status = RunNoop, sr_reason = Some reason,
    sr_pages = 0, sr_items = 0, sr_started_at = now, sr_updated_at = now, sr_finished_at = Some now\<rparr>"
  have noop: "sr_id noop = of_id E db" "sr_status noop = RunNoop" "sr_finished_at noop = Some now" by (simp_all add: noop_def)
  let ?runs = "update_where ?P ?f (om_runs db)"
  have inv: "own_inv (update_run db ?P ?f)"
    by (rule own_inv_update_run [OF assms(2)]) (simp add: run_edits)
  have ids: "sr_id ` set ?runs = sr_id ` set (om_runs db)" by (rule ids_edit) (simp add: run_edits)
  have tab: "om_runs db' = ?runs @ [noop]" "om_items db' = om_items db" "om_authority db' = om_authority db"
    "distinct (map ss_account (om_state db'))"
    using assms False
    by (auto simp: record_noop_def Let_def noop_def update_run_def of_draw_def own_inv_def intro!: put_state_keys)
  have "runs_ok (?runs @ [noop])"
    using inv False fresh_id [of "of_id E db" "om_runs db"]
    by (intro runs_ok_append) (simp_all add: own_inv_def update_run_def noop ids active_status_def [of RunNoop])
  moreover have "authority_ok (?runs @ [noop]) (om_authority db)"
    using inv unfolding own_inv_def authority_ok_def update_run_def by simp
  moreover have "items_ok (?runs @ [noop]) (om_items db)"
    using inv unfolding own_inv_def items_ok_def update_run_def by auto
  ultimately show ?thesis using tab by (simp add: own_inv_def)
qed

lemma append_facts_tables: "append_own_media_facts E K db run owner checkpoint now = Ok db' \<Longrightarrow> own_tables db' = own_tables db"
  by (auto simp: append_own_media_facts_def own_tables_def)

lemma put_authority_keys:
  assumes "distinct (map sa_account (om_authority db))"
  shows "distinct (map sa_account (om_authority (put_authority db i run now)))"
  using assms map_update_where_same [of _ sa_account "\<lambda>a. a\<lparr>sa_run := run, sa_activated_at := now\<rparr>" "om_authority db"]
  by (auto simp: put_authority_def list_ex_iff)

lemma put_authority_mem:
  assumes "a \<in> set (om_authority (put_authority db i run now))"
  shows "sa_account a = i \<and> sa_run a = run \<or> a \<in> set (om_authority db)"
  using assms by (auto simp: put_authority_def dest!: update_whereD split: if_splits)

lemma put_authority_holds: "\<exists>a\<in>set (om_authority (put_authority db i run now)). sa_account a = i \<and> sa_run a = run"
proof (cases "list_ex (\<lambda>a. sa_account a = i) (om_authority db)")
  case True
  then obtain a where "a \<in> set (om_authority db)" "sa_account a = i" by (auto simp: list_ex_iff)
  then have "a\<lparr>sa_run := run, sa_activated_at := now\<rparr> \<in> set (om_authority (put_authority db i run now))"
    unfolding put_authority_def set_update_where using True by (auto simp: set_update_where intro!: image_eqI [of _ _ a])
  with \<open>sa_account a = i\<close> show ?thesis by (intro bexI) simp_all
next
  case False
  then show ?thesis by (simp add: put_authority_def)
qed

lemma put_authority_frame [simp]:
  "om_runs (put_authority db i run now) = om_runs db" "om_state (put_authority db i run now) = om_state db"
  "om_items (put_authority db i run now) = om_items db" "of_archive (put_authority db i run now) = of_archive db"
  by (simp_all add: put_authority_def)

definition completed_run :: "instant \<Rightarrow> SyncRunRow \<Rightarrow> SyncRunRow" where
  "completed_run now r = r\<lparr>sr_status := RunCompleted, sr_reason := Some ''completed'', sr_cursor := None,
     sr_updated_at := now, sr_finished_at := Some now\<rparr>"

lemma complete_run_tables:
  "om_runs (complete_run db i run candidate due now) = update_where (running run) (completed_run now) (om_runs db)"
  "om_items (complete_run db i run candidate due now) = om_items db"
  "om_authority (complete_run db i run candidate due now) = om_authority (put_authority db i run now)"
  "of_archive (complete_run db i run candidate due now) = of_archive db"
  by (simp_all add: complete_run_def update_run_def completed_run_def [abs_def])

lemma complete_run_inv:
  assumes "own_inv db" "runs_for db run i"
  shows "own_inv (complete_run db i run candidate due now)"
proof -
  let ?runs = "update_where (running run) (completed_run now) (om_runs db)"
  have edit: "run_edit (completed_run now) r" if "running run r" for r
    using that by (simp add: run_edit_def completed_run_def running_def active_status_def)
  have inv: "own_inv (update_run db (running run) (completed_run now))"
    by (rule own_inv_update_run [OF assms(1)]) (rule edit)
  from assms(2) obtain r where r: "r \<in> set (om_runs db)" "sr_id r = run" "sr_account r = i" "sr_status r = RunRunning"
    by (elim runs_forE)
  have c: "completed_run now r \<in> set ?runs"
    unfolding set_update_where by (rule image_eqI [of _ _ r]) (use r in \<open>simp_all add: running_def\<close>)
  have "\<exists>r\<in>set ?runs. sr_id r = sa_run a \<and> sr_account r = sa_account a \<and> sr_status r = RunCompleted"
    if "a \<in> set (om_authority (put_authority db i run now))" for a
    using put_authority_mem [OF that]
  proof
    assume "sa_account a = i \<and> sa_run a = run"
    with r show ?thesis by (intro bexI [OF _ c]) (simp add: completed_run_def)
  next
    assume "a \<in> set (om_authority db)"
    with inv show ?thesis by (simp add: own_inv_def authority_ok_def update_run_def)
  qed
  moreover have "distinct (map sa_account (om_authority (put_authority db i run now)))"
    using assms(1) by (intro put_authority_keys) (simp add: own_inv_def authority_ok_def)
  moreover have "distinct (map ss_account (om_state (complete_run db i run candidate due now)))"
    using assms(1) by (simp add: complete_run_def update_run_def put_state_keys own_inv_def)
  ultimately show ?thesis
    using inv by (simp add: own_inv_def complete_run_tables authority_ok_def update_run_def)
qed

lemma finalize_run_inv:
  assumes "finalize_run E K C db run i user generation provider_id candidate now = (db', r)" "own_inv db" "runs_for db run i"
  shows "own_inv db'"
proof -
  from assms(3) obtain x where x: "x \<in> set (om_runs db)" "sr_id x = run" "sr_status x = RunRunning" by (elim runs_forE)
  have "running run y" if "y \<in> set (om_runs db)" "sr_id y = run" for y
  proof -
    have "inj_on sr_id (set (om_runs db))" using assms(2) by (simp add: own_inv_def runs_ok_def distinct_map)
    then have "y = x" by (rule inj_onD) (use that x in simp_all)
    then show ?thesis using x by (simp add: running_def)
  qed
  then have failed: "own_inv (update_run db (\<lambda>r. sr_id r = run) (fail_run ''capability_changed'' now))"
    by (intro own_inv_update_run assms(2) run_edits running_active) auto
  have "own_inv (complete_run db2 i run candidate due now)"
    if "append_own_media_facts E K (db\<lparr>of_archive := arch\<rparr>) run user candidate now = Ok db2" for db2 due arch
  proof -
    have "own_tables db2 = own_tables db"
      using append_facts_tables [OF that] by (simp add: own_tables_def)
    then show ?thesis using assms(2,3) own_inv_tables runs_for_tables by (intro complete_run_inv) blast+
  qed
  then show ?thesis using assms(1,2) failed
    by (auto simp: finalize_run_def split: result.splits if_splits)
qed

lemma traverse_inv:
  assumes "traverse E K C pages db i user generation provider_id token s b now = (db', r)" "own_inv db" "runs_for db (rs_run s) i"
  shows "own_inv db'"
proof -
  obtain db1 e where l: "page_loop E pages now (rs_run s) provider_id token (rs_old s) (unat (oc_pages_per_run C)) 0
      (rs_cursor s) (rs_candidate s) db b = (db1, e)"
    by (meson surj_pair)
  note v = page_loop_inv [OF l assms(2,3)]
  show ?thesis
  proof (cases e)
    case (Inr x)
    obtain finished cursor candidate where x: "x = (finished, cursor, candidate)" by (cases x)
    show ?thesis
      using assms v
      by (cases finished) (auto simp: traverse_def l Inr x own_inv_retry dest: finalize_run_inv split: prod.splits result.splits)
  qed (use assms v in \<open>auto simp: traverse_def l\<close>)
qed

lemma run_eligible_inv:
  assumes "run_eligible E K A ring C pages db i user generation now = (db', r)" "own_inv db"
  shows "own_inv db'"
  using assms
  by (auto simp: run_eligible_def dest!: start_run_inv traverse_inv split: option.splits result.splits prod.splits)

lemma pass_inv: "run_account_once E K A ring C pages db i now = (db', r) \<Longrightarrow> own_inv db \<Longrightarrow> own_inv db'"
  by (auto simp: run_account_once_def dest: record_noop_inv run_eligible_inv split: option.splits result.splits if_splits)

lemma run_accounts_inv:
  assumes "\<And>db i. own_inv db \<Longrightarrow> own_inv (fst (one db i))"
  shows "own_inv db \<Longrightarrow> own_inv (fst (run_accounts one is db s))"
proof (induction "is" arbitrary: db s)
  case (Cons i "is")
  then show ?case using assms [of db i] by (cases "one db i") simp
qed simp

lemma due_pass_inv: "own_inv db \<Longrightarrow> own_inv (fst (own_run_due_once E K A ring C pages db now))"
  unfolding own_run_due_once_def
  by (auto intro!: run_accounts_inv) (metis pass_inv prod.collapse)

text \<open>
  Scheduler passes interleave with anything that leaves the four tables alone, as connections, captures, exports
  and deletions of captures do, and with the deletion of a connection, which erases the account's rows in all
  four. A pass is one step, although the code commits it in several transactions: the service runs one scheduler
  loop, and what other components do while a pass is under way is a step before or after it; two synchronizers
  racing on one account, or a connection deleted in the middle of a pass, are not considered.
\<close>

definition account_erased :: "uuid \<Rightarrow> own_media \<Rightarrow> own_media \<Rightarrow> bool" where
  "account_erased i db db' \<longleftrightarrow>
     om_runs db' = filter (\<lambda>r. sr_account r \<noteq> i) (om_runs db) \<and> om_state db' = filter (\<lambda>s. ss_account s \<noteq> i) (om_state db)
     \<and> om_items db' = filter (\<lambda>s. \<forall>r\<in>set (om_runs db). sr_account r = i \<longrightarrow> sr_id r \<noteq> si_run s) (om_items db)
     \<and> om_authority db' = filter (\<lambda>a. sa_account a \<noteq> i) (om_authority db)"

inductive own_step :: "own_media \<Rightarrow> own_media \<Rightarrow> bool" where
  step_pass: "own_step db (fst (own_run_due_once E K A ring C pages db now))"
| step_account: "own_step db (fst (run_account_once E K A ring C pages' db i now))"
| step_elsewhere: "own_tables db' = own_tables db \<Longrightarrow> own_step db db'"
| step_erase: "account_erased i db db' \<Longrightarrow> own_step db db'"

lemma account_erased_inv:
  assumes "account_erased i db db'" "own_inv db"
  shows "own_inv db'"
proof -
  note erased = assms(1) [unfolded account_erased_def]
  from assms(2) have runs: "runs_ok (om_runs db)" and items: "items_ok (om_runs db) (om_items db)"
    and auth: "authority_ok (om_runs db) (om_authority db)" and state: "distinct (map ss_account (om_state db))"
    by (simp_all add: own_inv_def)
  have "active_accounts (filter (\<lambda>r. sr_account r \<noteq> i) rs) = filter (\<lambda>a. a \<noteq> i) (active_accounts rs)" for rs
    by (induction rs) (auto simp: active_accounts_def)
  with runs have "runs_ok (om_runs db')" by (auto simp: erased runs_ok_def distinct_map_filter)
  moreover have "si_run s \<in> sr_id ` set (om_runs db')" if "s \<in> set (om_items db')" for s
  proof -
    from that erased items obtain r where "r \<in> set (om_runs db)" "sr_id r = si_run s"
      by (auto simp: items_ok_def image_iff subset_iff)
    with that erased show ?thesis by (auto simp: image_iff intro!: bexI [of _ r])
  qed
  then have "items_ok (om_runs db') (om_items db')"
    using items erased by (auto simp: items_ok_def distinct_map_filter)
  moreover have "authority_ok (om_runs db') (om_authority db')"
    using auth by (fastforce simp: erased authority_ok_def distinct_map_filter)
  moreover have "distinct (map ss_account (om_state db'))" using state by (simp add: erased distinct_map_filter)
  ultimately show ?thesis by (simp add: own_inv_def)
qed

definition no_runs :: "own_media \<Rightarrow> bool" where
  "no_runs db \<longleftrightarrow> own_tables db = ([], [], [], [])"

interpretation own_history: invariant_system no_runs own_step own_inv
proof
  show "own_inv db" if "no_runs db" for db
    using that by (simp add: no_runs_def own_tables_def own_inv_def runs_ok_def items_ok_def authority_ok_def active_accounts_def)
  show "own_inv db'" if "own_inv db" "own_step db db'" for db db'
    using that(2)
  proof cases
    case step_elsewhere
    then show ?thesis using own_inv_tables that(1) by blast
  next
    case (step_erase i)
    then show ?thesis using account_erased_inv that(1) by blast
  qed (use that(1) in \<open>auto intro: due_pass_inv pass_inv [OF prod.collapse [symmetric]]\<close>)
qed

section \<open>Projection\<close>

text \<open>The archive row of a staged item.\<close>

definition projected :: "uuid \<Rightarrow> archive \<Rightarrow> SyncItemRow \<Rightarrow> bool" where
  "projected i arch s \<longleftrightarrow> (\<exists>m\<in>set (media arch). med_provider m = Some (si_provider_id s) \<and> med_account m = Some i
     \<and> med_permalink m = si_permalink s \<and> med_type m = si_type s \<and> med_caption m = si_caption s
     \<and> med_authority m = ''authoritative_platform_state'' \<and> med_upstream m = UpAvailable)"

definition set_revision :: "uuid \<Rightarrow> MediaRow \<Rightarrow> MediaRow" where
  "set_revision i m = m\<lparr>med_revision := Some i\<rparr>"

lemma project_simps [simp]:
  "med_id (project_item i s now m) = med_id m" "med_provider (project_item i s now m) = med_provider m"
  "med_id (set_revision j m) = med_id m" "med_provider (set_revision j m) = med_provider m"
  by (simp_all add: project_item_def set_revision_def)

lemma ensure_own_media_ok:
  assumes "ensure_own_media E db i s now = Ok (db1, media_id)" "distinct (map med_id (media db))"
  obtains m where "m \<in> set (media db1)" "med_id m = media_id" "med_provider m = Some (si_provider_id s)"
    "distinct (map med_id (media db1))" "set (media db) \<subseteq> set (media db1)"
    "\<forall>x\<in>set (media db1). x \<in> set (media db) \<or> med_provider x = Some (si_provider_id s)"
proof (cases "find (\<lambda>m. med_provider m = Some (si_provider_id s)) (media db)")
  case None
  with assms(1) have db1: "media db1 = media db @ [new_own_media media_id i s now]"
    "\<not> list_ex (\<lambda>m. med_permalink m = si_permalink s \<or> med_id m = media_id) (media db)"
    by (auto simp: ensure_own_media_def split: if_splits)
  show thesis
    by (rule that [of "new_own_media media_id i s now"])
      (use db1 assms(2) in \<open>auto simp: new_own_media_def list_ex_iff\<close>)
next
  case (Some m)
  with assms(1) have "db1 = db" "media_id = med_id m" by (auto simp: ensure_own_media_def)
  with find_Some_memD [OF Some] assms(2) show thesis by (intro that [of m]) simp_all
qed

text \<open>The row that a finalized item updates, and the rows it leaves alone.\<close>

lemma finalize_itemE:
  assumes "finalize_item E i now s db = Ok db'" "distinct (map med_id (media db))"
  obtains db1 :: archive and m revision where "m \<in> set (media db1)" "med_provider m = Some (si_provider_id s)"
    "distinct (map med_id (media db1))" "set (media db) \<subseteq> set (media db1)"
    "\<forall>x\<in>set (media db1). x \<in> set (media db) \<or> med_provider x = Some (si_provider_id s)"
    "media db' = update_where (\<lambda>x. med_id x = med_id m) (\<lambda>x. set_revision revision (project_item i s now x)) (media db1)"
    "\<forall>x\<in>set (media db1). med_provider x \<noteq> Some (si_provider_id s) \<longrightarrow> x \<in> set (media db')"
proof -
  from assms(1) obtain db1 media_id where e: "ensure_own_media E db i s now = Ok (db1, media_id)"
    and two: "media db' = update_where (\<lambda>x. med_id x = media_id) (set_revision (now_v7 E db1))
       (update_where (\<lambda>x. med_id x = media_id) (project_item i s now) (media db1))"
    by (auto simp: finalize_item_def Let_def set_revision_def [abs_def] split: if_splits)
  have "update_where (\<lambda>x. med_id x = k) g (update_where (\<lambda>x. med_id x = k) (project_item i s now) t) =
    update_where (\<lambda>x. med_id x = k) (\<lambda>x. g (project_item i s now x)) t" for k g t
    by (induction t) auto
  with two have media': "media db' = update_where (\<lambda>x. med_id x = media_id)
      (\<lambda>x. set_revision (now_v7 E db1) (project_item i s now x)) (media db1)" by simp
  from ensure_own_media_ok [OF e assms(2)] obtain m where m: "m \<in> set (media db1)" "med_id m = media_id"
    "med_provider m = Some (si_provider_id s)" "distinct (map med_id (media db1))" "set (media db) \<subseteq> set (media db1)"
    "\<forall>x\<in>set (media db1). x \<in> set (media db) \<or> med_provider x = Some (si_provider_id s)" by metis
  have "x \<in> set (media db')" if x: "x \<in> set (media db1)" "med_provider x \<noteq> Some (si_provider_id s)" for x
  proof -
    have "med_id x \<noteq> media_id"
    proof
      assume "med_id x = media_id"
      with m(2) have "med_id x = med_id m" by simp
      with m(1,4) x(1) have "x = m" by (metis find_key_unique option.inject)
      with x(2) m(3) show False by simp
    qed
    then show ?thesis unfolding media' set_update_where by (intro image_eqI [of _ _ x]) (simp_all add: x)
  qed
  then have "\<forall>x\<in>set (media db1). med_provider x \<noteq> Some (si_provider_id s) \<longrightarrow> x \<in> set (media db')" by blast
  with m media' show thesis by (intro that [of m db1 "now_v7 E db1"]) simp_all
qed

lemma finalize_item_projects:
  assumes "finalize_item E i now s db = Ok db'" "distinct (map med_id (media db))"
  shows "distinct (map med_id (media db'))" "projected i db' s"
    "projected i db s' \<Longrightarrow> si_provider_id s' \<noteq> si_provider_id s \<Longrightarrow> projected i db' s'"
proof -
  from assms obtain db1 :: archive and m j where m: "m \<in> set (media db1)" "med_provider m = Some (si_provider_id s)"
    and d1: "distinct (map med_id (media db1))" and sub: "set (media db) \<subseteq> set (media db1)"
    and new: "\<forall>x\<in>set (media db1). x \<in> set (media db) \<or> med_provider x = Some (si_provider_id s)"
    and media': "media db' = update_where (\<lambda>x. med_id x = med_id m) (\<lambda>x. set_revision j (project_item i s now x)) (media db1)"
    and keep: "\<forall>x\<in>set (media db1). med_provider x \<noteq> Some (si_provider_id s) \<longrightarrow> x \<in> set (media db')"
    by (elim finalize_itemE) blast
  show "distinct (map med_id (media db'))"
    using d1 by (simp add: media' map_update_where_same)
  have "set_revision j (project_item i s now m) \<in> set (media db')"
    unfolding media' set_update_where by (rule image_eqI [of _ _ m]) (use m in simp_all)
  then show "projected i db' s" unfolding projected_def
    by (rule bexI [rotated]) (use m in \<open>simp add: project_item_def set_revision_def\<close>)
  assume "projected i db s'" and other: "si_provider_id s' \<noteq> si_provider_id s"
  then obtain x where x: "x \<in> set (media db1)" "med_provider x = Some (si_provider_id s')" "med_account x = Some i"
    "med_permalink x = si_permalink s'" "med_type x = si_type s'" "med_caption x = si_caption s'"
    "med_authority x = ''authoritative_platform_state''" "med_upstream x = UpAvailable"
    using sub unfolding projected_def by blast
  have "x \<in> set (media db')" using keep x(1,2) other by simp
  then show "projected i db' s'" unfolding projected_def
    by (rule bexI [rotated]) (use x in simp)
qed

lemma finalize_items_project:
  assumes "finalize_items E i now items db = Ok db'" "distinct (map med_id (media db))" "distinct (map si_provider_id items)"
  shows "(\<forall>s\<in>set items. projected i db' s)
    \<and> (\<forall>s'. projected i db s' \<longrightarrow> si_provider_id s' \<notin> si_provider_id ` set items \<longrightarrow> projected i db' s')"
  using assms
proof (induction items arbitrary: db)
  case (Cons s items)
  then obtain db1 where db1: "finalize_item E i now s db = Ok db1" "finalize_items E i now items db1 = Ok db'" by auto
  note p = finalize_item_projects [OF db1(1) Cons.prems(2)]
  have IH: "\<forall>s\<in>set items. projected i db' s"
    "\<And>s'. projected i db1 s' \<Longrightarrow> si_provider_id s' \<notin> si_provider_id ` set items \<Longrightarrow> projected i db' s'"
    using Cons.IH [OF db1(2) p(1)] Cons.prems(3) by auto
  have "projected i db' s" using IH(2) [OF p(2)] Cons.prems(3) by simp
  moreover have "projected i db' s'" if "projected i db s'" "si_provider_id s' \<notin> si_provider_id ` set (s # items)" for s'
    using IH(2) [OF p(3) [OF that(1)]] that(2) by simp
  ultimately show ?case using IH(1) by simp
qed simp

lemma append_facts_media:
  "append_own_media_loop E K owner checkpoint now items db = Ok db' \<Longrightarrow> media db' = media db"
proof (induction items arbitrary: db)
  case (Cons s items)
  have one: "append_own_media_fact E K owner checkpoint now s m raw db = Ok d \<Longrightarrow> media d = media db" for m raw d
    by (auto simp: append_own_media_fact_def Let_def drawn_def split: option.splits if_splits)
  show ?case
    using Cons.prems Cons.IH one by (auto split: option.splits)
qed simp

lemma staged_distinct: "items_ok runs (om_items db) \<Longrightarrow> distinct (map si_provider_id (staged db run))"
proof -
  assume "items_ok runs (om_items db)"
  then have "distinct (map si_provider_id (filter (\<lambda>s. si_run s = run) (om_items db)))"
    unfolding items_ok_def distinct_map by (auto simp: inj_on_def)
  then show ?thesis by (simp add: staged_def distinct_map)
qed

lemma finalize_run_ok:
  assumes ok: "finalize_run E K C db run i user generation provider_id candidate now = (db', Ok u)"
    and inv: "own_inv db" "runs_for db run i" "distinct (map med_id (media (of_archive db)))"
  shows "\<forall>s\<in>set (staged db' run). projected i (of_archive db') s"
    "(run, i, RunCompleted) \<in> set (run_keys (om_runs db'))" "watermark_of db' i = candidate"
    "\<exists>a\<in>set (om_authority db'). sa_account a = i \<and> sa_run a = run"
proof -
  from ok obtain due arch db1 where f: "finalize_items E i now (staged db run) (of_archive db) = Ok arch"
    "append_own_media_facts E K (db\<lparr>of_archive := arch\<rparr>) run user candidate now = Ok db1"
    "db' = complete_run db1 i run candidate due now"
    by (auto simp: finalize_run_def split: result.splits if_splits)
  have tab: "om_runs db1 = om_runs db" "om_items db1 = om_items db"
    using append_facts_tables [OF f(2)] by (simp_all add: own_tables_def)
  have med: "media (of_archive db') = media arch"
    using f(2) append_facts_media by (auto simp: append_own_media_facts_def f(3) complete_run_tables)
  have st: "staged db' run = staged db run" by (simp add: staged_def f(3) complete_run_tables tab)
  have "\<forall>s\<in>set (staged db run). projected i arch s"
    using finalize_items_project [OF f(1) inv(3) staged_distinct [of "om_runs db"]] inv(1) by (simp add: own_inv_def)
  then show "\<forall>s\<in>set (staged db' run). projected i (of_archive db') s"
    by (simp add: st projected_def med)
  from inv(2) obtain r where r: "r \<in> set (om_runs db1)" "sr_id r = run" "sr_account r = i" "sr_status r = RunRunning"
    unfolding tab by (elim runs_forE)
  have "completed_run now r \<in> set (om_runs db')"
    unfolding f(3) complete_run_tables set_update_where
    by (rule image_eqI [of _ _ r]) (use r in \<open>simp_all add: running_def\<close>)
  then show "(run, i, RunCompleted) \<in> set (run_keys (om_runs db'))"
    unfolding run_keys_def set_map by (rule image_eqI [rotated]) (use r in \<open>simp add: completed_run_def\<close>)
  show "watermark_of db' i = candidate"
    by (simp add: f(3) complete_run_def update_run_def) (simp add: watermark_of_def put_state_watermark split: option.splits)
  show "\<exists>a\<in>set (om_authority db'). sa_account a = i \<and> sa_run a = run"
    unfolding f(3) complete_run_tables by (rule put_authority_holds)
qed

lemma page_loop_returns:
  "page_loop E pages now run account token old n k cursor candidate db b = (db', Inl (Ok r)) \<Longrightarrow> \<exists>c. r = SyncRetryable run c"
proof (induction n arbitrary: k cursor candidate db b)
  case (Suc n)
  obtain db1 b1 a where p: "provider_attempt E now db b OwnMediaPage (pages k account token cursor) = (db1, b1, a)"
    by (cases "provider_attempt E now db b OwnMediaPage (pages k account token cursor)") auto
  from p Suc.prems show ?case
  proof (cases rule: page_loop_Suc)
    case (next_page page c db2)
    with Suc.IH show ?thesis by blast
  qed (auto split: if_splits)
qed simp

lemma pass_completed:
  assumes "run_account_once E K A ring C pages db i now = (db', Ok (SyncCompleted run w))" "own_inv db"
    "distinct (map med_id (media (of_archive db)))"
  shows "\<exists>db1 user generation provider_id. finalize_run E K C db1 run i user generation provider_id w now = (db', Ok ())
    \<and> own_inv db1 \<and> runs_for db1 run i \<and> authoritative_view db1 = authoritative_view db"
proof -
  from assms(1) obtain user generation where "run_eligible E K A ring C pages db i user generation now = (db', Ok (SyncCompleted run w))"
    by (auto simp: run_account_once_def record_noop_def Let_def split: option.splits result.splits if_splits)
  then obtain db1 s b provider_id token where
    s: "start_run E db i user generation now = (db1, Ok s)" and
    t: "traverse E K C pages db1 i user generation provider_id token s b now = (db', Ok (SyncCompleted run w))"
    by (auto simp: run_eligible_def split: option.splits result.splits prod.splits)
  obtain db2 e where l: "page_loop E pages now (rs_run s) provider_id token (rs_old s) (unat (oc_pages_per_run C)) 0
      (rs_cursor s) (rs_candidate s) db1 b = (db2, e)"
    by (meson surj_pair)
  have inv1: "own_inv db1" "runs_for db1 (rs_run s) i" using start_run_inv [OF s assms(2)] by simp_all
  note inv2 = page_loop_inv [OF l inv1]
  have view: "authoritative_view db2 = authoritative_view db"
    using page_loop_view [OF l] start_run_view [OF s] by simp
  have "\<exists>x. e = Inr x"
    using t page_loop_returns l by (cases e) (fastforce simp: traverse_def)+
  then obtain finished cursor candidate where e: "e = Inr (finished, cursor, candidate)" by auto
  from t have "finalize_run E K C db2 run i user generation provider_id w now = (db', Ok ())" "rs_run s = run"
    by (cases finished; auto simp: traverse_def l e split: prod.splits result.splits)+
  with inv2 e view show ?thesis by blast
qed

section \<open>Traversals that never complete\<close>

text \<open>A captured post of the account: its permalink is taken by a row without provider identity.\<close>

definition permalink_taken :: "archive \<Rightarrow> SyncItemRow \<Rightarrow> bool" where
  "permalink_taken db s \<longleftrightarrow> distinct (map med_id (media db))
     \<and> (\<exists>m\<in>set (media db). med_provider m = None \<and> med_permalink m = si_permalink s)
     \<and> (\<forall>m\<in>set (media db). med_provider m \<noteq> Some (si_provider_id s))"

lemma finalize_item_taken: "permalink_taken db s \<Longrightarrow> finalize_item E i now s db = Err SyncDatabase"
proof -
  assume taken: "permalink_taken db s"
  then have "find (\<lambda>m. med_provider m = Some (si_provider_id s)) (media db) = None"
    by (simp add: permalink_taken_def find_None_iff)
  moreover have "list_ex (\<lambda>m. med_permalink m = si_permalink s \<or> med_id m = x) (media db)" for x
    using taken by (auto simp: permalink_taken_def list_ex_iff)
  ultimately show ?thesis by (simp add: finalize_item_def ensure_own_media_def)
qed

lemma finalize_item_errors: "finalize_item E i now s db = Err e \<Longrightarrow> e = SyncDatabase"
  by (auto simp: finalize_item_def ensure_own_media_def Let_def bind_result_def split: option.splits if_splits prod.splits result.splits)

lemma finalize_item_keeps_taken:
  assumes ok: "finalize_item E i now s db = Ok db'" and taken: "permalink_taken db t" and other: "si_provider_id s \<noteq> si_provider_id t"
  shows "permalink_taken db' t"
proof -
  have d: "distinct (map med_id (media db))" using taken by (simp add: permalink_taken_def)
  from ok d obtain db1 :: archive and m j where m: "m \<in> set (media db1)" "med_provider m = Some (si_provider_id s)"
    and d1: "distinct (map med_id (media db1))" and sub: "set (media db) \<subseteq> set (media db1)"
    and new: "\<forall>x\<in>set (media db1). x \<in> set (media db) \<or> med_provider x = Some (si_provider_id s)"
    and media': "media db' = update_where (\<lambda>x. med_id x = med_id m) (\<lambda>x. set_revision j (project_item i s now x)) (media db1)"
    and keep: "\<forall>x\<in>set (media db1). med_provider x \<noteq> Some (si_provider_id s) \<longrightarrow> x \<in> set (media db')"
    by (elim finalize_itemE) blast
  from taken obtain x where x: "x \<in> set (media db)" "med_provider x = None" "med_permalink x = si_permalink t"
    unfolding permalink_taken_def by blast
  then have "x \<in> set (media db')" using keep sub by (metis option.distinct(1) subsetD)
  moreover have "med_provider y \<noteq> Some (si_provider_id t)" if "y \<in> set (media db')" for y
  proof -
    from update_whereD [OF that [unfolded media']] obtain y0 where "y0 \<in> set (media db1)" "med_provider y = med_provider y0"
      by (metis project_simps(2,4))
    with new taken other show ?thesis unfolding permalink_taken_def by (metis option.inject)
  qed
  ultimately show ?thesis
    using finalize_item_projects(1) [OF ok d] x unfolding permalink_taken_def by blast
qed

lemma finalize_items_taken:
  assumes "t \<in> set items" "permalink_taken db t" "distinct (map si_provider_id items)"
  shows "finalize_items E i now items db = Err SyncDatabase"
  using assms
proof (induction items arbitrary: db)
  case (Cons s items)
  show ?case
  proof (cases "finalize_item E i now s db")
    case (Err e)
    then show ?thesis using finalize_item_errors by simp
  next
    case (Ok db1)
    with Cons.prems(2) have "s \<noteq> t" using finalize_item_taken by fastforce
    with Cons.prems have t: "t \<in> set items" "si_provider_id s \<noteq> si_provider_id t" by auto
    from Cons.IH [OF t(1) finalize_item_keeps_taken [OF Ok Cons.prems(2) t(2)]] Cons.prems(3) Ok show ?thesis by simp
  qed
qed simp

text \<open>An eligible account whose active run has spent its calls in the ledger.\<close>

definition spent_run :: "aead \<Rightarrow> CredentialKeyring \<Rightarrow> OwnMediaSyncConfig \<Rightarrow> own_media \<Rightarrow> uuid \<Rightarrow> uuid \<Rightarrow> rstr option \<Rightarrow> bool" where
  "spent_run A ring C db i run cursor \<longleftrightarrow>
     (case (account_row db i, own_capability db i, credential_row db i, active_run db i) of
        (Some a, Some c, Some cr, Some r) \<Rightarrow>
          acc_status a = Connected \<and> ac_state c = ''available''
          \<and> (\<exists>token. open_envelope A ring (account_binding i) (cr_envelope cr) = Ok token)
          \<and> sr_id r = run \<and> sr_cursor r = cursor \<and> sr_generation r = ac_generation_id c
          \<and> (case resume_budget (of_usage db) run (Some i) (oc_call_budget C) of
               Ok b \<Rightarrow> pb_limit b < pb_next b | Err _ \<Rightarrow> False)
      | _ \<Rightarrow> False)"

lemma active_run_update:
  assumes "\<And>r. P r \<Longrightarrow> sr_account (f r) = sr_account r \<and> active_status (sr_status (f r)) = active_status (sr_status r)"
  shows "active_run (update_run db P f) i = map_option (\<lambda>r. if P r then f r else r) (active_run db i)"
  unfolding active_run_def update_run_def by (simp, rule find_update_where) (simp add: assms)

definition resumed_run :: "instant \<Rightarrow> SyncRunRow \<Rightarrow> SyncRunRow" where
  "resumed_run now x = x\<lparr>sr_status := RunRunning, sr_reason := None, sr_updated_at := now\<rparr>"

lemma spent_pass:
  assumes spent: "spent_run A ring C db i run cursor" and pages: "unat (oc_pages_per_run C) = Suc n"
  shows "run_account_once E K A ring C pages db i now =
    (update_run ((of_draw (update_run db (\<lambda>x. sr_id x = run \<and> sr_status x = RunRetryable) (resumed_run now)))
        \<lparr>of_usage := of_usage db\<rparr>) (running run) (retry_run ''budget_exhausted'' now),
     Ok (SyncRetryable run cursor))"
proof -
  from spent obtain a c cr r token b where d: "account_row db i = Some a" "own_capability db i = Some c"
    "credential_row db i = Some cr" "active_run db i = Some r" "acc_status a = Connected" "ac_state c = ''available''"
    "open_envelope A ring (account_binding i) (cr_envelope cr) = Ok token"
    "sr_id r = run" "sr_cursor r = cursor" "sr_generation r = ac_generation_id c"
    "resume_budget (of_usage db) run (Some i) (oc_call_budget C) = Ok b" "pb_limit b < pb_next b"
    by (auto simp: spent_run_def split: option.splits result.splits)
  have "a \<in> set (accounts db)" "acc_account_id a = i" using d(1) by (auto simp: account_row_def dest: find_Some_memD)
  with d(5) obtain a' where a': "find (\<lambda>x. acc_account_id x = i \<and> acc_user x = acc_user a \<and> acc_status x = Connected) (accounts db) = Some a'"
    by (cases "find (\<lambda>x. acc_account_id x = i \<and> acc_user x = acc_user a \<and> acc_status x = Connected) (accounts db)")
      (auto dest: find_None_memD)
  let ?db1 = "update_run db (\<lambda>x. sr_id x = run \<and> sr_status x = RunRetryable) (resumed_run now)"
  have usage: "of_usage ?db1 = of_usage db" by (simp add: update_run_def)
  have start: "start_run E db i (acc_user a) (ac_generation_id c) now =
      (?db1, Ok \<lparr>rs_run = run, rs_old = sr_start_watermark r, rs_candidate = sr_candidate r, rs_cursor = cursor, rs_resumed = True\<rparr>)"
    by (simp add: start_run_def d(4,8,9,10) resumed_run_def [abs_def])
  have budget: "run_budget C ?db1 i \<lparr>rs_run = run, rs_old = sr_start_watermark r, rs_candidate = sr_candidate r,
      rs_cursor = cursor, rs_resumed = True\<rparr> = Ok b"
    by (simp add: run_budget_def usage d(11))
  have attempt: "provider_attempt E now ?db1 b OwnMediaPage answer = ((of_draw ?db1)\<lparr>of_usage := of_usage db\<rparr>, b, Err Exhausted)" for answer
    by (simp add: provider_attempt_def reserve_def d(12) usage)
  show ?thesis
    by (simp add: run_account_once_def d(1,2,5,6) run_eligible_def a' d(3,7) start budget traverse_def pages attempt)
qed

lemma spent_run_stays:
  assumes spent: "spent_run A ring C db i run cursor" and pages: "unat (oc_pages_per_run C) = Suc n"
  shows "spent_run A ring C (fst (run_account_once E K A ring C pages db i now)) i run cursor"
    "of_usage (fst (run_account_once E K A ring C pages db i now)) = of_usage db"
proof -
  let ?db1 = "update_run db (\<lambda>x. sr_id x = run \<and> sr_status x = RunRetryable) (resumed_run now)"
  let ?db2 = "(of_draw ?db1)\<lparr>of_usage := of_usage db\<rparr>"
  let ?db3 = "update_run ?db2 (running run) (retry_run ''budget_exhausted'' now)"
  have pass: "fst (run_account_once E K A ring C pages db i now) = ?db3"
    by (simp add: spent_pass [OF spent pages])
  show "of_usage (fst (run_account_once E K A ring C pages db i now)) = of_usage db"
    unfolding pass by (simp add: update_run_def)
  have r2: "active_run ?db2 i = active_run ?db1 i" by (simp add: active_run_def of_draw_def)
  have "active_run ?db3 i = map_option (\<lambda>r. if running run r then retry_run ''budget_exhausted'' now r else r) (active_run ?db2 i)"
    by (rule active_run_update) (auto simp: retry_run_def running_def active_status_def)
  also have "active_run ?db2 i = map_option (\<lambda>r. if sr_id r = run \<and> sr_status r = RunRetryable then resumed_run now r else r)
      (active_run db i)"
    unfolding r2 by (rule active_run_update) (auto simp: resumed_run_def active_status_def)
  finally obtain f where f: "active_run ?db3 i = map_option f (active_run db i)"
    "\<And>r. sr_id (f r) = sr_id r" "\<And>r. sr_cursor (f r) = sr_cursor r" "\<And>r. sr_generation (f r) = sr_generation r"
    by (auto simp: option.map_comp comp_def resumed_run_def retry_run_def)
  have same: "account_row ?db3 i = account_row db i" "own_capability ?db3 i = own_capability db i"
    "credential_row ?db3 i = credential_row db i" "of_usage ?db3 = of_usage db"
    by (simp_all add: account_row_def own_capability_def credential_row_def update_run_def of_draw_def)
  show "spent_run A ring C (fst (run_account_once E K A ring C pages db i now)) i run cursor"
    using spent unfolding pass spent_run_def same f(1) by (auto simp: f(2-4) split: option.splits)
qed

lemma spent_run_passes:
  assumes "spent_run A ring C db i run cursor" "unat (oc_pages_per_run C) = Suc n"
  shows "spent_run A ring C (fold (\<lambda>t d. fst (run_account_once E K A ring C pages d i t)) ticks db) i run cursor
    \<and> of_usage (fold (\<lambda>t d. fst (run_account_once E K A ring C pages d i t)) ticks db) = of_usage db"
  using assms
proof (induction ticks arbitrary: db)
  case (Cons t ticks)
  with spent_run_stays [OF Cons.prems, of E K pages t] show ?case by simp
qed simp

end
