(* ===== verification/Own_Media_Outcomes.thy ===== *)
theory Own_Media_Outcomes
  imports Own_Media_History
begin

text \<open>
  What the synchronization of own media promises: consistent run tables in every reachable state, no visible
  change without a completed traversal, a whole projection with one, and two situations in which a traversal
  can never complete. The samples at the start are the concrete states the witnesses evaluate.
\<close>

section \<open>Sample states\<close>

definition trusting_aead :: aead where
  "trusting_aead = \<lparr>aead_encrypt = \<lambda>key nonce aad msg. Some [], aead_decrypt = \<lambda>key nonce aad c. Some []\<rparr>"

definition own_credential :: CredentialRow where
  "own_credential = \<lparr>cr_id = Uuid 5 5, cr_account = Uuid 1 1, cr_envelope = FORMAT_VERSION # to_be_bytes 1 @ replicate 28 0,
     cr_refresh_envelope = None, cr_key_version = 1, cr_permissions = [], cr_expires_at = None, cr_rotated_at = None,
     cr_created_at = 0\<rparr>"

definition own_account :: AccountRow where
  "own_account = \<lparr>acc_account_id = Uuid 1 1, acc_user = Uuid 2 2, acc_provider_id = [55], acc_username = [97],
     acc_account_type = ''business'', acc_status = Connected, acc_scopes = [], acc_connected_at = 0, acc_updated_at = 0\<rparr>"

definition own_grant :: AccountCapabilityRow where
  "own_grant = \<lparr>ac_account_id = Uuid 1 1, ac_generation_id = Uuid 4 4, ac_capability = ''own_media_read'',
     ac_state = ''available'', ac_reason = ''granted'', ac_observed_at = 0\<rparr>"

definition sample_own :: own_media where
  "sample_own = \<lparr>permission_observations = [], account_capabilities = [own_grant], accounts = [own_account],
     of_credentials = [own_credential], of_flows = [], of_audit = [], of_usage = [], of_archive = empty_archive,
     om_runs = [], om_state = [], om_items = [], om_authority = []\<rparr>"

definition sample_codec :: own_codec where
  "sample_codec = \<lparr>cd_rfc3339 = \<lambda>_. Some [], cd_json = \<lambda>_ _ _ _. [1]\<rparr>"

definition sample_config :: OwnMediaSyncConfig where
  "sample_config = \<lparr>oc_enabled = True, oc_cadence_seconds = 60, oc_accounts_per_tick = 1, oc_pages_per_run = 1, oc_call_budget = 2\<rparr>"

definition sample_whole :: ProviderOwnMediaPage where
  "sample_whole = \<lparr>page_items = [sample_item], page_next = None, page_raw = [1, 2, 3]\<rparr>"

definition one_page :: page_source where
  "one_page = (\<lambda>k account token cursor. Ok sample_whole)"

lemma sample_opens: "open_envelope trusting_aead sample_ring b (cr_envelope own_credential) = Ok []"
  by code_simp

lemma sample_due: "next_due sample_config 5 = Ok (5 + seconds 60)"
  by code_simp

lemma own_rows [simp]:
  "acc_status own_account = Connected" "acc_user own_account = Uuid 2 2"
  "acc_account_id own_account = Uuid 1 1" "acc_provider_id own_account = [55]"
  "ac_state own_grant = ''available''" "ac_account_id own_grant = Uuid 1 1" "ac_capability own_grant = ''own_media_read''"
  "ac_generation_id own_grant = Uuid 4 4" "cr_account own_credential = Uuid 1 1"
  by (simp_all add: own_account_def own_grant_def own_credential_def)

definition sample_run :: SyncRunRow where
  "sample_run = \<lparr>sr_id = Uuid 7 0, sr_account = Uuid 1 1, sr_user = Uuid 2 2,
     sr_generation = Uuid 4 4, sr_start_watermark = None, sr_candidate = None, sr_cursor = None,
     sr_status = RunRunning, sr_reason = None, sr_pages = 0, sr_items = 0, sr_started_at = 5,
     sr_updated_at = 5, sr_finished_at = None\<rparr>"

definition started_own :: own_media where
  "started_own = sample_own\<lparr>of_archive := empty_archive\<lparr>minted := 1\<rparr>, om_runs := [sample_run]\<rparr>"

lemma sample_start: "start_run plain_env sample_own (Uuid 1 1) (Uuid 2 2) (Uuid 4 4) 5 =
  (started_own, Ok \<lparr>rs_run = Uuid 7 0, rs_old = None, rs_candidate = None, rs_cursor = None, rs_resumed = False\<rparr>)"
  by (simp add: start_run_def active_run_def sync_state_def sample_own_def of_id_def of_draw_def now_v7_def drawn_def plain_env_def
     empty_archive_def Let_def authority_items_def started_own_def sample_run_def)

lemma sample_attempt:
  obtains rows b where
    "provider_attempt plain_env 5 started_own (new_budget (Uuid 7 0) (Some (Uuid 1 1)) 2) OwnMediaPage (Ok sample_whole)
     = ((of_draw started_own)\<lparr>of_usage := rows\<rparr>, b, Ok (Ok sample_whole))"
  by (simp add: provider_attempt_def reserve_def new_budget_def started_own_def sample_own_def usage_conflict_def started_row_def
    Let_def finish_attempt_def complete_def metadata_invalid_def no_usage_def checked_add_def rows_affected_def complete_matches_def)

definition paged_own :: "UsageRow list \<Rightarrow> own_media" where
  "paged_own rows = sample_own\<lparr>of_usage := rows, of_archive := empty_archive\<lparr>raws := [\<lparr>raw_id = Uuid 7 2, raw_kind = ''api_response'',
      raw_blob_ref = hex_encode [1, 2, 3], raw_hash = [1, 2, 3], raw_size = 3, raw_body = [1, 2, 3], raw_at = 5\<rparr>], minted := 3\<rparr>,
     om_runs := [page_progress sample_whole (Some [49]) 5 sample_run], om_items := [staged_item (Uuid 7 0) (Uuid 7 2) 5 sample_item]\<rparr>"

lemma sample_persist:
  "persist_page plain_env ((of_draw started_own)\<lparr>of_usage := rows\<rparr>) (Uuid 7 0) [55] sample_whole (Some [49]) 5 = Ok (paged_own rows)"
  by (simp add: persist_page_def insert_raw_record_def of_id_def of_draw_def started_own_def drawn_def now_v7_def plain_env_def
    sample_whole_def sample_own_def empty_archive_def normalized_media_type_def insert_item_def update_run_def paged_own_def page_progress_def
    running_def sample_run_def sample_item_def numeral_3_eq_3)

lemma sample_finalize:
  "\<exists>db'. finalize_run plain_env sample_codec sample_config (paged_own rows) (Uuid 7 0) (Uuid 1 1) (Uuid 2 2) (Uuid 4 4) [55]
     (Some [49]) 5 = (db', Ok ())"
  by (simp add: finalize_run_def sample_due still_eligible_def account_row_def own_capability_def paged_own_def sample_own_def
    staged_def staged_item_def sample_item_def finalize_item_def ensure_own_media_def empty_archive_def drawn_def now_v7_def
    plain_env_def Let_def append_own_media_facts_def append_own_media_fact_def raw_of_def new_own_media_def project_item_def
    own_media_content_digest_def sample_codec_def media_events_def)

lemma sample_own_tables:
  "account_row sample_own (Uuid 1 1) = Some own_account" "own_capability sample_own (Uuid 1 1) = Some own_grant"
  "credential_row sample_own (Uuid 1 1) = Some own_credential" "accounts sample_own = [own_account]"
  by (simp_all add: sample_own_def account_row_def own_capability_def credential_row_def)

lemma sample_limits: "oc_pages_per_run sample_config = 1" "oc_call_budget sample_config = 2"
  by (simp_all add: sample_config_def)

lemma sample_completes:
  "\<exists>db'. run_account_once plain_env sample_codec trusting_aead sample_ring sample_config one_page sample_own (Uuid 1 1) 5
  = (db', Ok (SyncCompleted (Uuid 7 0) (Some [49])))"
proof -
  obtain rows b where at: "provider_attempt plain_env 5 started_own (new_budget (Uuid 7 0) (Some (Uuid 1 1)) 2) OwnMediaPage (Ok sample_whole)
     = ((of_draw started_own)\<lparr>of_usage := rows\<rparr>, b, Ok (Ok sample_whole))" by (rule sample_attempt)
  obtain db' where fin: "finalize_run plain_env sample_codec sample_config (paged_own rows) (Uuid 7 0) (Uuid 1 1) (Uuid 2 2) (Uuid 4 4) [55]
     (Some [49]) 5 = (db', Ok ())" using sample_finalize by blast
  have page: "page_next sample_whole = None" "page_items sample_whole = [sample_item]" "pm_provider_media_id sample_item = [49]"
    by (simp_all add: sample_whole_def sample_item_def)
  show ?thesis
    by (simp add: run_account_once_def sample_own_tables run_eligible_def sample_opens sample_start run_budget_def traverse_def
      sample_limits
      one_page_def at page sample_persist fin)
qed

lemma refused_fields: "failure_class response_refused = ResponseRefusedFailure" "http_status response_refused = None"
  by (simp_all add: response_refused_def refused_def)

lemma refused_attempt:
  obtains rows b where
    "provider_attempt plain_env 5 started_own (new_budget (Uuid 7 0) (Some (Uuid 1 1)) 2) OwnMediaPage
       (Err response_refused :: (ProviderOwnMediaPage, ProviderError) result)
     = ((of_draw started_own)\<lparr>of_usage := rows\<rparr>, b, Ok (Err response_refused))"
  by (simp add: provider_attempt_def reserve_def new_budget_def started_own_def sample_own_def usage_conflict_def started_row_def
    Let_def finish_attempt_def complete_def metadata_invalid_def no_usage_def checked_add_def rows_affected_def complete_matches_def
    refused_fields)

lemma sample_refused:
  "\<exists>db'. run_account_once plain_env sample_codec trusting_aead sample_ring sample_config (\<lambda>_ _ _ _. Err response_refused)
     sample_own (Uuid 1 1) 5 = (db', Err (SyncProvider response_refused))"
proof -
  obtain rows b where at: "provider_attempt plain_env 5 started_own (new_budget (Uuid 7 0) (Some (Uuid 1 1)) 2) OwnMediaPage
       (Err response_refused :: (ProviderOwnMediaPage, ProviderError) result)
     = ((of_draw started_own)\<lparr>of_usage := rows\<rparr>, b, Ok (Err response_refused))" by (rule refused_attempt)
  show ?thesis
    by (simp add: run_account_once_def sample_own_tables run_eligible_def sample_opens sample_start run_budget_def traverse_def
      sample_limits at is_retryable_def refused_fields)
qed

section \<open>Properties\<close>

text \<open>
  C10. In every state that scheduler passes reach from empty tables, interleaved with anything that leaves
  these tables alone and with deletions of connections: an account has at most one active run, a run is finished exactly when it is not active,
  a run stages an item once, and an authority names a completed run of its own account.
\<close>
theorem reachable_runs_are_consistent:
  assumes "no_runs db0" "own_step\<^sup>*\<^sup>* db0 db"
  shows "distinct (active_accounts (om_runs db))
    \<and> (\<forall>r\<in>set (om_runs db). (sr_finished_at r = None) = active_status (sr_status r))
    \<and> distinct (map (\<lambda>s. (si_run s, si_provider_id s)) (om_items db))
    \<and> (\<forall>a\<in>set (om_authority db). \<exists>r\<in>set (om_runs db).
         sr_id r = sa_run a \<and> sr_account r = sa_account a \<and> sr_status r = RunCompleted)"
proof -
  have "own_inv db" by (rule own_history.inv_reachable [OF assms])
  then show ?thesis by (simp add: own_inv_def runs_ok_def items_ok_def authority_ok_def)
qed

theorem reachable_runs_are_consistent_witness:
  "\<exists>db. own_step\<^sup>*\<^sup>* sample_own db \<and> om_authority db \<noteq> [] \<and> distinct (active_accounts (om_runs db))"
proof -
  from sample_completes obtain db' where c: "run_account_once plain_env sample_codec trusting_aead sample_ring sample_config
      one_page sample_own (Uuid 1 1) 5 = (db', Ok (SyncCompleted (Uuid 7 0) (Some [49])))" by blast
  have no: "no_runs sample_own" by (simp add: no_runs_def own_tables_def sample_own_def)
  have run: "own_step\<^sup>*\<^sup>* sample_own db'"
    using step_account [of sample_own plain_env sample_codec trusting_aead sample_ring sample_config one_page "Uuid 1 1" 5]
    by (simp add: c r_into_rtranclp)
  have inv: "own_inv sample_own" "distinct (map med_id (media (of_archive sample_own)))"
    using own_history.inv_init [OF no] by (simp_all add: sample_own_def empty_archive_def)
  from pass_completed [OF c inv] obtain db1 user generation provider_id where
    f: "finalize_run plain_env sample_codec sample_config db1 (Uuid 7 0) (Uuid 1 1) user generation provider_id (Some [49]) 5 = (db', Ok ())"
    and i: "own_inv db1" "runs_for db1 (Uuid 7 0) (Uuid 1 1)" "authoritative_view db1 = authoritative_view sample_own" by blast
  have "distinct (map med_id (media (of_archive db1)))" using i(3) inv(2) by (simp add: authoritative_view_def)
  from finalize_run_ok(4) [OF f i(1,2) this] have "om_authority db' \<noteq> []" by auto
  with reachable_runs_are_consistent [OF no run] run show ?thesis by blast
qed

text \<open>
  C7. Only a completed traversal is visible: when a pass over an account ends in any other way (a capability
  no-op, an exhausted budget or page limit, a provider failure, a refused page, a failed finalization), the
  archived media, their revisions, the outbox, the authorities and every watermark are what they were.
\<close>
theorem only_completed_traversals_are_visible:
  assumes "run_account_once E K A ring C pages db account_id now = (db', outcome)"
    and "\<forall>run watermark. outcome \<noteq> Ok (SyncCompleted run watermark)"
  shows "media (of_archive db') = media (of_archive db) \<and> revisions (of_archive db') = revisions (of_archive db)
    \<and> outbox (of_archive db') = outbox (of_archive db) \<and> om_authority db' = om_authority db
    \<and> watermark_of db' = watermark_of db"
  using pass_view [OF assms(1)] assms(2) by (simp add: authoritative_view_def)

theorem only_completed_traversals_are_visible_witness:
  "\<exists>db' e. run_account_once plain_env sample_codec trusting_aead sample_ring sample_config (\<lambda>_ _ _ _. Err response_refused)
     sample_own (Uuid 1 1) 5 = (db', Err e) \<and> media (of_archive db') = [] \<and> om_authority db' = []"
proof -
  from sample_refused obtain db' where c: "run_account_once plain_env sample_codec trusting_aead sample_ring sample_config
      (\<lambda>_ _ _ _. Err response_refused) sample_own (Uuid 1 1) 5 = (db', Err (SyncProvider response_refused))" by blast
  from only_completed_traversals_are_visible [OF c] c show ?thesis
    by (auto simp: sample_own_def empty_archive_def)
qed

text \<open>
  C3. A completed traversal is whole: from consistent tables, a pass that reports completion has made the run
  completed and authoritative for its account, committed the reported watermark, and every item staged under
  the run is a row of the archive with the item's permalink, type and caption, owned by the account and
  marked as authoritative platform state.
\<close>
theorem completed_traversal_is_whole:
  assumes "run_account_once E K A ring C pages db account_id now = (db', Ok (SyncCompleted run watermark))"
    and "own_inv db" "distinct (map med_id (media (of_archive db)))"
  shows "(run, account_id, RunCompleted) \<in> set (run_keys (om_runs db'))
    \<and> (\<exists>a\<in>set (om_authority db'). sa_account a = account_id \<and> sa_run a = run)
    \<and> watermark_of db' account_id = watermark
    \<and> (\<forall>s\<in>set (staged db' run). projected account_id (of_archive db') s)"
proof -
  from pass_completed [OF assms] obtain db1 user generation provider_id where
    f: "finalize_run E K C db1 run account_id user generation provider_id watermark now = (db', Ok ())"
    and i: "own_inv db1" "runs_for db1 run account_id" "authoritative_view db1 = authoritative_view db" by blast
  have "distinct (map med_id (media (of_archive db1)))" using i(3) assms(3) by (simp add: authoritative_view_def)
  from finalize_run_ok [OF f i(1,2) this] show ?thesis by simp
qed

theorem completed_traversal_is_whole_witness:
  "\<exists>db'. run_account_once plain_env sample_codec trusting_aead sample_ring sample_config one_page sample_own (Uuid 1 1) 5
      = (db', Ok (SyncCompleted (Uuid 7 0) (Some [49]))) \<and> watermark_of db' (Uuid 1 1) = Some [49]"
proof -
  from sample_completes obtain db' where c: "run_account_once plain_env sample_codec trusting_aead sample_ring sample_config
      one_page sample_own (Uuid 1 1) 5 = (db', Ok (SyncCompleted (Uuid 7 0) (Some [49])))" by blast
  have "own_inv sample_own" by (rule own_history.inv_init) (simp add: no_runs_def own_tables_def sample_own_def)
  moreover have "distinct (map med_id (media (of_archive sample_own)))" by (simp add: sample_own_def empty_archive_def)
  ultimately show ?thesis using completed_traversal_is_whole [OF c] c by blast
qed

text \<open>
  C39. A post of the account that was captured before it was synchronized blocks the synchronization: the
  lookup is by provider identity while the table's permalink is unique, so when a staged item's permalink
  belongs to a row without provider identity and no row has the item's identity, the finalization of the
  run, on consistent tables, with an account still eligible and a next deadline that can be represented,
  fails with a database error and changes nothing.
\<close>
theorem captured_own_post_blocks_completion:
  assumes "own_inv db" "s \<in> set (staged db run)" "permalink_taken (of_archive db) s"
    and "next_due C now = Ok due" "still_eligible db account_id user generation provider_id"
  shows "finalize_run E K C db run account_id user generation provider_id candidate now = (db, Err SyncDatabase)"
proof -
  have "distinct (map si_provider_id (staged db run))"
    using staged_distinct [of "om_runs db"] assms(1) by (simp add: own_inv_def)
  with finalize_items_taken [OF assms(2,3)] assms(4,5) show ?thesis by (simp add: finalize_run_def)
qed

definition captured_row :: MediaRow where
  "captured_row = \<lparr>med_id = Uuid 8 8, med_permalink = [104], med_type = ''unknown'', med_caption = None,
     med_acquisition = ''public_resolution'', med_authority = ''explicit_user_capture'', med_upstream = UpAvailable,
     med_revision = None, med_updated_at = 0, med_account = None, med_provider = None, med_blob = None\<rparr>"

theorem captured_own_post_blocks_completion_witness:
  "\<exists>db. staged db (Uuid 7 0) \<noteq> [] \<and>
     finalize_run plain_env sample_codec sample_config db (Uuid 7 0) (Uuid 1 1) (Uuid 2 2) (Uuid 4 4) [55] (Some [49]) 5
       = (db, Err SyncDatabase)"
proof -
  let ?db = "(paged_own [])\<lparr>of_archive := empty_archive\<lparr>media := [captured_row]\<rparr>\<rparr>"
  let ?s = "staged_item (Uuid 7 0) (Uuid 7 2) 5 sample_item"
  have "own_inv ?db"
    by (simp add: own_inv_def paged_own_def sample_own_def runs_ok_def items_ok_def authority_ok_def active_accounts_def
        page_progress_def sample_run_def active_status_def staged_item_def)
  moreover have st: "?s \<in> set (staged ?db (Uuid 7 0))"
    by (simp add: staged_def paged_own_def sample_own_def staged_item_def)
  moreover have "permalink_taken (of_archive ?db) ?s"
    by (simp add: permalink_taken_def captured_row_def staged_item_def sample_item_def)
  moreover have "still_eligible ?db (Uuid 1 1) (Uuid 2 2) (Uuid 4 4) [55]"
    by (simp add: still_eligible_def account_row_def own_capability_def paged_own_def sample_own_def)
  ultimately show ?thesis
    using captured_own_post_blocks_completion [OF _ _ _ sample_due] by (metis list.set(1) empty_iff)
qed

text \<open>
  C40. A run that has spent its calls never completes: the call limit counts every call of the run's life, not
  those of one attempt, so once the ledger holds as many calls for the active run as the configuration
  allows, every further pass over that account, however many and whenever, answers that the run is retryable at
  the same cursor without calling the provider. The account stays eligible, its credential opens, no other step
  changes the ledger or the run in between, and at least one page per pass is allowed.
\<close>
theorem spent_run_never_completes:
  assumes "spent_run A ring C db account_id run cursor" "oc_pages_per_run C \<noteq> 0"
  shows "snd (run_account_once E K A ring C pages
      (fold (\<lambda>t d. fst (run_account_once E K A ring C pages d account_id t)) ticks db) account_id now)
      = Ok (SyncRetryable run cursor)
    \<and> of_usage (fold (\<lambda>t d. fst (run_account_once E K A ring C pages d account_id t)) ticks db) = of_usage db"
proof -
  from assms(2) obtain n where n: "unat (oc_pages_per_run C) = Suc n"
    by (metis not0_implies_Suc unat_eq_zero)
  note stays = spent_run_passes [OF assms(1) n, of E K pages ticks]
  with spent_pass [OF conjunct1 [OF stays] n, of E K pages now] show ?thesis by simp
qed

definition spent_own :: own_media where
  "spent_own = started_own\<lparr>of_usage := [completed_row UsageSucceeded None no_usage 5
     (started_row (new_budget (Uuid 7 0) (Some (Uuid 1 1)) 1) (Uuid 7 1) OwnMediaPage 5)]\<rparr>"

definition one_call :: OwnMediaSyncConfig where
  "one_call = sample_config\<lparr>oc_call_budget := 1\<rparr>"

theorem spent_run_never_completes_witness:
  "snd (run_account_once plain_env sample_codec trusting_aead sample_ring one_call one_page
      (fold (\<lambda>t d. fst (run_account_once plain_env sample_codec trusting_aead sample_ring one_call one_page d (Uuid 1 1) t))
         [6, 7] spent_own) (Uuid 1 1) 8) = Ok (SyncRetryable (Uuid 7 0) None)"
proof -
  have limit: "oc_call_budget one_call = 1" "oc_pages_per_run one_call \<noteq> 0" by (simp_all add: one_call_def sample_config_def)
  have "spent_run trusting_aead sample_ring one_call spent_own (Uuid 1 1) (Uuid 7 0) None"
    by (simp add: spent_run_def spent_own_def started_own_def sample_own_def account_row_def own_capability_def credential_row_def
        active_run_def sample_run_def active_status_def sample_opens resume_budget_def ordinals_def checked_add_def
        completed_row_def started_row_def new_budget_def limit)
  from spent_run_never_completes [OF this limit(2), of plain_env sample_codec one_page "[6, 7]" 8] show ?thesis by (rule conjunct1)
qed

end
