(* ===== verification/Config_Values.thy ===== *)
theory Config_Values
  imports Prelude
begin

text \<open>
  The standard library's readers that configuration uses: unsigned integers (\<^verbatim>\<open>str::parse\<close> on \<^verbatim>\<open>u32\<close>,
  \<^verbatim>\<open>u64\<close>, \<^verbatim>\<open>usize\<close>, the last at 64 bits), socket addresses (\<^verbatim>\<open>std::net::SocketAddr\<close>) and the comparison
  of absolute Unix paths. Beside them \<open>parse_positive\<close> and \<open>parse_flag\<close> of \<^verbatim>\<open>config.rs\<close>, and the two ways an
  arm of \<^verbatim>\<open>apply_entry\<close> ends: a stored value or a refusal.
\<close>

section \<open>Unsigned integers\<close>

fun parse_digits :: "nat \<Rightarrow> nat \<Rightarrow> rstr \<Rightarrow> nat option" where
  "parse_digits limit acc [] = Some acc"
| "parse_digits limit acc (c # cs) =
     (if 48 \<le> c \<and> c \<le> 57 \<and> acc * 10 + (c - 48) < limit
      then parse_digits limit (acc * 10 + (c - 48)) cs else None)"

text \<open>One leading plus sign is accepted, no text and a lone sign are not.\<close>

definition parse_unsigned :: "rstr \<Rightarrow> 'w::len word option" where
  "parse_unsigned s =
     (let digits = (case s of c # cs \<Rightarrow> if c = of_char CHR ''+'' then cs else s | [] \<Rightarrow> [])
      in if digits = [] then None else map_option of_nat (parse_digits (2 ^ LENGTH('w)) 0 digits))"

definition parse_positive :: "rstr \<Rightarrow> ('w::len word, string) result" where
  "parse_positive value =
     (case parse_unsigned value of
        None \<Rightarrow> Err ''must be a positive integer''
      | Some parsed \<Rightarrow> if parsed \<le> 0 then Err ''must be a positive integer'' else Ok parsed)"

definition parse_flag :: "rstr \<Rightarrow> (bool, string) result" where
  "parse_flag value =
     (if value = ascii ''true'' then Ok True
      else if value = ascii ''false'' then Ok False
      else Err ''must be true or false'')"

section \<open>Socket addresses\<close>

datatype IpAddr = V4 "nat list" | V6 "nat list"

record SocketAddr =
  sa_ip :: IpAddr
  sa_port :: nat

fun is_loopback :: "IpAddr \<Rightarrow> bool" where
  "is_loopback (V4 octets) = (octets \<noteq> [] \<and> hd octets = 127)"
| "is_loopback (V6 groups) = (groups = [0, 0, 0, 0, 0, 0, 0, 1])"

definition to_digit :: "nat \<Rightarrow> nat \<Rightarrow> nat option" where
  "to_digit radix c =
     (let d = (if 48 \<le> c \<and> c \<le> 57 then c - 48
               else if 97 \<le> c \<and> c \<le> 122 then c - 87
               else if 65 \<le> c \<and> c \<le> 90 then c - 55 else radix)
      in if d < radix then Some d else None)"

definition digits_value :: "nat \<Rightarrow> rstr \<Rightarrow> nat" where
  "digits_value radix ds = foldl (\<lambda>n c. case to_digit radix c of None \<Rightarrow> n | Some d \<Rightarrow> n * radix + d) 0 ds"

definition read_number :: "nat \<Rightarrow> nat option \<Rightarrow> bool \<Rightarrow> nat \<Rightarrow> rstr \<Rightarrow> (nat \<times> rstr) option" where
  "read_number radix max_digits allow_zero_prefix limit s =
     (let ds = takeWhile (\<lambda>c. to_digit radix c \<noteq> None) s; n = digits_value radix ds
      in if ds = [] \<or> (case max_digits of None \<Rightarrow> False | Some m \<Rightarrow> m < length ds)
           \<or> \<not> allow_zero_prefix \<and> hd ds = of_char CHR ''0'' \<and> 1 < length ds \<or> limit \<le> n
         then None else Some (n, drop (length ds) s))"

fun read_given_char :: "nat \<Rightarrow> rstr \<Rightarrow> rstr option" where
  "read_given_char c [] = None"
| "read_given_char c (d # ds) = (if c = d then Some ds else None)"

definition read_separator :: "nat \<Rightarrow> bool \<Rightarrow> (rstr \<Rightarrow> 'a option) \<Rightarrow> rstr \<Rightarrow> 'a option" where
  "read_separator sep first inner s =
     (if first then inner s else Option.bind (read_given_char sep s) inner)"

primrec read_octets :: "nat \<Rightarrow> bool \<Rightarrow> rstr \<Rightarrow> (nat list \<times> rstr) option" where
  "read_octets 0 first s = Some ([], s)"
| "read_octets (Suc n) first s =
     (case read_separator (of_char CHR ''.'') first (read_number 10 (Some 3) False 256) s of
        None \<Rightarrow> None
      | Some (v, s1) \<Rightarrow> map_option (apfst (Cons v)) (read_octets n False s1))"

definition read_ipv4 :: "rstr \<Rightarrow> (nat list \<times> rstr) option" where
  "read_ipv4 s = read_octets 4 True s"

text \<open>The groups of an IPv6 address, the last two of which may be written as an IPv4 address.\<close>

primrec read_groups :: "nat \<Rightarrow> bool \<Rightarrow> rstr \<Rightarrow> nat list \<times> bool \<times> rstr" where
  "read_groups 0 first s = ([], False, s)"
| "read_groups (Suc n) first s =
     (case (if 0 < n then read_separator (of_char CHR '':'') first read_ipv4 s else None) of
        Some (os, s1) \<Rightarrow> ([os ! 0 * 256 + os ! 1, os ! 2 * 256 + os ! 3], True, s1)
      | None \<Rightarrow>
          (case read_separator (of_char CHR '':'') first (read_number 16 (Some 4) True 65536) s of
             None \<Rightarrow> ([], False, s)
           | Some (g, s1) \<Rightarrow> apfst (Cons g) (read_groups n False s1)))"

definition read_ipv6 :: "rstr \<Rightarrow> (nat list \<times> rstr) option" where
  "read_ipv6 s =
     (case read_groups 8 True s of (head, head_ipv4, s1) \<Rightarrow>
        if length head = 8 then Some (head, s1)
        else if head_ipv4 then None
        else Option.bind (Option.bind (read_given_char (of_char CHR '':'') s1) (read_given_char (of_char CHR '':''))) (\<lambda>s2.
          case read_groups (8 - (length head + 1)) True s2 of (tail, _, s3) \<Rightarrow>
            Some (head @ replicate (8 - length head - length tail) 0 @ tail, s3)))"

definition read_port :: "rstr \<Rightarrow> (nat \<times> rstr) option" where
  "read_port s = Option.bind (read_given_char (of_char CHR '':'') s) (read_number 10 None True 65536)"

definition read_socket_addr_v4 :: "rstr \<Rightarrow> (SocketAddr \<times> rstr) option" where
  "read_socket_addr_v4 s =
     Option.bind (read_ipv4 s) (\<lambda>(ip, s1).
     Option.bind (read_port s1) (\<lambda>(port, s2). Some (\<lparr>sa_ip = V4 ip, sa_port = port\<rparr>, s2)))"

definition read_scope_id :: "rstr \<Rightarrow> (nat \<times> rstr) option" where
  "read_scope_id s = Option.bind (read_given_char (of_char CHR ''%'') s) (read_number 10 None True (2 ^ 32))"

definition read_socket_addr_v6 :: "rstr \<Rightarrow> (SocketAddr \<times> rstr) option" where
  "read_socket_addr_v6 s =
     Option.bind (read_given_char (of_char CHR ''['') s) (\<lambda>s0.
     Option.bind (read_ipv6 s0) (\<lambda>(ip, s1).
     Option.bind (read_given_char (of_char CHR '']'') (case read_scope_id s1 of Some (_, s2) \<Rightarrow> s2 | None \<Rightarrow> s1)) (\<lambda>s3.
     Option.bind (read_port s3) (\<lambda>(port, s4). Some (\<lparr>sa_ip = V6 ip, sa_port = port\<rparr>, s4)))))"

definition parse_socket_addr :: "rstr \<Rightarrow> SocketAddr option" where
  "parse_socket_addr s =
     (case (case read_socket_addr_v4 s of Some r \<Rightarrow> Some r | None \<Rightarrow> read_socket_addr_v6 s) of
        Some (a, []) \<Rightarrow> Some a
      | _ \<Rightarrow> None)"

section \<open>Absolute paths\<close>

definition path_is_absolute :: "rstr \<Rightarrow> bool" where
  "path_is_absolute p \<longleftrightarrow> take 1 p = ascii ''/''"

text \<open>
  The components of an absolute path after its root: repeated separators and the current-directory
  component disappear, the parent component stays. Paths are compared by components.
\<close>

definition path_components :: "rstr \<Rightarrow> rstr list" where
  "path_components p = filter (\<lambda>c. c \<noteq> [] \<and> c \<noteq> ascii ''.'') (split_on (of_char CHR ''/'') p)"

definition path_eq :: "rstr \<Rightarrow> rstr \<Rightarrow> bool" where
  "path_eq p q \<longleftrightarrow> path_components p = path_components q"

definition path_starts_with :: "rstr \<Rightarrow> rstr \<Rightarrow> bool" where
  "path_starts_with p base \<longleftrightarrow> take (length (path_components base)) (path_components p) = path_components base"

section \<open>One arm of the loader\<close>

record Violation =
  v_key :: rstr
  v_rule :: string

text \<open>The section being loaded and the violations found so far, in first-seen order.\<close>

type_synonym 'c load = "'c \<times> Violation list"

definition push_violation :: "rstr \<Rightarrow> string \<Rightarrow> 'c load \<Rightarrow> 'c load" where
  "push_violation key rule s = (fst s, snd s @ [\<lparr>v_key = key, v_rule = rule\<rparr>])"

definition apply_parsed :: "rstr \<Rightarrow> ('a, string) result \<Rightarrow> ('a \<Rightarrow> 'c \<Rightarrow> 'c) \<Rightarrow> 'c load \<Rightarrow> 'c load" where
  "apply_parsed key parsed assign s =
     (case parsed of Ok x \<Rightarrow> (assign x (fst s), snd s) | Err rule \<Rightarrow> push_violation key rule s)"

definition private_absolute_path :: "rstr \<Rightarrow> rstr \<Rightarrow> Violation list \<Rightarrow> rstr option \<times> Violation list" where
  "private_absolute_path key value vs =
     (if path_is_absolute value then (Some value, vs)
      else (None, vs @ [\<lparr>v_key = key, v_rule = ''must be an absolute private directory path''\<rparr>]))"

definition validate_range :: "u64 \<Rightarrow> u64 \<Rightarrow> u64 \<Rightarrow> string \<Rightarrow> Violation list \<Rightarrow> Violation list" where
  "validate_range value minimum maximum key vs =
     (if minimum \<le> value \<and> value \<le> maximum then vs
      else vs @ [\<lparr>v_key = ascii key, v_rule = ''must be within its finite documented range''\<rparr>])"

definition require :: "bool \<Rightarrow> string \<Rightarrow> string \<Rightarrow> Violation list \<Rightarrow> Violation list" where
  "require present key rule vs = (if present then vs else vs @ [\<lparr>v_key = ascii key, v_rule = rule\<rparr>])"

definition starts_with :: "string \<Rightarrow> rstr \<Rightarrow> bool" where
  "starts_with p s \<longleftrightarrow> take (length p) s = ascii p"

section \<open>What the readers accept\<close>

lemma parse_digits_Some: "acc < limit \<Longrightarrow> parse_digits limit acc ds = Some n \<Longrightarrow> n < limit"
  by (induction limit acc ds rule: parse_digits.induct) (auto split: if_splits)

lemma parse_positive_Ok: "parse_positive value = Ok x \<Longrightarrow> 1 \<le> x"
  by (auto simp: parse_positive_def word_le_nat_alt unat_eq_zero Suc_le_eq word_neq_0_conv
      word_less_nat_alt not_le split: option.splits if_splits)

lemma parse_flag_Ok [simp]: "parse_flag value = Ok b \<longleftrightarrow> value = ascii (if b then ''true'' else ''false'')"
  by (auto simp: parse_flag_def split: if_splits)

lemma read_octets_numeral:
  "read_octets (numeral k) first s =
     (case read_separator (of_char CHR ''.'') first (read_number 10 (Some 3) False 256) s of
        None \<Rightarrow> None
      | Some (v, s1) \<Rightarrow> map_option (apfst (Cons v)) (read_octets (pred_numeral k) False s1))"
  by (simp add: numeral_eq_Suc)

lemma read_groups_numeral:
  "read_groups (numeral k) first s =
     (case (if 0 < pred_numeral k then read_separator (of_char CHR '':'') first read_ipv4 s else None) of
        Some (os, s1) \<Rightarrow> ([os ! 0 * 256 + os ! 1, os ! 2 * 256 + os ! 3], True, s1)
      | None \<Rightarrow>
          (case read_separator (of_char CHR '':'') first (read_number 16 (Some 4) True 65536) s of
             None \<Rightarrow> ([], False, s)
           | Some (g, s1) \<Rightarrow> apfst (Cons g) (read_groups (pred_numeral k) False s1)))"
  by (simp add: numeral_eq_Suc)

lemmas socket_readers = parse_socket_addr_def read_socket_addr_v4_def read_socket_addr_v6_def read_ipv4_def
  read_ipv6_def read_port_def read_scope_id_def read_separator_def read_number_def digits_value_def to_digit_def
  read_octets_numeral read_groups_numeral

lemma parse_socket_addr_samples:
  "parse_socket_addr (ascii ''127.0.0.1:9082'') = Some \<lparr>sa_ip = V4 [127, 0, 0, 1], sa_port = 9082\<rparr>"
  "parse_socket_addr (ascii ''[::1]:80'') = Some \<lparr>sa_ip = V6 [0, 0, 0, 0, 0, 0, 0, 1], sa_port = 80\<rparr>"
  "parse_socket_addr (ascii ''[1::127.0.0.1]:80'') = Some \<lparr>sa_ip = V6 [1, 0, 0, 0, 0, 0, 32512, 1], sa_port = 80\<rparr>"
  "parse_socket_addr (ascii ''127.00.0.1:80'') = None"
  "parse_socket_addr (ascii ''127.0.0.1'') = None"
  "parse_socket_addr (ascii ''127.0.0.1:65536'') = None"
  by (simp_all add: socket_readers) (simp_all add: numeral_eq_Suc)
end
