(* ===== verification/Configuration.thy ===== *)
theory Configuration
  imports Config_Values Own_Media Outbox Export_Archive Capture_Resolution
begin

text \<open>
  Model of \<^verbatim>\<open>config.rs\<close> and its sections (\<^verbatim>\<open>config/data_export.rs\<close>, \<^verbatim>\<open>item9.rs\<close>, \<^verbatim>\<open>public_resolution.rs\<close>,
  \<^verbatim>\<open>publisher.rs\<close>): the strict loader that reads prefixed environment entries into a \<open>Config\<close> or reports every
  violation. Each section's \<^verbatim>\<open>apply_environment\<close> is a function on the loaded value and the violations found so
  far, each \<^verbatim>\<open>validate\<close> one on the violations. Third-party readers are the record \<open>config_env\<close>: Postgres
  connection options, URLs, base64, UUID text and SHA-256. A secret string is its text; a \<^verbatim>\<open>PathBuf\<close> read from an
  entry is its text; a map keyed by unique keys is the list of its pairs.
\<close>

section \<open>Data\<close>

record ParsedUrl =
  pu_scheme :: rstr
  pu_host :: "rstr option"
  pu_username :: rstr
  pu_password :: "rstr option"
  pu_port :: "nat option"
  pu_query :: "rstr option"
  pu_fragment :: "rstr option"

record config_env =
  ce_postgres_options :: "rstr \<Rightarrow> bool"
  ce_url :: "rstr \<Rightarrow> ParsedUrl option"
  ce_base64 :: "rstr \<Rightarrow> u8 list option"
  ce_uuid :: "rstr \<Rightarrow> uuid option"
  ce_sha256 :: "rstr \<Rightarrow> u8 list"

record AdminConfig =
  admin_listen_address :: SocketAddr

record ApiConfig =
  api_listen_address :: SocketAddr

record StorageConfig =
  database_url :: "rstr option"

record TelemetryConfig =
  log_filter :: rstr

record Limits =
  database_connections :: u32
  database_acquire_timeout_ms :: u64
  shutdown_timeout_ms :: u64

record PublisherConfig =
  publisher_poll_interval_ms :: u64
  publisher_batch_size :: u32

record TombstoneConfig =
  resend_after_seconds :: u64
  resend_cap_seconds :: u64

record OAuthConfig =
  oa_enabled :: bool
  oa_client_id :: "rstr option"
  oa_client_secret :: "rstr option"
  oa_redirect_uri :: "rstr option"
  oa_platform_relay_url :: "rstr option"
  oa_platform_relay_token :: "rstr option"
  oa_graph_version :: rstr
  oa_current_key_version :: "u32 option"
  oa_keyring :: "rstr option"
  oa_connect_timeout_ms :: u64
  oa_request_timeout_ms :: u64
  oa_total_timeout_ms :: u64
  oa_max_response_bytes :: u64
  oa_discovery_retries :: u32
  oa_call_budget :: u32
  oa_flow_ttl_seconds :: u64

record DataExportConfig =
  dx_enabled :: bool
  dx_blob_root :: "rstr option"
  dx_staging_root :: "rstr option"
  dx_max_body_bytes :: u64
  dx_max_entries :: u64
  dx_max_entry_path_bytes :: u64
  dx_max_path_depth :: u64
  dx_max_total_compressed_bytes :: u64
  dx_max_total_decompressed_bytes :: u64
  dx_max_entry_decompressed_bytes :: u64
  dx_max_compression_ratio :: u64
  dx_worker_poll_interval_ms :: u64
  dx_worker_batch_size :: u32
  dx_credential_hashes :: "(u8 list \<times> uuid) list"

record MediaRetentionConfig =
  mr_enabled :: bool
  mr_max_object_bytes :: "u64 option"
  mr_max_owner_bytes :: "u64 option"
  mr_max_url_lifetime_seconds :: "u64 option"

record BlobDeletionConfig =
  bd_enabled :: bool
  bd_poll_interval_ms :: "u64 option"
  bd_batch_size :: "u32 option"
  bd_max_attempts :: "u32 option"

record ReResolutionConfig =
  rr_enabled :: bool
  rr_recency_window_seconds :: "u64 option"
  rr_item_budget :: "u32 option"
  rr_request_budget :: "u32 option"
  rr_response_byte_budget :: "u64 option"
  rr_duration_budget_ms :: "u64 option"
  rr_concurrency_limit :: "u32 option"
  rr_provider_call_budget :: "u32 option"

record ReprocessingConfig =
  rp_enabled :: bool
  rp_max_items_per_invocation :: "u32 option"

record BusConfig =
  bus_url :: rstr
  bus_nkey_seed_path :: "rstr option"

record PublicResolutionConfig =
  pr_endpoint :: rstr
  pr_access_token_path :: "rstr option"
  pr_max_attempts :: u32
  pr_batch_size :: u32
  pr_poll_interval_ms :: u64

record Config =
  admin :: AdminConfig
  api :: ApiConfig
  storage :: StorageConfig
  telemetry :: TelemetryConfig
  limits :: Limits
  publisher :: PublisherConfig
  tombstone :: TombstoneConfig
  oauth :: OAuthConfig
  own_media :: OwnMediaSyncConfig
  data_export :: DataExportConfig
  media_retention :: MediaRetentionConfig
  blob_deletion :: BlobDeletionConfig
  re_resolution :: ReResolutionConfig
  reprocessing_section :: ReprocessingConfig
  bus :: "BusConfig option"
  public_resolution :: PublicResolutionConfig

section \<open>Defaults\<close>

definition default_publisher :: PublisherConfig where
  "default_publisher = \<lparr>publisher_poll_interval_ms = 1000, publisher_batch_size = 16\<rparr>"

definition default_tombstone :: TombstoneConfig where
  "default_tombstone =
     \<lparr>resend_after_seconds = of_int (resend_after default_resend_policy div 1000000),
      resend_cap_seconds = of_int (resend_cap default_resend_policy div 1000000)\<rparr>"

definition default_data_export :: DataExportConfig where
  "default_data_export =
     \<lparr>dx_enabled = False, dx_blob_root = None, dx_staging_root = None,
      dx_max_body_bytes = 5 * 1024 * 1024 * 1024, dx_max_entries = 20000, dx_max_entry_path_bytes = 1024,
      dx_max_path_depth = 12, dx_max_total_compressed_bytes = 5 * 1024 * 1024 * 1024,
      dx_max_total_decompressed_bytes = 20 * 1024 * 1024 * 1024,
      dx_max_entry_decompressed_bytes = 64 * 1024 * 1024, dx_max_compression_ratio = 200,
      dx_worker_poll_interval_ms = 1000, dx_worker_batch_size = 4, dx_credential_hashes = []\<rparr>"

definition DEFAULT_ENDPOINT :: string where
  "DEFAULT_ENDPOINT = ''https://graph.facebook.com/v25.0/instagram_oembed''"

definition default_public_resolution :: PublicResolutionConfig where
  "default_public_resolution =
     \<lparr>pr_endpoint = ascii DEFAULT_ENDPOINT, pr_access_token_path = None, pr_max_attempts = 5,
      pr_batch_size = 8, pr_poll_interval_ms = 2000\<rparr>"

definition default_bus :: BusConfig where
  "default_bus = \<lparr>bus_url = [], bus_nkey_seed_path = None\<rparr>"

definition default_oauth :: OAuthConfig where
  "default_oauth =
     \<lparr>oa_enabled = False, oa_client_id = None, oa_client_secret = None, oa_redirect_uri = None,
      oa_platform_relay_url = None, oa_platform_relay_token = None, oa_graph_version = ascii ''v26.0'',
      oa_current_key_version = None, oa_keyring = None, oa_connect_timeout_ms = 3000,
      oa_request_timeout_ms = 10000, oa_total_timeout_ms = 20000, oa_max_response_bytes = 256 * 1024,
      oa_discovery_retries = 1, oa_call_budget = 5, oa_flow_ttl_seconds = 600\<rparr>"

definition default_config :: Config where
  "default_config =
     \<lparr>admin = \<lparr>admin_listen_address = \<lparr>sa_ip = V4 [127, 0, 0, 1], sa_port = 9082\<rparr>\<rparr>,
      api = \<lparr>api_listen_address = \<lparr>sa_ip = V4 [127, 0, 0, 1], sa_port = 9083\<rparr>\<rparr>,
      storage = \<lparr>database_url = None\<rparr>,
      telemetry = \<lparr>log_filter = ascii ''info''\<rparr>,
      limits = \<lparr>database_connections = 8, database_acquire_timeout_ms = 5000, shutdown_timeout_ms = 10000\<rparr>,
      publisher = default_publisher,
      tombstone = default_tombstone,
      oauth = default_oauth,
      own_media = \<lparr>oc_enabled = False, oc_cadence_seconds = 3600, oc_accounts_per_tick = 8,
        oc_pages_per_run = 8, oc_call_budget = 8\<rparr>,
      data_export = default_data_export,
      media_retention = \<lparr>mr_enabled = False, mr_max_object_bytes = None, mr_max_owner_bytes = None,
        mr_max_url_lifetime_seconds = None\<rparr>,
      blob_deletion = \<lparr>bd_enabled = False, bd_poll_interval_ms = None, bd_batch_size = None, bd_max_attempts = None\<rparr>,
      re_resolution = \<lparr>rr_enabled = False, rr_recency_window_seconds = None, rr_item_budget = None,
        rr_request_budget = None, rr_response_byte_budget = None, rr_duration_budget_ms = None,
        rr_concurrency_limit = None, rr_provider_call_budget = None\<rparr>,
      reprocessing_section = \<lparr>rp_enabled = False, rp_max_items_per_invocation = None\<rparr>,
      bus = None,
      public_resolution = default_public_resolution\<rparr>"

section \<open>Keyrings and bearer tokens\<close>

text \<open>The entries still to read, the keys and the versions seen so far.\<close>

fun decode_entries :: "config_env \<Rightarrow> rstr list \<Rightarrow> (u32 \<times> u8 list) list \<Rightarrow> u32 list
    \<Rightarrow> ((u32 \<times> u8 list) list, string) result" where
  "decode_entries E [] keys seen = Ok keys"
| "decode_entries E (entry # entries) keys seen =
     (case split_once (ascii '':'') entry of
        None \<Rightarrow> Err ''must contain version:key entries''
      | Some (version_text, encoded_key) \<Rightarrow>
          (case parse_unsigned version_text of
             None \<Rightarrow> Err ''must contain positive integer key versions''
           | Some version \<Rightarrow>
               if \<not> version > 0 then Err ''must contain positive integer key versions''
               else if version \<in> set seen then Err ''must not repeat a key version''
               else (case ce_base64 E encoded_key of
                       None \<Rightarrow> Err ''must contain valid base64 key material''
                     | Some decoded \<Rightarrow>
                         if length decoded \<noteq> KEY_LEN then Err ''each decoded key must contain exactly 32 bytes''
                         else decode_entries E entries (keys @ [(version, decoded)]) (seen @ [version]))))"

definition decode_keyring :: "config_env \<Rightarrow> rstr \<Rightarrow> ((u32 \<times> u8 list) list, string) result" where
  "decode_keyring E encoded =
     (if encoded = [] then Err ''must contain versioned base64 AES-256 keys''
      else decode_entries E (split_on (of_char CHR '','') encoded) [] [])"

definition config_error :: "string \<Rightarrow> string \<Rightarrow> Violation list" where
  "config_error key rule = [\<lparr>v_key = ascii key, v_rule = rule\<rparr>]"

definition credential_keyring :: "config_env \<Rightarrow> OAuthConfig \<Rightarrow> (CredentialKeyring option, Violation list) result" where
  "credential_keyring E c =
     (if \<not> oa_enabled c then Ok None
      else (case oa_current_key_version c of
              None \<Rightarrow> Err (config_error ''RATATOSKR__OAUTH__CURRENT_KEY_VERSION'' ''must name a key present in the OAuth keyring'')
            | Some current \<Rightarrow>
                (case oa_keyring c of
                   None \<Rightarrow> Err (config_error ''RATATOSKR__OAUTH__KEYRING'' ''must contain versioned base64 AES-256 keys'')
                 | Some encoded \<Rightarrow>
                     (case decode_keyring E encoded of
                        Err rule \<Rightarrow> Err (config_error ''RATATOSKR__OAUTH__KEYRING'' rule)
                      | Ok keys \<Rightarrow>
                          (case keyring_new current keys of
                             Err _ \<Rightarrow> Err (config_error ''RATATOSKR__OAUTH__CURRENT_KEY_VERSION'' ''must name a key present in the OAuth keyring'')
                           | Ok ring \<Rightarrow> Ok (Some ring))))))"

definition is_ascii_graphic :: "nat \<Rightarrow> bool" where
  "is_ascii_graphic c \<longleftrightarrow> 33 \<le> c \<and> c \<le> 126"

definition token_ok :: "rstr \<Rightarrow> bool" where
  "token_ok token \<longleftrightarrow> 32 \<le> str_len token \<and> str_len token \<le> 256
     \<and> list_all (\<lambda>c. is_ascii_graphic c \<and> c \<noteq> of_char CHR '':'' \<and> c \<noteq> of_char CHR '','') token"

fun bearer_entries :: "config_env \<Rightarrow> rstr list \<Rightarrow> (u8 list \<times> uuid) list \<Rightarrow> uuid list
    \<Rightarrow> ((u8 list \<times> uuid) list, string) result" where
  "bearer_entries E [] hashes owners = Ok hashes"
| "bearer_entries E (entry # entries) hashes owners =
     (case split_once (ascii '':'') entry of
        None \<Rightarrow> Err ''must contain owner-uuid:opaque-token entries''
      | Some (owner_text, token) \<Rightarrow>
          (case ce_uuid E owner_text of
             None \<Rightarrow> Err ''must contain valid owner UUIDs without echoing values''
           | Some owner \<Rightarrow>
               if owner \<in> set owners then Err ''must not repeat an owner UUID''
               else if \<not> token_ok token
               then Err ''tokens must be 32 to 256 visible ASCII characters without colon or comma''
               else if ce_sha256 E token \<in> fst ` set hashes then Err ''must not repeat a bearer token''
               else bearer_entries E entries (hashes @ [(ce_sha256 E token, owner)]) (owners @ [owner])))"

text \<open>The map that replaces \<^verbatim>\<open>credential_hashes\<close>.\<close>

definition set_bearer_tokens :: "config_env \<Rightarrow> rstr \<Rightarrow> ((u8 list \<times> uuid) list, string) result" where
  "set_bearer_tokens E value =
     (let entries = split_on (of_char CHR '','') value
      in if entries = [] \<or> 100 < length entries then Err ''must contain between one and 100 owner:token entries''
         else bearer_entries E entries [] [])"

definition authenticate :: "config_env \<Rightarrow> DataExportConfig \<Rightarrow> rstr \<Rightarrow> uuid option" where
  "authenticate E c token = map_of (dx_credential_hashes c) (ce_sha256 E token)"


section \<open>Applying one entry\<close>

definition parse_listen_address :: "rstr \<Rightarrow> (SocketAddr, string) result" where
  "parse_listen_address value =
     (case parse_socket_addr value of
        None \<Rightarrow> Err ''must be a socket address''
      | Some address \<Rightarrow>
          if is_loopback (sa_ip address) \<and> sa_port address \<noteq> 0 then Ok address
          else Err ''must be a loopback address with a port'')"

text \<open>\<^verbatim>\<open>value.split("://").next()\<close>: the text before the first separator, the whole text when there is none.\<close>

definition text_before_scheme_separator :: "rstr \<Rightarrow> rstr" where
  "text_before_scheme_separator value =
     (case split_once (ascii ''://'') value of Some (scheme, _) \<Rightarrow> scheme | None \<Rightarrow> value)"

definition bus_or_default :: "Config \<Rightarrow> BusConfig" where
  "bus_or_default c = (case bus c of Some b \<Rightarrow> b | None \<Rightarrow> default_bus)"


text \<open>Where the source answers \<^verbatim>\<open>false\<close> for an unknown key, the model answers \<open>None\<close>.\<close>

definition publisher_apply :: "rstr \<Rightarrow> rstr \<Rightarrow> (Config load \<Rightarrow> Config load) option" where
  "publisher_apply key value =
     (if key = ascii ''RATATOSKR__PUBLISHER__POLL_INTERVAL_MS'' then
       Some (apply_parsed key (parse_positive value) (\<lambda>x c. c\<lparr>publisher := (publisher c)\<lparr>publisher_poll_interval_ms := x\<rparr>\<rparr>))
      else if key = ascii ''RATATOSKR__PUBLISHER__BATCH_SIZE'' then
       Some (apply_parsed key (parse_positive value) (\<lambda>x c. c\<lparr>publisher := (publisher c)\<lparr>publisher_batch_size := x\<rparr>\<rparr>))
      else if key = ascii ''RATATOSKR__TOMBSTONE__RESEND_AFTER_SECONDS'' then
       Some (apply_parsed key (parse_positive value) (\<lambda>x c. c\<lparr>tombstone := (tombstone c)\<lparr>resend_after_seconds := x\<rparr>\<rparr>))
      else if key = ascii ''RATATOSKR__TOMBSTONE__RESEND_CAP_SECONDS'' then
       Some (apply_parsed key (parse_positive value) (\<lambda>x c. c\<lparr>tombstone := (tombstone c)\<lparr>resend_cap_seconds := x\<rparr>\<rparr>))
      else None)"

definition data_export_apply :: "config_env \<Rightarrow> rstr \<Rightarrow> rstr \<Rightarrow> DataExportConfig load \<Rightarrow> DataExportConfig load" where
  "data_export_apply E key value =
     (if key = ascii ''RATATOSKR__DATA_EXPORT__ENABLED'' then
       apply_parsed key (parse_flag value) (\<lambda>x c. c\<lparr>dx_enabled := x\<rparr>)
      else if key = ascii ''RATATOSKR__DATA_EXPORT__BLOB_ROOT'' then
       (\<lambda>(c, vs). case private_absolute_path key value vs of (p, vs1) \<Rightarrow> (c\<lparr>dx_blob_root := p\<rparr>, vs1))
      else if key = ascii ''RATATOSKR__DATA_EXPORT__STAGING_ROOT'' then
       (\<lambda>(c, vs). case private_absolute_path key value vs of (p, vs1) \<Rightarrow> (c\<lparr>dx_staging_root := p\<rparr>, vs1))
      else if key = ascii ''RATATOSKR__DATA_EXPORT__BEARER_TOKENS'' then
       apply_parsed key (set_bearer_tokens E value) (\<lambda>x c. c\<lparr>dx_credential_hashes := x\<rparr>)
      else if key = ascii ''RATATOSKR__DATA_EXPORT__MAX_BODY_BYTES'' then
       apply_parsed key (parse_positive value) (\<lambda>x c. c\<lparr>dx_max_body_bytes := x\<rparr>)
      else if key = ascii ''RATATOSKR__DATA_EXPORT__MAX_ENTRIES'' then
       apply_parsed key (parse_positive value) (\<lambda>x c. c\<lparr>dx_max_entries := x\<rparr>)
      else if key = ascii ''RATATOSKR__DATA_EXPORT__MAX_ENTRY_PATH_BYTES'' then
       apply_parsed key (parse_positive value) (\<lambda>x c. c\<lparr>dx_max_entry_path_bytes := x\<rparr>)
      else if key = ascii ''RATATOSKR__DATA_EXPORT__MAX_PATH_DEPTH'' then
       apply_parsed key (parse_positive value) (\<lambda>x c. c\<lparr>dx_max_path_depth := x\<rparr>)
      else if key = ascii ''RATATOSKR__DATA_EXPORT__MAX_TOTAL_COMPRESSED_BYTES'' then
       apply_parsed key (parse_positive value) (\<lambda>x c. c\<lparr>dx_max_total_compressed_bytes := x\<rparr>)
      else if key = ascii ''RATATOSKR__DATA_EXPORT__MAX_TOTAL_DECOMPRESSED_BYTES'' then
       apply_parsed key (parse_positive value) (\<lambda>x c. c\<lparr>dx_max_total_decompressed_bytes := x\<rparr>)
      else if key = ascii ''RATATOSKR__DATA_EXPORT__MAX_ENTRY_DECOMPRESSED_BYTES'' then
       apply_parsed key (parse_positive value) (\<lambda>x c. c\<lparr>dx_max_entry_decompressed_bytes := x\<rparr>)
      else if key = ascii ''RATATOSKR__DATA_EXPORT__MAX_COMPRESSION_RATIO'' then
       apply_parsed key (parse_positive value) (\<lambda>x c. c\<lparr>dx_max_compression_ratio := x\<rparr>)
      else if key = ascii ''RATATOSKR__DATA_EXPORT__WORKER_POLL_INTERVAL_MS'' then
       apply_parsed key (parse_positive value) (\<lambda>x c. c\<lparr>dx_worker_poll_interval_ms := x\<rparr>)
      else if key = ascii ''RATATOSKR__DATA_EXPORT__WORKER_BATCH_SIZE'' then
       apply_parsed key (parse_positive value) (\<lambda>x c. c\<lparr>dx_worker_batch_size := x\<rparr>)
      else push_violation key ''is not recognized'')"

definition item9_apply :: "rstr \<Rightarrow> rstr \<Rightarrow> (Config load \<Rightarrow> Config load) option" where
  "item9_apply key value =
     (if key = ascii ''RATATOSKR__MEDIA_RETENTION__ENABLED'' then
       Some (apply_parsed key (parse_flag value) (\<lambda>x c. c\<lparr>media_retention := (media_retention c)\<lparr>mr_enabled := x\<rparr>\<rparr>))
      else if key = ascii ''RATATOSKR__MEDIA_RETENTION__MAX_OBJECT_BYTES'' then
       Some (apply_parsed key (parse_positive value) (\<lambda>x c. c\<lparr>media_retention := (media_retention c)\<lparr>mr_max_object_bytes := Some x\<rparr>\<rparr>))
      else if key = ascii ''RATATOSKR__MEDIA_RETENTION__MAX_OWNER_BYTES'' then
       Some (apply_parsed key (parse_positive value) (\<lambda>x c. c\<lparr>media_retention := (media_retention c)\<lparr>mr_max_owner_bytes := Some x\<rparr>\<rparr>))
      else if key = ascii ''RATATOSKR__MEDIA_RETENTION__MAX_URL_LIFETIME_SECONDS'' then
       Some (apply_parsed key (parse_positive value) (\<lambda>x c. c\<lparr>media_retention := (media_retention c)\<lparr>mr_max_url_lifetime_seconds := Some x\<rparr>\<rparr>))
      else if key = ascii ''RATATOSKR__BLOB_DELETION__ENABLED'' then
       Some (apply_parsed key (parse_flag value) (\<lambda>x c. c\<lparr>blob_deletion := (blob_deletion c)\<lparr>bd_enabled := x\<rparr>\<rparr>))
      else if key = ascii ''RATATOSKR__BLOB_DELETION__POLL_INTERVAL_MS'' then
       Some (apply_parsed key (parse_positive value) (\<lambda>x c. c\<lparr>blob_deletion := (blob_deletion c)\<lparr>bd_poll_interval_ms := Some x\<rparr>\<rparr>))
      else if key = ascii ''RATATOSKR__BLOB_DELETION__BATCH_SIZE'' then
       Some (apply_parsed key (parse_positive value) (\<lambda>x c. c\<lparr>blob_deletion := (blob_deletion c)\<lparr>bd_batch_size := Some x\<rparr>\<rparr>))
      else if key = ascii ''RATATOSKR__BLOB_DELETION__MAX_ATTEMPTS'' then
       Some (apply_parsed key (parse_positive value) (\<lambda>x c. c\<lparr>blob_deletion := (blob_deletion c)\<lparr>bd_max_attempts := Some x\<rparr>\<rparr>))
      else if key = ascii ''RATATOSKR__RE_RESOLUTION__ENABLED'' then
       Some (apply_parsed key (parse_flag value) (\<lambda>x c. c\<lparr>re_resolution := (re_resolution c)\<lparr>rr_enabled := x\<rparr>\<rparr>))
      else if key = ascii ''RATATOSKR__RE_RESOLUTION__RECENCY_WINDOW_SECONDS'' then
       Some (apply_parsed key (parse_positive value) (\<lambda>x c. c\<lparr>re_resolution := (re_resolution c)\<lparr>rr_recency_window_seconds := Some x\<rparr>\<rparr>))
      else if key = ascii ''RATATOSKR__RE_RESOLUTION__ITEM_BUDGET'' then
       Some (apply_parsed key (parse_positive value) (\<lambda>x c. c\<lparr>re_resolution := (re_resolution c)\<lparr>rr_item_budget := Some x\<rparr>\<rparr>))
      else if key = ascii ''RATATOSKR__RE_RESOLUTION__REQUEST_BUDGET'' then
       Some (apply_parsed key (parse_positive value) (\<lambda>x c. c\<lparr>re_resolution := (re_resolution c)\<lparr>rr_request_budget := Some x\<rparr>\<rparr>))
      else if key = ascii ''RATATOSKR__RE_RESOLUTION__RESPONSE_BYTE_BUDGET'' then
       Some (apply_parsed key (parse_positive value) (\<lambda>x c. c\<lparr>re_resolution := (re_resolution c)\<lparr>rr_response_byte_budget := Some x\<rparr>\<rparr>))
      else if key = ascii ''RATATOSKR__RE_RESOLUTION__DURATION_BUDGET_MS'' then
       Some (apply_parsed key (parse_positive value) (\<lambda>x c. c\<lparr>re_resolution := (re_resolution c)\<lparr>rr_duration_budget_ms := Some x\<rparr>\<rparr>))
      else if key = ascii ''RATATOSKR__RE_RESOLUTION__CONCURRENCY_LIMIT'' then
       Some (apply_parsed key (parse_positive value) (\<lambda>x c. c\<lparr>re_resolution := (re_resolution c)\<lparr>rr_concurrency_limit := Some x\<rparr>\<rparr>))
      else if key = ascii ''RATATOSKR__RE_RESOLUTION__PROVIDER_CALL_BUDGET'' then
       Some (apply_parsed key (parse_positive value) (\<lambda>x c. c\<lparr>re_resolution := (re_resolution c)\<lparr>rr_provider_call_budget := Some x\<rparr>\<rparr>))
      else if key = ascii ''RATATOSKR__REPROCESSING__ENABLED'' then
       Some (apply_parsed key (parse_flag value) (\<lambda>x c. c\<lparr>reprocessing_section := (reprocessing_section c)\<lparr>rp_enabled := x\<rparr>\<rparr>))
      else if key = ascii ''RATATOSKR__REPROCESSING__MAX_ITEMS_PER_INVOCATION'' then
       Some (apply_parsed key (parse_positive value) (\<lambda>x c. c\<lparr>reprocessing_section := (reprocessing_section c)\<lparr>rp_max_items_per_invocation := Some x\<rparr>\<rparr>))
      else None)"

definition public_resolution_apply :: "rstr \<Rightarrow> rstr \<Rightarrow> (PublicResolutionConfig load \<Rightarrow> PublicResolutionConfig load) option" where
  "public_resolution_apply key value =
     (if key = ascii ''RATATOSKR__PUBLIC_RESOLUTION__ENDPOINT'' then
       Some (\<lambda>(c, vs). (c\<lparr>pr_endpoint := value\<rparr>, vs))
      else if key = ascii ''RATATOSKR__PUBLIC_RESOLUTION__ACCESS_TOKEN_PATH'' then
       Some (if path_is_absolute value then (\<lambda>(c, vs). (c\<lparr>pr_access_token_path := Some value\<rparr>, vs))
          else push_violation key ''must be an absolute readable token-file path'')
      else if key = ascii ''RATATOSKR__PUBLIC_RESOLUTION__MAX_ATTEMPTS'' then
       Some (apply_parsed key (parse_positive value) (\<lambda>x c. c\<lparr>pr_max_attempts := x\<rparr>))
      else if key = ascii ''RATATOSKR__PUBLIC_RESOLUTION__BATCH_SIZE'' then
       Some (apply_parsed key (parse_positive value) (\<lambda>x c. c\<lparr>pr_batch_size := x\<rparr>))
      else if key = ascii ''RATATOSKR__PUBLIC_RESOLUTION__POLL_INTERVAL_MS'' then
       Some (apply_parsed key (parse_positive value) (\<lambda>x c. c\<lparr>pr_poll_interval_ms := x\<rparr>))
      else None)"

text \<open>
  The arms of \<^verbatim>\<open>apply_entry\<close> in the source's order, one group of adjacent arms at a time; the remaining arms
  are the argument \<open>otherwise\<close>.
\<close>

definition apply_foundation :: "config_env \<Rightarrow> rstr \<Rightarrow> rstr \<Rightarrow> (Config load \<Rightarrow> Config load) \<Rightarrow> Config load \<Rightarrow> Config load" where
  "apply_foundation E key value otherwise =
     (if key = ascii ''RATATOSKR__ADMIN__LISTEN_ADDRESS'' then
       apply_parsed key (parse_listen_address value) (\<lambda>x c. c\<lparr>admin := (admin c)\<lparr>admin_listen_address := x\<rparr>\<rparr>)
      else if key = ascii ''RATATOSKR__API__LISTEN_ADDRESS'' then
       apply_parsed key (parse_listen_address value) (\<lambda>x c. c\<lparr>api := (api c)\<lparr>api_listen_address := x\<rparr>\<rparr>)
      else if key = ascii ''RATATOSKR__STORAGE__DATABASE_URL'' then
       (if ce_postgres_options E value then (\<lambda>(c, vs). (c\<lparr>storage := (storage c)\<lparr>database_url := Some value\<rparr>\<rparr>, vs))
        else push_violation key ''must be a PostgreSQL connection URL naming user, password, host, and database'')
      else if key = ascii ''RATATOSKR__TELEMETRY__LOG_FILTER'' then
       (if trim value = [] then push_violation key ''must be a non-empty tracing filter expression''
        else (\<lambda>(c, vs). (c\<lparr>telemetry := (telemetry c)\<lparr>log_filter := value\<rparr>\<rparr>, vs)))
      else if key = ascii ''RATATOSKR__LIMITS__DATABASE_CONNECTIONS'' then
       apply_parsed key (parse_positive value) (\<lambda>x c. c\<lparr>limits := (limits c)\<lparr>database_connections := x\<rparr>\<rparr>)
      else if key = ascii ''RATATOSKR__LIMITS__DATABASE_ACQUIRE_TIMEOUT_MS'' then
       apply_parsed key (parse_positive value) (\<lambda>x c. c\<lparr>limits := (limits c)\<lparr>database_acquire_timeout_ms := x\<rparr>\<rparr>)
      else if key = ascii ''RATATOSKR__LIMITS__SHUTDOWN_TIMEOUT_MS'' then
       apply_parsed key (parse_positive value) (\<lambda>x c. c\<lparr>limits := (limits c)\<lparr>shutdown_timeout_ms := x\<rparr>\<rparr>)
      else otherwise)"

definition apply_oauth :: "rstr \<Rightarrow> rstr \<Rightarrow> (Config load \<Rightarrow> Config load) \<Rightarrow> Config load \<Rightarrow> Config load" where
  "apply_oauth key value otherwise =
     (if key = ascii ''RATATOSKR__OAUTH__ENABLED'' then
       apply_parsed key (parse_flag value) (\<lambda>x c. c\<lparr>oauth := (oauth c)\<lparr>oa_enabled := x\<rparr>\<rparr>)
      else if key = ascii ''RATATOSKR__OAUTH__CLIENT_ID'' then
       (\<lambda>(c, vs). (c\<lparr>oauth := (oauth c)\<lparr>oa_client_id := Some value\<rparr>\<rparr>, vs))
      else if key = ascii ''RATATOSKR__OAUTH__CLIENT_SECRET'' then
       (\<lambda>(c, vs). (c\<lparr>oauth := (oauth c)\<lparr>oa_client_secret := Some value\<rparr>\<rparr>, vs))
      else if key = ascii ''RATATOSKR__OAUTH__REDIRECT_URI'' then
       (\<lambda>(c, vs). (c\<lparr>oauth := (oauth c)\<lparr>oa_redirect_uri := Some value\<rparr>\<rparr>, vs))
      else if key = ascii ''RATATOSKR__OAUTH__PLATFORM_RELAY_URL'' then
       (\<lambda>(c, vs). (c\<lparr>oauth := (oauth c)\<lparr>oa_platform_relay_url := Some value\<rparr>\<rparr>, vs))
      else if key = ascii ''RATATOSKR__OAUTH__PLATFORM_RELAY_TOKEN'' then
       (\<lambda>(c, vs). (c\<lparr>oauth := (oauth c)\<lparr>oa_platform_relay_token := Some value\<rparr>\<rparr>, vs))
      else if key = ascii ''RATATOSKR__OAUTH__GRAPH_VERSION'' then
       (\<lambda>(c, vs). (c\<lparr>oauth := (oauth c)\<lparr>oa_graph_version := value\<rparr>\<rparr>, vs))
      else if key = ascii ''RATATOSKR__OAUTH__CURRENT_KEY_VERSION'' then
       apply_parsed key (parse_positive value) (\<lambda>x c. c\<lparr>oauth := (oauth c)\<lparr>oa_current_key_version := Some x\<rparr>\<rparr>)
      else if key = ascii ''RATATOSKR__OAUTH__KEYRING'' then
       (\<lambda>(c, vs). (c\<lparr>oauth := (oauth c)\<lparr>oa_keyring := Some value\<rparr>\<rparr>, vs))
      else if key = ascii ''RATATOSKR__OAUTH__CONNECT_TIMEOUT_MS'' then
       apply_parsed key (parse_positive value) (\<lambda>x c. c\<lparr>oauth := (oauth c)\<lparr>oa_connect_timeout_ms := x\<rparr>\<rparr>)
      else if key = ascii ''RATATOSKR__OAUTH__REQUEST_TIMEOUT_MS'' then
       apply_parsed key (parse_positive value) (\<lambda>x c. c\<lparr>oauth := (oauth c)\<lparr>oa_request_timeout_ms := x\<rparr>\<rparr>)
      else if key = ascii ''RATATOSKR__OAUTH__TOTAL_TIMEOUT_MS'' then
       apply_parsed key (parse_positive value) (\<lambda>x c. c\<lparr>oauth := (oauth c)\<lparr>oa_total_timeout_ms := x\<rparr>\<rparr>)
      else if key = ascii ''RATATOSKR__OAUTH__MAX_RESPONSE_BYTES'' then
       apply_parsed key (parse_positive value) (\<lambda>x c. c\<lparr>oauth := (oauth c)\<lparr>oa_max_response_bytes := x\<rparr>\<rparr>)
      else if key = ascii ''RATATOSKR__OAUTH__DISCOVERY_RETRIES'' then
       apply_parsed key (ok_or ''must be a non-negative integer'' (parse_unsigned value))
         (\<lambda>x c. c\<lparr>oauth := (oauth c)\<lparr>oa_discovery_retries := x\<rparr>\<rparr>)
      else if key = ascii ''RATATOSKR__OAUTH__CALL_BUDGET'' then
       apply_parsed key (parse_positive value) (\<lambda>x c. c\<lparr>oauth := (oauth c)\<lparr>oa_call_budget := x\<rparr>\<rparr>)
      else if key = ascii ''RATATOSKR__OAUTH__FLOW_TTL_SECONDS'' then
       apply_parsed key (parse_positive value) (\<lambda>x c. c\<lparr>oauth := (oauth c)\<lparr>oa_flow_ttl_seconds := x\<rparr>\<rparr>)
      else otherwise)"

definition apply_own_media :: "rstr \<Rightarrow> rstr \<Rightarrow> (Config load \<Rightarrow> Config load) \<Rightarrow> Config load \<Rightarrow> Config load" where
  "apply_own_media key value otherwise =
     (if key = ascii ''RATATOSKR__OWN_MEDIA__ENABLED'' then
       apply_parsed key (parse_flag value) (\<lambda>x c. c\<lparr>own_media := (own_media c)\<lparr>oc_enabled := x\<rparr>\<rparr>)
      else if key = ascii ''RATATOSKR__OWN_MEDIA__CADENCE_SECONDS'' then
       apply_parsed key (parse_positive value) (\<lambda>x c. c\<lparr>own_media := (own_media c)\<lparr>oc_cadence_seconds := x\<rparr>\<rparr>)
      else if key = ascii ''RATATOSKR__OWN_MEDIA__ACCOUNTS_PER_TICK'' then
       apply_parsed key (parse_positive value) (\<lambda>x c. c\<lparr>own_media := (own_media c)\<lparr>oc_accounts_per_tick := x\<rparr>\<rparr>)
      else if key = ascii ''RATATOSKR__OWN_MEDIA__PAGES_PER_RUN'' then
       apply_parsed key (parse_positive value) (\<lambda>x c. c\<lparr>own_media := (own_media c)\<lparr>oc_pages_per_run := x\<rparr>\<rparr>)
      else if key = ascii ''RATATOSKR__OWN_MEDIA__CALL_BUDGET'' then
       apply_parsed key (parse_positive value) (\<lambda>x c. c\<lparr>own_media := (own_media c)\<lparr>oc_call_budget := x\<rparr>\<rparr>)
      else otherwise)"

definition apply_bus :: "rstr \<Rightarrow> rstr \<Rightarrow> (Config load \<Rightarrow> Config load) \<Rightarrow> Config load \<Rightarrow> Config load" where
  "apply_bus key value otherwise =
     (if key = ascii ''RATATOSKR__BUS__URL'' then
        (if text_before_scheme_separator value \<in> {ascii ''nats'', ascii ''tls''} \<and> of_char CHR ''@'' \<notin> set value
         then (\<lambda>(c, vs). (c\<lparr>bus := Some ((bus_or_default c)\<lparr>bus_url := value\<rparr>)\<rparr>, vs))
         else push_violation key ''must be a credential-free nats:// or tls:// URL'')
      else if key = ascii ''RATATOSKR__BUS__NKEY_SEED_PATH'' then
        (if path_is_absolute value
         then (\<lambda>(c, vs). (c\<lparr>bus := Some ((bus_or_default c)\<lparr>bus_nkey_seed_path := Some value\<rparr>)\<rparr>, vs))
         else push_violation key ''must be an absolute readable seed-file path'')
      else otherwise)"

definition or_unrecognized :: "rstr \<Rightarrow> ('c load \<Rightarrow> 'c load) option \<Rightarrow> 'c load \<Rightarrow> 'c load" where
  "or_unrecognized key handled =
     (case handled of Some f \<Rightarrow> f | None \<Rightarrow> push_violation key ''is not recognized'')"

text \<open>A section's handler run on the section inside the whole configuration.\<close>

definition on_data_export :: "(DataExportConfig load \<Rightarrow> DataExportConfig load) \<Rightarrow> Config load \<Rightarrow> Config load" where
  "on_data_export f s = (case f (data_export (fst s), snd s) of (x, vs) \<Rightarrow> ((fst s)\<lparr>data_export := x\<rparr>, vs))"

definition on_public_resolution ::
  "(PublicResolutionConfig load \<Rightarrow> PublicResolutionConfig load) \<Rightarrow> Config load \<Rightarrow> Config load" where
  "on_public_resolution f s =
     (case f (public_resolution (fst s), snd s) of (x, vs) \<Rightarrow> ((fst s)\<lparr>public_resolution := x\<rparr>, vs))"

definition apply_entry :: "config_env \<Rightarrow> rstr \<Rightarrow> rstr \<Rightarrow> Config load \<Rightarrow> Config load" where
  "apply_entry E key value =
     apply_foundation E key value
      (if starts_with ''RATATOSKR__PUBLISHER__'' key \<or> starts_with ''RATATOSKR__TOMBSTONE__'' key
       then or_unrecognized key (publisher_apply key value)
       else apply_oauth key value
        (apply_own_media key value
         (if starts_with ''RATATOSKR__DATA_EXPORT__'' key then on_data_export (data_export_apply E key value)
          else if starts_with ''RATATOSKR__MEDIA_RETENTION__'' key \<or> starts_with ''RATATOSKR__BLOB_DELETION__'' key
            \<or> starts_with ''RATATOSKR__RE_RESOLUTION__'' key \<or> starts_with ''RATATOSKR__REPROCESSING__'' key
          then or_unrecognized key (item9_apply key value)
          else if starts_with ''RATATOSKR__PUBLIC_RESOLUTION__'' key
          then (case public_resolution_apply key value of
                  Some f \<Rightarrow> on_public_resolution f
                | None \<Rightarrow> push_violation key ''is not recognized'')
          else apply_bus key value (push_violation key ''is not recognized''))))"

section \<open>Validation\<close>

definition validate_https_uri :: "config_env \<Rightarrow> rstr option \<Rightarrow> string \<Rightarrow> Violation list \<Rightarrow> Violation list" where
  "validate_https_uri E value key vs =
     require (case Option.bind value (ce_url E) of
                None \<Rightarrow> False
              | Some u \<Rightarrow> pu_scheme u = ascii ''https'' \<and> pu_host u \<noteq> None \<and> pu_username u = []
                  \<and> pu_password u = None \<and> pu_fragment u = None)
       key ''must be an HTTPS URI without credentials or fragment'' vs"

definition validate_current_key :: "config_env \<Rightarrow> OAuthConfig \<Rightarrow> Violation list \<Rightarrow> Violation list" where
  "validate_current_key E c vs =
     (case (oa_current_key_version c, oa_keyring c) of
        (Some current, Some encoded) \<Rightarrow>
          (case decode_keyring E encoded of
             Ok keys \<Rightarrow> require (current \<in> fst ` set keys) ''RATATOSKR__OAUTH__CURRENT_KEY_VERSION''
                          ''must name a key present in the OAuth keyring'' vs
           | Err rule \<Rightarrow> vs @ config_error ''RATATOSKR__OAUTH__KEYRING'' rule)
      | _ \<Rightarrow> vs)"

definition validate_oauth :: "config_env \<Rightarrow> OAuthConfig \<Rightarrow> Violation list \<Rightarrow> Violation list" where
  "validate_oauth E c vs =
     (if \<not> oa_enabled c then vs else
      validate_range (oa_flow_ttl_seconds c) 60 900 ''RATATOSKR__OAUTH__FLOW_TTL_SECONDS'' (
      validate_range (ucast (oa_call_budget c)) 3 10 ''RATATOSKR__OAUTH__CALL_BUDGET'' (
      validate_range (ucast (oa_discovery_retries c)) 0 2 ''RATATOSKR__OAUTH__DISCOVERY_RETRIES'' (
      validate_range (oa_max_response_bytes c) 1024 1048576 ''RATATOSKR__OAUTH__MAX_RESPONSE_BYTES'' (
      validate_range (oa_total_timeout_ms c) (oa_request_timeout_ms c) 60000 ''RATATOSKR__OAUTH__TOTAL_TIMEOUT_MS'' (
      validate_range (oa_request_timeout_ms c) 100 30000 ''RATATOSKR__OAUTH__REQUEST_TIMEOUT_MS'' (
      validate_range (oa_connect_timeout_ms c) 100 10000 ''RATATOSKR__OAUTH__CONNECT_TIMEOUT_MS'' (
      validate_current_key E c (
      require (oa_graph_version c = ascii ''v26.0'') ''RATATOSKR__OAUTH__GRAPH_VERSION''
        ''must equal the reviewed provider profile version v26.0'' (
      validate_https_uri E (oa_platform_relay_url c) ''RATATOSKR__OAUTH__PLATFORM_RELAY_URL'' (
      validate_https_uri E (oa_redirect_uri c) ''RATATOSKR__OAUTH__REDIRECT_URI'' (
      require (oa_keyring c \<noteq> None) ''RATATOSKR__OAUTH__KEYRING'' ''is required when OAuth is enabled'' (
      require (oa_current_key_version c \<noteq> None) ''RATATOSKR__OAUTH__CURRENT_KEY_VERSION'' ''is required when OAuth is enabled'' (
      require (oa_platform_relay_token c \<noteq> None) ''RATATOSKR__OAUTH__PLATFORM_RELAY_TOKEN'' ''is required when OAuth is enabled'' (
      require (oa_client_secret c \<noteq> None) ''RATATOSKR__OAUTH__CLIENT_SECRET'' ''is required when OAuth is enabled'' (
      require (case oa_client_id c of
                 None \<Rightarrow> False
               | Some text_id \<Rightarrow> text_id \<noteq> [] \<and> str_len text_id \<le> 128 \<and> list_all (\<lambda>ch. ch < 128) text_id)
        ''RATATOSKR__OAUTH__CLIENT_ID'' ''must be non-empty bounded ASCII text'' vs))))))))))))))))"

definition validate_own_media :: "Config \<Rightarrow> Violation list \<Rightarrow> Violation list" where
  "validate_own_media c vs =
     (if \<not> oc_enabled (own_media c) then vs else
      validate_range (ucast (oc_call_budget (own_media c))) 1 100 ''RATATOSKR__OWN_MEDIA__CALL_BUDGET'' (
      validate_range (ucast (oc_pages_per_run (own_media c))) 1 100 ''RATATOSKR__OWN_MEDIA__PAGES_PER_RUN'' (
      validate_range (ucast (oc_accounts_per_tick (own_media c))) 1 100 ''RATATOSKR__OWN_MEDIA__ACCOUNTS_PER_TICK'' (
      validate_range (oc_cadence_seconds (own_media c)) 60 86400 ''RATATOSKR__OWN_MEDIA__CADENCE_SECONDS'' (
      require (oa_enabled (oauth c)) ''RATATOSKR__OWN_MEDIA__ENABLED''
        ''requires the reviewed OAuth account lane to be enabled'' vs)))))"

definition roots_overlap :: "DataExportConfig \<Rightarrow> bool" where
  "roots_overlap c =
     (case (dx_blob_root c, dx_staging_root c) of
        (Some blob, Some staging) \<Rightarrow>
          path_eq blob staging \<or> path_starts_with blob staging \<or> path_starts_with staging blob
      | _ \<Rightarrow> False)"

definition data_export_ranges :: "DataExportConfig \<Rightarrow> (u64 \<times> u64 \<times> u64 \<times> string) list" where
  "data_export_ranges c =
     [(dx_max_body_bytes c, 1024, 10 * 1024 * 1024 * 1024, ''RATATOSKR__DATA_EXPORT__MAX_BODY_BYTES''),
      (dx_max_entries c, 1, 100000, ''RATATOSKR__DATA_EXPORT__MAX_ENTRIES''),
      (dx_max_entry_path_bytes c, 16, 4096, ''RATATOSKR__DATA_EXPORT__MAX_ENTRY_PATH_BYTES''),
      (dx_max_path_depth c, 1, 32, ''RATATOSKR__DATA_EXPORT__MAX_PATH_DEPTH''),
      (dx_max_total_compressed_bytes c, 1024, 10 * 1024 * 1024 * 1024, ''RATATOSKR__DATA_EXPORT__MAX_TOTAL_COMPRESSED_BYTES''),
      (dx_max_total_decompressed_bytes c, 1024, 100 * 1024 * 1024 * 1024, ''RATATOSKR__DATA_EXPORT__MAX_TOTAL_DECOMPRESSED_BYTES''),
      (dx_max_entry_decompressed_bytes c, 1024, 1024 * 1024 * 1024, ''RATATOSKR__DATA_EXPORT__MAX_ENTRY_DECOMPRESSED_BYTES''),
      (dx_max_compression_ratio c, 1, 1000, ''RATATOSKR__DATA_EXPORT__MAX_COMPRESSION_RATIO''),
      (dx_worker_poll_interval_ms c, 100, 60000, ''RATATOSKR__DATA_EXPORT__WORKER_POLL_INTERVAL_MS''),
      (ucast (dx_worker_batch_size c), 1, 100, ''RATATOSKR__DATA_EXPORT__WORKER_BATCH_SIZE'')]"

definition validate_data_export :: "DataExportConfig \<Rightarrow> Violation list \<Rightarrow> Violation list" where
  "validate_data_export c vs =
     (let vs1 = (if dx_enabled c then
           require (dx_credential_hashes c \<noteq> []) ''RATATOSKR__DATA_EXPORT__BEARER_TOKENS''
             ''must contain at least one owner-bound bearer credential'' (
           require (dx_staging_root c \<noteq> None) ''RATATOSKR__DATA_EXPORT__STAGING_ROOT''
             ''is required when Data Export intake is enabled'' (
           require (dx_blob_root c \<noteq> None) ''RATATOSKR__DATA_EXPORT__BLOB_ROOT''
             ''is required when Data Export intake is enabled'' vs)) else vs);
          vs2 = require (\<not> roots_overlap c) ''RATATOSKR__DATA_EXPORT__STAGING_ROOT''
             ''must be disjoint from the immutable blob root'' vs1;
          vs3 = foldl (\<lambda>ws (value, minimum, maximum, key). validate_range value minimum maximum key ws) vs2 (data_export_ranges c)
      in require (dx_max_entry_decompressed_bytes c \<le> dx_max_total_decompressed_bytes c)
           ''RATATOSKR__DATA_EXPORT__MAX_ENTRY_DECOMPRESSED_BYTES'' ''must not exceed the total decompressed limit'' (
         require (dx_max_total_compressed_bytes c \<le> dx_max_body_bytes c)
           ''RATATOSKR__DATA_EXPORT__MAX_TOTAL_COMPRESSED_BYTES'' ''must not exceed the upload body limit'' vs3))"

definition MAX_CAP_SECONDS :: u64 where
  "MAX_CAP_SECONDS = 604800"

definition validate_tombstone :: "TombstoneConfig \<Rightarrow> Violation list \<Rightarrow> Violation list" where
  "validate_tombstone c vs =
     require (\<not> (resend_cap_seconds c < resend_after_seconds c \<or> MAX_CAP_SECONDS < resend_cap_seconds c))
       ''RATATOSKR__TOMBSTONE__RESEND_CAP_SECONDS'' ''must be at least the resend delay and at most 604800 seconds''
       (validate_range (resend_after_seconds c) 30 86400 ''RATATOSKR__TOMBSTONE__RESEND_AFTER_SECONDS'' vs)"

definition validate_guard :: "bool \<Rightarrow> Violation list \<Rightarrow> u64 option \<times> u64 \<times> u64 \<times> string \<Rightarrow> Violation list" where
  "validate_guard enabled vs guard =
     (case guard of (value, minimum, maximum, key) \<Rightarrow>
        (case value of
           Some v \<Rightarrow> validate_range v minimum maximum key vs
         | None \<Rightarrow> require (\<not> enabled) key ''is required when the capability is enabled'' vs))"

definition validate_item9_section ::
  "bool \<Rightarrow> string \<Rightarrow> (u64 option \<times> u64 \<times> u64 \<times> string) list \<Rightarrow> Violation list \<Rightarrow> Violation list" where
  "validate_item9_section enabled enabled_key guards vs =
     (let before = length vs; vs1 = foldl (validate_guard enabled) vs guards
      in require (\<not> (enabled \<and> before < length vs1)) enabled_key ''requires every finite nonzero guard to be valid'' vs1)"

text \<open>\<^verbatim>\<open>if let (Some(a), Some(b)) = ... && b > a\<close>: the second value must not exceed the first when both are given.\<close>

definition require_at_most :: "'a::linorder option \<Rightarrow> 'a option \<Rightarrow> string \<Rightarrow> string \<Rightarrow> Violation list \<Rightarrow> Violation list" where
  "require_at_most bound value key rule vs =
     require (case (bound, value) of (Some a, Some b) \<Rightarrow> b \<le> a | _ \<Rightarrow> True) key rule vs"

definition media_retention_guards :: "MediaRetentionConfig \<Rightarrow> (u64 option \<times> u64 \<times> u64 \<times> string) list" where
  "media_retention_guards c =
     [(mr_max_object_bytes c, 1024, 1073741824, ''RATATOSKR__MEDIA_RETENTION__MAX_OBJECT_BYTES''),
      (mr_max_owner_bytes c, 1024, 1099511627776, ''RATATOSKR__MEDIA_RETENTION__MAX_OWNER_BYTES''),
      (mr_max_url_lifetime_seconds c, 60, 2592000, ''RATATOSKR__MEDIA_RETENTION__MAX_URL_LIFETIME_SECONDS'')]"

definition blob_deletion_guards :: "BlobDeletionConfig \<Rightarrow> (u64 option \<times> u64 \<times> u64 \<times> string) list" where
  "blob_deletion_guards c =
     [(bd_poll_interval_ms c, 100, 86400000, ''RATATOSKR__BLOB_DELETION__POLL_INTERVAL_MS''),
      (map_option ucast (bd_batch_size c), 1, 1000, ''RATATOSKR__BLOB_DELETION__BATCH_SIZE''),
      (map_option ucast (bd_max_attempts c), 1, 20, ''RATATOSKR__BLOB_DELETION__MAX_ATTEMPTS'')]"

definition re_resolution_guards :: "ReResolutionConfig \<Rightarrow> (u64 option \<times> u64 \<times> u64 \<times> string) list" where
  "re_resolution_guards c =
     [(rr_recency_window_seconds c, 60, 2592000, ''RATATOSKR__RE_RESOLUTION__RECENCY_WINDOW_SECONDS''),
      (map_option ucast (rr_item_budget c), 1, 10000, ''RATATOSKR__RE_RESOLUTION__ITEM_BUDGET''),
      (map_option ucast (rr_request_budget c), 1, 10000, ''RATATOSKR__RE_RESOLUTION__REQUEST_BUDGET''),
      (rr_response_byte_budget c, 1024, 1073741824, ''RATATOSKR__RE_RESOLUTION__RESPONSE_BYTE_BUDGET''),
      (rr_duration_budget_ms c, 100, 3600000, ''RATATOSKR__RE_RESOLUTION__DURATION_BUDGET_MS''),
      (map_option ucast (rr_concurrency_limit c), 1, 32, ''RATATOSKR__RE_RESOLUTION__CONCURRENCY_LIMIT''),
      (map_option ucast (rr_provider_call_budget c), 1, 10000, ''RATATOSKR__RE_RESOLUTION__PROVIDER_CALL_BUDGET'')]"

definition validate_item9 :: "Config \<Rightarrow> Violation list \<Rightarrow> Violation list" where
  "validate_item9 c vs =
     (let mr = media_retention c; bd = blob_deletion c; rr = re_resolution c; rp = reprocessing_section c;
          vs1 = validate_item9_section (mr_enabled mr) ''RATATOSKR__MEDIA_RETENTION__ENABLED'' (media_retention_guards mr) vs;
          vs2 = require_at_most (mr_max_owner_bytes mr) (mr_max_object_bytes mr)
            ''RATATOSKR__MEDIA_RETENTION__MAX_OWNER_BYTES'' ''must be at least the per-object byte ceiling'' vs1;
          vs3 = validate_item9_section (bd_enabled bd) ''RATATOSKR__BLOB_DELETION__ENABLED'' (blob_deletion_guards bd) vs2;
          vs4 = validate_item9_section (rr_enabled rr) ''RATATOSKR__RE_RESOLUTION__ENABLED'' (re_resolution_guards rr) vs3;
          vs5 = require_at_most (rr_item_budget rr) (rr_request_budget rr)
            ''RATATOSKR__RE_RESOLUTION__REQUEST_BUDGET'' ''must not exceed the item budget'' vs4;
          vs6 = require_at_most (rr_request_budget rr) (rr_concurrency_limit rr)
            ''RATATOSKR__RE_RESOLUTION__CONCURRENCY_LIMIT'' ''must not exceed the request budget'' vs5;
          vs7 = require_at_most (rr_request_budget rr) (rr_provider_call_budget rr)
            ''RATATOSKR__RE_RESOLUTION__PROVIDER_CALL_BUDGET'' ''must not exceed the request budget'' vs6
      in validate_item9_section (rp_enabled rp) ''RATATOSKR__REPROCESSING__ENABLED''
           [(map_option ucast (rp_max_items_per_invocation rp), 1, 10000, ''RATATOSKR__REPROCESSING__MAX_ITEMS_PER_INVOCATION'')] vs7)"

definition ALLOWED_HOSTS :: "rstr list" where
  "ALLOWED_HOSTS = [ascii ''graph.facebook.com'', ascii ''graph.instagram.com'']"

definition endpoint_allowed :: "config_env \<Rightarrow> rstr \<Rightarrow> bool" where
  "endpoint_allowed E endpoint =
     (case ce_url E endpoint of
        None \<Rightarrow> False
      | Some u \<Rightarrow> pu_scheme u = ascii ''https''
          \<and> (case pu_host u of None \<Rightarrow> False | Some host \<Rightarrow> host \<in> set ALLOWED_HOSTS)
          \<and> pu_username u = [] \<and> pu_password u = None \<and> pu_query u = None \<and> pu_fragment u = None \<and> pu_port u = None)"

definition validate_public_resolution ::
  "config_env \<Rightarrow> PublicResolutionConfig \<Rightarrow> bool \<Rightarrow> Violation list \<Rightarrow> Violation list" where
  "validate_public_resolution E c bus_configured vs =
     validate_range (pr_poll_interval_ms c) 100 60000 ''RATATOSKR__PUBLIC_RESOLUTION__POLL_INTERVAL_MS'' (
     validate_range (ucast (pr_batch_size c)) 1 100 ''RATATOSKR__PUBLIC_RESOLUTION__BATCH_SIZE'' (
     validate_range (ucast (pr_max_attempts c)) 1 10 ''RATATOSKR__PUBLIC_RESOLUTION__MAX_ATTEMPTS'' (
     require (\<not> (bus_configured \<and> pr_access_token_path c = None)) ''RATATOSKR__PUBLIC_RESOLUTION__ACCESS_TOKEN_PATH''
       ''is required when the bus is configured: a consumer without a resolution surface cannot finish its captures'' (
     require (endpoint_allowed E (pr_endpoint c)) ''RATATOSKR__PUBLIC_RESOLUTION__ENDPOINT''
       ''must be an https URL on graph.facebook.com or graph.instagram.com without credentials, query, or fragment'' vs))))"

definition validate_bus :: "Config \<Rightarrow> Violation list \<Rightarrow> Violation list" where
  "validate_bus c vs =
     require (case bus c of None \<Rightarrow> False | Some b \<Rightarrow> bus_url b \<noteq> []) ''RATATOSKR__BUS__URL''
       ''must configure the mandatory JetStream command-consumer endpoint'' vs"

section \<open>Loading\<close>

definition ENV_PREFIX :: string where
  "ENV_PREFIX = ''RATATOSKR__''"

definition apply_entries :: "config_env \<Rightarrow> (rstr \<times> rstr) list \<Rightarrow> Config load \<Rightarrow> Config load" where
  "apply_entries E entries s =
     foldl (\<lambda>s (key, value). if starts_with ENV_PREFIX key then apply_entry E key value s else s) s entries"

text \<open>The checks of the loaded value, in the source's order.\<close>

definition validate_config :: "config_env \<Rightarrow> Config \<Rightarrow> Violation list \<Rightarrow> Violation list" where
  "validate_config E c vs =
     validate_bus c (
     validate_public_resolution E (public_resolution c) (bus c \<noteq> None) (
     validate_item9 c (
     validate_tombstone (tombstone c) (
     validate_data_export (data_export c) (
     validate_own_media c (
     validate_oauth E (oauth c) vs))))))"

definition from_environment :: "config_env \<Rightarrow> (rstr \<times> rstr) list \<Rightarrow> (Config, Violation list) result" where
  "from_environment E entries =
     (case apply_entries E entries (default_config, []) of (c, vs) \<Rightarrow>
        let violations = validate_config E c vs
        in if violations = [] then Ok c else Err violations)"

text \<open>
  \<^verbatim>\<open>Config::load\<close> over the process environment: a key or value that is not Unicode is \<open>None\<close>. Such a key is
  skipped; such a value under the prefix ends the load.
\<close>

fun collect_entries :: "(rstr option \<times> rstr option) list \<Rightarrow> ((rstr \<times> rstr) list, Violation list) result" where
  "collect_entries [] = Ok []"
| "collect_entries ((key, value) # vars) =
     (case key of
        None \<Rightarrow> collect_entries vars
      | Some k \<Rightarrow>
          if \<not> starts_with ENV_PREFIX k then collect_entries vars
          else (case value of
                  None \<Rightarrow> Err [\<lparr>v_key = k, v_rule = ''must contain Unicode text''\<rparr>]
                | Some v \<Rightarrow> bind_result (collect_entries vars) (\<lambda>entries. Ok ((k, v) # entries))))"

definition load_config :: "config_env \<Rightarrow> (rstr option \<times> rstr option) list \<Rightarrow> (Config, Violation list) result" where
  "load_config E vars = bind_result (collect_entries vars) (from_environment E)"

section \<open>What the sections hand to the components\<close>

text \<open>The file the token path names: whether it is a regular file and its length, and its text when it is UTF-8.\<close>

record token_files =
  tf_metadata :: "rstr \<Rightarrow> (bool \<times> u64) option"
  tf_content :: "rstr \<Rightarrow> rstr option"

definition MAX_TOKEN_FILE_BYTES :: u64 where
  "MAX_TOKEN_FILE_BYTES = 4 * 1024"

definition load_access_token :: "token_files \<Rightarrow> PublicResolutionConfig \<Rightarrow> (rstr, Violation list) result" where
  "load_access_token F c =
     (let refused = (\<lambda>rule. Err (config_error ''RATATOSKR__PUBLIC_RESOLUTION__ACCESS_TOKEN_PATH'' rule))
      in case pr_access_token_path c of
           None \<Rightarrow> refused ''is required''
         | Some path \<Rightarrow>
             (case tf_metadata F path of
                None \<Rightarrow> refused ''must name a readable token file''
              | Some (is_file, file_bytes) \<Rightarrow>
                  if \<not> is_file \<or> MAX_TOKEN_FILE_BYTES < file_bytes then refused ''must name a regular file of at most 4 KiB''
                  else (case tf_content F path of
                          None \<Rightarrow> refused ''must name a readable UTF-8 token file''
                        | Some content \<Rightarrow>
                            if trim content = [] then refused ''must not name an empty token file''
                            else Ok (trim content))))"

definition resend_policy :: "TombstoneConfig \<Rightarrow> ResendPolicy" where
  "resend_policy c = \<lparr>resend_after = seconds (uint (resend_after_seconds c)), resend_cap = seconds (uint (resend_cap_seconds c))\<rparr>"

definition archive_limits :: "DataExportConfig \<Rightarrow> ArchiveLimits" where
  "archive_limits c =
     \<lparr>max_entries = unat (dx_max_entries c), max_entry_path_bytes = unat (dx_max_entry_path_bytes c),
      max_path_depth = unat (dx_max_path_depth c),
      max_total_compressed_bytes = dx_max_total_compressed_bytes c,
      max_total_decompressed_bytes = dx_max_total_decompressed_bytes c,
      max_entry_decompressed_bytes = dx_max_entry_decompressed_bytes c,
      max_compression_ratio = dx_max_compression_ratio c\<rparr>"

definition resolution_policy :: "PublicResolutionConfig \<Rightarrow> ResolutionPolicy" where
  "resolution_policy c = \<lparr>max_attempts = pr_max_attempts c, batch_size = unat (pr_batch_size c)\<rparr>"

section \<open>What startup derives\<close>

record ('p, 'r) OfficialAccountRuntime =
  or_keyring :: CredentialKeyring
  or_provider :: 'p
  or_relay :: 'r
  or_client_id :: rstr
  or_redirect_uri :: rstr
  or_flow_ttl_seconds :: u64
  or_call_budget :: u32
  or_discovery_retries :: u32
  or_pkce_supported :: bool
  or_refresh_supported :: bool

text \<open>
  \<open>provider_new\<close> and \<open>relay_new\<close> build the two HTTP clients (client id, secret, redirect, connection and request
  timeout, body limit; relay URL, token, timeout, body limit); \<open>None\<close> when the HTTP library refuses.
\<close>

definition build_official_runtime ::
  "config_env \<Rightarrow> (rstr \<Rightarrow> rstr \<Rightarrow> rstr \<Rightarrow> u64 \<Rightarrow> u64 \<Rightarrow> u64 \<Rightarrow> 'p option) \<Rightarrow> (ParsedUrl \<Rightarrow> rstr \<Rightarrow> u64 \<Rightarrow> u64 \<Rightarrow> 'r option)
     \<Rightarrow> Config \<Rightarrow> (('p, 'r) OfficialAccountRuntime option, string) result" where
  "build_official_runtime E provider_new relay_new config =
     (let c = oauth config in
      if \<not> oa_enabled c then Ok None else
      bind_result (map_err (\<lambda>_. ''credential keyring is invalid'') (credential_keyring E c)) (\<lambda>loaded_ring.
      bind_result (ok_or ''credential keyring is absent'' loaded_ring) (\<lambda>ring.
      bind_result (ok_or ''client id is absent'' (oa_client_id c)) (\<lambda>client.
      bind_result (ok_or ''client secret is absent'' (oa_client_secret c)) (\<lambda>secret.
      bind_result (ok_or ''redirect URI is absent'' (oa_redirect_uri c)) (\<lambda>redirect.
      bind_result (ok_or ''relay URL is absent'' (oa_platform_relay_url c)) (\<lambda>relay_text.
      bind_result (ok_or ''relay URL is invalid'' (ce_url E relay_text)) (\<lambda>relay_url.
      bind_result (ok_or ''relay token is absent'' (oa_platform_relay_token c)) (\<lambda>token.
      bind_result (ok_or ''provider client could not be built'' (provider_new client secret redirect
          (oa_connect_timeout_ms c) (oa_request_timeout_ms c) (oa_max_response_bytes c))) (\<lambda>provider.
      bind_result (ok_or ''relay client could not be built'' (relay_new relay_url token
          (oa_request_timeout_ms c) (oa_max_response_bytes c))) (\<lambda>relay.
      Ok (Some \<lparr>or_keyring = ring, or_provider = provider, or_relay = relay, or_client_id = client,
        or_redirect_uri = redirect, or_flow_ttl_seconds = oa_flow_ttl_seconds c, or_call_budget = oa_call_budget c,
        or_discovery_retries = oa_discovery_retries c, or_pkce_supported = False,
        or_refresh_supported = REFRESH_SUPPORTED\<rparr>))))))))))))"

definition EX_CONFIG :: nat where
  "EX_CONFIG = 78"

text \<open>The exit code of the \<^verbatim>\<open>check-config\<close> mode.\<close>

definition check_config :: "config_env \<Rightarrow> token_files \<Rightarrow> (rstr option \<times> rstr option) list \<Rightarrow> nat" where
  "check_config E F vars =
     (case load_config E vars of
        Err _ \<Rightarrow> EX_CONFIG
      | Ok c \<Rightarrow> (case load_access_token F (public_resolution c) of Err _ \<Rightarrow> EX_CONFIG | Ok _ \<Rightarrow> 0))"

end
