(* ===== verification/Configuration_Checks.thy ===== *)
theory Configuration_Checks
  imports Configuration
begin

text \<open>
  Lemmas on the loader: what each handler reports depends on its entry alone, every handler keeps an invariant of the
  loaded value, the checks of the loaded value only append and report nothing exactly within the documented bounds.
\<close>

section \<open>The documented keys\<close>

definition foundation_keys :: "string list" where
  "foundation_keys =
     [''ADMIN__LISTEN_ADDRESS'', ''API__LISTEN_ADDRESS'', ''STORAGE__DATABASE_URL'',
      ''TELEMETRY__LOG_FILTER'', ''LIMITS__DATABASE_CONNECTIONS'', ''LIMITS__DATABASE_ACQUIRE_TIMEOUT_MS'',
      ''LIMITS__SHUTDOWN_TIMEOUT_MS'']"

definition publisher_keys :: "string list" where
  "publisher_keys =
     [''PUBLISHER__POLL_INTERVAL_MS'', ''PUBLISHER__BATCH_SIZE'', ''TOMBSTONE__RESEND_AFTER_SECONDS'',
      ''TOMBSTONE__RESEND_CAP_SECONDS'']"

definition oauth_keys :: "string list" where
  "oauth_keys =
     [''OAUTH__ENABLED'', ''OAUTH__CLIENT_ID'', ''OAUTH__CLIENT_SECRET'', ''OAUTH__REDIRECT_URI'',
      ''OAUTH__PLATFORM_RELAY_URL'', ''OAUTH__PLATFORM_RELAY_TOKEN'', ''OAUTH__GRAPH_VERSION'',
      ''OAUTH__CURRENT_KEY_VERSION'', ''OAUTH__KEYRING'', ''OAUTH__CONNECT_TIMEOUT_MS'',
      ''OAUTH__REQUEST_TIMEOUT_MS'', ''OAUTH__TOTAL_TIMEOUT_MS'', ''OAUTH__MAX_RESPONSE_BYTES'',
      ''OAUTH__DISCOVERY_RETRIES'', ''OAUTH__CALL_BUDGET'', ''OAUTH__FLOW_TTL_SECONDS'']"

definition own_media_keys :: "string list" where
  "own_media_keys =
     [''OWN_MEDIA__ENABLED'', ''OWN_MEDIA__CADENCE_SECONDS'', ''OWN_MEDIA__ACCOUNTS_PER_TICK'',
      ''OWN_MEDIA__PAGES_PER_RUN'', ''OWN_MEDIA__CALL_BUDGET'']"

definition data_export_keys :: "string list" where
  "data_export_keys =
     [''DATA_EXPORT__ENABLED'', ''DATA_EXPORT__BLOB_ROOT'', ''DATA_EXPORT__STAGING_ROOT'',
      ''DATA_EXPORT__BEARER_TOKENS'', ''DATA_EXPORT__MAX_BODY_BYTES'', ''DATA_EXPORT__MAX_ENTRIES'',
      ''DATA_EXPORT__MAX_ENTRY_PATH_BYTES'', ''DATA_EXPORT__MAX_PATH_DEPTH'',
      ''DATA_EXPORT__MAX_TOTAL_COMPRESSED_BYTES'', ''DATA_EXPORT__MAX_TOTAL_DECOMPRESSED_BYTES'',
      ''DATA_EXPORT__MAX_ENTRY_DECOMPRESSED_BYTES'', ''DATA_EXPORT__MAX_COMPRESSION_RATIO'',
      ''DATA_EXPORT__WORKER_POLL_INTERVAL_MS'', ''DATA_EXPORT__WORKER_BATCH_SIZE'']"

definition item9_keys :: "string list" where
  "item9_keys =
     [''MEDIA_RETENTION__ENABLED'', ''MEDIA_RETENTION__MAX_OBJECT_BYTES'',
      ''MEDIA_RETENTION__MAX_OWNER_BYTES'', ''MEDIA_RETENTION__MAX_URL_LIFETIME_SECONDS'',
      ''BLOB_DELETION__ENABLED'', ''BLOB_DELETION__POLL_INTERVAL_MS'', ''BLOB_DELETION__BATCH_SIZE'',
      ''BLOB_DELETION__MAX_ATTEMPTS'', ''RE_RESOLUTION__ENABLED'', ''RE_RESOLUTION__RECENCY_WINDOW_SECONDS'',
      ''RE_RESOLUTION__ITEM_BUDGET'', ''RE_RESOLUTION__REQUEST_BUDGET'',
      ''RE_RESOLUTION__RESPONSE_BYTE_BUDGET'', ''RE_RESOLUTION__DURATION_BUDGET_MS'',
      ''RE_RESOLUTION__CONCURRENCY_LIMIT'', ''RE_RESOLUTION__PROVIDER_CALL_BUDGET'',
      ''REPROCESSING__ENABLED'', ''REPROCESSING__MAX_ITEMS_PER_INVOCATION'']"

definition public_resolution_keys :: "string list" where
  "public_resolution_keys =
     [''PUBLIC_RESOLUTION__ENDPOINT'', ''PUBLIC_RESOLUTION__ACCESS_TOKEN_PATH'',
      ''PUBLIC_RESOLUTION__MAX_ATTEMPTS'', ''PUBLIC_RESOLUTION__BATCH_SIZE'',
      ''PUBLIC_RESOLUTION__POLL_INTERVAL_MS'']"

definition bus_keys :: "string list" where
  "bus_keys =
     [''BUS__URL'', ''BUS__NKEY_SEED_PATH'']"

definition known_keys :: "rstr list" where
  "known_keys = map (\<lambda>k. ascii (ENV_PREFIX @ k))
     (foundation_keys @ publisher_keys @ oauth_keys @ own_media_keys
        @ data_export_keys @ item9_keys @ public_resolution_keys @ bus_keys)"

section \<open>Collecting violations\<close>

text \<open>
  The contract of one step of the loader: what it reports depends on the entry alone, and it keeps an invariant of
  the value being loaded whatever it reports.
\<close>

locale violation_collector =
  fixes step :: "'e \<Rightarrow> 'c load \<Rightarrow> 'c load" and start :: 'c and good :: "'c \<Rightarrow> bool"
  assumes step_reports: "\<exists>ds. \<forall>s. snd (step e s) = snd s @ ds"
    and good_start: "good start"
    and step_good: "good (fst s) \<Longrightarrow> good (fst (step e s))"
begin

lemma step_found: "snd (step e s) = snd s @ snd (step e (start, []))"
proof -
  obtain ds where "\<forall>s. snd (step e s) = snd s @ ds" using step_reports by blast
  then show ?thesis by (cases s) simp
qed

lemma fold_found:
  "snd (foldl (\<lambda>s e. step e s) s es) = snd s @ concat (map (\<lambda>e. snd (step e (start, []))) es)"
proof (induction es arbitrary: s)
  case (Cons e es)
  then show ?case using step_found [of e s] by simp
qed simp

lemma fold_good: "good (fst s) \<Longrightarrow> good (fst (foldl (\<lambda>s e. step e s) s es))"
  by (induction es arbitrary: s) (simp_all add: step_good)

lemma load_good: "good (fst (foldl (\<lambda>s e. step e s) (start, []) es))"
  by (rule fold_good) (simp add: good_start)

end

named_theorems reports_rules \<open>introduction rules for reports that depend on the entry alone\<close>
named_theorems keeps_rules \<open>introduction rules for handlers that keep an invariant\<close>

definition reports :: "('c load \<Rightarrow> 'c load) \<Rightarrow> bool" where
  "reports f \<longleftrightarrow> (\<exists>ds. \<forall>s. snd (f s) = snd s @ ds)"

definition keeps :: "('c \<Rightarrow> bool) \<Rightarrow> ('c load \<Rightarrow> 'c load) \<Rightarrow> bool" where
  "keeps good f \<longleftrightarrow> (\<forall>s. good (fst s) \<longrightarrow> good (fst (f s)))"

lemma reports_push [reports_rules]: "reports (push_violation key rule)"
  by (auto simp: reports_def push_violation_def)

lemma reports_parsed [reports_rules]: "reports (apply_parsed key parsed assign)"
  by (cases parsed) (auto simp: reports_def apply_parsed_def push_violation_def)

lemma reports_assign [reports_rules]: "reports (\<lambda>(c, vs). (g c, vs))"
  by (auto simp: reports_def)

lemma reports_path [reports_rules]:
  "reports (\<lambda>(c, vs). case private_absolute_path key value vs of (p, vs1) \<Rightarrow> (g c p, vs1))"
  by (auto simp: reports_def private_absolute_path_def)

lemma reports_if [reports_rules]: "reports f \<Longrightarrow> reports g \<Longrightarrow> reports (if b then f else g)"
  by simp

lemma reports_unrecognized [reports_rules]:
  "(\<And>f. handled = Some f \<Longrightarrow> reports f) \<Longrightarrow> reports (or_unrecognized key handled)"
  by (cases handled) (simp_all add: or_unrecognized_def reports_push)

lemma reports_data_export [reports_rules]: "reports f \<Longrightarrow> reports (on_data_export f)"
  by (auto simp: reports_def on_data_export_def split_beta)

lemma reports_public_resolution [reports_rules]: "reports f \<Longrightarrow> reports (on_public_resolution f)"
  by (auto simp: reports_def on_public_resolution_def split_beta)

lemma reports_option [reports_rules]:
  "(\<And>f. handled = Some f \<Longrightarrow> reports (g f)) \<Longrightarrow> reports h \<Longrightarrow> reports (case handled of Some f \<Rightarrow> g f | None \<Rightarrow> h)"
  by (cases handled) simp_all

lemma if_SomeD:
  "(if b then Some x else y) = Some f \<Longrightarrow> (b \<and> f = x) \<or> (\<not> b \<and> y = Some f)"
  by (auto split: if_splits)

lemma publisher_reports: "publisher_apply key value = Some f \<Longrightarrow> reports f"
  unfolding publisher_apply_def by (elim if_SomeD [elim_format] disjE conjE) (simp_all add: reports_rules)

lemma item9_reports: "item9_apply key value = Some f \<Longrightarrow> reports f"
  unfolding item9_apply_def by (elim if_SomeD [elim_format] disjE conjE) (simp_all add: reports_rules)

lemma public_resolution_reports: "public_resolution_apply key value = Some f \<Longrightarrow> reports f"
  unfolding public_resolution_apply_def
  by (elim if_SomeD [elim_format] disjE conjE) (simp_all add: reports_rules)

lemma apply_entry_reports: "reports (apply_entry E key value)"
  unfolding apply_entry_def apply_foundation_def apply_oauth_def apply_own_media_def apply_bus_def
    data_export_apply_def
  by (intro reports_rules) (blast intro: publisher_reports item9_reports reports_public_resolution public_resolution_reports)+

section \<open>What every load keeps\<close>

definition listens_on_loopback :: "SocketAddr \<Rightarrow> bool" where
  "listens_on_loopback a \<longleftrightarrow> is_loopback (sa_ip a) \<and> sa_port a \<noteq> 0"

definition absolute_if_given :: "rstr option \<Rightarrow> bool" where
  "absolute_if_given p = (case p of None \<Rightarrow> True | Some q \<Rightarrow> path_is_absolute q)"

definition sound_data_export :: "DataExportConfig \<Rightarrow> bool" where
  "sound_data_export c \<longleftrightarrow> absolute_if_given (dx_blob_root c) \<and> absolute_if_given (dx_staging_root c)"

text \<open>What the entries alone guarantee, whatever the checks of the loaded value say.\<close>

definition sound_entries :: "Config \<Rightarrow> bool" where
  "sound_entries c \<longleftrightarrow> listens_on_loopback (admin_listen_address (admin c)) \<and> listens_on_loopback (api_listen_address (api c))
     \<and> trim (log_filter (telemetry c)) \<noteq> []
     \<and> 1 \<le> database_connections (limits c) \<and> 1 \<le> database_acquire_timeout_ms (limits c)
     \<and> 1 \<le> shutdown_timeout_ms (limits c)
     \<and> 1 \<le> publisher_poll_interval_ms (publisher c) \<and> 1 \<le> publisher_batch_size (publisher c)
     \<and> sound_data_export (data_export c)
     \<and> absolute_if_given (pr_access_token_path (public_resolution c))
     \<and> (case bus c of None \<Rightarrow> True | Some b \<Rightarrow> absolute_if_given (bus_nkey_seed_path b) \<and> of_char CHR ''@'' \<notin> set (bus_url b))"

lemma keeps_push [keeps_rules]: "keeps good (push_violation key rule)"
  by (simp add: keeps_def push_violation_def)

lemma keeps_parsed [keeps_rules]:
  "(\<And>x c. parsed = Ok x \<Longrightarrow> good c \<Longrightarrow> good (assign x c)) \<Longrightarrow> keeps good (apply_parsed key parsed assign)"
  by (cases parsed) (auto simp: keeps_def apply_parsed_def push_violation_def)

lemma keeps_assign [keeps_rules]: "(\<And>c. good c \<Longrightarrow> good (g c)) \<Longrightarrow> keeps good (\<lambda>(c, vs). (g c, vs))"
  by (auto simp: keeps_def)

lemma keeps_path [keeps_rules]:
  "(\<And>c p. absolute_if_given p \<Longrightarrow> good c \<Longrightarrow> good (g c p))
   \<Longrightarrow> keeps good (\<lambda>(c, vs). case private_absolute_path key value vs of (p, vs1) \<Rightarrow> (g c p, vs1))"
  by (auto simp: keeps_def private_absolute_path_def absolute_if_given_def)

lemma keeps_if [keeps_rules]: "(b \<Longrightarrow> keeps good f) \<Longrightarrow> (\<not> b \<Longrightarrow> keeps good g) \<Longrightarrow> keeps good (if b then f else g)"
  by simp

lemma keeps_unrecognized [keeps_rules]:
  "(\<And>f. handled = Some f \<Longrightarrow> keeps good f) \<Longrightarrow> keeps good (or_unrecognized key handled)"
  by (cases handled) (simp_all add: or_unrecognized_def keeps_push)

lemma keeps_option [keeps_rules]:
  "(\<And>f. handled = Some f \<Longrightarrow> keeps good (g f)) \<Longrightarrow> keeps good h
   \<Longrightarrow> keeps good (case handled of Some f \<Rightarrow> g f | None \<Rightarrow> h)"
  by (cases handled) simp_all

lemma keeps_data_export: "keeps sound_data_export f \<Longrightarrow> keeps sound_entries (on_data_export f)"
  by (simp add: keeps_def on_data_export_def split_beta sound_entries_def)

lemma keeps_public_resolution:
  "keeps (\<lambda>c. absolute_if_given (pr_access_token_path c)) f \<Longrightarrow> keeps sound_entries (on_public_resolution f)"
  by (simp add: keeps_def on_public_resolution_def split_beta sound_entries_def)

lemma data_export_keeps: "keeps sound_data_export (data_export_apply E key value)"
  unfolding data_export_apply_def by (intro keeps_rules) (simp_all add: sound_data_export_def)

lemma publisher_keeps: "publisher_apply key value = Some f \<Longrightarrow> keeps sound_entries f"
  unfolding publisher_apply_def
  by (elim if_SomeD [elim_format] disjE conjE)
    (auto intro!: keeps_rules simp: sound_entries_def dest: parse_positive_Ok)

lemma item9_keeps: "item9_apply key value = Some f \<Longrightarrow> keeps sound_entries f"
  unfolding item9_apply_def
  by (elim if_SomeD [elim_format] disjE conjE) (auto intro!: keeps_rules simp: sound_entries_def)

lemma public_resolution_keeps:
  "public_resolution_apply key value = Some f \<Longrightarrow> keeps (\<lambda>c. absolute_if_given (pr_access_token_path c)) f"
  unfolding public_resolution_apply_def
  by (elim if_SomeD [elim_format] disjE conjE) (auto intro!: keeps_rules simp: absolute_if_given_def)

lemma parse_listen_address_Ok: "parse_listen_address value = Ok a \<Longrightarrow> listens_on_loopback a"
  by (auto simp: parse_listen_address_def listens_on_loopback_def split: option.splits if_splits)

lemma foundation_keeps:
  "keeps sound_entries otherwise \<Longrightarrow> keeps sound_entries (apply_foundation E key value otherwise)"
  unfolding apply_foundation_def
  by (intro keeps_rules; (assumption | simp add: sound_entries_def parse_listen_address_Ok parse_positive_Ok))

lemma oauth_keeps: "keeps sound_entries otherwise \<Longrightarrow> keeps sound_entries (apply_oauth key value otherwise)"
  unfolding apply_oauth_def by (intro keeps_rules; (assumption | simp add: sound_entries_def))

lemma own_media_keeps: "keeps sound_entries otherwise \<Longrightarrow> keeps sound_entries (apply_own_media key value otherwise)"
  unfolding apply_own_media_def by (intro keeps_rules; (assumption | simp add: sound_entries_def))

lemma bus_keeps: "keeps sound_entries otherwise \<Longrightarrow> keeps sound_entries (apply_bus key value otherwise)"
  unfolding apply_bus_def
  by (intro keeps_rules; (assumption | simp add: sound_entries_def bus_or_default_def default_bus_def absolute_if_given_def
        split: option.splits))

lemma apply_entry_keeps: "keeps sound_entries (apply_entry E key value)"
  unfolding apply_entry_def
  by (intro foundation_keeps oauth_keeps own_media_keeps bus_keeps keeps_if keeps_unrecognized keeps_data_export
      data_export_keeps keeps_option keeps_push keeps_public_resolution)
    (assumption | erule publisher_keeps item9_keeps public_resolution_keeps)+

lemma default_sound: "sound_entries default_config"
  by (simp add: sound_entries_def default_config_def listens_on_loopback_def default_publisher_def
      sound_data_export_def default_data_export_def absolute_if_given_def default_public_resolution_def
      trim_def is_whitespace_def)

definition entry_step :: "config_env \<Rightarrow> rstr \<times> rstr \<Rightarrow> Config load \<Rightarrow> Config load" where
  "entry_step E e s = (case e of (key, value) \<Rightarrow> if starts_with ENV_PREFIX key then apply_entry E key value s else s)"

lemma apply_entries_steps: "apply_entries E entries s = foldl (\<lambda>s e. entry_step E e s) s entries"
  unfolding apply_entries_def entry_step_def by (rule foldl_cong) (auto split: prod.splits)

interpretation loader: violation_collector "entry_step E" default_config sound_entries for E
proof unfold_locales
  show "\<exists>ds. \<forall>s. snd (entry_step E e s) = snd s @ ds" for e
    using apply_entry_reports [of E "fst e" "snd e"] by (cases e) (auto simp: entry_step_def reports_def)
  show "sound_entries default_config" by (rule default_sound)
  show "sound_entries (fst (entry_step E e s))" if "sound_entries (fst s)" for e s
    using that apply_entry_keeps [of E "fst e" "snd e"] by (cases e; cases s) (auto simp: entry_step_def keeps_def)
qed

section \<open>The documented bounds\<close>

definition within :: "nat \<Rightarrow> nat \<Rightarrow> 'w::len word \<Rightarrow> bool" where
  "within lo hi w \<longleftrightarrow> lo \<le> unat w \<and> unat w \<le> hi"

definition given_within :: "bool \<Rightarrow> nat \<Rightarrow> nat \<Rightarrow> 'w::len word option \<Rightarrow> bool" where
  "given_within enabled lo hi v = (case v of None \<Rightarrow> \<not> enabled | Some w \<Rightarrow> within lo hi w)"

definition at_most_if_given :: "'w::len word option \<Rightarrow> 'w word option \<Rightarrow> bool" where
  "at_most_if_given value bound \<longleftrightarrow> (\<forall>a b. value = Some a \<longrightarrow> bound = Some b \<longrightarrow> unat a \<le> unat b)"

definition https_without_credentials :: "config_env \<Rightarrow> rstr option \<Rightarrow> bool" where
  "https_without_credentials E value \<longleftrightarrow> (\<exists>v u. value = Some v \<and> ce_url E v = Some u \<and> pu_scheme u = ascii ''https''
     \<and> pu_host u \<noteq> None \<and> pu_username u = [] \<and> pu_password u = None \<and> pu_fragment u = None)"

definition bounded_oauth :: "config_env \<Rightarrow> OAuthConfig \<Rightarrow> bool" where
  "bounded_oauth E c \<longleftrightarrow> (oa_enabled c \<longrightarrow>
     (\<exists>n. oa_client_id c = Some n \<and> n \<noteq> [] \<and> str_len n \<le> 128 \<and> (\<forall>ch \<in> set n. ch < 128))
     \<and> oa_client_secret c \<noteq> None \<and> oa_platform_relay_token c \<noteq> None \<and> oa_graph_version c = ascii ''v26.0''
     \<and> https_without_credentials E (oa_redirect_uri c) \<and> https_without_credentials E (oa_platform_relay_url c)
     \<and> (\<exists>version encoded keys. oa_current_key_version c = Some version \<and> oa_keyring c = Some encoded
          \<and> decode_keyring E encoded = Ok keys \<and> map_of keys version \<noteq> None)
     \<and> within 100 10000 (oa_connect_timeout_ms c) \<and> within 100 30000 (oa_request_timeout_ms c)
     \<and> within (unat (oa_request_timeout_ms c)) 60000 (oa_total_timeout_ms c)
     \<and> within 1024 1048576 (oa_max_response_bytes c) \<and> within 0 2 (oa_discovery_retries c)
     \<and> within 3 10 (oa_call_budget c) \<and> within 60 900 (oa_flow_ttl_seconds c))"

definition bounded_own_media :: "Config \<Rightarrow> bool" where
  "bounded_own_media c \<longleftrightarrow> (oc_enabled (own_media c) \<longrightarrow> oa_enabled (oauth c)
     \<and> within 60 86400 (oc_cadence_seconds (own_media c)) \<and> within 1 100 (oc_accounts_per_tick (own_media c))
     \<and> within 1 100 (oc_pages_per_run (own_media c)) \<and> within 1 100 (oc_call_budget (own_media c)))"

definition bounded_data_export :: "DataExportConfig \<Rightarrow> bool" where
  "bounded_data_export c \<longleftrightarrow>
     (dx_enabled c \<longrightarrow> dx_blob_root c \<noteq> None \<and> dx_staging_root c \<noteq> None \<and> dx_credential_hashes c \<noteq> [])
     \<and> \<not> roots_overlap c
     \<and> within 1024 (10 * 1024 ^ 3) (dx_max_body_bytes c) \<and> within 1 100000 (dx_max_entries c)
     \<and> within 16 4096 (dx_max_entry_path_bytes c) \<and> within 1 32 (dx_max_path_depth c)
     \<and> within 1024 (unat (dx_max_body_bytes c)) (dx_max_total_compressed_bytes c)
     \<and> within 1024 (100 * 1024 ^ 3) (dx_max_total_decompressed_bytes c)
     \<and> within 1024 (1024 ^ 3) (dx_max_entry_decompressed_bytes c)
     \<and> unat (dx_max_entry_decompressed_bytes c) \<le> unat (dx_max_total_decompressed_bytes c)
     \<and> within 1 1000 (dx_max_compression_ratio c) \<and> within 100 60000 (dx_worker_poll_interval_ms c)
     \<and> within 1 100 (dx_worker_batch_size c)"

definition bounded_tombstone :: "TombstoneConfig \<Rightarrow> bool" where
  "bounded_tombstone c \<longleftrightarrow> within 30 86400 (resend_after_seconds c)
     \<and> within (unat (resend_after_seconds c)) 604800 (resend_cap_seconds c)"

definition bounded_retention :: "MediaRetentionConfig \<Rightarrow> bool" where
  "bounded_retention c \<longleftrightarrow> given_within (mr_enabled c) 1024 1073741824 (mr_max_object_bytes c)
     \<and> given_within (mr_enabled c) 1024 1099511627776 (mr_max_owner_bytes c)
     \<and> given_within (mr_enabled c) 60 2592000 (mr_max_url_lifetime_seconds c)
     \<and> at_most_if_given (mr_max_object_bytes c) (mr_max_owner_bytes c)"

definition bounded_blob_deletion :: "BlobDeletionConfig \<Rightarrow> bool" where
  "bounded_blob_deletion c \<longleftrightarrow> given_within (bd_enabled c) 100 86400000 (bd_poll_interval_ms c)
     \<and> given_within (bd_enabled c) 1 1000 (bd_batch_size c) \<and> given_within (bd_enabled c) 1 20 (bd_max_attempts c)"

definition bounded_re_resolution :: "ReResolutionConfig \<Rightarrow> bool" where
  "bounded_re_resolution c \<longleftrightarrow> given_within (rr_enabled c) 60 2592000 (rr_recency_window_seconds c)
     \<and> given_within (rr_enabled c) 1 10000 (rr_item_budget c) \<and> given_within (rr_enabled c) 1 10000 (rr_request_budget c)
     \<and> given_within (rr_enabled c) 1024 1073741824 (rr_response_byte_budget c)
     \<and> given_within (rr_enabled c) 100 3600000 (rr_duration_budget_ms c)
     \<and> given_within (rr_enabled c) 1 32 (rr_concurrency_limit c)
     \<and> given_within (rr_enabled c) 1 10000 (rr_provider_call_budget c)
     \<and> at_most_if_given (rr_request_budget c) (rr_item_budget c)
     \<and> at_most_if_given (rr_concurrency_limit c) (rr_request_budget c)
     \<and> at_most_if_given (rr_provider_call_budget c) (rr_request_budget c)"

definition bounded_public_resolution :: "config_env \<Rightarrow> PublicResolutionConfig \<Rightarrow> bool" where
  "bounded_public_resolution E c \<longleftrightarrow> endpoint_allowed E (pr_endpoint c) \<and> pr_access_token_path c \<noteq> None
     \<and> within 1 10 (pr_max_attempts c) \<and> within 1 100 (pr_batch_size c) \<and> within 100 60000 (pr_poll_interval_ms c)"

definition documented_bounds :: "config_env \<Rightarrow> Config \<Rightarrow> bool" where
  "documented_bounds E c \<longleftrightarrow> bounded_oauth E (oauth c) \<and> bounded_own_media c \<and> bounded_data_export (data_export c)
     \<and> bounded_tombstone (tombstone c) \<and> bounded_retention (media_retention c) \<and> bounded_blob_deletion (blob_deletion c)
     \<and> bounded_re_resolution (re_resolution c)
     \<and> given_within (rp_enabled (reprocessing_section c)) 1 10000 (rp_max_items_per_invocation (reprocessing_section c))
     \<and> bounded_public_resolution E (public_resolution c)
     \<and> (\<exists>b. bus c = Some b \<and> bus_url b \<noteq> [])"

section \<open>The checks pass exactly within the bounds\<close>

named_theorems clean_simps \<open>when a check of the loaded value reports nothing\<close>

lemma validate_range_clean [clean_simps]:
  "validate_range value minimum maximum key vs = [] \<longleftrightarrow> vs = [] \<and> within (unat minimum) (unat maximum) value"
  by (auto simp: validate_range_def within_def word_le_nat_alt)

lemma require_clean [clean_simps]: "require present key rule vs = [] \<longleftrightarrow> vs = [] \<and> present"
  by (simp add: require_def)

lemma unat_widen [clean_simps]: "unat (ucast (w :: u32) :: u64) = unat w"
proof -
  have "unat w < 2 ^ 32" using unsigned_less [of w, where ?'a = nat] by simp
  then have "unat w < 2 ^ 64" by simp
  then show ?thesis by (simp add: unsigned_ucast_eq take_bit_nat_eq_self)
qed

lemma within_ucast [clean_simps]: "within lo hi (ucast (w :: u32) :: u64) \<longleftrightarrow> within lo hi w"
  by (simp add: within_def unat_widen)

lemma guards_clean:
  "foldl (validate_guard enabled) vs guards = []
   \<longleftrightarrow> vs = [] \<and> (\<forall>(v, lo, hi, key) \<in> set guards. given_within enabled (unat lo) (unat hi) v)"
proof (induction guards arbitrary: vs)
  case (Cons g gs)
  obtain v lo hi key where g: "g = (v, lo, hi, key)" by (cases g)
  have "validate_guard enabled vs g = [] \<longleftrightarrow> vs = [] \<and> given_within enabled (unat lo) (unat hi) v"
    by (cases v) (auto simp: g validate_guard_def given_within_def clean_simps)
  with Cons show ?case by (auto simp: g)
qed simp

lemma section_clean [clean_simps]:
  "validate_item9_section enabled enabled_key guards vs = []
   \<longleftrightarrow> vs = [] \<and> (\<forall>(v, lo, hi, key) \<in> set guards. given_within enabled (unat lo) (unat hi) v)"
  by (auto simp: validate_item9_section_def Let_def clean_simps guards_clean)

lemma at_most_clean [clean_simps]:
  "require_at_most bound value key rule vs = [] \<longleftrightarrow> vs = [] \<and> at_most_if_given value (bound :: 'w::len word option)"
  by (auto simp: require_at_most_def clean_simps at_most_if_given_def word_le_nat_alt split: option.splits)

lemma given_within_ucast [clean_simps]:
  "given_within enabled lo hi (map_option ucast v :: u64 option) \<longleftrightarrow> given_within enabled lo hi (v :: u32 option)"
  by (cases v) (simp_all add: given_within_def clean_simps)

lemma ranges_clean:
  "foldl (\<lambda>ws (value, minimum, maximum, key). validate_range value minimum maximum key ws) vs ranges = []
   \<longleftrightarrow> vs = [] \<and> (\<forall>(v, lo, hi, key) \<in> set ranges. within (unat lo) (unat hi) v)"
  by (induction ranges arbitrary: vs) (auto simp: clean_simps)

lemma oauth_clean: "validate_oauth E c vs = [] \<longleftrightarrow> vs = [] \<and> bounded_oauth E c"
proof -
  have uri: "validate_https_uri E v k ws = [] \<longleftrightarrow> ws = [] \<and> https_without_credentials E v" for v k ws
    by (cases v) (auto simp: validate_https_uri_def clean_simps https_without_credentials_def split: option.splits)
  have key: "validate_current_key E c ws = [] \<longleftrightarrow> ws = [] \<and>
      (\<forall>current encoded. oa_current_key_version c = Some current \<longrightarrow> oa_keyring c = Some encoded
         \<longrightarrow> (\<exists>keys. decode_keyring E encoded = Ok keys \<and> map_of keys current \<noteq> None))" for ws
    by (cases "oa_current_key_version c"; cases "oa_keyring c")
      (auto simp: validate_current_key_def clean_simps config_error_def map_of_eq_None_iff split: result.splits)
  have client: "(case oa_client_id c of None \<Rightarrow> False
        | Some n \<Rightarrow> n \<noteq> [] \<and> str_len n \<le> 128 \<and> list_all (\<lambda>ch. ch < 128) n)
      \<longleftrightarrow> (\<exists>n. oa_client_id c = Some n \<and> n \<noteq> [] \<and> str_len n \<le> 128 \<and> (\<forall>ch \<in> set n. ch < 128))"
    by (cases "oa_client_id c") (auto simp: list_all_iff)
  show ?thesis
    unfolding validate_oauth_def bounded_oauth_def by (auto simp: clean_simps uri key client)
qed

lemma own_media_clean: "validate_own_media c vs = [] \<longleftrightarrow> vs = [] \<and> bounded_own_media c"
  by (auto simp: validate_own_media_def bounded_own_media_def clean_simps)

lemma data_export_clean: "validate_data_export c vs = [] \<longleftrightarrow> vs = [] \<and> bounded_data_export c"
  by (auto simp: validate_data_export_def bounded_data_export_def clean_simps ranges_clean data_export_ranges_def Let_def
      word_le_nat_alt within_def split: if_splits)

lemma tombstone_clean: "validate_tombstone c vs = [] \<longleftrightarrow> vs = [] \<and> bounded_tombstone c"
  by (auto simp: validate_tombstone_def bounded_tombstone_def clean_simps MAX_CAP_SECONDS_def within_def
      word_less_nat_alt not_less)

lemma item9_clean:
  "validate_item9 c vs = [] \<longleftrightarrow> vs = [] \<and> bounded_retention (media_retention c) \<and> bounded_blob_deletion (blob_deletion c)
     \<and> bounded_re_resolution (re_resolution c)
     \<and> given_within (rp_enabled (reprocessing_section c)) 1 10000 (rp_max_items_per_invocation (reprocessing_section c))"
  by (auto simp: validate_item9_def bounded_retention_def bounded_blob_deletion_def bounded_re_resolution_def clean_simps
      media_retention_guards_def blob_deletion_guards_def re_resolution_guards_def Let_def)

lemma public_resolution_clean:
  "validate_public_resolution E c bus_configured vs = [] \<longleftrightarrow> vs = [] \<and> endpoint_allowed E (pr_endpoint c)
     \<and> (bus_configured \<longrightarrow> pr_access_token_path c \<noteq> None)
     \<and> within 1 10 (pr_max_attempts c) \<and> within 1 100 (pr_batch_size c) \<and> within 100 60000 (pr_poll_interval_ms c)"
  by (auto simp: validate_public_resolution_def clean_simps)

lemma validate_config_clean: "validate_config E c vs = [] \<longleftrightarrow> vs = [] \<and> documented_bounds E c"
  unfolding validate_config_def documented_bounds_def bounded_public_resolution_def
  by (auto simp: oauth_clean own_media_clean data_export_clean tombstone_clean item9_clean public_resolution_clean
      validate_bus_def require_clean split: option.splits)

section \<open>The checks only append\<close>

definition appending :: "(Violation list \<Rightarrow> Violation list) \<Rightarrow> bool" where
  "appending f \<longleftrightarrow> (\<exists>ds. \<forall>vs. f vs = vs @ ds)"

named_theorems appending_rules \<open>introduction rules for checks that only append\<close>

lemma appending_id [appending_rules]: "appending (\<lambda>vs. vs)"
  by (auto simp: appending_def)

lemma appending_const [appending_rules]: "appending f \<Longrightarrow> appending (\<lambda>vs. f vs @ ds)"
  by (auto simp: appending_def)

lemma appending_range [appending_rules]: "appending f \<Longrightarrow> appending (\<lambda>vs. validate_range v lo hi k (f vs))"
  by (cases "lo \<le> v \<and> v \<le> hi") (auto simp: appending_def validate_range_def)

lemma appending_require [appending_rules]: "appending f \<Longrightarrow> appending (\<lambda>vs. require p k r (f vs))"
  by (cases p) (auto simp: appending_def require_def)

lemma appending_at_most [appending_rules]: "appending f \<Longrightarrow> appending (\<lambda>vs. require_at_most a b k r (f vs))"
  unfolding require_at_most_def by (rule appending_require)

lemma appending_uri [appending_rules]: "appending f \<Longrightarrow> appending (\<lambda>vs. validate_https_uri E v k (f vs))"
  unfolding validate_https_uri_def by (rule appending_require)

lemma appending_if [appending_rules]: "appending f \<Longrightarrow> appending g \<Longrightarrow> appending (\<lambda>vs. if b then f vs else g vs)"
  by (cases b) simp_all

lemma appending_fold:
  "(\<And>x. appending (\<lambda>vs. h vs x)) \<Longrightarrow> appending f \<Longrightarrow> appending (\<lambda>vs. foldl h (f vs) xs)"
proof (induction xs arbitrary: f)
  case (Cons x xs)
  from Cons.prems have "appending (\<lambda>vs. h (f vs) x)" unfolding appending_def by (metis append_assoc)
  then have "appending (\<lambda>vs. foldl h (h (f vs) x) xs)" using Cons.prems(1) by (rule Cons.IH [rotated])
  then show ?case by simp
qed simp

lemma appending_guard: "appending (\<lambda>vs. validate_guard enabled vs g)"
  by (cases g; cases "fst g") (auto simp: validate_guard_def intro!: appending_range appending_require appending_id)

lemma appending_section [appending_rules]:
  assumes "appending f"
  shows "appending (\<lambda>vs. validate_item9_section enabled k guards (f vs))"
proof -
  have "appending (\<lambda>vs. foldl (validate_guard enabled) vs guards)"
    by (rule appending_fold) (auto intro: appending_guard appending_id)
  then obtain ds where ds: "\<forall>vs. foldl (validate_guard enabled) vs guards = vs @ ds" by (auto simp: appending_def)
  then have "validate_item9_section enabled k guards vs = require (\<not> (enabled \<and> ds \<noteq> [])) k
      ''requires every finite nonzero guard to be valid'' (vs @ ds)" for vs
    by (simp add: validate_item9_section_def Let_def)
  then show ?thesis using appending_require [OF appending_const [OF assms]] by simp
qed

lemma appending_current_key [appending_rules]: "appending f \<Longrightarrow> appending (\<lambda>vs. validate_current_key E c (f vs))"
  unfolding validate_current_key_def
  by (cases "oa_current_key_version c"; cases "oa_keyring c"; cases "decode_keyring E (the (oa_keyring c))")
    (auto intro: appending_require appending_const)

lemma appending_oauth [appending_rules]: "appending f \<Longrightarrow> appending (\<lambda>vs. validate_oauth E c (f vs))"
  unfolding validate_oauth_def by (intro appending_rules)

lemma appending_own_media [appending_rules]: "appending f \<Longrightarrow> appending (\<lambda>vs. validate_own_media c (f vs))"
  unfolding validate_own_media_def by (intro appending_rules)

lemma appending_data_export [appending_rules]: "appending f \<Longrightarrow> appending (\<lambda>vs. validate_data_export c (f vs))"
  unfolding validate_data_export_def Let_def
  by (intro appending_rules appending_fold) (auto intro: appending_range appending_id split: prod.splits)

lemma appending_item9 [appending_rules]: "appending f \<Longrightarrow> appending (\<lambda>vs. validate_item9 c (f vs))"
  unfolding validate_item9_def Let_def by (intro appending_rules)

lemma appending_config: "appending (validate_config E c)"
  unfolding validate_config_def [abs_def] validate_bus_def validate_public_resolution_def validate_tombstone_def
  by (intro appending_rules)

lemma validate_config_append: "validate_config E c vs = vs @ validate_config E c []"
proof -
  obtain ds where "\<forall>vs. validate_config E c vs = vs @ ds" using appending_config [of E c] by (auto simp: appending_def)
  then show ?thesis by simp
qed

section \<open>The keys a load accepts\<close>

lemma not_in_mapped: "key \<notin> (\<lambda>k. ascii (p @ k)) ` set ks \<longleftrightarrow> list_all (\<lambda>k. key \<noteq> ascii (p @ k)) ks"
  by (auto simp: list_all_iff)

definition has_no_key :: "rstr \<Rightarrow> string list \<Rightarrow> bool" where
  "has_no_key key ks = list_all (\<lambda>k. key \<noteq> ascii (ENV_PREFIX @ k)) ks"

lemma unknown_key:
  "key \<notin> set known_keys \<longleftrightarrow> has_no_key key foundation_keys \<and> has_no_key key publisher_keys \<and> has_no_key key oauth_keys
     \<and> has_no_key key own_media_keys \<and> has_no_key key data_export_keys \<and> has_no_key key item9_keys
     \<and> has_no_key key public_resolution_keys \<and> has_no_key key bus_keys"
  by (auto simp: known_keys_def has_no_key_def list_all_iff)

lemmas key_lists = foundation_keys_def publisher_keys_def oauth_keys_def own_media_keys_def data_export_keys_def
  item9_keys_def public_resolution_keys_def bus_keys_def ENV_PREFIX_def

lemma foundation_unknown: "has_no_key key foundation_keys \<Longrightarrow> apply_foundation E key value otherwise = otherwise"
  unfolding has_no_key_def key_lists apply_foundation_def by (simp del: ascii_simps)

lemma publisher_unknown: "has_no_key key publisher_keys \<Longrightarrow> publisher_apply key value = None"
  unfolding has_no_key_def key_lists publisher_apply_def by (simp del: ascii_simps)

lemma oauth_unknown: "has_no_key key oauth_keys \<Longrightarrow> apply_oauth key value otherwise = otherwise"
  unfolding has_no_key_def key_lists apply_oauth_def by (simp del: ascii_simps)

lemma own_media_unknown: "has_no_key key own_media_keys \<Longrightarrow> apply_own_media key value otherwise = otherwise"
  unfolding has_no_key_def key_lists apply_own_media_def by (simp del: ascii_simps)

lemma data_export_unknown:
  "has_no_key key data_export_keys \<Longrightarrow> data_export_apply E key value = push_violation key ''is not recognized''"
  unfolding has_no_key_def key_lists data_export_apply_def by (simp del: ascii_simps)

lemma item9_unknown: "has_no_key key item9_keys \<Longrightarrow> item9_apply key value = None"
  unfolding has_no_key_def key_lists item9_apply_def by (simp del: ascii_simps)

lemma public_resolution_unknown: "has_no_key key public_resolution_keys \<Longrightarrow> public_resolution_apply key value = None"
  unfolding has_no_key_def key_lists public_resolution_apply_def by (simp del: ascii_simps)

lemma bus_unknown: "has_no_key key bus_keys \<Longrightarrow> apply_bus key value otherwise = otherwise"
  unfolding has_no_key_def key_lists apply_bus_def by (simp del: ascii_simps)

definition entry_violations :: "config_env \<Rightarrow> rstr \<times> rstr \<Rightarrow> Violation list" where
  "entry_violations E e = snd (entry_step E e (default_config, []))"

lemma unknown_entry_refused:
  assumes "key \<notin> set known_keys" "starts_with ENV_PREFIX key"
  shows "entry_violations E (key, v) = [\<lparr>v_key = key, v_rule = ''is not recognized''\<rparr>]"
proof -
  have "on_data_export (push_violation key r) = push_violation key r" for r
    by (rule ext) (simp add: on_data_export_def push_violation_def)
  then have "apply_entry E key v = push_violation key ''is not recognized''"
    using assms(1) unfolding unknown_key apply_entry_def
    by (simp add: foundation_unknown publisher_unknown oauth_unknown own_media_unknown data_export_unknown item9_unknown
        public_resolution_unknown bus_unknown or_unrecognized_def)
  then show ?thesis using assms(2) by (simp add: entry_violations_def entry_step_def push_violation_def)
qed

section \<open>Loading\<close>

definition loaded :: "config_env \<Rightarrow> (rstr \<times> rstr) list \<Rightarrow> Config" where
  "loaded E entries = fst (apply_entries E entries (default_config, []))"

lemma from_environment_violations:
  "from_environment E entries =
     (let violations = concat (map (entry_violations E) entries) @ validate_config E (loaded E entries) []
      in if violations = [] then Ok (loaded E entries) else Err violations)"
proof -
  have "snd (apply_entries E entries (default_config, [])) = concat (map (entry_violations E) entries)"
    unfolding apply_entries_steps loader.fold_found entry_violations_def by simp
  then show ?thesis
    unfolding from_environment_def loaded_def
    by (simp add: case_prod_beta Let_def validate_config_append [of E _ "concat _"])
qed

end
