(* ===== verification/Configuration_Outcomes.thy ===== *)
theory Configuration_Outcomes
  imports Configuration_Checks
begin

text \<open>
  What a load promises: it reports exactly the violations of its entries and of the loaded value, in order; an
  accepted configuration keeps every documented bound; what startup derives from it cannot fail; and a bearer token
  authenticates the owner it is configured for and nobody else.
\<close>

section \<open>Keyrings and bearer tokens\<close>

lemma decode_entries_Ok:
  assumes "decode_entries E entries keys seen = Ok decoded" "seen = map fst keys" "distinct seen"
    "\<forall>(version, key) \<in> set keys. 0 < version \<and> length key = KEY_LEN"
  shows "distinct (map fst decoded) \<and> (\<forall>(version, key) \<in> set decoded. 0 < version \<and> length key = KEY_LEN)"
  using assms
proof (induction E entries keys seen rule: decode_entries.induct)
  case (2 E entry entries keys seen)
  from 2(2-) obtain version_text encoded_key version key where entry:
    "split_once (ascii '':'') entry = Some (version_text, encoded_key)" "parse_unsigned version_text = Some version"
    "0 < version" "version \<notin> set seen" "ce_base64 E encoded_key = Some key" "length key = KEY_LEN"
    "decode_entries E entries (keys @ [(version, key)]) (seen @ [version]) = Ok decoded"
    by (auto split: option.splits prod.splits if_splits)
  with 2 show ?case by (intro "2.IH") auto
qed simp

lemma decode_keyring_Ok:
  assumes "decode_keyring E encoded = Ok keys"
  shows "distinct (map fst keys)" "\<forall>(version, key) \<in> set keys. 0 < version \<and> length key = KEY_LEN"
  using assms decode_entries_Ok [of E _ "[]" "[]" keys] by (auto simp: decode_keyring_def split: if_splits)

text \<open>What one accepted entry contributes to the credential map.\<close>

definition credential_of :: "config_env \<Rightarrow> rstr \<Rightarrow> u8 list \<times> uuid \<Rightarrow> bool" where
  "credential_of E entry hashed \<longleftrightarrow> (\<exists>owner_text token. split_once (ascii '':'') entry = Some (owner_text, token)
     \<and> ce_uuid E owner_text = Some (snd hashed) \<and> token_ok token \<and> fst hashed = ce_sha256 E token)"

lemma bearer_entries_Ok:
  assumes "bearer_entries E entries hashes owners = Ok result" "owners = map snd hashes" "distinct owners"
    "distinct (map fst hashes)"
  shows "\<exists>added. result = hashes @ added \<and> list_all2 (credential_of E) entries added
     \<and> distinct (map fst result) \<and> distinct (map snd result)"
  using assms
proof (induction E entries hashes owners rule: bearer_entries.induct)
  case (2 E entry entries hashes owners)
  from 2(2-) obtain owner_text token owner where entry:
    "split_once (ascii '':'') entry = Some (owner_text, token)" "ce_uuid E owner_text = Some owner"
    "owner \<notin> set owners" "token_ok token" "ce_sha256 E token \<notin> fst ` set hashes"
    "bearer_entries E entries (hashes @ [(ce_sha256 E token, owner)]) (owners @ [owner]) = Ok result"
    by (auto split: option.splits prod.splits if_splits)
  with 2 have "\<exists>added. result = (hashes @ [(ce_sha256 E token, owner)]) @ added
     \<and> list_all2 (credential_of E) entries added \<and> distinct (map fst result) \<and> distinct (map snd result)"
    by (intro "2.IH") auto
  then obtain added where "result = (hashes @ [(ce_sha256 E token, owner)]) @ added"
    "list_all2 (credential_of E) entries added" "distinct (map fst result)" "distinct (map snd result)" by blast
  moreover have "credential_of E entry (ce_sha256 E token, owner)"
    using entry by (auto simp: credential_of_def)
  ultimately show ?case by (intro exI [of _ "(ce_sha256 E token, owner) # added"]) simp
qed simp

section \<open>The resend policy\<close>

lemma resend_policy_bounds:
  assumes "bounded_tombstone c"
  shows "seconds 30 \<le> resend_after (resend_policy c)" "resend_after (resend_policy c) \<le> resend_cap (resend_policy c)"
    "resend_cap (resend_policy c) \<le> seconds 604800"
proof -
  let ?after = "resend_after_seconds c" and ?cap = "resend_cap_seconds c"
  have "30 \<le> unat ?after" "unat ?after \<le> unat ?cap" "unat ?cap \<le> 604800"
    using assms by (simp_all add: bounded_tombstone_def within_def)
  then have "int 30 \<le> int (unat ?after)" "int (unat ?after) \<le> int (unat ?cap)" "int (unat ?cap) \<le> int 604800"
    by (simp_all only: of_nat_le_iff)
  then show "seconds 30 \<le> resend_after (resend_policy c)" "resend_after (resend_policy c) \<le> resend_cap (resend_policy c)"
    "resend_cap (resend_policy c) \<le> seconds 604800"
    by (simp_all add: resend_policy_def)
qed

section \<open>A configured deployment\<close>

lemma ascii_eq_iff: "ascii a = ascii b \<longleftrightarrow> a = b"
  by (simp add: ascii_def inj_map_eq_map inj_def)

lemma starts_with_ascii: "starts_with p (ascii s) \<longleftrightarrow> take (length p) s = p"
  by (simp add: starts_with_def ascii_def take_map inj_map_eq_map inj_def)

text \<open>Readers that stand for the libraries in the examples below.\<close>

definition sample_readers :: config_env where
  "sample_readers =
     \<lparr>ce_postgres_options = (\<lambda>_. True),
      ce_url = (\<lambda>_. Some \<lparr>pu_scheme = ascii ''https'', pu_host = Some (ascii ''graph.facebook.com''), pu_username = [],
        pu_password = None, pu_port = None, pu_query = None, pu_fragment = None\<rparr>),
      ce_base64 = (\<lambda>s. Some (map of_nat s)),
      ce_uuid = (\<lambda>s. Some (Uuid 0 (of_nat (length s)))),
      ce_sha256 = map of_nat\<rparr>"

definition prefixed :: "string \<Rightarrow> rstr" where
  "prefixed k = ascii (ENV_PREFIX @ k)"

definition sample_environment :: "string \<Rightarrow> (rstr \<times> rstr) list" where
  "sample_environment version =
     [(prefixed ''BUS__URL'', ascii ''nats://bus:4222''),
      (prefixed ''PUBLIC_RESOLUTION__ACCESS_TOKEN_PATH'', ascii ''/run/token''),
      (prefixed ''OAUTH__ENABLED'', ascii ''true''),
      (prefixed ''OAUTH__CLIENT_ID'', ascii ''1''),
      (prefixed ''OAUTH__CLIENT_SECRET'', ascii ''s''),
      (prefixed ''OAUTH__REDIRECT_URI'', ascii ''https://p/c''),
      (prefixed ''OAUTH__PLATFORM_RELAY_URL'', ascii ''https://p/r''),
      (prefixed ''OAUTH__PLATFORM_RELAY_TOKEN'', ascii ''t''),
      (prefixed ''OAUTH__CURRENT_KEY_VERSION'', ascii version),
      (prefixed ''OAUTH__KEYRING'', ascii (version @ '':0123456789abcdef0123456789abcdef''))]"

lemmas dispatch = entry_step_def apply_entry_def apply_foundation_def apply_oauth_def apply_own_media_def apply_bus_def
  public_resolution_apply_def on_public_resolution_def prefixed_def ENV_PREFIX_def ascii_eq_iff starts_with_ascii

lemma step_bus:
  "entry_step E (prefixed ''BUS__URL'', ascii ''nats://bus:4222'') (c, vs) =
     (c\<lparr>bus := Some ((bus_or_default c)\<lparr>bus_url := ascii ''nats://bus:4222''\<rparr>)\<rparr>, vs)"
  by (simp add: dispatch del: ascii_simps) (simp add: text_before_scheme_separator_def)

lemma step_token:
  "entry_step E (prefixed ''PUBLIC_RESOLUTION__ACCESS_TOKEN_PATH'', ascii ''/run/token'') (c, vs) =
     (c\<lparr>public_resolution := (public_resolution c)\<lparr>pr_access_token_path := Some (ascii ''/run/token'')\<rparr>\<rparr>, vs)"
  by (simp add: dispatch path_is_absolute_def del: ascii_simps) (simp add: ascii_def)

lemma step_oauth:
  "entry_step E (prefixed ''OAUTH__ENABLED'', ascii ''true'') (c, vs) = (c\<lparr>oauth := (oauth c)\<lparr>oa_enabled := True\<rparr>\<rparr>, vs)"
  "entry_step E (prefixed ''OAUTH__CLIENT_ID'', v) (c, vs) = (c\<lparr>oauth := (oauth c)\<lparr>oa_client_id := Some v\<rparr>\<rparr>, vs)"
  "entry_step E (prefixed ''OAUTH__CLIENT_SECRET'', v) (c, vs) = (c\<lparr>oauth := (oauth c)\<lparr>oa_client_secret := Some v\<rparr>\<rparr>, vs)"
  "entry_step E (prefixed ''OAUTH__REDIRECT_URI'', v) (c, vs) = (c\<lparr>oauth := (oauth c)\<lparr>oa_redirect_uri := Some v\<rparr>\<rparr>, vs)"
  "entry_step E (prefixed ''OAUTH__PLATFORM_RELAY_URL'', v) (c, vs) =
     (c\<lparr>oauth := (oauth c)\<lparr>oa_platform_relay_url := Some v\<rparr>\<rparr>, vs)"
  "entry_step E (prefixed ''OAUTH__PLATFORM_RELAY_TOKEN'', v) (c, vs) =
     (c\<lparr>oauth := (oauth c)\<lparr>oa_platform_relay_token := Some v\<rparr>\<rparr>, vs)"
  "entry_step E (prefixed ''OAUTH__CURRENT_KEY_VERSION'', v) (c, vs) = apply_parsed (prefixed ''OAUTH__CURRENT_KEY_VERSION'')
     (parse_positive v) (\<lambda>x c. c\<lparr>oauth := (oauth c)\<lparr>oa_current_key_version := Some x\<rparr>\<rparr>) (c, vs)"
  "entry_step E (prefixed ''OAUTH__KEYRING'', v) (c, vs) = (c\<lparr>oauth := (oauth c)\<lparr>oa_keyring := Some v\<rparr>\<rparr>, vs)"
  by (simp_all add: dispatch apply_parsed_def parse_flag_def del: ascii_simps)

definition sample_oauth :: "string \<Rightarrow> u32 \<Rightarrow> OAuthConfig" where
  "sample_oauth version w = default_oauth
     \<lparr>oa_enabled := True, oa_client_id := Some (ascii ''1''), oa_client_secret := Some (ascii ''s''),
      oa_redirect_uri := Some (ascii ''https://p/c''), oa_platform_relay_url := Some (ascii ''https://p/r''),
      oa_platform_relay_token := Some (ascii ''t''), oa_current_key_version := Some w,
      oa_keyring := Some (ascii (version @ '':0123456789abcdef0123456789abcdef''))\<rparr>"

definition sample_config :: "string \<Rightarrow> u32 \<Rightarrow> Config" where
  "sample_config version w = default_config
     \<lparr>bus := Some (default_bus\<lparr>bus_url := ascii ''nats://bus:4222''\<rparr>),
      public_resolution := default_public_resolution\<lparr>pr_access_token_path := Some (ascii ''/run/token'')\<rparr>,
      oauth := sample_oauth version w\<rparr>"

lemma sample_loads:
  assumes "parse_positive (ascii version) = Ok w"
  shows "apply_entries E (sample_environment version) (default_config, []) = (sample_config version w, [])"
  unfolding apply_entries_steps sample_environment_def
  by (simp add: step_bus step_token step_oauth apply_parsed_def assms sample_config_def sample_oauth_def
      default_config_def bus_or_default_def del: ascii_simps)

lemma mem_ascii: "of_char c \<in> set (ascii s) \<longleftrightarrow> c \<in> set s"
  by (auto simp: ascii_def)

lemma sample_keyring:
  assumes "parse_positive (ascii version) = Ok w" "list_all (\<lambda>c. c \<notin> {CHR '':'', CHR '',''}) version"
  shows "decode_keyring sample_readers (ascii (version @ '':0123456789abcdef0123456789abcdef'')) =
    Ok [(w, map of_nat (ascii ''0123456789abcdef0123456789abcdef''))]"
proof -
  let ?rest = "''0123456789abcdef0123456789abcdef''"
  have plain: "58 \<notin> set (ascii version)" "44 \<notin> set (ascii version)"
    using assms(2) mem_ascii [of "CHR '':''" version] mem_ascii [of "CHR '',''" version]
    by (auto simp: list_all_iff)
  have once: "split_once (ascii '':'') (ascii (version @ '':'' @ ?rest)) = Some (ascii version, ascii ?rest)"
    using split_once_first [OF plain(1), of "[]" "ascii ?rest"] by simp
  have "44 \<notin> set (ascii (version @ '':'' @ ?rest))" using plain(2) by simp
  then have "split_on (of_char CHR '','') (ascii (version @ '':'' @ ?rest)) = [ascii (version @ '':'' @ ?rest)]"
    by (simp add: split_on_no_sep del: ascii_simps)
  moreover have "parse_unsigned (ascii version) = Some w" "0 < w"
    using assms(1) by (auto simp: parse_positive_def word_neq_0_conv split: option.splits if_splits)
  ultimately show ?thesis
    using once by (simp add: decode_keyring_def sample_readers_def KEY_LEN_def del: ascii_simps) (simp add: ascii_def)
qed

lemma sample_accepted:
  assumes "parse_positive (ascii version) = Ok w" "list_all (\<lambda>c. c \<notin> {CHR '':'', CHR '',''}) version"
  shows "from_environment sample_readers (sample_environment version) = Ok (sample_config version w)"
proof -
  have "bounded_oauth sample_readers (sample_oauth version w)"
    unfolding bounded_oauth_def
    by (simp add: sample_oauth_def default_oauth_def sample_keyring [OF assms] https_without_credentials_def within_def
        del: ascii_simps) (simp add: sample_readers_def ascii_def str_len_def utf8_len_def)
  moreover have "bounded_data_export default_data_export"
    by (simp add: bounded_data_export_def default_data_export_def roots_overlap_def within_def)
  moreover have "bounded_tombstone default_tombstone"
    by (simp add: bounded_tombstone_def default_tombstone_def default_resend_policy_def seconds_def within_def)
  moreover have "bounded_public_resolution sample_readers
      (default_public_resolution\<lparr>pr_access_token_path := Some (ascii ''/run/token'')\<rparr>)"
    by (simp add: bounded_public_resolution_def default_public_resolution_def endpoint_allowed_def sample_readers_def
        ALLOWED_HOSTS_def within_def)
  ultimately have "documented_bounds sample_readers (sample_config version w)"
    unfolding documented_bounds_def
    by (simp add: sample_config_def default_config_def bounded_own_media_def bounded_retention_def
        bounded_blob_deletion_def bounded_re_resolution_def given_within_def at_most_if_given_def)
  then have "validate_config sample_readers (sample_config version w) [] = []" by (simp add: validate_config_clean)
  then show ?thesis by (simp add: from_environment_def sample_loads [OF assms(1)] Let_def)
qed

section \<open>Properties\<close>

text \<open>
  C20. Loading is strict and complete. The load succeeds with the value the entries produce exactly when no prefixed
  entry is refused and no check of the loaded value fails; otherwise it fails with every refusal of every entry, in
  the order of the entries, followed by every failed check. An entry under the prefix whose key is not one of the
  documented keys is always among them.
\<close>

theorem load_reports_every_violation:
  "(\<forall>c. from_environment E entries = Ok c
       \<longleftrightarrow> c = loaded E entries \<and> (\<forall>e \<in> set entries. entry_violations E e = []) \<and> validate_config E c [] = [])
   \<and> (\<forall>vs. from_environment E entries = Err vs
       \<longleftrightarrow> vs \<noteq> [] \<and> vs = concat (map (entry_violations E) entries) @ validate_config E (loaded E entries) [])
   \<and> (\<forall>key v. (key, v) \<in> set entries \<and> starts_with ENV_PREFIX key \<and> key \<notin> set known_keys
       \<longrightarrow> (\<exists>vs. from_environment E entries = Err vs \<and> \<lparr>v_key = key, v_rule = ''is not recognized''\<rparr> \<in> set vs))"
proof -
  let ?found = "concat (map (entry_violations E) entries)"
  let ?checks = "validate_config E (loaded E entries) []"
  have load: "from_environment E entries = (if ?found @ ?checks = [] then Ok (loaded E entries) else Err (?found @ ?checks))"
    by (simp add: from_environment_violations Let_def)
  have "\<exists>vs. from_environment E entries = Err vs \<and> \<lparr>v_key = key, v_rule = ''is not recognized''\<rparr> \<in> set vs"
    if "(key, v) \<in> set entries" "starts_with ENV_PREFIX key" "key \<notin> set known_keys" for key v
  proof -
    have "\<lparr>v_key = key, v_rule = ''is not recognized''\<rparr> \<in> set ?found"
      using that unknown_entry_refused [of key E v] by (auto intro!: bexI [of _ "(key, v)"])
    then have "?found @ ?checks \<noteq> []" by auto
    with \<open>_ \<in> set ?found\<close> show ?thesis by (simp add: load del: append_is_Nil_conv)
  qed
  moreover have "from_environment E entries = Ok c
      \<longleftrightarrow> c = loaded E entries \<and> (\<forall>e \<in> set entries. entry_violations E e = []) \<and> validate_config E c [] = []" for c
    by (auto simp: load)
  moreover have "from_environment E entries = Err vs \<longleftrightarrow> vs \<noteq> [] \<and> vs = ?found @ ?checks" for vs
    by (auto simp: load simp del: append_is_Nil_conv)
  ultimately show ?thesis by blast
qed

theorem load_reports_every_violation_witness:
  "\<exists>vs. from_environment sample_readers [(prefixed ''OAUTH__ENABLE'', ascii ''true'')] = Err vs
     \<and> \<lparr>v_key = prefixed ''OAUTH__ENABLE'', v_rule = ''is not recognized''\<rparr> \<in> set vs"
proof -
  have "prefixed ''OAUTH__ENABLE'' \<notin> set known_keys"
    by (simp add: prefixed_def known_keys_def key_lists ascii_eq_iff del: ascii_simps)
  moreover have "starts_with ENV_PREFIX (prefixed ''OAUTH__ENABLE'')"
    by (simp add: prefixed_def starts_with_ascii del: ascii_simps)
  ultimately show ?thesis
    by (intro load_reports_every_violation [THEN conjunct2, THEN conjunct2, rule_format]) simp
qed

text \<open>
  C30. An accepted configuration is within every documented bound: both listeners are on loopback with a port, the
  pool and publisher limits are positive, every path is absolute, the broker URL carries no credentials, each section
  is within its documented ranges and relations, and so are the policies handed to the publisher, to the capture
  worker and to the archive inspection.
\<close>

theorem accepted_configuration_is_within_bounds:
  assumes "from_environment E entries = Ok c"
  shows "sound_entries c \<and> documented_bounds E c
    \<and> seconds 30 \<le> resend_after (resend_policy (tombstone c))
    \<and> resend_after (resend_policy (tombstone c)) \<le> resend_cap (resend_policy (tombstone c))
    \<and> resend_cap (resend_policy (tombstone c)) \<le> seconds 604800
    \<and> within 1 10 (ResolutionPolicy.max_attempts (resolution_policy (public_resolution c)))
    \<and> 1 \<le> batch_size (resolution_policy (public_resolution c)) \<and> batch_size (resolution_policy (public_resolution c)) \<le> 100
    \<and> 1 \<le> max_entries (archive_limits (data_export c)) \<and> max_entries (archive_limits (data_export c)) \<le> 100000
    \<and> max_entry_decompressed_bytes (archive_limits (data_export c))
        \<le> max_total_decompressed_bytes (archive_limits (data_export c))"
proof -
  have clean: "validate_config E c [] = []" and c: "c = fst (foldl (\<lambda>s e. entry_step E e s) (default_config, []) entries)"
    using assms by (auto simp: from_environment_violations Let_def loaded_def apply_entries_steps split: if_splits)
  from c have "sound_entries c" by (simp add: loader.load_good)
  moreover from clean have bounds: "documented_bounds E c" by (simp add: validate_config_clean)
  moreover from bounds have "bounded_tombstone (tombstone c)" by (simp add: documented_bounds_def)
  note resend_policy_bounds [OF this]
  ultimately show ?thesis
    unfolding documented_bounds_def bounded_data_export_def bounded_public_resolution_def
    by (simp add: resolution_policy_def archive_limits_def within_def word_le_nat_alt)
qed

theorem accepted_configuration_is_within_bounds_witness:
  "sound_entries (sample_config ''7'' 7) \<and> documented_bounds sample_readers (sample_config ''7'' 7)"
proof -
  have "parse_positive (ascii ''7'') = Ok (7 :: u32)" by (simp add: parse_positive_def parse_unsigned_def)
  from accepted_configuration_is_within_bounds [OF sample_accepted [OF this]] show ?thesis by simp
qed

text \<open>
  C21. What startup derives from an accepted configuration cannot fail. When the HTTP clients can be built, the
  official-account runtime is built: with OAuth enabled it holds a keyring of distinct positive versions with keys
  of 32 bytes whose current version is present, so that sealing never misses its key, and a flow lifetime and call
  budget within their ranges. When own-media scheduling is enabled the runtime it needs is there.
\<close>

theorem accepted_configuration_starts:
  assumes accepted: "from_environment E entries = Ok c"
    and clients: "\<forall>client secret redirect t1 t2 n. provider_new client secret redirect t1 t2 n \<noteq> None"
      "\<forall>url token t n. relay_new url token t n \<noteq> None"
  shows "\<exists>runtime. build_official_runtime E provider_new relay_new c = Ok runtime
    \<and> (oa_enabled (oauth c) \<longrightarrow> (\<exists>r. runtime = Some r
         \<and> distinct (map fst (keyring_keys (or_keyring r)))
         \<and> (\<forall>(version, key) \<in> set (keyring_keys (or_keyring r)). 0 < version \<and> length key = 32)
         \<and> Some (current_version (or_keyring r)) = oa_current_key_version (oauth c)
         \<and> (\<forall>A nonce binding plaintext. seal A (or_keyring r) nonce binding plaintext \<noteq> Err UnknownKeyVersion)
         \<and> within 60 900 (or_flow_ttl_seconds r) \<and> within 3 10 (or_call_budget r)))
    \<and> (oc_enabled (own_media c) \<longrightarrow> runtime \<noteq> None)"
proof (cases "oa_enabled (oauth c)")
  case False
  have "validate_config E c [] = []"
    using accepted by (auto simp: from_environment_violations Let_def split: if_splits)
  then have "\<not> oc_enabled (own_media c)"
    using False by (auto simp: validate_config_clean documented_bounds_def bounded_own_media_def)
  with False show ?thesis by (simp add: build_official_runtime_def)
next
  case True
  have "validate_config E c [] = []"
    using accepted by (auto simp: from_environment_violations Let_def split: if_splits)
  then have "bounded_oauth E (oauth c)" by (simp add: validate_config_clean documented_bounds_def)
  with True obtain client secret token redirect relay relay_url version encoded keys where parts:
    "oa_client_id (oauth c) = Some client" "oa_client_secret (oauth c) = Some secret"
    "oa_platform_relay_token (oauth c) = Some token" "oa_redirect_uri (oauth c) = Some redirect"
    "oa_platform_relay_url (oauth c) = Some relay" "ce_url E relay = Some relay_url"
    "oa_current_key_version (oauth c) = Some version" "oa_keyring (oauth c) = Some encoded"
    "decode_keyring E encoded = Ok keys" "map_of keys version \<noteq> None"
    "within 60 900 (oa_flow_ttl_seconds (oauth c))" "within 3 10 (oa_call_budget (oauth c))"
    by (auto simp: bounded_oauth_def https_without_credentials_def)
  let ?ring = "\<lparr>current_version = version, keyring_keys = keys\<rparr>"
  have "credential_keyring E (oauth c) = Ok (Some ?ring)"
    using True parts by (auto simp: credential_keyring_def keyring_new_def map_of_eq_None_iff)
  moreover obtain p q where
    "provider_new client secret redirect (oa_connect_timeout_ms (oauth c)) (oa_request_timeout_ms (oauth c))
       (oa_max_response_bytes (oauth c)) = Some p"
    "relay_new relay_url token (oa_request_timeout_ms (oauth c)) (oa_max_response_bytes (oauth c)) = Some q"
    using clients by blast
  moreover have "seal A ?ring nonce binding plaintext \<noteq> Err UnknownKeyVersion" for A nonce binding plaintext
    using parts(10) by (auto simp: seal_def split: option.splits)
  ultimately show ?thesis
    using True parts decode_keyring_Ok [OF parts(9)] by (simp add: build_official_runtime_def KEY_LEN_def Let_def)
qed

theorem accepted_configuration_starts_witness:
  "\<exists>r. build_official_runtime sample_readers (\<lambda>_ _ _ _ _ _. Some ()) (\<lambda>_ _ _ _. Some ()) (sample_config ''7'' 7) = Ok (Some r)
     \<and> current_version (or_keyring r) = 7"
proof -
  have "parse_positive (ascii ''7'') = Ok (7 :: u32)" by (simp add: parse_positive_def parse_unsigned_def)
  from accepted_configuration_starts [OF sample_accepted [OF this], of "\<lambda>_ _ _ _ _ _. Some ()" "\<lambda>_ _ _ _. Some ()"]
  show ?thesis by (auto simp: sample_config_def sample_oauth_def)
qed

text \<open>
  C28. Accepted bearer tokens name their owners. When the entry that configures them reports nothing, every
  \<^verbatim>\<open>owner:token\<close> pair of its text is well formed and the token authenticates that owner; whoever authenticates
  presents a text with the digest of a configured token and is taken for the owner written beside it; one owner has
  one token, and there are at most a hundred.
\<close>

theorem bearer_tokens_authenticate_their_owner:
  assumes "data_export_apply E (ascii ''RATATOSKR__DATA_EXPORT__BEARER_TOKENS'') text (c0, vs) = (c, vs)"
  shows "(\<forall>entry \<in> set (split_on (of_char CHR '','') text). \<exists>owner_text token owner.
       split_once (ascii '':'') entry = Some (owner_text, token) \<and> ce_uuid E owner_text = Some owner
       \<and> token_ok token \<and> authenticate E c token = Some owner)
    \<and> (\<forall>presented owner. authenticate E c presented = Some owner
       \<longrightarrow> (\<exists>entry \<in> set (split_on (of_char CHR '','') text). \<exists>owner_text token.
             split_once (ascii '':'') entry = Some (owner_text, token) \<and> ce_uuid E owner_text = Some owner
             \<and> ce_sha256 E presented = ce_sha256 E token))
    \<and> (\<forall>a b owner. authenticate E c a = Some owner \<and> authenticate E c b = Some owner \<longrightarrow> ce_sha256 E a = ce_sha256 E b)
    \<and> length (split_on (of_char CHR '','') text) \<le> 100"
proof -
  have "data_export_apply E (ascii ''RATATOSKR__DATA_EXPORT__BEARER_TOKENS'') text =
      apply_parsed (ascii ''RATATOSKR__DATA_EXPORT__BEARER_TOKENS'') (set_bearer_tokens E text)
        (\<lambda>x c. c\<lparr>dx_credential_hashes := x\<rparr>)"
    by (simp add: data_export_apply_def ascii_eq_iff del: ascii_simps)
  with assms obtain hashes where set: "set_bearer_tokens E text = Ok hashes" and c: "c = c0\<lparr>dx_credential_hashes := hashes\<rparr>"
    by (auto simp: apply_parsed_def push_violation_def split: result.splits)
  let ?entries = "split_on (of_char CHR '','') text"
  from set have few: "length ?entries \<le> 100" and read: "bearer_entries E ?entries [] [] = Ok hashes"
    by (auto simp: set_bearer_tokens_def Let_def split: if_splits)
  from bearer_entries_Ok [OF read] have pairs: "list_all2 (credential_of E) ?entries hashes"
    and keys: "distinct (map fst hashes)" and owners: "distinct (map snd hashes)" by auto
  have auth: "authenticate E c token = map_of hashes (ce_sha256 E token)" for token
    by (simp add: authenticate_def c)
  have forth: "\<exists>owner_text token owner. split_once (ascii '':'') entry = Some (owner_text, token)
      \<and> ce_uuid E owner_text = Some owner \<and> token_ok token \<and> authenticate E c token = Some owner"
    if entry: "entry \<in> set ?entries" for entry
  proof -
    from entry obtain i where "i < length ?entries" "entry = ?entries ! i" by (auto simp: in_set_conv_nth)
    with pairs have h: "credential_of E entry (hashes ! i)" "hashes ! i \<in> set hashes"
      by (auto simp: list_all2_conv_all_nth)
    from h(2) keys have "map_of hashes (fst (hashes ! i)) = Some (snd (hashes ! i))" by simp
    with h(1) show ?thesis by (auto simp: credential_of_def auth simp del: ascii_simps)
  qed
  have listed: "(ce_sha256 E presented, owner) \<in> set hashes" if "authenticate E c presented = Some owner" for presented owner
    using that by (auto simp: auth dest: map_of_SomeD)
  have configured: "\<exists>entry \<in> set ?entries. credential_of E entry (ce_sha256 E presented, owner)"
    if "authenticate E c presented = Some owner" for presented owner
  proof -
    from listed [OF that] obtain i where "i < length hashes" "(ce_sha256 E presented, owner) = hashes ! i"
      by (metis in_set_conv_nth)
    with pairs show ?thesis by (auto simp: list_all2_conv_all_nth intro!: bexI [of _ "?entries ! i"])
  qed
  have one: "ce_sha256 E a = ce_sha256 E b" if "authenticate E c a = Some owner" "authenticate E c b = Some owner" for a b owner
    using inj_onD [of snd "set hashes", OF _ _ listed [OF that(1)] listed [OF that(2)]] owners
    by (simp add: distinct_map)
  have owner_named: "\<exists>entry \<in> set ?entries. \<exists>owner_text token. split_once (ascii '':'') entry = Some (owner_text, token)
      \<and> ce_uuid E owner_text = Some owner \<and> ce_sha256 E presented = ce_sha256 E token"
    if "authenticate E c presented = Some owner" for presented owner
    using configured [OF that] unfolding credential_of_def by auto
  from forth owner_named one few show ?thesis by blast
qed

theorem bearer_tokens_authenticate_their_owner_witness:
  "\<exists>c. data_export_apply sample_readers (ascii ''RATATOSKR__DATA_EXPORT__BEARER_TOKENS'')
       (ascii ''a:0123456789abcdef0123456789abcdef'') (default_data_export, []) = (c, [])
     \<and> authenticate sample_readers c (ascii ''0123456789abcdef0123456789abcdef'') = Some (Uuid 0 1)"
proof -
  let ?text = "ascii ''a:0123456789abcdef0123456789abcdef''" and ?token = "ascii ''0123456789abcdef0123456789abcdef''"
  let ?c = "default_data_export\<lparr>dx_credential_hashes := [(map of_nat ?token, Uuid 0 1)]\<rparr>"
  have once: "split_once (ascii '':'') ?text = Some (ascii ''a'', ?token)" by simp
  have ok: "token_ok ?token" by (simp add: token_ok_def str_len_def utf8_len_def is_ascii_graphic_def)
  have one: "split_on (of_char CHR '','') ?text = [?text]" by simp
  have "set_bearer_tokens sample_readers ?text = Ok [(map of_nat ?token, Uuid 0 1)]"
    using once ok unfolding set_bearer_tokens_def one by (simp add: sample_readers_def del: ascii_simps)
  then have load: "data_export_apply sample_readers (ascii ''RATATOSKR__DATA_EXPORT__BEARER_TOKENS'') ?text
      (default_data_export, []) = (?c, [])"
    by (simp add: data_export_apply_def apply_parsed_def ascii_eq_iff del: ascii_simps)
  from bearer_tokens_authenticate_their_owner [OF load, THEN conjunct1] once
  have "authenticate sample_readers ?c ?token = Some (Uuid 0 1)"
    unfolding one by (simp add: sample_readers_def del: ascii_simps)
  with load show ?thesis by blast
qed

text \<open>
  A configuration can be accepted although no account can ever be connected under it: a key version is accepted
  up to 32 bits, but the column that stores it is signed, so under a version of \<^verbatim>\<open>2^31\<close> or more every connection
  that the provider grants ends in an error.
\<close>

theorem accepted_key_version_blocks_connections:
  "\<exists>E entries c ring. from_environment E entries = Ok c \<and> credential_keyring E (oauth c) = Ok (Some ring)
     \<and> (\<forall>Env J A nonce (db :: official) user exchanged account perms now connected.
          snd (complete_connection Env J A ring nonce db user exchanged account perms now) \<noteq> Ok connected)"
proof -
  let ?version = "''3000000000''"
  have w: "parse_positive (ascii ?version) = Ok (3000000000 :: u32)"
    by (simp add: parse_positive_def parse_unsigned_def)
  have loads: "from_environment sample_readers (sample_environment ?version) = Ok (sample_config ?version 3000000000)"
    by (rule sample_accepted [OF w]) simp
  let ?key = "map of_nat (ascii ''0123456789abcdef0123456789abcdef'')"
  let ?ring = "\<lparr>current_version = 3000000000, keyring_keys = [(3000000000, ?key)]\<rparr>"
  have ring: "credential_keyring sample_readers (oauth (sample_config ?version 3000000000)) = Ok (Some ?ring)"
    using sample_keyring [OF w]
    by (simp add: credential_keyring_def sample_config_def sample_oauth_def keyring_new_def del: ascii_simps)
  have "connect_account Env J A ?ring nonce db candidate user exchanged account perms now \<noteq> Ok r"
    for Env J A nonce and db :: official and candidate user exchanged account perms now r
    unfolding connect_account_def by (auto split: prod.splits)
  then have "snd (complete_connection Env J A ?ring nonce db user exchanged account perms now) \<noteq> Ok connected"
    for Env J A nonce and db :: official and user exchanged account perms now connected
    unfolding complete_connection_def Let_def by (auto split: result.splits)
  with loads ring show ?thesis by blast
qed

text \<open>The check of the broker URL looks at the text before the separator and not for the separator.\<close>

lemma bus_url_without_separator_accepted:
  "entry_violations E (prefixed ''BUS__URL'', ascii ''nats'') = []"
  unfolding entry_violations_def
  by (simp add: dispatch del: ascii_simps) (simp add: text_before_scheme_separator_def push_violation_def)

end
