(* ===== verification/Spec2Isabelle.thy ===== *)
theory Spec2Isabelle
  imports Capture_Outcomes Outbox Re_Resolution Deletion_Outcomes Export_Outcomes
    Export_Reprocessing_Outcomes Analysis_Linkage Own_Media_Outcomes Configuration_Outcomes
begin

text \<open>
  A verification of the Instagram archive service: the library
  \<^verbatim>\<open>src/crates/instagram-archive\<close>, which keeps a user's explicit captures of Instagram posts, resolves
  them against a public surface, publishes facts about them through a transactional outbox, takes in
  Data Export archives, connects official accounts and synchronizes their own media, links completed
  analyses and erases what a user asks to have erased.

  \<^bold>\<open>How the model reads.\<close> A database table is a list of records in insertion order, a row type a
  \<^theory_text>\<open>record\<close> with the columns the code reads or writes, an enumeration a \<^theory_text>\<open>datatype\<close> with the source's
  constructors. One SQL transaction is one function on the tables that returns the new tables and a
  value of \<open>result\<close> (\<open>Ok\<close> or \<open>Err\<close>, theory \<open>Prelude\<close>); a transaction that returns an error leaves the
  tables as they were. Unsigned counters and sizes are words of their width with Rust's checked and
  saturating arithmetic written out; Postgres \<^verbatim>\<open>bigint\<close> values and instants are integers. A Rust
  string is the list of its Unicode scalar values (\<open>rstr\<close>), a closed wire spelling a HOL string.
  What lies outside the sources is an argument: hashing, fresh identifiers and the validation done by
  the shared contracts (record \<open>env\<close> of theory \<open>Archive\<close>), JSON reading and writing, the readers of URLs,
  UUIDs and connection strings, the ZIP library, the file-system calls that may fail, the authenticated cipher, base64, the text of identifiers, and the
  answers of the public surface, of the official provider and of the message transport. Where a property
  needs a law of such an argument (the cipher opens what it sealed and refuses other associated data, drawn
  identifiers are fresh), the law is a hypothesis with a concrete instance in the witness.

  \<^bold>\<open>Theories and sources.\<close>
  \<^item> \<open>Prelude\<close>: results, checked arithmetic, Rust strings and UTF-8 length, list-as-table lemmas.
  \<^item> \<open>Permalink\<close> (\<^verbatim>\<open>permalink.rs\<close>): canonicalization, proved equivalent to a grammar of whole
    texts (hosts, form segments and character classes are shared between the two).
  \<^item> \<open>Capability\<close>, \<open>Account_Capability\<close> (\<^verbatim>\<open>capability.rs\<close>, \<^verbatim>\<open>capability_reconciliation.rs\<close>): the acquisition
    matrix and the reconciliation of one account's capabilities as a stored generation.
  \<^item> \<open>Archive\<close>: the tables and the environment all transactions share.
  \<^item> \<open>Publishing\<close> (\<^verbatim>\<open>publishing.rs\<close>, \<^verbatim>\<open>snapshot_digest.rs\<close>, \<^verbatim>\<open>operation_report.rs\<close>): identities, snapshots,
    facts and operation reports appended to the outbox.
  \<^item> \<open>Capture\<close>, \<open>Command_Capture\<close>, \<open>Resolution\<close>, \<open>Capture_Resolution\<close> (\<^verbatim>\<open>capture.rs\<close>, \<^verbatim>\<open>tombstone.rs\<close>,
    \<^verbatim>\<open>command_capture.rs\<close>, \<^verbatim>\<open>resolution.rs\<close>, \<^verbatim>\<open>capture_resolution.rs\<close>): submission, command ingestion, the
    two concluding transactions and the worker with its leases.
  \<^item> \<open>Outbox\<close> (\<^verbatim>\<open>publishing/pump.rs\<close>, \<^verbatim>\<open>removal_ack.rs\<close>, \<^verbatim>\<open>health.rs\<close>): the publisher pass, back-off, resend and
    acknowledgement of removals.
  \<^item> \<open>Capture_Pipeline\<close>, \<open>Capture_History\<close>, \<open>Capture_Worker\<close>, \<open>Capture_Outcomes\<close>: the step relation whose
    steps are the transactions above, its reachable states and invariants, and the behaviour of whole
    worker passes.
  \<^item> \<open>Provider_Budget\<close>, \<open>Re_Resolution\<close> (\<^verbatim>\<open>provider_budget.rs\<close>, \<^verbatim>\<open>re_resolution.rs\<close>): the durable call
    ledger and the selection and admission of re-resolution.
  \<^item> \<open>Export_Archive\<close>, \<open>Export_Parser\<close>, \<open>Export_Store\<close> (\<^verbatim>\<open>data_export/archive.rs\<close>, \<^verbatim>\<open>parser.rs\<close>, \<^verbatim>\<open>blob.rs\<close>):
    inspection of a hostile archive, the parser of the saved-posts section and the store of received
    archives.
  \<^item> \<open>Export_Import\<close>, \<open>Export_Reconcile\<close>, \<open>Export_Worker\<close>, \<open>Export_Outcomes\<close> (\<^verbatim>\<open>data_export.rs\<close>, \<^verbatim>\<open>reconcile.rs\<close>,
    \<^verbatim>\<open>worker.rs\<close>, \<^verbatim>\<open>publishing/data_export.rs\<close>): the stages of an import run, each one transaction with a
    compare-and-swap on the run's state, the step relation they make, and the worker over it.
  \<^item> \<open>Export_Reprocessing\<close>, \<open>Export_Reprocessing_Outcomes\<close> (\<^verbatim>\<open>data_export_reprocessing.rs\<close>,
    \<^verbatim>\<open>reprocess_export.rs\<close>): the deterministic plan of a reprocessing, its application in chunks and the
    process mode.
  \<^item> \<open>Credentials\<close>, \<open>Provider_Client\<close> (\<^verbatim>\<open>credentials/crypto.rs\<close>, \<^verbatim>\<open>provider.rs\<close>): the envelope of a sealed
    secret and the bounded client of the official provider.
  \<^item> \<open>Official_Accounts\<close>, \<open>OAuth_Flow\<close>, \<open>Account_History\<close> (\<^verbatim>\<open>account.rs\<close>, \<^verbatim>\<open>oauth.rs\<close>): refresh, loss of
    authorization and revocation, the authorization flow, and the step relation of the account
    transactions.
  \<^item> \<open>Own_Media\<close>, \<open>Own_Media_History\<close>, \<open>Own_Media_Outcomes\<close> (\<^verbatim>\<open>own_media.rs\<close>, \<^verbatim>\<open>publishing.rs\<close>): the
    synchronization of a connected account's own media, the invariant of its tables and its promises.
  \<^item> \<open>Analysis_Linkage\<close> (\<^verbatim>\<open>analysis_linkage.rs\<close>): one delivery of a completion fact.
  \<^item> \<open>Media_Retention\<close> (\<^verbatim>\<open>media_retention.rs\<close>): the retention decision, verified archiving and the tasks
    that delete objects.
  \<^item> \<open>Deletion_Inventory\<close>, \<open>Privacy_Deletion\<close>, \<open>Deletion_Outcomes\<close> (\<^verbatim>\<open>privacy_deletion.rs\<close>, \<^verbatim>\<open>inventory.rs\<close>,
    \<^verbatim>\<open>apply.rs\<close>): the plan of a deletion, its application to a capture or a connection, and two ways in which
    it does not end as it should.
  \<^item> \<open>Config_Values\<close>, \<open>Configuration\<close>, \<open>Configuration_Checks\<close>, \<open>Configuration_Outcomes\<close> (\<^verbatim>\<open>config.rs\<close>, \<^verbatim>\<open>config/*.rs\<close>,
    \<^verbatim>\<open>main.rs\<close>): the strict loader of the environment, the bounds of what it accepts and what startup derives.

  \<^bold>\<open>What is proved.\<close> Five state machines carry the development: the capture pipeline
  (\<open>Capture_Pipeline\<close>), the import pipeline (\<open>Export_Worker\<close>), the deletion tasks (\<open>Media_Retention\<close>), the
  account transactions (\<open>Account_History\<close>) and the synchronization passes (\<open>Own_Media_History\<close>). Each is a
  step relation whose steps are the committed transactions or passes in any order; invariants are proved
  by induction over the steps (exactly-once reports, append-only evidence, unique identities, a run's
  history matching its state, referenced objects kept, secrets only under a live connection, one active
  run per account). The capture worker, the import worker and the account operations are sequences of such
  steps (\<open>run_due_once_steps\<close>, \<open>import_pass_is_transactions\<close>, \<open>account_operations_are_transactions\<close>), so the
  invariants hold under every schedule, crash between transactions and repetition; a publisher pass, a
  deletion task and a synchronization pass are one step each. Pure components have equivalence or
  round-trip theorems (permalink grammar, archive limits, parser completeness, deletion plan, stored
  archives, sealed secrets, reprocessing plans); budgets and limits have bounds on word arithmetic; each
  worker has its liveness or termination property; the loader of the configuration reports every violation
  and accepts nothing outside the documented bounds. Eight theorems state defects: a resolution that
  revives a removed capture, an operation identifier used twice that strands its capture, a repeated
  saved post that blocks the import worker, a stored raw response that keeps the deletion of its capture
  from ever completing, a synchronized connection that cannot be deleted, a captured post that blocks the synchronization of
  its account, a run that has spent its calls and never completes, and an accepted key version under
  which no account can be connected.

  \<^bold>\<open>Interfaces.\<close> \<open>wire_codec\<close> (a closed vocabulary and its spelling), \<open>key_preserving\<close> (a row update that
  keeps the primary key) and \<open>invariant_system\<close> (a transition system with an inductive invariant) are
  locales of \<open>Prelude\<close>, interpreted on the model's vocabularies, row updates and pipelines;
  \<open>blob_backend\<close> of \<open>Media_Retention\<close> is the contract of \<^verbatim>\<open>trait BlobDeletionBackend\<close>, interpreted on the media
  store; \<open>own_media_source\<close> of \<open>Provider_Client\<close> is what a page of \<^verbatim>\<open>trait InstagramProvider\<close> promises,
  interpreted on the HTTP client; \<open>violation_collector\<close> of \<open>Configuration_Checks\<close> is what one step of the
  loader promises, interpreted on the handling of an environment entry.

  \<^bold>\<open>Bounds and fuel.\<close> The only fuel is the number of buffer reads of one archive entry
  (\<open>read_loop\<close>): one more than the largest accepted entry has bytes suffices, because every read before
  the last returns at least one byte; \<open>entry_read_is_bounded\<close> and \<open>parse_file_ends\<close> prove it. All other
  recursion is structural or has its termination proof. Properties of reachable states assume that the
  identifiers drawn so far are distinct.

  \<^bold>\<open>Not modelled.\<close> HTTP and NATS transport, the routes of the service, telemetry, the database pool and
  the order of process start are input and output around the operations modelled here. Columns that no query reads are left out.
  A publisher pass reads the clock once where the code reads it per statement, and statements of one deletion
  task or of one synchronization pass are not interleaved with other processes' statements.
  A query that fails for a reason outside the tables (a lost connection) aborts its transaction and is
  no step. Text columns are ordered by the database's collation, an argument where the order matters.
\<close>

end
